(* ===== verification/Prelude.thy ===== *)
theory Prelude
  imports Main "HOL-Library.Word"
begin

text \<open>
  Shared vocabulary of the development: Python exceptions as values of a sum type, the
  two combinators that thread them, text rendering of integers and UUIDs, aware date-times,
  and the list and lookup lemmas the component theories share.
\<close>

section \<open>Exceptions as values\<close>

text \<open>
  A raised exception is a left value. \<open>LedgerError\<close> carries the machine-readable code of
  \<open>execution.models.LedgerError\<close>; \<open>ValueError\<close> covers the codes of the other
  \<open>ValueError\<close> subclasses and of failed validation; the remaining constructors are the
  exceptions the standard library raises in the modelled code.
\<close>

datatype py_error =
    LedgerError string
  | ValueError string
  | TypeError string
  | IntegrityError
  | StopIteration
  | KeyError

type_synonym 'a result = "py_error + 'a"

definition ebind :: "'a result \<Rightarrow> ('a \<Rightarrow> 'b result) \<Rightarrow> 'b result" where
  "ebind m f = (case m of Inl e \<Rightarrow> Inl e | Inr x \<Rightarrow> f x)"

definition raise_if :: "bool \<Rightarrow> py_error \<Rightarrow> unit result" where
  "raise_if b e = (if b then Inl e else Inr ())"

definition ledger_check :: "bool \<Rightarrow> string \<Rightarrow> unit result" where
  "ledger_check b code = raise_if b (LedgerError code)"

named_theorems result_simps \<open>inversion rules of checked sequences\<close>

lemma ebind_simps [simp]:
  "ebind (Inl e) f = Inl e"
  "ebind (Inr x) f = f x"
  by (simp_all add: ebind_def)

lemma ebind_Inr_iff [result_simps]:
  "ebind m f = Inr y \<longleftrightarrow> (\<exists>x. m = Inr x \<and> f x = Inr y)"
  by (cases m) simp_all

lemma ebind_Inl_iff [result_simps]:
  "ebind m f = Inl e \<longleftrightarrow> m = Inl e \<or> (\<exists>x. m = Inr x \<and> f x = Inl e)"
  by (cases m) simp_all

lemma ebind_assoc: "ebind (ebind m f) g = ebind m (\<lambda>x. ebind (f x) g)"
  by (cases m) simp_all

lemma raise_if_Inr_iff [result_simps]: "raise_if b e = Inr u \<longleftrightarrow> \<not> b"
  by (simp add: raise_if_def)

lemma raise_if_Inl_iff [result_simps]: "raise_if b e = Inl e' \<longleftrightarrow> b \<and> e' = e"
  by (auto simp: raise_if_def)

lemma raise_if_simps [simp]:
  "raise_if True e = Inl e"
  "raise_if False e = Inr ()"
  by (simp_all add: raise_if_def)

lemma ledger_check_Inr_iff [result_simps]: "ledger_check b c = Inr u \<longleftrightarrow> \<not> b"
  by (simp add: ledger_check_def result_simps)

lemma ledger_check_Inl_iff [result_simps]:
  "ledger_check b c = Inl e \<longleftrightarrow> b \<and> e = LedgerError c"
  by (simp add: ledger_check_def result_simps)

lemma ledger_check_simps [simp]:
  "ledger_check True c = Inl (LedgerError c)"
  "ledger_check False c = Inr ()"
  by (simp_all add: ledger_check_def)

text \<open>\<open>next((x for x in xs if p(x)), None)\<close> is \<^term>\<open>List.find\<close>; a generator without a
  default raises \<open>StopIteration\<close>.\<close>

definition next_or_raise :: "('a \<Rightarrow> bool) \<Rightarrow> 'a list \<Rightarrow> 'a result" where
  "next_or_raise P xs = (case List.find P xs of None \<Rightarrow> Inl StopIteration | Some x \<Rightarrow> Inr x)"

text \<open>Running a fallible step over a list, left to right, stopping at the first exception.\<close>

fun emap :: "('a \<Rightarrow> 'b result) \<Rightarrow> 'a list \<Rightarrow> 'b list result" where
  "emap f [] = Inr []"
| "emap f (x # xs) = ebind (f x) (\<lambda>y. ebind (emap f xs) (\<lambda>ys. Inr (y # ys)))"

fun efold :: "('a \<Rightarrow> 's \<Rightarrow> 's result) \<Rightarrow> 'a list \<Rightarrow> 's \<Rightarrow> 's result" where
  "efold f [] s = Inr s"
| "efold f (x # xs) s = ebind (f x s) (efold f xs)"

lemma efold_append: "efold f (xs @ ys) s = ebind (efold f xs s) (efold f ys)"
proof (induction xs arbitrary: s)
  case (Cons x xs)
  then have "efold f (xs @ ys) = (\<lambda>s. ebind (efold f xs s) (efold f ys))" by (rule ext)
  then show ?case by (simp add: ebind_assoc)
qed simp

lemma emap_append:
  "emap f (xs @ ys) = ebind (emap f xs) (\<lambda>as. ebind (emap f ys) (\<lambda>bs. Inr (as @ bs)))"
proof (induction xs)
  case Nil
  show ?case by (cases "emap f ys") simp_all
next
  case (Cons x xs)
  then show ?case by (cases "f x"; cases "emap f xs"; cases "emap f ys") simp_all
qed

text \<open>\<open>if reason is not None: return blocked(reason)\<close>, then the rest of the body.\<close>

definition block_or :: "'r option \<Rightarrow> ('r \<Rightarrow> 'b) \<Rightarrow> 'b \<Rightarrow> 'b" where
  "block_or r f k = (case r of Some x \<Rightarrow> f x | None \<Rightarrow> k)"

lemma block_or_simps [simp]:
  "block_or None f k = k"
  "block_or (Some x) f k = f x"
  by (simp_all add: block_or_def)

lemma block_or_split:
  "P (block_or r f k) \<longleftrightarrow> (\<forall>x. r = Some x \<longrightarrow> P (f x)) \<and> (r = None \<longrightarrow> P k)"
  by (cases r) simp_all

section \<open>Lookup in lists\<close>

lemma find_append:
  "List.find P (xs @ ys) = (case List.find P xs of None \<Rightarrow> List.find P ys | Some x \<Rightarrow> Some x)"
  by (induction xs) simp_all

lemma find_None_iff': "List.find P xs = None \<longleftrightarrow> (\<forall>x\<in>set xs. \<not> P x)"
  by (auto simp: find_None_iff)

lemma find_SomeD: "List.find P xs = Some x \<Longrightarrow> x \<in> set xs \<and> P x"
  by (auto simp: find_Some_iff)

lemma find_exists: "x \<in> set xs \<Longrightarrow> P x \<Longrightarrow> \<exists>y. List.find P xs = Some y"
  by (metis find_None_iff' option.exhaust)

lemma find_unique:
  assumes "x \<in> set xs" and "P x" and "\<And>y. y \<in> set xs \<Longrightarrow> P y \<Longrightarrow> y = x"
  shows "List.find P xs = Some x"
  using assms by (metis find_SomeD find_exists)

lemma next_or_raise_Inr_iff [result_simps]:
  "next_or_raise P xs = Inr x \<longleftrightarrow> List.find P xs = Some x"
  by (auto simp: next_or_raise_def split: option.splits)

section \<open>Text\<close>

definition digit_char :: "int \<Rightarrow> char" where
  "digit_char n =
     (if n < 8
      then (if n < 4 then (if n < 2 then (if n < 1 then CHR ''0'' else CHR ''1'') else (if n < 3 then CHR ''2'' else CHR ''3''))
            else (if n < 6 then (if n < 5 then CHR ''4'' else CHR ''5'') else (if n < 7 then CHR ''6'' else CHR ''7'')))
      else (if n < 12 then (if n < 10 then (if n < 9 then CHR ''8'' else CHR ''9'') else (if n < 11 then CHR ''a'' else CHR ''b''))
            else (if n < 14 then (if n < 13 then CHR ''c'' else CHR ''d'') else (if n < 15 then CHR ''e'' else CHR ''f''))))"

lemma digit_char_value: "0 \<le> n \<Longrightarrow> n < 16 \<Longrightarrow> of_char (digit_char n) = (if n < 10 then 48 + n else 87 + n)"
  by (auto simp: digit_char_def)

text \<open>\<open>str(n)\<close> of a Python integer.\<close>

function digits10 :: "int \<Rightarrow> string" where
  "digits10 n = (if n < 10 then [digit_char n] else digits10 (n div 10) @ [digit_char (n mod 10)])"
  by pat_completeness auto
termination
  by (relation "measure nat") auto

declare digits10.simps [simp del]

definition str_int :: "int \<Rightarrow> string" where
  "str_int i = (if i < 0 then CHR ''-'' # digits10 (- i) else digits10 i)"

definition starts_with :: "string \<Rightarrow> string \<Rightarrow> bool" where
  "starts_with p s \<longleftrightarrow> take (length p) s = p"

lemma starts_with_append [simp]: "starts_with p (p @ s)"
  by (simp add: starts_with_def)

text \<open>A UUID is a 128-bit value; \<open>str(uuid)\<close> renders it as 8-4-4-4-12 lower-case hex digits.\<close>

type_synonym uuid = "128 word"

fun hex_digits :: "nat \<Rightarrow> int \<Rightarrow> string" where
  "hex_digits 0 n = []"
| "hex_digits (Suc k) n = hex_digits k (n div 16) @ [digit_char (n mod 16)]"

text \<open>For evaluation: the leading zeros at once.\<close>

lemma hex_digits_zero: "hex_digits k 0 = replicate k (CHR ''0'')"
  by (induction k) (simp_all add: digit_char_def replicate_append_same)

lemma hex_digits_code [code]:
  "hex_digits 0 n = []"
  "hex_digits (Suc k) n =
     (if n = 0 then replicate (Suc k) (CHR ''0'') else hex_digits k (n div 16) @ [digit_char (n mod 16)])"
  using hex_digits_zero [of "Suc k"] by simp_all

definition dashed :: "string \<Rightarrow> string" where
  "dashed h = take 8 h @ ''-'' @ take 4 (drop 8 h) @ ''-'' @ take 4 (drop 12 h) @ ''-'' @
     take 4 (drop 16 h) @ ''-'' @ drop 20 h"

definition str_uuid :: "uuid \<Rightarrow> string" where
  "str_uuid u = dashed (hex_digits 32 (uint u))"

lemma digit_char_inj:
  assumes "0 \<le> a" "a < 16" "0 \<le> b" "b < 16" "digit_char a = digit_char b"
  shows "a = b"
proof -
  from assms(5) have "(of_char (digit_char a) :: int) = of_char (digit_char b)" by simp
  then show "a = b" using assms(1-4) by (auto simp: digit_char_value split: if_splits)
qed

lemma length_hex_digits [simp]: "length (hex_digits k n) = k"
  by (induction k arbitrary: n) simp_all

lemma hex_digits_inj:
  "0 \<le> n \<Longrightarrow> n < 16 ^ k \<Longrightarrow> 0 \<le> m \<Longrightarrow> m < 16 ^ k \<Longrightarrow> hex_digits k n = hex_digits k m \<Longrightarrow> n = m"
proof (induction k arbitrary: n m)
  case 0
  then show ?case by simp
next
  case (Suc k)
  then have hi: "hex_digits k (n div 16) = hex_digits k (m div 16)"
    and lo: "digit_char (n mod 16) = digit_char (m mod 16)" by simp_all
  have "n div 16 < 16 ^ k" and "m div 16 < 16 ^ k"
    using Suc.prems by (simp_all add: div_less_iff_less_mult mult.commute)
  then have "n div 16 = m div 16"
    using Suc.IH Suc.prems hi by (simp add: pos_imp_zdiv_nonneg_iff)
  moreover have "n mod 16 = m mod 16"
    using lo by (intro digit_char_inj) simp_all
  ultimately show ?case by (metis div_mult_mod_eq)
qed

lemma take_drop_join: "take a (drop b xs) @ drop (b + a) xs = drop b xs"
  by (metis append_take_drop_id drop_drop add.commute)

lemma dashed_blocks:
  "take 8 h @ take 4 (drop 8 h) @ take 4 (drop 12 h) @ take 4 (drop 16 h) @ drop 20 h = h"
  using take_drop_join [of 4 16 h] take_drop_join [of 4 12 h] take_drop_join [of 4 8 h] by simp

lemma dashed_inj:
  assumes "length h = length g" and "dashed h = dashed g"
  shows "h = g"
proof -
  have "take 8 h = take 8 g \<and> take 4 (drop 8 h) = take 4 (drop 8 g) \<and>
    take 4 (drop 12 h) = take 4 (drop 12 g) \<and> take 4 (drop 16 h) = take 4 (drop 16 g) \<and>
    drop 20 h = drop 20 g"
    using assms by (simp add: dashed_def)
  then show ?thesis using dashed_blocks [of h] dashed_blocks [of g] by metis
qed

lemma str_uuid_inject [simp]: "str_uuid a = str_uuid b \<longleftrightarrow> a = b"
proof
  assume "str_uuid a = str_uuid b"
  then have "hex_digits 32 (uint a) = hex_digits 32 (uint b)"
    by (auto simp: str_uuid_def intro: dashed_inj)
  moreover have "0 \<le> uint u \<and> uint u < 16 ^ 32" for u :: uuid
    using uint_lt2p [of u] by simp
  ultimately have "uint a = uint b" using hex_digits_inj by blast
  then show "a = b" by (metis word_of_int_uint)
qed simp

section \<open>Date-times\<close>

text \<open>
  A \<open>datetime\<close> is its instant in microseconds and its \<open>utcoffset()\<close> in seconds; a naive
  value has offset \<^term>\<open>None\<close> (its instant is then the wall clock itself). Python compares aware
  values by instant and subtracts them to a \<open>timedelta\<close>, here a number of microseconds.
\<close>

record datetime =
  dt_instant :: int
  dt_offset :: "int option"

definition aware :: "datetime \<Rightarrow> bool" where
  "aware d \<longleftrightarrow> dt_offset d \<noteq> None"

definition dt_minus :: "datetime \<Rightarrow> datetime \<Rightarrow> int" where
  "dt_minus a b = dt_instant a - dt_instant b"

definition dt_plus :: "datetime \<Rightarrow> int \<Rightarrow> datetime" where
  "dt_plus a us = a\<lparr>dt_instant := dt_instant a + us\<rparr>"

abbreviation dt_le :: "datetime \<Rightarrow> datetime \<Rightarrow> bool" where
  "dt_le a b \<equiv> dt_instant a \<le> dt_instant b"

abbreviation dt_lt :: "datetime \<Rightarrow> datetime \<Rightarrow> bool" where
  "dt_lt a b \<equiv> dt_instant a < dt_instant b"

abbreviation dt_eq :: "datetime \<Rightarrow> datetime \<Rightarrow> bool" where
  "dt_eq a b \<equiv> dt_instant a = dt_instant b"

definition seconds :: "int \<Rightarrow> int" where
  "seconds n = n * 1000000"

text \<open>The calendar day of a date-time, in days since the epoch, at a given offset.\<close>

definition local_day :: "datetime \<Rightarrow> int \<Rightarrow> int" where
  "local_day d off = (dt_instant d + seconds off) div seconds 86400"

type_synonym date = int

end
