(* ===== verification/Decimals.thy ===== *)
theory Decimals
  imports Complex_Main Prelude
begin

text \<open>
  The part of Python's \<open>decimal\<close> module the program uses: finite decimals as a signed
  coefficient and an exponent, parsing of \<open>Decimal(str)\<close>, \<open>str\<close> and \<open>format(_, "f")\<close>,
  exact comparison, and the arithmetic of the default context (28 significant digits, ROUND\_HALF\_EVEN).
  The exponent limits of the context are not modelled, and negative zero is identified with zero.
\<close>

record decimal =
  dcoeff :: int
  dexp :: int

datatype dec_literal = Finite decimal | Infinite | NaN

section \<open>Text\<close>

definition is_digit :: "char \<Rightarrow> bool" where
  "is_digit c \<longleftrightarrow> 48 \<le> (of_char c :: int) \<and> (of_char c :: int) \<le> 57"

definition digit_val :: "char \<Rightarrow> int" where
  "digit_val c = of_char c - 48"

definition int_of_digits :: "string \<Rightarrow> int" where
  "int_of_digits s = foldl (\<lambda>a c. 10 * a + digit_val c) 0 s"

definition all_digits :: "string \<Rightarrow> bool" where
  "all_digits s \<longleftrightarrow> s \<noteq> [] \<and> (\<forall>c\<in>set s. is_digit c)"

text \<open>The pattern \<open>^[0-9]+(\.[0-9]+)?$\<close> of \<open>execution.models.Price\<close>.\<close>

definition before_dot :: "string \<Rightarrow> string" where
  "before_dot s = takeWhile (\<lambda>c. c \<noteq> CHR ''.'') s"

definition after_dot :: "string \<Rightarrow> string" where
  "after_dot s = drop 1 (dropWhile (\<lambda>c. c \<noteq> CHR ''.'') s)"

definition is_price :: "string \<Rightarrow> bool" where
  "is_price s \<longleftrightarrow> all_digits (before_dot s) \<and>
     (CHR ''.'' \<in> set s \<longrightarrow> all_digits (after_dot s))"

text \<open>
  \<open>Decimal(text)\<close>: surrounding blanks and underscores are dropped, then an optional sign, digits
  with an optional point (at least one digit), an optional exponent, or an infinity or NaN.
  \<^term>\<open>None\<close> is \<open>InvalidOperation\<close>.
\<close>

definition is_blank :: "char \<Rightarrow> bool" where
  "is_blank c \<longleftrightarrow> c \<in> set [CHR '' '', CHR 0x09, CHR 0x0A, CHR 0x0B, CHR 0x0C, CHR 0x0D,
     CHR 0x1C, CHR 0x1D, CHR 0x1E, CHR 0x1F, CHR 0x85, CHR 0xA0]"

definition strip :: "string \<Rightarrow> string" where
  "strip s = rev (dropWhile is_blank (rev (dropWhile is_blank s)))"

definition lower :: "char \<Rightarrow> char" where
  "lower c = (if 65 \<le> (of_char c :: int) \<and> (of_char c :: int) \<le> 90
     then char_of ((of_char c :: int) + 32) else c)"

text \<open>For evaluation: an upper-case letter and its lower-case letter differ in one bit.\<close>

lemma lower_code [code]:
  "lower c = (if 65 \<le> (of_char c :: int) \<and> (of_char c :: int) \<le> 90
     then (case c of Char b0 b1 b2 b3 b4 b5 b6 b7 \<Rightarrow> Char b0 b1 b2 b3 b4 True b6 b7) else c)"
proof (cases c)
  case (Char b0 b1 b2 b3 b4 b5 b6 b7)
  let ?d = "Char b0 b1 b2 b3 b4 True b6 b7"
  have moved: "(of_char c :: int) + 32 = of_char ?d" if "65 \<le> (of_char c :: int)" "(of_char c :: int) \<le> 90"
    using that by (cases b5; cases b6; cases b7) (auto simp: Char of_bool_def split: if_splits)
  show ?thesis
  proof (cases "65 \<le> (of_char c :: int) \<and> (of_char c :: int) \<le> 90")
    case True
    then have "lower c = char_of (of_char ?d :: int)" using moved by (simp only: lower_def if_True simp_thms)
    then show ?thesis using True by (simp only: char_of_char if_True simp_thms Char char.case)
  next
    case False
    show ?thesis unfolding lower_def if_not_P [OF False] by (rule refl)
  qed
qed

definition split_sign :: "string \<Rightarrow> bool \<times> string" where
  "split_sign s = (case s of
     c # r \<Rightarrow> if c = CHR ''-'' then (True, r) else if c = CHR ''+'' then (False, r) else (False, s)
   | [] \<Rightarrow> (False, s))"

definition parse_exponent :: "string \<Rightarrow> int option" where
  "parse_exponent s = (case split_sign s of (neg, d) \<Rightarrow>
     if all_digits d then Some (if neg then - int_of_digits d else int_of_digits d)
     else None)"

definition parse_finite :: "bool \<Rightarrow> string \<Rightarrow> decimal option" where
  "parse_finite neg s =
     (let i = takeWhile is_digit s; r = dropWhile is_digit s;
          f = (case r of c # r' \<Rightarrow> if c = CHR ''.'' then takeWhile is_digit r' else [] | [] \<Rightarrow> []);
          r2 = (case r of c # r' \<Rightarrow> if c = CHR ''.'' then dropWhile is_digit r' else r | [] \<Rightarrow> []);
          e = (case r2 of [] \<Rightarrow> Some 0
               | c # r3 \<Rightarrow> if lower c = CHR ''e'' then parse_exponent r3 else None);
          c = (int_of_digits (i @ f))
      in if i = [] \<and> f = [] then None
         else case e of None \<Rightarrow> None
              | Some x \<Rightarrow> Some \<lparr>dcoeff = (if neg then - c else c), dexp = x - int (length f)\<rparr>)"

definition parse_decimal :: "string \<Rightarrow> dec_literal option" where
  "parse_decimal text =
     (case split_sign (filter (\<lambda>c. c \<noteq> CHR ''_'') (strip text)) of (neg, s) \<Rightarrow>
        let l = map lower s in
        if l = ''inf'' \<or> l = ''infinity'' then Some Infinite
        else if (starts_with ''nan'' l \<and> (\<forall>c\<in>set (drop 3 l). is_digit c)) \<or>
                (starts_with ''snan'' l \<and> (\<forall>c\<in>set (drop 4 l). is_digit c)) then Some NaN
        else map_option Finite (parse_finite neg s))"

text \<open>\<open>Decimal(price)\<close> for text that matches the price pattern.\<close>

definition dec_of_price :: "string \<Rightarrow> decimal" where
  "dec_of_price s = \<lparr>dcoeff = (int_of_digits (before_dot s @ after_dot s)),
     dexp = - int (length (after_dot s))\<rparr>"

definition dec_digits :: "decimal \<Rightarrow> string" where
  "dec_digits d = digits10 \<bar>dcoeff d\<bar>"

definition zeros :: "int \<Rightarrow> string" where
  "zeros n = replicate (nat n) (CHR ''0'')"

definition sign_text :: "decimal \<Rightarrow> string" where
  "sign_text d = (if dcoeff d < 0 then ''-'' else '''')"

definition dec_str :: "decimal \<Rightarrow> string" where
  "dec_str d =
     (let ds = dec_digits d; n = int (length ds); left = dexp d + n;
          dot = (if dexp d \<le> 0 \<and> left > -6 then left else 1);
          ip = (if dot \<le> 0 then ''0'' else if dot \<ge> n then ds @ zeros (dot - n)
                else take (nat dot) ds);
          fp = (if dot \<le> 0 then ''.'' @ zeros (- dot) @ ds else if dot \<ge> n then ''''
                else ''.'' @ drop (nat dot) ds);
          ex = (if left = dot then ''''
                else ''E'' @ (if left - dot < 0 then '''' else ''+'') @ str_int (left - dot))
      in sign_text d @ ip @ fp @ ex)"

definition format_f :: "decimal \<Rightarrow> string" where
  "format_f d =
     (let ds = (if dexp d > 0 then digits10 (\<bar>dcoeff d\<bar> * 10 ^ nat (dexp d)) else dec_digits d);
          ex = min 0 (dexp d); dot = ex + int (length ds)
      in sign_text d @
         (if dot < 0 then ''0.'' @ zeros (- dot) @ ds
          else if dot = int (length ds) then ds
          else (if dot = 0 then ''0'' else take (nat dot) ds) @ ''.'' @ drop (nat dot) ds))"

section \<open>Comparison and arithmetic\<close>

definition dec_aligned :: "decimal \<Rightarrow> decimal \<Rightarrow> int \<times> int" where
  "dec_aligned a b =
     (let e = min (dexp a) (dexp b)
      in (dcoeff a * 10 ^ nat (dexp a - e), dcoeff b * 10 ^ nat (dexp b - e)))"

definition dec_le :: "decimal \<Rightarrow> decimal \<Rightarrow> bool" where
  "dec_le a b \<longleftrightarrow> (case dec_aligned a b of (x, y) \<Rightarrow> x \<le> y)"

definition dec_lt :: "decimal \<Rightarrow> decimal \<Rightarrow> bool" where
  "dec_lt a b \<longleftrightarrow> (case dec_aligned a b of (x, y) \<Rightarrow> x < y)"

definition dec_of_int :: "int \<Rightarrow> decimal" where
  "dec_of_int i = \<lparr>dcoeff = i, dexp = 0\<rparr>"

definition ndigits :: "int \<Rightarrow> nat" where
  "ndigits c = length (digits10 \<bar>c\<bar>)"

definition dec_prec :: nat where
  "dec_prec = 28"

definition round_half_even :: "int \<Rightarrow> int \<Rightarrow> int" where
  "round_half_even c m =
     (let q = c div m; r = c mod m
      in if 2 * r < m then q else if 2 * r > m then q + 1 else if even q then q else q + 1)"

definition dec_fix :: "decimal \<Rightarrow> decimal" where
  "dec_fix d =
     (let k = ndigits (dcoeff d) - dec_prec
      in if k = 0 then d
         else let c = round_half_even \<bar>dcoeff d\<bar> (10 ^ k);
                  c' = (if ndigits c > dec_prec then c div 10 else c);
                  e' = (if ndigits c > dec_prec then dexp d + int k + 1 else dexp d + int k)
              in \<lparr>dcoeff = (if dcoeff d < 0 then - c' else c'), dexp = e'\<rparr>)"

definition dec_add :: "decimal \<Rightarrow> decimal \<Rightarrow> decimal" where
  "dec_add a b = (case dec_aligned a b of (x, y) \<Rightarrow>
     dec_fix \<lparr>dcoeff = x + y, dexp = min (dexp a) (dexp b)\<rparr>)"

definition dec_neg :: "decimal \<Rightarrow> decimal" where
  "dec_neg a = a\<lparr>dcoeff := - dcoeff a\<rparr>"

definition dec_sub :: "decimal \<Rightarrow> decimal \<Rightarrow> decimal" where
  "dec_sub a b = dec_add a (dec_neg b)"

definition dec_mul :: "decimal \<Rightarrow> decimal \<Rightarrow> decimal" where
  "dec_mul a b = dec_fix \<lparr>dcoeff = dcoeff a * dcoeff b, dexp = dexp a + dexp b\<rparr>"

text \<open>
  Division by a non-zero decimal: the quotient of the magnitudes with one guard digit, made odd in
  the last place when inexact so that the final rounding is correct, or reduced towards the ideal
  exponent when exact.
\<close>

function strip_exponent :: "int \<Rightarrow> int \<Rightarrow> int \<Rightarrow> int \<times> int" where
  "strip_exponent c e ideal =
     (if e < ideal \<and> c mod 10 = 0 then strip_exponent (c div 10) (e + 1) ideal else (c, e))"
  by pat_completeness auto
termination
  by (relation "measure (\<lambda>(c, e, ideal). nat (ideal - e))") auto

declare strip_exponent.simps [simp del]

definition dec_div :: "decimal \<Rightarrow> decimal \<Rightarrow> decimal" where
  "dec_div a b =
     (let shift = int (ndigits (dcoeff b)) - int (ndigits (dcoeff a)) + int dec_prec + 1;
          e = dexp a - dexp b - shift;
          n = (if shift \<ge> 0 then \<bar>dcoeff a\<bar> * 10 ^ nat shift else \<bar>dcoeff a\<bar>);
          m = (if shift \<ge> 0 then \<bar>dcoeff b\<bar> else \<bar>dcoeff b\<bar> * 10 ^ nat (- shift));
          q = n div m; r = n mod m;
          (c, e') = (if dcoeff a = 0 then (0, dexp a - dexp b)
                     else if r \<noteq> 0 then (if q mod 5 = 0 then q + 1 else q, e)
                     else strip_exponent q e (dexp a - dexp b))
      in dec_fix \<lparr>dcoeff = (if (dcoeff a < 0) \<noteq> (dcoeff b < 0) then - c else c), dexp = e'\<rparr>)"

section \<open>Values\<close>

definition dec_val :: "decimal \<Rightarrow> real" where
  "dec_val d = real_of_int (dcoeff d) * 10 powi dexp d"

lemma dec_aligned_val:
  assumes "dec_aligned a b = (x, y)"
  shows "dec_val a = real_of_int x * 10 powi min (dexp a) (dexp b)"
    and "dec_val b = real_of_int y * 10 powi min (dexp a) (dexp b)"
proof -
  have shift: "(10::real) powi e = 10 ^ nat (e - m) * 10 powi m" if "m \<le> e" for e m :: int
  proof -
    have "(10::real) powi e = 10 powi (int (nat (e - m)) + m)" using that by simp
    also have "\<dots> = 10 powi int (nat (e - m)) * 10 powi m" by (rule power_int_add) simp
    also have "(10::real) powi int (nat (e - m)) = 10 ^ nat (e - m)" by (rule power_int_of_nat)
    finally show ?thesis .
  qed
  from assms show "dec_val a = real_of_int x * 10 powi min (dexp a) (dexp b)"
    using shift [of "min (dexp a) (dexp b)" "dexp a"]
    by (auto simp: dec_aligned_def Let_def dec_val_def)
  from assms show "dec_val b = real_of_int y * 10 powi min (dexp a) (dexp b)"
    using shift [of "min (dexp a) (dexp b)" "dexp b"]
    by (auto simp: dec_aligned_def Let_def dec_val_def)
qed

lemma dec_le_val: "dec_le a b \<longleftrightarrow> dec_val a \<le> dec_val b"
  by (cases "dec_aligned a b") (simp add: dec_le_def dec_aligned_val)

lemma dec_lt_val: "dec_lt a b \<longleftrightarrow> dec_val a < dec_val b"
  by (cases "dec_aligned a b") (simp add: dec_lt_def dec_aligned_val)

lemma dec_val_of_int [simp]: "dec_val (dec_of_int i) = real_of_int i"
  by (simp add: dec_val_def dec_of_int_def)

lemma dec_val_neg [simp]: "dec_val (dec_neg a) = - dec_val a"
  by (simp add: dec_val_def dec_neg_def)

end
