(* ===== verification/Settings.thy ===== *)
theory Settings
  imports Decimals
begin

text \<open>
  \<open>contracts/settings.py\<close>: inactive stop patterns, desired settings, the command that
  carries them and the pure decision on it. A pydantic model is a record; its validators are a function
  from the record (with untrusted field values) to a result. The SHA-256 digest of a command's
  canonical JSON is the parameter \<open>dg\<close>.
\<close>

datatype rule_kind = PRICE_AT_OR_BELOW | AVERAGE_COST_DROP

datatype environment = PAPER | LIVE

datatype side = BUY | SELL

datatype order_type = LIMIT | MARKET

datatype permission = CONFIG_WRITE

record stop_rule =
  rule_kind :: rule_kind
  threshold :: decimal

record pattern =
  pattern_id :: uuid
  pattern_version :: int
  pattern_name :: string
  pattern_side :: side
  pattern_stop :: stop_rule

record settings =
  set_account_id :: string
  set_environment :: environment
  set_symbol :: string
  set_version :: int
  stop_pattern :: pattern
  stop_order_type :: "order_type option"
  entry_enabled :: bool
  monitoring_enabled :: bool

record actor =
  actor_id :: string
  actor_account_id :: string
  actor_environment :: environment
  permissions :: "permission set"

record config_command =
  command_id :: uuid
  idempotency_key :: string
  expected_version :: int
  cfg_expires_at :: datetime
  cfg_settings :: settings

datatype decision_state = ACCEPTED | REJECTED

record decision =
  dec_state :: decision_state
  dec_reason :: string
  dec_digest :: string

section \<open>Validators\<close>

text \<open>The decimal-text boundary shared by thresholds, quotes, costs and fills.\<close>

definition exact_decimal :: "string \<Rightarrow> string \<Rightarrow> decimal result" where
  "exact_decimal nonfinite text =
     (if text = [] \<or> strip text \<noteq> text then Inl (ValueError ''DECIMAL_STRING_REQUIRED'')
      else case parse_decimal text of
        None \<Rightarrow> Inl (ValueError ''DECIMAL_INVALID'')
      | Some (Finite d) \<Rightarrow> if dcoeff d \<le> 0 then Inl (ValueError ''NOT_POSITIVE'') else Inr d
      | Some _ \<Rightarrow> Inl (ValueError nonfinite))"

definition make_stop_rule :: "rule_kind \<Rightarrow> string \<Rightarrow> stop_rule result" where
  "make_stop_rule k text =
     ebind (exact_decimal ''INVALID_STOP_THRESHOLD'' text) (\<lambda>d.
     ebind (raise_if (k = AVERAGE_COST_DROP \<and> dec_le (dec_of_int 1) d)
              (ValueError ''INVALID_STOP_THRESHOLD'')) (\<lambda>_.
     Inr \<lparr>rule_kind = k, threshold = d\<rparr>))"

definition check_threshold :: "stop_rule \<Rightarrow> bool" where
  "check_threshold r \<longleftrightarrow> 0 < dcoeff (threshold r) \<and>
     \<not> (rule_kind r = AVERAGE_COST_DROP \<and> dec_le (dec_of_int 1) (threshold r))"

definition is_symbol :: "string \<Rightarrow> bool" where
  "is_symbol s \<longleftrightarrow> length s = 6 \<and> (\<forall>c\<in>set s. is_digit c)"

definition valid_pattern :: "pattern \<Rightarrow> bool" where
  "valid_pattern p \<longleftrightarrow> 0 < pattern_version p \<and> 1 \<le> length (pattern_name p) \<and>
     length (pattern_name p) \<le> 100 \<and> pattern_side p = SELL \<and> check_threshold (pattern_stop p)"

definition valid_settings :: "settings \<Rightarrow> unit result" where
  "valid_settings s =
     ebind (raise_if (set_account_id s = [] \<or> \<not> is_symbol (set_symbol s) \<or> set_version s \<le> 0 \<or>
              \<not> valid_pattern (stop_pattern s)) (ValueError ''SETTINGS_INVALID'')) (\<lambda>_.
     raise_if (entry_enabled s \<or> monitoring_enabled s)
       (ValueError ''PATTERN_EXECUTION_NOT_SPECIFIED''))"

text \<open>\<open>ConfigCommand.model_validate_json(command.model_dump_json())\<close>: the command itself, or an
  exception when it could not have been validated.\<close>

definition revalidate :: "config_command \<Rightarrow> config_command result" where
  "revalidate c =
     ebind (raise_if (idempotency_key c = [] \<or> expected_version c < 0 \<or> \<not> aware (cfg_expires_at c))
              (ValueError ''COMMAND_INVALID'')) (\<lambda>_.
     ebind (valid_settings (cfg_settings c)) (\<lambda>_. Inr c))"

section \<open>The decision\<close>

definition authorized :: "actor \<Rightarrow> settings \<Rightarrow> bool" where
  "authorized a s \<longleftrightarrow> actor_account_id a = set_account_id s \<and>
     actor_environment a = set_environment s \<and> CONFIG_WRITE \<in> permissions a"

definition decide_reason :: "config_command \<Rightarrow> actor \<Rightarrow> int \<Rightarrow> datetime \<Rightarrow> string" where
  "decide_reason c a current now =
     (if \<not> aware now then ''CLOCK_TIMEZONE_REQUIRED''
      else if \<not> authorized a (cfg_settings c) then ''CONFIG_UNAUTHORIZED''
      else if dt_le (cfg_expires_at c) now then ''COMMAND_EXPIRED''
      else if current \<noteq> expected_version c then ''STALE_CONFIG_VERSION''
      else if set_version (cfg_settings c) \<le> current then ''CONFIG_VERSION_MUST_ADVANCE''
      else ''ACCEPTED'')"

definition decide ::
    "(config_command \<Rightarrow> string) \<Rightarrow> config_command \<Rightarrow> actor \<Rightarrow> int \<Rightarrow> datetime \<Rightarrow> decision" where
  "decide dg c a current now =
     (let reason = decide_reason c a current now
      in \<lparr>dec_state = (if reason = ''ACCEPTED'' then ACCEPTED else REJECTED),
          dec_reason = reason, dec_digest = dg c\<rparr>)"

section \<open>Facts\<close>

lemma revalidate_Inr: "revalidate c = Inr c' \<longleftrightarrow> c' = c \<and> revalidate c = Inr c"
  by (auto simp: revalidate_def result_simps)

lemma revalidate_disabled:
  "revalidate c = Inr c' \<Longrightarrow>
     \<not> entry_enabled (cfg_settings c) \<and> \<not> monitoring_enabled (cfg_settings c)"
  by (auto simp: revalidate_def valid_settings_def result_simps)

lemma decide_reason_accepted_iff:
  "decide_reason c a current now = ''ACCEPTED'' \<longleftrightarrow>
     aware now \<and> authorized a (cfg_settings c) \<and> dt_lt now (cfg_expires_at c) \<and>
     current = expected_version c \<and> current < set_version (cfg_settings c)"
  by (auto simp: decide_reason_def)

lemma decide_accepted_iff:
  "dec_state (decide dg c a current now) = ACCEPTED \<longleftrightarrow>
     aware now \<and> authorized a (cfg_settings c) \<and> dt_lt now (cfg_expires_at c) \<and>
     current = expected_version c \<and> current < set_version (cfg_settings c)"
  by (simp add: decide_def Let_def decide_reason_accepted_iff)

lemma make_stop_rule_valid: "make_stop_rule k t = Inr r \<Longrightarrow> check_threshold r \<and> rule_kind r = k"
  by (auto simp: make_stop_rule_def exact_decimal_def check_threshold_def result_simps
      split: if_splits option.splits dec_literal.splits)

end
