(* ===== verification/Interfaces.thy ===== *)
theory Interfaces
  imports Prelude
begin

text \<open>
  The contracts between the components, as locales. A client of a stateful component relies on
  three laws: every step keeps the component's invariant, every step only extends what the component
  remembers, and an operation that succeeded once gives the same answer whenever it is repeated,
  without another effect. Each locale is interpreted on the model's own definitions in the theory
  of the component that provides it.
\<close>

section \<open>Transition systems with an invariant\<close>

locale transition_system =
  fixes step :: "'s \<Rightarrow> 's \<Rightarrow> bool"
    and inv :: "'s \<Rightarrow> bool"
  assumes step_inv: "inv s \<Longrightarrow> step s s' \<Longrightarrow> inv s'"
begin

lemma run_inv: "step\<^sup>*\<^sup>* s s' \<Longrightarrow> inv s \<Longrightarrow> inv s'"
  by (induction rule: rtranclp_induct) (auto intro: step_inv)

lemma run_transfer:
  assumes run: "step\<^sup>*\<^sup>* s s'" and inv: "inv s" and P: "P s"
    and keep: "\<And>a b. inv a \<Longrightarrow> P a \<Longrightarrow> step a b \<Longrightarrow> P b"
  shows "P s'"
proof -
  have "inv s' \<and> P s'" using run
    by (induction rule: rtranclp_induct) (auto simp: inv P intro: step_inv keep)
  then show ?thesis ..
qed

end

section \<open>Systems that only grow\<close>

locale growing_system = transition_system step inv
  for step :: "'s \<Rightarrow> 's \<Rightarrow> bool" and inv :: "'s \<Rightarrow> bool" +
  fixes le :: "'s \<Rightarrow> 's \<Rightarrow> bool"
  assumes step_le: "inv s \<Longrightarrow> step s s' \<Longrightarrow> le s s'"
    and le_refl: "inv s \<Longrightarrow> le s s"
    and le_trans: "le a b \<Longrightarrow> le b c \<Longrightarrow> le a c"
begin

lemma run_le: "step\<^sup>*\<^sup>* s s' \<Longrightarrow> inv s \<Longrightarrow> inv s' \<and> le s s'"
  by (induction rule: rtranclp_induct) (auto intro: step_inv step_le le_refl le_trans)

text \<open>What every extension of a state keeps, every run keeps.\<close>

lemma run_stable:
  assumes "step\<^sup>*\<^sup>* s s'" and "inv s" and "P s" and "\<And>a b. le a b \<Longrightarrow> P a \<Longrightarrow> P b"
  shows "P s'"
  using run_le [OF assms(1,2)] assms(3,4) by blast

end

section \<open>Durable operations\<close>

text \<open>
  \<open>run p c\<close> performs the command \<open>c\<close>; \<open>p\<close> holds what may differ between two attempts (the
  clock, generated identities). \<open>answer\<close> is what a repeated attempt reports of the first result.
\<close>

locale durable_operation = growing_system step inv le
  for step :: "'s \<Rightarrow> 's \<Rightarrow> bool" and inv :: "'s \<Rightarrow> bool" and le :: "'s \<Rightarrow> 's \<Rightarrow> bool" +
  fixes run :: "'p \<Rightarrow> 'c \<Rightarrow> 's \<Rightarrow> ('r \<times> 's) result"
    and answer :: "'r \<Rightarrow> 'r"
    and usable :: "'c \<Rightarrow> 's \<Rightarrow> bool"
  assumes run_step: "inv s \<Longrightarrow> run p c s = Inr (r, s') \<Longrightarrow> inv s' \<and> le s s' \<and> usable c s'"
    and durable: "inv s \<Longrightarrow> run p c s = Inr (r, s') \<Longrightarrow> inv t \<Longrightarrow> le s' t \<Longrightarrow> usable c t \<Longrightarrow>
      run p' c t = Inr (answer r, t)"
begin

lemma replay: "inv s \<Longrightarrow> run p c s = Inr (r, s') \<Longrightarrow> run p' c s' = Inr (answer r, s')"
  by (meson durable le_refl run_step)

lemma replay_later:
  assumes "inv s" and "run p c s = Inr (r, s')" and "step\<^sup>*\<^sup>* s' t" and "usable c t"
  shows "run p' c t = Inr (answer r, t)"
  using assms run_le [OF assms(3)] by (meson durable run_step)

text \<open>Any number of retries after a success changes nothing more.\<close>

fun retry :: "'p list \<Rightarrow> 'c \<Rightarrow> 's \<Rightarrow> ('r list \<times> 's) result" where
  "retry [] c s = Inr ([], s)"
| "retry (p # ps) c s = ebind (run p c s) (\<lambda>(r, s'). ebind (retry ps c s') (\<lambda>(rs, s''). Inr (r # rs, s'')))"

lemma retry_once:
  assumes "inv s" and "run p c s = Inr (r, s')"
  shows "retry ps c s' = Inr (replicate (length ps) (answer r), s')"
  using replay [OF assms] by (induction ps) simp_all

end

end
