(* ===== verification/Inbox.thy ===== *)
theory Inbox
  imports Settings Interfaces
begin

text \<open>
  \<open>contracts/inbox.py\<close>: the durable inbox of desired settings. The table is the list of its rows in
  rowid order with the names of its optional columns; each method is one transaction. The authenticator
  is code of the deployment and is a parameter, as is the digest of a command. A
  \<open>CommandConflictError\<close> and a \<open>ConfigInboxError\<close> are value errors with their codes.
\<close>

datatype apply_state = NOT_APPLIED | APPLYING | APPLIED | APPLY_BLOCKED

record inbox_row =
  ir_account_id :: string
  ir_environment :: environment
  ir_symbol :: string
  ir_key :: string
  ir_command_id :: uuid
  ir_payload :: config_command
  ir_digest :: string
  ir_decision :: decision_state
  ir_reason :: string
  ir_accepted_version :: "int option"
  ir_actor_id :: string
  ir_apply_state :: apply_state
  ir_apply_reason :: "string option"
  ir_applied_version :: "int option"

text \<open>\<open>ib_columns\<close> are the optional columns present, \<open>ib_index\<close> the index on accepted versions.\<close>

record inbox =
  ib_table :: bool
  ib_columns :: "string set"
  ib_index :: bool
  ib_rows :: "inbox_row list"

definition no_inbox :: inbox where
  "no_inbox = \<lparr>ib_table = False, ib_columns = {}, ib_index = False, ib_rows = []\<rparr>"

record inbox_application =
  ia_command :: config_command
  ia_digest :: string
  ia_state :: apply_state
  ia_reason :: "string option"
  ia_applied_version :: "int option"

section \<open>Opening\<close>

definition apply_columns :: "string set" where
  "apply_columns = {''apply_state'', ''apply_reason'', ''applied_version''}"

text \<open>A column that is added holds its default in every existing row.\<close>

definition add_columns :: "string set \<Rightarrow> inbox_row \<Rightarrow> inbox_row" where
  "add_columns present r = r\<lparr>
     ir_apply_state := (if ''apply_state'' \<in> present then ir_apply_state r else NOT_APPLIED),
     ir_apply_reason := (if ''apply_reason'' \<in> present then ir_apply_reason r else None),
     ir_applied_version := (if ''applied_version'' \<in> present then ir_applied_version r else None)\<rparr>"

definition block_legacy :: "inbox_row \<Rightarrow> inbox_row" where
  "block_legacy r = (if ir_decision r = ACCEPTED
     then r\<lparr>ir_apply_state := APPLY_BLOCKED,
            ir_apply_reason := Some ''LEGACY_AUTHENTICATION_UNVERIFIED'', ir_accepted_version := None\<rparr>
     else r)"

definition accepted_key :: "inbox_row \<Rightarrow> (string \<times> environment \<times> string \<times> int) option" where
  "accepted_key r = map_option (\<lambda>v. (ir_account_id r, ir_environment r, ir_symbol r, v)) (ir_accepted_version r)"

definition accepted_unique :: "inbox_row list \<Rightarrow> bool" where
  "accepted_unique rows \<longleftrightarrow> distinct (List.map_filter accepted_key rows)"

definition open_inbox :: "inbox \<Rightarrow> inbox result" where
  "open_inbox d =
     (let created = (if ib_table d then d else d\<lparr>ib_table := True, ib_columns := apply_columns\<rparr>);
          legacy = (''apply_state'' \<notin> ib_columns created);
          added = map (add_columns (ib_columns created)) (ib_rows created);
          rows = (if legacy then map block_legacy added else added)
      in ebind (raise_if (\<not> ib_index d \<and> \<not> accepted_unique rows) IntegrityError) (\<lambda>_.
         Inr (created\<lparr>ib_columns := ib_columns created \<union> apply_columns, ib_index := True,
                      ib_rows := rows\<rparr>)))"

section \<open>Receiving a command\<close>

definition rejected_as :: "string \<Rightarrow> string \<Rightarrow> decision" where
  "rejected_as reason fingerprint = \<lparr>dec_state = REJECTED, dec_reason = reason, dec_digest = fingerprint\<rparr>"

definition in_scope :: "settings \<Rightarrow> inbox_row \<Rightarrow> bool" where
  "in_scope s r \<longleftrightarrow> ir_account_id r = set_account_id s \<and> ir_environment r = set_environment s"

definition same_identity :: "config_command \<Rightarrow> inbox_row \<Rightarrow> bool" where
  "same_identity c r \<longleftrightarrow> in_scope (cfg_settings c) r \<and>
     (ir_symbol r = set_symbol (cfg_settings c) \<and> ir_key r = idempotency_key c \<or>
      ir_command_id r = command_id c)"

definition current_version :: "inbox_row list \<Rightarrow> settings \<Rightarrow> int" where
  "current_version rows s = fold max (List.map_filter
     (\<lambda>r. if in_scope s r \<and> ir_symbol r = set_symbol s then ir_accepted_version r else None) rows) 0"

definition new_row ::
    "(config_command \<Rightarrow> string) \<Rightarrow> config_command \<Rightarrow> decision \<Rightarrow> actor \<Rightarrow> inbox_row" where
  "new_row dg c outcome a =
     \<lparr>ir_account_id = set_account_id (cfg_settings c), ir_environment = set_environment (cfg_settings c),
      ir_symbol = set_symbol (cfg_settings c), ir_key = idempotency_key c, ir_command_id = command_id c,
      ir_payload = c, ir_digest = dg c, ir_decision = dec_state outcome, ir_reason = dec_reason outcome,
      ir_accepted_version = (if dec_state outcome = ACCEPTED then Some (set_version (cfg_settings c)) else None),
      ir_actor_id = actor_id a, ir_apply_state = NOT_APPLIED, ir_apply_reason = None,
      ir_applied_version = None\<rparr>"

definition insert_row :: "inbox_row \<Rightarrow> inbox \<Rightarrow> inbox result" where
  "insert_row r d =
     ebind (raise_if (\<exists>x\<in>set (ib_rows d). ir_account_id x = ir_account_id r \<and>
         ir_environment x = ir_environment r \<and>
         (ir_symbol x = ir_symbol r \<and> ir_key x = ir_key r \<or> ir_command_id x = ir_command_id r))
       IntegrityError) (\<lambda>_.
     ebind (raise_if (\<not> accepted_unique (ib_rows d @ [r])) IntegrityError) (\<lambda>_.
     Inr (d\<lparr>ib_rows := ib_rows d @ [r]\<rparr>)))"

definition stored_decision :: "inbox_row \<Rightarrow> decision" where
  "stored_decision r = \<lparr>dec_state = ir_decision r, dec_reason = ir_reason r, dec_digest = ir_digest r\<rparr>"

definition same_command :: "config_command \<Rightarrow> inbox_row \<Rightarrow> bool" where
  "same_command c r \<longleftrightarrow> ir_symbol r = set_symbol (cfg_settings c) \<and> ir_key r = idempotency_key c \<and>
     ir_command_id r = command_id c \<and> ir_payload r = c"

text \<open>The transaction of \<open>receive\<close>, for an authenticated actor.\<close>

definition receive_as ::
    "(config_command \<Rightarrow> string) \<Rightarrow> actor \<Rightarrow> datetime \<Rightarrow> config_command \<Rightarrow> inbox \<Rightarrow> (decision \<times> inbox) result"
    where
  "receive_as dg a now c d =
     (if \<not> authorized a (cfg_settings c) then Inr (rejected_as ''CONFIG_UNAUTHORIZED'' (dg c), d)
      else case filter (same_identity c) (ib_rows d) of
        [] \<Rightarrow>
          let outcome = decide dg c a (current_version (ib_rows d) (cfg_settings c)) now
          in ebind (insert_row (new_row dg c outcome a) d) (\<lambda>d1. Inr (outcome, d1))
      | [r] \<Rightarrow> if same_command c r then Inr (stored_decision r, d)
               else Inl (ValueError ''CONFLICT_CONFIG_COMMAND_IDENTITY'')
      | _ \<Rightarrow> Inl (ValueError ''CONFLICT_CONFIG_COMMAND_IDENTITY''))"

definition receive ::
    "(config_command \<Rightarrow> string) \<Rightarrow> (config_command \<Rightarrow> 'ctx \<Rightarrow> actor option) option \<Rightarrow> 'ctx option \<Rightarrow>
     datetime \<Rightarrow> config_command \<Rightarrow> inbox \<Rightarrow> (decision \<times> inbox) result" where
  "receive dg authenticator ctx now c0 d =
     ebind (revalidate c0) (\<lambda>c.
     case authenticator of
       None \<Rightarrow> Inr (rejected_as ''CONFIG_AUTHENTICATION_UNAVAILABLE'' (dg c), d)
     | Some authenticate \<Rightarrow> (case ctx of
         None \<Rightarrow> Inr (rejected_as ''CONFIG_AUTHENTICATION_EVIDENCE_REQUIRED'' (dg c), d)
       | Some x \<Rightarrow> (case authenticate c x of
           None \<Rightarrow> Inr (rejected_as ''CONFIG_AUTHENTICATION_FAILED'' (dg c), d)
         | Some a \<Rightarrow> receive_as dg a now c d)))"

section \<open>The application states\<close>

text \<open>The row is looked up, and updated, by its command id alone.\<close>

definition find_command :: "uuid \<Rightarrow> inbox \<Rightarrow> inbox_row option" where
  "find_command cid d = List.find (\<lambda>r. ir_command_id r = cid) (ib_rows d)"

definition update_command :: "uuid \<Rightarrow> (inbox_row \<Rightarrow> inbox_row) \<Rightarrow> inbox \<Rightarrow> inbox" where
  "update_command cid f d =
     d\<lparr>ib_rows := map (\<lambda>r. if ir_command_id r = cid then f r else r) (ib_rows d)\<rparr>"

definition accepted_row :: "uuid \<Rightarrow> inbox \<Rightarrow> inbox_row result" where
  "accepted_row cid d = (case find_command cid d of
     None \<Rightarrow> Inl (ValueError ''CONFIG_COMMAND_NOT_FOUND'')
   | Some r \<Rightarrow> if ir_decision r \<noteq> ACCEPTED then Inl (ValueError ''CONFIG_COMMAND_NOT_ACCEPTED'') else Inr r)"

definition row_application :: "inbox_row \<Rightarrow> inbox_application" where
  "row_application r = \<lparr>ia_command = ir_payload r, ia_digest = ir_digest r, ia_state = ir_apply_state r,
     ia_reason = ir_apply_reason r, ia_applied_version = ir_applied_version r\<rparr>"

definition start_applying :: "inbox_row \<Rightarrow> inbox_row" where
  "start_applying r = r\<lparr>ir_apply_state := APPLYING, ir_apply_reason := None\<rparr>"

definition begin_apply :: "uuid \<Rightarrow> bool \<Rightarrow> inbox \<Rightarrow> (inbox_application \<times> inbox) result" where
  "begin_apply cid retry_blocked d =
     ebind (accepted_row cid d) (\<lambda>r.
     if ir_apply_state r = APPLY_BLOCKED \<and>
        (\<not> retry_blocked \<or> ir_apply_reason r = Some ''LEGACY_AUTHENTICATION_UNVERIFIED'')
     then Inr (row_application r, d)
     else if ir_apply_state r \<in> {NOT_APPLIED, APPLY_BLOCKED}
     then Inr (row_application (start_applying r), update_command cid start_applying d)
     else Inr (row_application r, d))"

definition applying_command_ids :: "inbox \<Rightarrow> uuid list" where
  "applying_command_ids d = map ir_command_id
     (filter (\<lambda>r. ir_decision r = ACCEPTED \<and> ir_apply_state r = APPLYING) (ib_rows d))"

text \<open>NULL versions come first.\<close>

definition pending_application_ids :: "inbox \<Rightarrow> uuid list" where
  "pending_application_ids d = map ir_command_id
     (sort_key (\<lambda>r. case ir_accepted_version r of None \<Rightarrow> 0 | Some v \<Rightarrow> v)
       (filter (\<lambda>r. ir_decision r = ACCEPTED \<and> ir_apply_state r \<in> {NOT_APPLIED, APPLYING}) (ib_rows d)))"

definition block_row :: "string \<Rightarrow> inbox_row \<Rightarrow> inbox_row" where
  "block_row reason r = r\<lparr>ir_apply_state := APPLY_BLOCKED, ir_apply_reason := Some reason\<rparr>"

definition block_apply :: "uuid \<Rightarrow> string \<Rightarrow> inbox \<Rightarrow> (inbox_application \<times> inbox) result" where
  "block_apply cid reason d =
     ebind (accepted_row cid d) (\<lambda>r.
     ebind (raise_if (ir_apply_state r = APPLIED) (ValueError ''CONFIG_ALREADY_APPLIED'')) (\<lambda>_.
     if ir_apply_state r = APPLY_BLOCKED \<and> ir_apply_reason r = Some reason
     then Inr (row_application r, d)
     else if ir_apply_state r = APPLYING
     then Inr (row_application (block_row reason r), update_command cid (block_row reason) d)
     else Inl (ValueError ''CONFIG_APPLY_NOT_IN_PROGRESS'')))"

definition apply_row :: "int \<Rightarrow> inbox_row \<Rightarrow> inbox_row" where
  "apply_row version r = r\<lparr>ir_apply_state := APPLIED, ir_apply_reason := None, ir_applied_version := Some version\<rparr>"

definition mark_applied :: "uuid \<Rightarrow> string \<Rightarrow> int \<Rightarrow> inbox \<Rightarrow> (inbox_application \<times> inbox) result" where
  "mark_applied cid fingerprint version d =
     ebind (accepted_row cid d) (\<lambda>r.
     ebind (raise_if (ir_digest r \<noteq> fingerprint) (ValueError ''CONFLICT_CONFIG_COMMAND_IDENTITY'')) (\<lambda>_.
     ebind (raise_if (version \<noteq> set_version (cfg_settings (ir_payload r)))
              (ValueError ''CONFLICT_CONFIG_APPLIED_VERSION'')) (\<lambda>_.
     case ir_apply_state r of
       APPLIED \<Rightarrow>
         if ir_applied_version r \<noteq> Some version then Inl (ValueError ''CONFLICT_CONFIG_APPLIED_VERSION'')
         else Inr (row_application r, d)
     | APPLYING \<Rightarrow> Inr (row_application (apply_row version r), update_command cid (apply_row version) d)
     | _ \<Rightarrow> Inl (ValueError ''CONFIG_APPLY_NOT_IN_PROGRESS''))))"

definition application :: "uuid \<Rightarrow> inbox \<Rightarrow> inbox_application result" where
  "application cid d = ebind (accepted_row cid d) (\<lambda>r. Inr (row_application r))"

end
