(* ===== verification/InboxProperties.thy ===== *)
theory InboxProperties
  imports Inbox "HOL-Library.Sublist"
begin

text \<open>
  The properties of the configuration inbox: its tables stay well formed, a received command is
  answered once and for all, accepted versions of a symbol strictly advance, the application state of
  a row moves along the documented transitions, and a missing authenticator fails closed.
\<close>

section \<open>Well-formed inboxes\<close>

definition row_scope_key :: "inbox_row \<Rightarrow> string \<times> environment \<times> string \<times> string" where
  "row_scope_key r = (ir_account_id r, ir_environment r, ir_symbol r, ir_key r)"

definition row_command_key :: "inbox_row \<Rightarrow> string \<times> environment \<times> uuid" where
  "row_command_key r = (ir_account_id r, ir_environment r, ir_command_id r)"

definition row_ok :: "(config_command \<Rightarrow> string) \<Rightarrow> inbox_row \<Rightarrow> bool" where
  "row_ok dg r \<longleftrightarrow>
     (let c = ir_payload r; s = cfg_settings c in
      in_scope s r \<and> ir_symbol r = set_symbol s \<and> ir_key r = idempotency_key c \<and>
      ir_command_id r = command_id c \<and> ir_digest r = dg c \<and>
      (case ir_accepted_version r of None \<Rightarrow> True | Some v \<Rightarrow> v = set_version s \<and> ir_decision r = ACCEPTED))"

definition inbox_ok :: "(config_command \<Rightarrow> string) \<Rightarrow> inbox \<Rightarrow> bool" where
  "inbox_ok dg d \<longleftrightarrow> ib_table d \<and> apply_columns \<subseteq> ib_columns d \<and> ib_index d \<and>
     accepted_unique (ib_rows d) \<and> distinct (map row_scope_key (ib_rows d)) \<and>
     distinct (map row_command_key (ib_rows d)) \<and> (\<forall>r\<in>set (ib_rows d). row_ok dg r)"

text \<open>What an update of the application state leaves alone.\<close>

definition row_identity :: "inbox_row \<Rightarrow> inbox_row" where
  "row_identity r = r\<lparr>ir_apply_state := NOT_APPLIED, ir_apply_reason := None, ir_applied_version := None\<rparr>"

definition inbox_le :: "inbox \<Rightarrow> inbox \<Rightarrow> bool" where
  "inbox_le d d' \<longleftrightarrow> prefix (map row_identity (ib_rows d)) (map row_identity (ib_rows d'))"

lemma row_identity_simps [simp]:
  "row_identity (start_applying r) = row_identity r"
  "row_identity (block_row reason r) = row_identity r"
  "row_identity (apply_row v r) = row_identity r"
  by (simp_all add: row_identity_def start_applying_def block_row_def apply_row_def)

lemma identity_base:
  assumes "row_identity r = row_identity r'"
  shows "ir_account_id r = ir_account_id r'" and "ir_environment r = ir_environment r'" and "ir_symbol r = ir_symbol r'"
    and "ir_key r = ir_key r'" and "ir_command_id r = ir_command_id r'" and "ir_payload r = ir_payload r'"
    and "ir_digest r = ir_digest r'" and "ir_decision r = ir_decision r'" and "ir_reason r = ir_reason r'" and "ir_accepted_version r = ir_accepted_version r'" and "ir_actor_id r = ir_actor_id r'"
  using arg_cong [OF assms, of ir_account_id]
    arg_cong [OF assms, of ir_environment]
    arg_cong [OF assms, of ir_symbol]
    arg_cong [OF assms, of ir_key]
    arg_cong [OF assms, of ir_command_id]
    arg_cong [OF assms, of ir_payload]
    arg_cong [OF assms, of ir_digest]
    arg_cong [OF assms, of ir_decision]
    arg_cong [OF assms, of ir_reason]
    arg_cong [OF assms, of ir_accepted_version]
    arg_cong [OF assms, of ir_actor_id]
  by (simp_all add: row_identity_def)

lemma identity_fields:
  assumes "row_identity r = row_identity r'"
  shows "row_scope_key r = row_scope_key r'" "row_command_key r = row_command_key r'"
    "accepted_key r = accepted_key r'" "stored_decision r = stored_decision r'"
    "same_command c r = same_command c r'" "same_identity c r = same_identity c r'"
  using identity_base [OF assms]
  by (simp_all add: row_scope_key_def row_command_key_def accepted_key_def
      stored_decision_def same_command_def same_identity_def in_scope_def)

lemma map_identity_cong:
  assumes "map row_identity xs = map row_identity ys"
    and "\<And>r r'. row_identity r = row_identity r' \<Longrightarrow> g r = g r'"
  shows "map g xs = map g ys"
  using assms(1)
proof (induction xs arbitrary: ys)
  case (Cons x xs)
  then obtain y ys' where "ys = y # ys'" "row_identity x = row_identity y"
    "map row_identity xs = map row_identity ys'" by (cases ys) auto
  then show ?case using Cons.IH [of ys'] assms(2) [of x y] by simp
qed simp

lemma update_identity:
  "(\<And>r. row_identity (f r) = row_identity r) \<Longrightarrow>
     map row_identity (ib_rows (update_command cid f d)) = map row_identity (ib_rows d)"
  by (simp add: update_command_def)

lemma map_filter_as_map: "List.map_filter f xs = List.map_filter (\<lambda>x. x) (map f xs)"
  by (induction xs) (simp_all split: option.splits)

lemma update_ok:
  assumes ok: "inbox_ok dg d" and id: "\<And>r. row_identity (f r) = row_identity r"
  shows "inbox_ok dg (update_command cid f d)" and "inbox_le d (update_command cid f d)"
proof -
  let ?d = "update_command cid f d"
  note same = update_identity [of f cid d, OF id]
  have maps: "map accepted_key (ib_rows ?d) = map accepted_key (ib_rows d)"
    "map row_scope_key (ib_rows ?d) = map row_scope_key (ib_rows d)"
    "map row_command_key (ib_rows ?d) = map row_command_key (ib_rows d)"
    using map_identity_cong [OF same] identity_fields(1-3) by blast+
  have uniq: "accepted_unique (ib_rows ?d) = accepted_unique (ib_rows d)"
    unfolding accepted_unique_def map_filter_as_map [of accepted_key] maps ..
  have "row_ok dg (f r) = row_ok dg r" for r
    using identity_base [OF id [of r]] by (simp add: row_ok_def in_scope_def Let_def split: option.split)
  then have "\<forall>r\<in>set (ib_rows ?d). row_ok dg r"
    using ok by (auto simp: inbox_ok_def update_command_def)
  moreover have "ib_table ?d = ib_table d" "ib_columns ?d = ib_columns d" "ib_index ?d = ib_index d"
    by (simp_all add: update_command_def)
  ultimately show "inbox_ok dg ?d" using ok unfolding inbox_ok_def maps uniq by simp
  show "inbox_le d ?d" by (simp add: inbox_le_def same)
qed

section \<open>Receiving\<close>

lemma new_row_fields [simp]:
  "ir_account_id (new_row dg c x a) = set_account_id (cfg_settings c)"
  "ir_environment (new_row dg c x a) = set_environment (cfg_settings c)"
  "ir_symbol (new_row dg c x a) = set_symbol (cfg_settings c)"
  "ir_key (new_row dg c x a) = idempotency_key c" "ir_command_id (new_row dg c x a) = command_id c"
  "ir_payload (new_row dg c x a) = c" "ir_digest (new_row dg c x a) = dg c"
  "ir_decision (new_row dg c x a) = dec_state x" "ir_reason (new_row dg c x a) = dec_reason x"
  "ir_apply_state (new_row dg c x a) = NOT_APPLIED" "ir_applied_version (new_row dg c x a) = None"
  "ir_accepted_version (new_row dg c x a) =
     (if dec_state x = ACCEPTED then Some (set_version (cfg_settings c)) else None)"
  by (simp_all add: new_row_def)

lemma same_identity_rows:
  assumes "filter (same_identity c) (ib_rows d) = []"
  shows "insert_row (new_row dg c outcome a) d =
    (if accepted_unique (ib_rows d @ [new_row dg c outcome a])
     then Inr (d\<lparr>ib_rows := ib_rows d @ [new_row dg c outcome a]\<rparr>) else Inl IntegrityError)"
proof -
  have "\<not> (\<exists>x\<in>set (ib_rows d). ir_account_id x = set_account_id (cfg_settings c) \<and>
      ir_environment x = set_environment (cfg_settings c) \<and>
      (ir_symbol x = set_symbol (cfg_settings c) \<and> ir_key x = idempotency_key c \<or>
       ir_command_id x = command_id c))"
    using assms by (auto simp: filter_empty_conv same_identity_def in_scope_def)
  then show ?thesis by (simp only: insert_row_def new_row_fields) simp
qed

lemma fold_max_base: "a \<le> fold max xs a" for a :: int
proof (induction xs arbitrary: a)
  case (Cons x xs)
  show ?case using Cons [of "max x a"] by simp
qed simp

lemma fold_max_ge: "x \<in> set xs \<Longrightarrow> x \<le> fold max xs a" for a :: int
proof (induction xs arbitrary: a)
  case (Cons y xs)
  then show ?case using fold_max_base [of "max y a" xs] by auto
qed simp

lemma current_version_ge:
  assumes "r \<in> set rows" and "in_scope s r" and "ir_symbol r = set_symbol s" and "ir_accepted_version r = Some v"
  shows "v \<le> current_version rows s"
  unfolding current_version_def using assms
  by (intro fold_max_ge) (force simp: List.map_filter_def)

lemma map_filter_mem_iff: "k \<in> set (List.map_filter f xs) \<longleftrightarrow> (\<exists>x\<in>set xs. f x = Some k)"
  by (induction xs) (auto split: option.splits)

lemma accepted_unique_snoc:
  "accepted_unique (rows @ [r]) \<longleftrightarrow> accepted_unique rows \<and>
     (case accepted_key r of None \<Rightarrow> True | Some k \<Rightarrow> \<forall>x\<in>set rows. accepted_key x \<noteq> Some k)"
proof -
  have "List.map_filter accepted_key (rows @ [r]) = List.map_filter accepted_key rows @
      (case accepted_key r of None \<Rightarrow> [] | Some k \<Rightarrow> [k])"
    by (simp add: List.map_filter_def split: option.splits)
  moreover have "k \<in> set (List.map_filter accepted_key rows) \<longleftrightarrow> (\<exists>x\<in>set rows. accepted_key x = Some k)" for k
    by (simp only: map_filter_mem_iff)
  ultimately show ?thesis by (auto simp: accepted_unique_def split: option.splits)
qed

lemma new_row_identity: "row_identity (new_row dg c outcome a) = new_row dg c outcome a"
  by (simp add: row_identity_def new_row_def)

text \<open>A command that is not known yet is decided and stored; the indexes never object.\<close>

lemma receive_new:
  fixes a :: actor and now :: datetime
  assumes ok: "inbox_ok dg d" and new: "filter (same_identity c) (ib_rows d) = []"
  defines "outcome \<equiv> decide dg c a (current_version (ib_rows d) (cfg_settings c)) now"
  shows "insert_row (new_row dg c outcome a) d = Inr (d\<lparr>ib_rows := ib_rows d @ [new_row dg c outcome a]\<rparr>)"
    and "inbox_ok dg (d\<lparr>ib_rows := ib_rows d @ [new_row dg c outcome a]\<rparr>)"
proof -
  let ?r = "new_row dg c outcome a"
  have uniq: "accepted_unique (ib_rows d @ [?r])"
  proof (cases "dec_state outcome = ACCEPTED")
    case True
    then have v: "current_version (ib_rows d) (cfg_settings c) < set_version (cfg_settings c)"
      by (simp add: outcome_def decide_accepted_iff)
    have "accepted_key x \<noteq> accepted_key ?r" if "x \<in> set (ib_rows d)" for x
      using current_version_ge [OF that, of "cfg_settings c"] v True
      by (auto simp: accepted_key_def new_row_def in_scope_def)
    then show ?thesis using ok True
      by (auto simp: accepted_unique_snoc inbox_ok_def accepted_key_def new_row_def)
  next
    case False
    then show ?thesis using ok by (simp add: accepted_unique_snoc inbox_ok_def accepted_key_def new_row_def)
  qed
  then show "insert_row ?r d = Inr (d\<lparr>ib_rows := ib_rows d @ [?r]\<rparr>)"
    by (simp add: same_identity_rows [OF new])
  have "row_ok dg ?r" by (auto simp: row_ok_def new_row_def in_scope_def Let_def)
  moreover have "row_scope_key x \<noteq> row_scope_key ?r \<and> row_command_key x \<noteq> row_command_key ?r"
    if "x \<in> set (ib_rows d)" for x
    using new that
    by (auto simp: filter_empty_conv same_identity_def row_scope_key_def row_command_key_def new_row_def in_scope_def)
  then have "row_scope_key ?r \<notin> row_scope_key ` set (ib_rows d)"
    "row_command_key ?r \<notin> row_command_key ` set (ib_rows d)" by (metis imageE)+
  ultimately show "inbox_ok dg (d\<lparr>ib_rows := ib_rows d @ [?r]\<rparr>)"
    using ok uniq by (simp add: inbox_ok_def)
qed

lemma receive_as_cases:
  assumes ok: "inbox_ok dg d" and run: "receive_as dg a now c d = Inr (x, d')"
  obtains (unauthorized) "\<not> authorized a (cfg_settings c)" "x = rejected_as ''CONFIG_UNAUTHORIZED'' (dg c)" "d' = d"
  | (known) r where "authorized a (cfg_settings c)" "filter (same_identity c) (ib_rows d) = [r]"
      "same_command c r" "x = stored_decision r" "d' = d"
  | (new) "authorized a (cfg_settings c)" "filter (same_identity c) (ib_rows d) = []"
      "x = decide dg c a (current_version (ib_rows d) (cfg_settings c)) now"
      "d' = d\<lparr>ib_rows := ib_rows d @ [new_row dg c x a]\<rparr>" "inbox_ok dg d'"
proof (cases "filter (same_identity c) (ib_rows d)")
  case Nil
  then show ?thesis using run unauthorized new receive_new [OF ok Nil, of a now]
    by (auto simp: receive_as_def Let_def result_simps split: if_splits)
next
  case (Cons r rs)
  then show ?thesis using run unauthorized known
    by (cases rs) (auto simp: receive_as_def split: if_splits)
qed

lemma receive_as_keeps:
  assumes "inbox_ok dg d" and "receive_as dg a now c d = Inr (x, d')"
  shows "inbox_ok dg d' \<and> inbox_le d d'"
  by (rule receive_as_cases [OF assms]) (use assms(1) in \<open>auto simp: inbox_le_def\<close>)

lemma filter_single:
  assumes "distinct xs" and "x \<in> set xs" and "P x" and "\<And>y. y \<in> set xs \<Longrightarrow> P y \<Longrightarrow> y = x"
  shows "filter P xs = [x]"
proof -
  obtain ys zs where xs: "xs = ys @ x # zs" using split_list [OF assms(2)] by blast
  have "\<not> P y" if "y \<in> set ys \<union> set zs" for y
  proof
    assume "P y"
    moreover have "y \<in> set xs" using that xs by auto
    ultimately have "y = x" by (rule assms(4) [rotated])
    then show False using that assms(1) xs by auto
  qed
  then have "filter P ys = []" "filter P zs = []" by (simp_all add: filter_empty_conv)
  then show ?thesis using xs assms(3) by simp
qed

text \<open>The rows that carry a command's identity are the same in every later inbox.\<close>

lemma identity_row_later:
  assumes ok: "inbox_ok dg d'" and le: "inbox_le d d'" and r: "r \<in> set (ib_rows d)" and c: "same_command c r"
    and id: "same_identity c r"
  obtains r' where "filter (same_identity c) (ib_rows d') = [r']" and "row_identity r' = row_identity r"
proof -
  obtain r' where r': "r' \<in> set (ib_rows d')" "row_identity r' = row_identity r"
  proof -
    have "row_identity r \<in> set (map row_identity (ib_rows d'))"
      using le r set_mono_prefix unfolding inbox_le_def by fastforce
    then show ?thesis using that by auto
  qed
  note same = identity_fields [OF r'(2)]
  have only: "x = r'" if "x \<in> set (ib_rows d')" "same_identity c x" for x
  proof -
    have "same_command c r'" "same_identity c r'" using same c id by simp_all
    then have "row_scope_key x = row_scope_key r' \<or> row_command_key x = row_command_key r'"
      using that(2) by (auto simp: same_identity_def same_command_def row_scope_key_def row_command_key_def in_scope_def)
    then show ?thesis using ok that(1) r'(1) by (auto simp: inbox_ok_def distinct_map dest: inj_onD)
  qed
  have "same_identity c r'" using same id by simp
  moreover have "distinct (ib_rows d')" using ok by (auto simp: inbox_ok_def distinct_map)
  ultimately have "filter (same_identity c) (ib_rows d') = [r']"
    using filter_single [OF _ r'(1) _ only] by blast
  then show ?thesis using that r'(2) by blast
qed

section \<open>Application\<close>

lemma accepted_row_Inr [result_simps]:
  "accepted_row cid d = Inr r \<longleftrightarrow> find_command cid d = Some r \<and> ir_decision r = ACCEPTED"
  by (auto simp: accepted_row_def split: option.splits)

lemma find_command_row:
  "find_command cid d = Some r \<Longrightarrow> r \<in> set (ib_rows d) \<and> ir_command_id r = cid"
  unfolding find_command_def by (drule find_SomeD) simp

text \<open>The three transitions update the rows of one command, or nothing.\<close>

lemma begin_apply_cases:
  assumes "begin_apply cid retry d = Inr (app, d')"
  obtains (unchanged) r where "find_command cid d = Some r" "ir_decision r = ACCEPTED"
      "app = row_application r" "d' = d" "ir_apply_state r \<noteq> NOT_APPLIED"
  | (started) r where "find_command cid d = Some r" "ir_decision r = ACCEPTED"
      "ir_apply_state r \<in> {NOT_APPLIED, APPLY_BLOCKED}" "app = row_application (start_applying r)"
      "d' = update_command cid start_applying d"
proof -
  obtain r where r: "accepted_row cid d = Inr r"
    using assms by (cases "accepted_row cid d") (simp_all add: begin_apply_def)
  then have fd: "find_command cid d = Some r" "ir_decision r = ACCEPTED" by (simp_all add: accepted_row_Inr)
  have "(app = row_application r \<and> d' = d \<and> ir_apply_state r \<noteq> NOT_APPLIED) \<or> (ir_apply_state r \<in> {NOT_APPLIED, APPLY_BLOCKED} \<and> app = row_application (start_applying r) \<and>
      d' = update_command cid start_applying d)"
    using assms r by (cases "ir_apply_state r") (simp_all add: begin_apply_def raise_if_def split: if_splits)
  then show ?thesis using fd that by blast
qed

lemma block_apply_cases:
  assumes "block_apply cid reason d = Inr (app, d')"
  obtains (unchanged) r where "find_command cid d = Some r" "app = row_application r" "d' = d"
      "ir_apply_state r = APPLY_BLOCKED"
  | (blocks) r where "find_command cid d = Some r" "ir_decision r = ACCEPTED"
      "ir_apply_state r = APPLYING" "app = row_application (block_row reason r)"
      "d' = update_command cid (block_row reason) d"
proof -
  obtain r where r: "accepted_row cid d = Inr r"
    using assms by (cases "accepted_row cid d") (simp_all add: block_apply_def)
  then have fd: "find_command cid d = Some r" "ir_decision r = ACCEPTED" by (simp_all add: accepted_row_Inr)
  have "(app = row_application r \<and> d' = d \<and> ir_apply_state r = APPLY_BLOCKED) \<or> (ir_apply_state r = APPLYING \<and> app = row_application (block_row reason r) \<and>
      d' = update_command cid (block_row reason) d)"
    using assms r by (cases "ir_apply_state r") (simp_all add: block_apply_def raise_if_def split: if_splits)
  then show ?thesis using fd that by blast
qed

lemma mark_applied_cases:
  assumes "mark_applied cid fp v d = Inr (app, d')"
  obtains (unchanged) r where "find_command cid d = Some r" "app = row_application r" "d' = d"
      "ir_apply_state r = APPLIED" "ir_applied_version r = Some v" "ir_digest r = fp"
  | (marks) r where "find_command cid d = Some r" "ir_decision r = ACCEPTED"
      "ir_apply_state r = APPLYING" "app = row_application (apply_row v r)"
      "d' = update_command cid (apply_row v) d" "v = set_version (cfg_settings (ir_payload r))"
      "ir_digest r = fp"
proof -
  obtain r where r: "accepted_row cid d = Inr r"
    using assms by (cases "accepted_row cid d") (simp_all add: mark_applied_def)
  then have fd: "find_command cid d = Some r" "ir_decision r = ACCEPTED" by (simp_all add: accepted_row_Inr)
  have "(app = row_application r \<and> d' = d \<and> ir_apply_state r = APPLIED \<and> ir_applied_version r = Some v \<and> ir_digest r = fp) \<or> (ir_apply_state r = APPLYING \<and> app = row_application (apply_row v r) \<and>
      d' = update_command cid (apply_row v) d \<and> v = set_version (cfg_settings (ir_payload r)) \<and> ir_digest r = fp)"
    using assms r by (cases "ir_apply_state r") (simp_all add: mark_applied_def raise_if_def split: if_splits)
  then show ?thesis using fd that by blast
qed

section \<open>The transition system\<close>

inductive inbox_step ::
    "(config_command \<Rightarrow> string) \<Rightarrow> (config_command \<Rightarrow> 'ctx \<Rightarrow> actor option) option \<Rightarrow> inbox \<Rightarrow> inbox \<Rightarrow> bool"
  for dg auth where
  received: "receive dg auth ctx now c d = Inr (x, d') \<Longrightarrow> inbox_step dg auth d d'"
| begun: "begin_apply cid retry d = Inr (app, d') \<Longrightarrow> inbox_step dg auth d d'"
| blocks: "block_apply cid reason d = Inr (app, d') \<Longrightarrow> inbox_step dg auth d d'"
| marks: "mark_applied cid fp v d = Inr (app, d') \<Longrightarrow> inbox_step dg auth d d'"
| reopened: "open_inbox d = Inr d' \<Longrightarrow> inbox_step dg auth d d'"

lemma open_inbox_ok:
  assumes "inbox_ok dg d"
  shows "open_inbox d = Inr d"
proof -
  have "add_columns (ib_columns d) r = r" for r
    using assms by (simp add: add_columns_def inbox_ok_def apply_columns_def)
  then have "map (add_columns (ib_columns d)) (ib_rows d) = ib_rows d" by (simp add: map_idI)
  moreover have "ib_columns d \<union> apply_columns = ib_columns d" "''apply_state'' \<in> ib_columns d"
    using assms by (auto simp: inbox_ok_def apply_columns_def)
  ultimately show ?thesis using assms by (simp add: open_inbox_def inbox_ok_def Let_def)
qed

lemma open_new_inbox: "open_inbox no_inbox = Inr d \<Longrightarrow> inbox_ok dg d"
  by (auto simp: open_inbox_def no_inbox_def Let_def inbox_ok_def
      accepted_unique_def apply_columns_def result_simps)

lemma receive_valid:
  assumes "receive dg auth ctx now c d = Inr y"
  shows "revalidate c = Inr c"
proof -
  obtain c' where c': "revalidate c = Inr c'"
    using assms by (cases "revalidate c") (simp_all add: receive_def)
  then show ?thesis using revalidate_Inr by blast
qed

lemma receive_cases:
  assumes "receive dg auth ctx now c d = Inr (x, d')"
  obtains (refused) reason where "x = rejected_as reason (dg c)" "d' = d"
  | (decided) a where "receive_as dg a now c d = Inr (x, d')"
proof -
  have c': "revalidate c = Inr c" by (rule receive_valid [OF assms])
  then show ?thesis using assms that
    by (auto simp: receive_def split: option.splits)
qed

lemma inbox_le_refl [simp]: "inbox_le d d"
  by (simp add: inbox_le_def)

lemma inbox_step_keeps:
  assumes ok: "inbox_ok dg d" and step: "inbox_step dg auth d d'"
  shows "inbox_ok dg d' \<and> inbox_le d d'"
  using step
proof cases
  case (received ctx now c x)
  from received show ?thesis
  proof (cases rule: receive_cases)
    case (refused reason)
    then show ?thesis using ok by simp
  next
    case (decided a)
    then show ?thesis by (rule receive_as_keeps [OF ok])
  qed
next
  case (begun cid retry app)
  then show ?thesis by (cases rule: begin_apply_cases) (use ok update_ok [OF ok] in simp_all)
next
  case (blocks cid reason app)
  then show ?thesis by (cases rule: block_apply_cases) (use ok update_ok [OF ok] in simp_all)
next
  case (marks cid fp v app)
  then show ?thesis by (cases rule: mark_applied_cases) (use ok update_ok [OF ok] in simp_all)
next
  case reopened
  then show ?thesis using open_inbox_ok ok by auto
qed

interpretation inbox: growing_system "inbox_step dg auth" "inbox_ok dg" inbox_le for dg auth
proof unfold_locales
  show "inbox_ok dg d'" "inbox_le d d'" if "inbox_ok dg d" "inbox_step dg auth d d'" for d d'
    using inbox_step_keeps [OF that] by simp_all
  show "inbox_le a c" if "inbox_le a b" "inbox_le b c" for a b c
    using that unfolding inbox_le_def by (rule prefix_order.trans)
qed simp

text \<open>The same actor at every retry, at any time.\<close>

interpretation reception: durable_operation "inbox_step dg auth" "inbox_ok dg" inbox_le
  "receive_as dg a" "\<lambda>x. x" "\<lambda>_ _. True" for dg auth a
proof unfold_locales
  fix d d' t now now' c x
  assume ok: "inbox_ok dg d" and run: "receive_as dg a now c d = Inr (x, d')"
  then show "inbox_ok dg d' \<and> inbox_le d d' \<and> True" using receive_as_keeps by simp
  assume t: "inbox_ok dg t" "inbox_le d' t"
  have later: "receive_as dg a now' c t = Inr (x, t)"
    if r: "r \<in> set (ib_rows d')" "same_command c r" "same_identity c r" "x = stored_decision r"
      "authorized a (cfg_settings c)" for r
  proof -
    obtain r' where r': "filter (same_identity c) (ib_rows t) = [r']" "row_identity r' = row_identity r"
      by (rule identity_row_later [OF t r(1-3)])
    then show ?thesis using identity_fields [OF r'(2)] r by (simp add: receive_as_def)
  qed
  from ok run show "receive_as dg a now' c t = Inr (x, t)"
  proof (cases rule: receive_as_cases)
    case unauthorized
    then show ?thesis by (simp add: receive_as_def)
  next
    case (known r)
    have "r \<in> set (filter (same_identity c) (ib_rows d))" unfolding known(2) by simp
    then have "r \<in> set (ib_rows d')" "same_identity c r" using known(5) by simp_all
    then show ?thesis using later known(1,3,4) by blast
  next
    case new
    have "stored_decision (new_row dg c x a) = x"
      using new(3) by (simp add: stored_decision_def decide_def Let_def)
    then show ?thesis using later [of "new_row dg c x a"] new
      by (simp add: same_command_def same_identity_def in_scope_def)
  qed
qed

section \<open>Properties\<close>

text \<open>A desired command is decided once. The decision the inbox gave an authenticated actor is given
  again at any later time, whatever was received, applied, blocked or reopened in between, whenever the
  same actor repeats the command; the clock is not consulted again and nothing is stored twice.\<close>

theorem receive_replay:
  assumes "inbox_ok dg d" and "receive dg (Some auth) (Some ctx) now c d = Inr (x, d')"
    and "auth c ctx = Some a" and "(inbox_step dg (Some auth))\<^sup>*\<^sup>* d' t" and "auth c ctx' = Some a"
  shows "receive dg (Some auth) (Some ctx') now' c t = Inr (x, t)"
proof -
  have c: "revalidate c = Inr c" by (rule receive_valid [OF assms(2)])
  then have "receive_as dg a now c d = Inr (x, d')" using assms(2,3) by (simp add: receive_def)
  from reception.replay_later [OF assms(1) this assms(4)]
  have "receive_as dg a now' c t = Inr (x, t)" by blast
  then show ?thesis using c assms(5) by (simp add: receive_def)
qed

text \<open>Acceptance compares and advances. A command is newly accepted only from an authenticated, authorized actor,
  before its deadline, when the version it expects is the newest accepted version of its symbol and
  its own version is greater; afterwards its version is the newest, exactly one row was added, and it
  is not applied yet.\<close>

theorem receive_accepts_next_version:
  assumes ok: "inbox_ok dg d" and run: "receive dg (Some auth) (Some ctx) now c d = Inr (x, d')"
    and new: "d' \<noteq> d" and acc: "dec_state x = ACCEPTED"
  shows "\<exists>a. auth c ctx = Some a \<and> authorized a (cfg_settings c) \<and> dt_lt now (cfg_expires_at c) \<and>
    current_version (ib_rows d) (cfg_settings c) = expected_version c \<and>
    (\<forall>r\<in>set (ib_rows d). \<forall>v. in_scope (cfg_settings c) r \<longrightarrow> ir_symbol r = set_symbol (cfg_settings c) \<longrightarrow>
       ir_accepted_version r = Some v \<longrightarrow> v < set_version (cfg_settings c)) \<and>
    ib_rows d' = ib_rows d @ [new_row dg c x a] \<and> ir_apply_state (new_row dg c x a) = NOT_APPLIED \<and>
    ir_accepted_version (new_row dg c x a) = Some (set_version (cfg_settings c))"
proof -
  have c: "revalidate c = Inr c" by (rule receive_valid [OF run])
  with run new obtain a where a: "auth c ctx = Some a" and rec: "receive_as dg a now c d = Inr (x, d')"
    by (auto simp: receive_def split: option.splits)
  from receive_as_cases [OF ok rec] new have step: "authorized a (cfg_settings c)"
    "x = decide dg c a (current_version (ib_rows d) (cfg_settings c)) now"
    "d' = d\<lparr>ib_rows := ib_rows d @ [new_row dg c x a]\<rparr>" by metis+
  have dec: "dt_lt now (cfg_expires_at c)" "current_version (ib_rows d) (cfg_settings c) = expected_version c"
    "current_version (ib_rows d) (cfg_settings c) < set_version (cfg_settings c)"
    using acc unfolding step(2) decide_accepted_iff by simp_all
  have "v < set_version (cfg_settings c)"
    if "r \<in> set (ib_rows d)" "in_scope (cfg_settings c) r" "ir_symbol r = set_symbol (cfg_settings c)"
      "ir_accepted_version r = Some v" for r v
    using current_version_ge [OF that] dec(3) by simp
  then show ?thesis using a step dec acc by auto
qed

text \<open>Without proof of identity nothing is accepted. With no authenticator, no evidence or a failed
  authentication, or for an actor outside the scope of the command, the inbox answers with a rejection
  and stores nothing.\<close>

theorem receive_fails_closed:
  assumes "receive dg auth ctx now c d = Inr (x, d')"
    and "auth = None \<or> ctx = None \<or> (\<exists>f y. auth = Some f \<and> ctx = Some y \<and>
      (case f c y of None \<Rightarrow> True | Some a \<Rightarrow> \<not> authorized a (cfg_settings c)))"
  shows "dec_state x = REJECTED \<and> d' = d"
proof -
  have "revalidate c = Inr c" by (rule receive_valid [OF assms(1)])
  then show ?thesis using assms
    by (auto simp: receive_def receive_as_def rejected_as_def split: option.splits)
qed

text \<open>Old acceptances without authentication are never applied. Opening a table that predates the application
  columns blocks every row it had accepted, and no attempt to apply such a command, an explicit retry
  included, leaves the blocked state.\<close>

theorem legacy_acceptance_blocked:
  assumes "open_inbox d = Inr d'" and "ib_table d" and "''apply_state'' \<notin> ib_columns d"
    and "r \<in> set (ib_rows d')" and "ir_decision r = ACCEPTED" and "find_command cid d' = Some r"
  shows "ir_apply_state r = APPLY_BLOCKED \<and> ir_accepted_version r = None \<and>
    begin_apply cid retry d' = Inr (row_application r, d')"
proof -
  have "r \<in> block_legacy ` add_columns (ib_columns d) ` set (ib_rows d)"
    using assms(1-4) by (auto simp: open_inbox_def Let_def result_simps)
  then have "ir_apply_state r = APPLY_BLOCKED" "ir_accepted_version r = None"
    "ir_apply_reason r = Some ''LEGACY_AUTHENTICATION_UNVERIFIED''"
    using assms(5) by (auto simp: block_legacy_def add_columns_def split: if_splits)
  then show ?thesis using assms(5,6) by (simp add: begin_apply_def accepted_row_def)
qed

section \<open>Command ids across scopes\<close>

text \<open>The table allows one command id in two accounts or environments, while the application states are
  looked up and updated by the command id alone. The state machine below holds of an inbox in which a
  command id names one row, as in an inbox of a single scope.\<close>

definition ids_unique :: "inbox \<Rightarrow> bool" where
  "ids_unique d \<longleftrightarrow> distinct (map ir_command_id (ib_rows d))"

lemma single_scope_ids_unique:
  assumes "inbox_ok dg d" and "\<forall>r\<in>set (ib_rows d). ir_account_id r = acc \<and> ir_environment r = env"
  shows "ids_unique d"
  using assms by (auto simp: inbox_ok_def ids_unique_def distinct_map inj_on_def row_command_key_def)

lemma unique_row:
  assumes "ids_unique d" and "find_command cid d = Some r" and "x \<in> set (ib_rows d)" and "ir_command_id x = cid"
  shows "x = r"
  using assms find_command_row [OF assms(2)] by (auto simp: ids_unique_def distinct_map dest: inj_onD)

text \<open>The documented moves; an applied row and its version stay.\<close>

definition apply_moves :: "(apply_state \<times> apply_state) set" where
  "apply_moves = {(NOT_APPLIED, APPLYING), (APPLY_BLOCKED, APPLYING), (APPLYING, APPLIED),
     (APPLYING, APPLY_BLOCKED)}"

definition row_move :: "inbox_row \<Rightarrow> inbox_row \<Rightarrow> bool" where
  "row_move r r' \<longleftrightarrow> r' = r \<or> row_identity r' = row_identity r \<and> ir_decision r = ACCEPTED \<and>
     (ir_apply_state r, ir_apply_state r') \<in> apply_moves \<and>
     (ir_apply_state r' = APPLIED \<longrightarrow> ir_applied_version r' = Some (set_version (cfg_settings (ir_payload r))))"

lemma update_moves:
  assumes u: "ids_unique d" and f: "find_command cid d = Some r" and move: "row_move r (g r)"
    and i: "i < length (ib_rows d)"
  shows "row_move (ib_rows d ! i) (ib_rows (update_command cid g d) ! i)"
proof (cases "ir_command_id (ib_rows d ! i) = cid")
  case True
  then have "ib_rows d ! i = r" using unique_row [OF u f] i by simp
  then show ?thesis using True i move by (simp add: update_command_def)
next
  case False
  then show ?thesis using i by (simp add: update_command_def row_move_def)
qed

lemma move_simps:
  "ir_decision r = ACCEPTED \<Longrightarrow> ir_apply_state r \<in> {NOT_APPLIED, APPLY_BLOCKED} \<Longrightarrow> row_move r (start_applying r)"
  "ir_decision r = ACCEPTED \<Longrightarrow> ir_apply_state r = APPLYING \<Longrightarrow> row_move r (block_row reason r)"
  "ir_decision r = ACCEPTED \<Longrightarrow> ir_apply_state r = APPLYING \<Longrightarrow>
     v = set_version (cfg_settings (ir_payload r)) \<Longrightarrow> row_move r (apply_row v r)"
  by (auto simp: row_move_def apply_moves_def start_applying_def block_row_def apply_row_def row_identity_def)

lemma row_move_refl [simp]: "row_move r r"
  by (simp add: row_move_def)

text \<open>C25: The application state of a command moves only as documented. In an inbox in which a command id
  names one row, no operation does anything to a stored row but move an accepted one from not
  applied or blocked to applying, from applying to applied with its own version, or from applying to
  blocked; an applied row never changes again.\<close>

theorem inbox_row_moves:
  assumes ok: "inbox_ok dg d" and u: "ids_unique d" and step: "inbox_step dg auth d d'"
    and i: "i < length (ib_rows d)"
  shows "row_move (ib_rows d ! i) (ib_rows d' ! i) \<and>
    (ir_apply_state (ib_rows d ! i) = APPLIED \<longrightarrow> ib_rows d' ! i = ib_rows d ! i)"
proof -
  have "row_move (ib_rows d ! i) (ib_rows d' ! i)" using step
  proof cases
    case (received ctx now c x)
    then show ?thesis
    proof (cases rule: receive_cases)
      case (decided a)
      from receive_as_cases [OF ok decided] show ?thesis using i by cases (simp_all add: nth_append)
    qed simp
  next
    case (begun cid retry app)
    then show ?thesis
    proof (cases rule: begin_apply_cases)
      case (started r)
      then show ?thesis using update_moves [OF u started(1), where g = "start_applying" and i = i] move_simps(1) i by simp
    qed simp
  next
    case (blocks cid reason app)
    then show ?thesis
    proof (cases rule: block_apply_cases)
      case (blocks r)
      then show ?thesis using update_moves [OF u blocks(1), where g = "block_row reason" and i = i] move_simps(2) i by simp
    qed simp
  next
    case (marks cid fp v app)
    then show ?thesis
    proof (cases rule: mark_applied_cases)
      case (marks r)
      then show ?thesis using update_moves [OF u marks(1), where g = "apply_row v" and i = i] move_simps(3) i by simp
    qed simp
  next
    case reopened
    then show ?thesis using open_inbox_ok [OF ok] by simp
  qed
  then show ?thesis by (auto simp: row_move_def apply_moves_def)
qed

end
