(* ===== verification/Models.thy ===== *)
theory Models
  imports Settings
begin

text \<open>
  \<open>execution/models.py\<close>: the immutable records of the virtual ledger. A class is a record and
  a subclass extends its parent's record; a discriminated union is a datatype. A pydantic constructor is
  a \<open>make_\<close> function from field values to the record or the code of the failed validator: an exception
  raised inside a validator, a \<open>LedgerError\<close> included, reaches the caller as a validation
  error. Fields with a single admissible literal (adapter, session, validity) are left out.
\<close>

section \<open>Scope and keys\<close>

definition is_key :: "string \<Rightarrow> bool" where
  "is_key s \<longleftrightarrow> s \<noteq> [] \<and> (\<forall>c\<in>set s. 33 \<le> (of_char c :: int) \<and> (of_char c :: int) \<le> 126)"

record scope =
  sc_account_id :: string
  sc_environment :: environment
  execution_scope :: uuid

section \<open>Commands\<close>

record command =
  cmd_key :: string
  cmd_symbol :: string
  cmd_side :: side
  cmd_config_version :: int
  cmd_expires_at :: "datetime option"

record new_order = command +
  new_qty :: int
  new_order_type :: order_type
  new_price :: "string option"
  stop_latch_version :: "int option"

record change = command +
  target :: uuid
  link_version :: int

record amend = change +
  qty_delta :: int
  amend_price :: "string option"

record cancel = change +
  cancel_qty :: int

datatype order_command = New new_order | Amend amend | Cancel cancel

fun oc_key :: "order_command \<Rightarrow> string" where
  "oc_key (New c) = cmd_key c"
| "oc_key (Amend c) = cmd_key c"
| "oc_key (Cancel c) = cmd_key c"

fun oc_symbol :: "order_command \<Rightarrow> string" where
  "oc_symbol (New c) = cmd_symbol c"
| "oc_symbol (Amend c) = cmd_symbol c"
| "oc_symbol (Cancel c) = cmd_symbol c"

fun oc_side :: "order_command \<Rightarrow> side" where
  "oc_side (New c) = cmd_side c"
| "oc_side (Amend c) = cmd_side c"
| "oc_side (Cancel c) = cmd_side c"

fun oc_config_version :: "order_command \<Rightarrow> int" where
  "oc_config_version (New c) = cmd_config_version c"
| "oc_config_version (Amend c) = cmd_config_version c"
| "oc_config_version (Cancel c) = cmd_config_version c"

fun oc_expires_at :: "order_command \<Rightarrow> datetime option" where
  "oc_expires_at (New c) = cmd_expires_at c"
| "oc_expires_at (Amend c) = cmd_expires_at c"
| "oc_expires_at (Cancel c) = cmd_expires_at c"

fun is_new :: "order_command \<Rightarrow> bool" where
  "is_new (New _) = True"
| "is_new _ = False"

abbreviation is_change :: "order_command \<Rightarrow> bool" where
  "is_change c \<equiv> \<not> is_new c"

section \<open>Validation of commands\<close>

text \<open>\<open>canonical_price\<close>: trailing zeros of the fraction and leading zeros go, without binary
  floating point.\<close>

definition lstrip :: "char \<Rightarrow> string \<Rightarrow> string" where
  "lstrip c s = dropWhile (\<lambda>x. x = c) s"

definition rstrip :: "char \<Rightarrow> string \<Rightarrow> string" where
  "rstrip c s = rev (dropWhile (\<lambda>x. x = c) (rev s))"

definition canonical_price :: "string \<Rightarrow> string" where
  "canonical_price v =
     (if CHR ''.'' \<in> set v
      then rstrip (CHR ''.'') (rstrip (CHR ''0'') (format_f (dec_of_price v)))
      else if lstrip (CHR ''0'') v = [] then ''0'' else lstrip (CHR ''0'') v)"

definition command_fields_ok :: "'a command_scheme \<Rightarrow> bool" where
  "command_fields_ok c \<longleftrightarrow> is_key (cmd_key c) \<and> is_key (cmd_symbol c) \<and> 0 < cmd_config_version c \<and>
     (case cmd_expires_at c of None \<Rightarrow> True | Some e \<Rightarrow> aware e)"

definition price_ok :: "string option \<Rightarrow> bool" where
  "price_ok p \<longleftrightarrow> (case p of None \<Rightarrow> True | Some s \<Rightarrow> is_price s)"

definition positive_price :: "string \<Rightarrow> bool" where
  "positive_price s \<longleftrightarrow> 0 < dcoeff (dec_of_price s)"

definition check_price :: "new_order \<Rightarrow> unit result" where
  "check_price c =
     ebind (raise_if (stop_latch_version c \<noteq> None \<and> (cmd_side c \<noteq> SELL \<or> new_order_type c \<noteq> MARKET))
              (ValueError ''STOP_LINK_REQUIRES_MARKET_SELL'')) (\<lambda>_.
     case new_order_type c of
       LIMIT \<Rightarrow> raise_if (case new_price c of None \<Rightarrow> True | Some p \<Rightarrow> \<not> positive_price p)
                 (ValueError ''LIMIT_PRICE_REQUIRED'')
     | MARKET \<Rightarrow> raise_if (new_price c \<noteq> None) (ValueError ''MARKET_PRICE_MUST_BE_NULL''))"

definition make_new :: "new_order \<Rightarrow> new_order result" where
  "make_new c =
     ebind (raise_if (\<not> (command_fields_ok c \<and> 0 < new_qty c \<and> price_ok (new_price c) \<and>
              (case stop_latch_version c of None \<Rightarrow> True | Some v \<Rightarrow> 0 < v)))
              (ValueError ''COMMAND_INVALID'')) (\<lambda>_.
     let c' = c\<lparr>new_price := map_option canonical_price (new_price c)\<rparr>
     in ebind (check_price c') (\<lambda>_. Inr c'))"

text \<open>\<open>explicit\<close> says that the caller supplied the price field at all.\<close>

definition make_amend :: "bool \<Rightarrow> amend \<Rightarrow> amend result" where
  "make_amend explicit c =
     ebind (raise_if (\<not> (command_fields_ok c \<and> 0 < link_version c \<and> price_ok (amend_price c)))
              (ValueError ''COMMAND_INVALID'')) (\<lambda>_.
     let c' = c\<lparr>amend_price := map_option canonical_price (amend_price c)\<rparr>
     in ebind (raise_if (explicit \<and>
                 (case amend_price c' of None \<Rightarrow> True | Some p \<Rightarrow> \<not> positive_price p))
                 (ValueError ''AMEND_PRICE_MUST_BE_POSITIVE'')) (\<lambda>_.
        ebind (raise_if (qty_delta c' = 0 \<and> amend_price c' = None) (ValueError ''EMPTY_AMENDMENT''))
          (\<lambda>_. Inr c')))"

definition make_cancel :: "cancel \<Rightarrow> cancel result" where
  "make_cancel c =
     ebind (raise_if (\<not> (command_fields_ok c \<and> 0 < link_version c \<and> 0 < cancel_qty c))
              (ValueError ''COMMAND_INVALID'')) (\<lambda>_. Inr c)"

fun make_command :: "bool \<Rightarrow> order_command \<Rightarrow> order_command result" where
  "make_command explicit (New c) = ebind (make_new c) (\<lambda>c'. Inr (New c'))"
| "make_command explicit (Amend c) = ebind (make_amend explicit c) (\<lambda>c'. Inr (Amend c'))"
| "make_command explicit (Cancel c) = ebind (make_cancel c) (\<lambda>c'. Inr (Cancel c'))"

section \<open>Journal entries\<close>

datatype request_decision = REQ_ACCEPTED | REQ_REJECTED_UNSUPPORTED

record request =
  req_id :: uuid
  req_order_id :: uuid
  req_command :: order_command
  req_decision :: request_decision
  req_digest :: string

record applied_config =
  ac_symbol :: string
  ac_version :: int
  ac_command_id :: "uuid option"
  ac_command_digest :: "string option"

record virtual_stop_binding =
  vb_symbol :: string
  vb_version :: int
  vb_rule_kind :: rule_kind
  vb_threshold :: string

record stop_rule_assignment =
  sa_fill_event_id :: uuid
  sa_symbol :: string
  sa_qty :: int
  sa_rule_version :: int

record stop_latch =
  sl_symbol :: string
  sl_rule_version :: int
  sl_rule_kind :: rule_kind
  sl_quote_price :: string
  sl_quote_received_at :: datetime

record stop_quote_checkpoint =
  cp_symbol :: string
  cp_price :: string
  cp_received_at :: datetime
  cp_evaluated_at :: datetime

record stop_sell_obligation =
  so_request_id :: uuid
  so_order_id :: uuid
  so_symbol :: string
  so_qty :: int
  so_rule_version :: int

record allocation =
  al_symbol :: string
  al_qty :: int

record control =
  ct_symbol :: string
  entry_stopped :: bool
  liquidating :: bool

definition is_hex64 :: "string \<Rightarrow> bool" where
  "is_hex64 s \<longleftrightarrow> length s = 64 \<and>
     (\<forall>c\<in>set s. is_digit c \<or> (97 \<le> (of_char c :: int) \<and> (of_char c :: int) \<le> 102))"

definition make_applied_config :: "applied_config \<Rightarrow> applied_config result" where
  "make_applied_config c =
     ebind (raise_if (\<not> (is_key (ac_symbol c) \<and> 0 < ac_version c \<and>
              (case ac_command_digest c of None \<Rightarrow> True | Some d \<Rightarrow> is_hex64 d)))
              (ValueError ''APPLIED_CONFIG_INVALID'')) (\<lambda>_.
     ebind (raise_if ((ac_command_id c = None) \<noteq> (ac_command_digest c = None))
              (ValueError ''APPLIED_CONFIG_COMMAND_PROOF_INCOMPLETE'')) (\<lambda>_. Inr c))"

definition make_binding :: "virtual_stop_binding \<Rightarrow> virtual_stop_binding result" where
  "make_binding b =
     ebind (raise_if (\<not> (is_key (vb_symbol b) \<and> 0 < vb_version b \<and> is_price (vb_threshold b)))
              (ValueError ''BINDING_INVALID'')) (\<lambda>_.
     ebind (raise_if (\<not> positive_price (vb_threshold b) \<or>
              (vb_rule_kind b = AVERAGE_COST_DROP \<and>
               dec_le (dec_of_int 1) (dec_of_price (vb_threshold b))))
              (ValueError ''INVALID_STOP_THRESHOLD'')) (\<lambda>_. Inr b))"

definition make_checkpoint :: "stop_quote_checkpoint \<Rightarrow> stop_quote_checkpoint result" where
  "make_checkpoint c =
     ebind (raise_if (\<not> (is_key (cp_symbol c) \<and> is_price (cp_price c) \<and> aware (cp_received_at c) \<and>
              aware (cp_evaluated_at c))) (ValueError ''CHECKPOINT_INVALID'')) (\<lambda>_. Inr c)"

definition make_latch :: "stop_latch \<Rightarrow> stop_latch result" where
  "make_latch l =
     ebind (raise_if (\<not> (is_key (sl_symbol l) \<and> 0 < sl_rule_version l \<and> is_price (sl_quote_price l) \<and>
              aware (sl_quote_received_at l))) (ValueError ''LATCH_INVALID'')) (\<lambda>_. Inr l)"

lemma make_applied_config_Inr: "make_applied_config c = Inr c' \<Longrightarrow> c' = c"
  by (auto simp: make_applied_config_def result_simps)

lemma make_binding_Inr: "make_binding b = Inr b' \<Longrightarrow> b' = b"
  by (auto simp: make_binding_def result_simps)

lemma make_checkpoint_Inr: "make_checkpoint c = Inr c' \<Longrightarrow> c' = c"
  by (auto simp: make_checkpoint_def result_simps)

lemma make_latch_Inr: "make_latch l = Inr l' \<Longrightarrow> l' = l"
  by (auto simp: make_latch_def result_simps)

lemmas make_Inr = make_applied_config_Inr make_binding_Inr make_checkpoint_Inr make_latch_Inr

end
