(* ===== verification/Facts.thy ===== *)
theory Facts
  imports Models
begin

text \<open>
  \<open>execution/facts.py\<close> and \<open>execution/query_evidence.py\<close>: the normalized virtual
  evidence. Each class extends the record of its parent, so \<open>event_id\<close> reads every kind of evidence
  and \<open>order_id\<close>, \<open>evidence_version\<close>, \<open>remaining\<close> every observation.
\<close>

section \<open>Query evidence\<close>

record query_pages =
  expected_pages :: int
  received_pages :: "int list"
  finished :: bool
  qp_error :: "string option"

definition pages_complete :: "query_pages \<Rightarrow> bool" where
  "pages_complete p \<longleftrightarrow>
     finished p \<and> qp_error p = None \<and>
     int (length (received_pages p)) = expected_pages p \<and>
     int (card (set (received_pages p))) = expected_pages p \<and>
     (\<forall>page\<in>set (received_pages p). page \<le> expected_pages p)"

record query_evidence =
  query_id :: uuid
  started_at :: datetime
  finished_at :: datetime
  revision_at_start :: int
  revision_at_finish :: int
  qe_observed_managed :: int
  qe_orders :: query_pages
  qe_fills :: query_pages
  qe_open_orders :: query_pages
  qe_balances :: query_pages

definition evidence_complete :: "query_evidence \<Rightarrow> bool" where
  "evidence_complete q \<longleftrightarrow>
     dt_le (started_at q) (finished_at q) \<and>
     revision_at_start q = revision_at_finish q \<and>
     (\<forall>s\<in>set [qe_orders q, qe_fills q, qe_open_orders q, qe_balances q]. pages_complete s)"

section \<open>Facts\<close>

record evidence =
  event_id :: uuid

record ack = evidence +
  ack_request_id :: uuid
  broker_order_no :: string

record observation = evidence +
  order_id :: uuid
  evidence_version :: int
  remaining :: int

record fill = observation +
  fill_qty :: int
  fill_price :: "string option"
  trading_date :: "date option"

record amended = observation +
  amended_request_id :: uuid
  amended_delta :: int

record cancelled = observation +
  cancelled_request_id :: uuid
  cancelled_qty :: int

datatype transport_state = SENDING | SENT | UNKNOWN | RECONCILING

record transport = evidence +
  transport_request_id :: uuid
  transport_state :: transport_state

record discrepancy = evidence +
  disc_symbol :: string
  disc_reason :: string

record reconciled = evidence +
  discrepancy_id :: uuid
  rec_symbol :: string
  observed_managed :: int
  reviewed_revision :: int
  rec_proof_reference :: string
  rec_query :: query_evidence

record quarantined_fill = evidence +
  qf_broker_order_no :: string
  qf_symbol :: string
  qf_qty :: int
  qf_remaining :: int
  qf_evidence_version :: int

record quarantine_released = evidence +
  quarantine_id :: uuid
  released_fill_id :: uuid
  qr_proof_reference :: string

datatype send_proof = NOT_INVOKED | VERIFIED_UNSENT

record send_failed = evidence +
  sf_request_id :: uuid
  sf_proof :: send_proof
  sf_reason :: string

record rejected = evidence +
  rej_request_id :: uuid
  rej_reason :: string

record effect_rejected = evidence +
  er_request_id :: uuid
  er_reason :: string

datatype fact =
    Ack ack
  | Fill fill
  | Amended amended
  | Cancelled cancelled
  | Transport transport
  | Discrepancy discrepancy
  | Reconciled reconciled
  | QuarantinedFill quarantined_fill
  | QuarantineReleased quarantine_released
  | SendFailed send_failed
  | Rejected rejected
  | EffectRejected effect_rejected

fun fact_id :: "fact \<Rightarrow> uuid" where
  "fact_id (Ack f) = event_id f"
| "fact_id (Fill f) = event_id f"
| "fact_id (Amended f) = event_id f"
| "fact_id (Cancelled f) = event_id f"
| "fact_id (Transport f) = event_id f"
| "fact_id (Discrepancy f) = event_id f"
| "fact_id (Reconciled f) = event_id f"
| "fact_id (QuarantinedFill f) = event_id f"
| "fact_id (QuarantineReleased f) = event_id f"
| "fact_id (SendFailed f) = event_id f"
| "fact_id (Rejected f) = event_id f"
| "fact_id (EffectRejected f) = event_id f"

text \<open>
  Equality of two parsed facts: pydantic compares field values, and aware date-times are equal when
  their instants are, whatever their offsets. Only a reconciliation carries date-times.
\<close>

definition drop_offset :: "datetime \<Rightarrow> datetime" where
  "drop_offset d = d\<lparr>dt_offset := Some 0\<rparr>"

fun fact_norm :: "fact \<Rightarrow> fact" where
  "fact_norm (Reconciled f) = Reconciled (f\<lparr>rec_query := (rec_query f)\<lparr>
     started_at := drop_offset (started_at (rec_query f)),
     finished_at := drop_offset (finished_at (rec_query f))\<rparr>\<rparr>)"
| "fact_norm f = f"

definition fact_eq :: "fact \<Rightarrow> fact \<Rightarrow> bool" where
  "fact_eq f g \<longleftrightarrow> fact_norm f = fact_norm g"

section \<open>Validation of facts\<close>

definition valid_pages :: "query_pages \<Rightarrow> bool" where
  "valid_pages p \<longleftrightarrow> 0 < expected_pages p \<and> (\<forall>n\<in>set (received_pages p). 0 < n) \<and>
     (case qp_error p of None \<Rightarrow> True | Some e \<Rightarrow> is_key e)"

definition valid_query :: "query_evidence \<Rightarrow> bool" where
  "valid_query q \<longleftrightarrow> aware (started_at q) \<and> aware (finished_at q) \<and> 0 \<le> revision_at_start q \<and>
     0 \<le> revision_at_finish q \<and> 0 \<le> qe_observed_managed q \<and>
     (\<forall>s\<in>set [qe_orders q, qe_fills q, qe_open_orders q, qe_balances q]. valid_pages s)"

definition valid_observation :: "'a observation_scheme \<Rightarrow> bool" where
  "valid_observation f \<longleftrightarrow> 0 < evidence_version f \<and> 0 \<le> remaining f"

fun valid_fact :: "fact \<Rightarrow> bool" where
  "valid_fact (Ack f) = is_key (broker_order_no f)"
| "valid_fact (Fill f) = (valid_observation f \<and> 0 < fill_qty f \<and>
     (case fill_price f of None \<Rightarrow> True | Some p \<Rightarrow> is_price p \<and> positive_price p))"
| "valid_fact (Amended f) = valid_observation f"
| "valid_fact (Cancelled f) = (valid_observation f \<and> 0 < cancelled_qty f)"
| "valid_fact (Transport f) = True"
| "valid_fact (Discrepancy f) = (is_key (disc_symbol f) \<and> is_key (disc_reason f))"
| "valid_fact (Reconciled f) = (is_key (rec_symbol f) \<and> 0 \<le> observed_managed f \<and>
     0 \<le> reviewed_revision f \<and> is_key (rec_proof_reference f) \<and> valid_query (rec_query f))"
| "valid_fact (QuarantinedFill f) = (is_key (qf_broker_order_no f) \<and> is_key (qf_symbol f) \<and>
     0 < qf_qty f \<and> 0 \<le> qf_remaining f \<and> 0 < qf_evidence_version f)"
| "valid_fact (QuarantineReleased f) = is_key (qr_proof_reference f)"
| "valid_fact (SendFailed f) = is_key (sf_reason f)"
| "valid_fact (Rejected f) = is_key (rej_reason f)"
| "valid_fact (EffectRejected f) = is_key (er_reason f)"

definition make_fact :: "fact \<Rightarrow> fact result" where
  "make_fact f = ebind (raise_if (\<not> valid_fact f) (ValueError ''FACT_INVALID'')) (\<lambda>_. Inr f)"

section \<open>Lemmas\<close>

lemma fact_norm_id [simp]: "fact_id (fact_norm f) = fact_id f"
  by (cases f) simp_all

lemma fact_norm_idem [simp]: "fact_norm (fact_norm f) = fact_norm f"
  by (cases f) (simp_all add: drop_offset_def)

lemma fact_eq_refl [simp]: "fact_eq f f"
  by (simp add: fact_eq_def)

lemma fact_eq_sym: "fact_eq f g \<Longrightarrow> fact_eq g f"
  by (simp add: fact_eq_def)

lemma fact_eq_trans: "fact_eq f g \<Longrightarrow> fact_eq g h \<Longrightarrow> fact_eq f h"
  by (simp add: fact_eq_def)

lemma fact_eq_id: "fact_eq f g \<Longrightarrow> fact_id f = fact_id g"
  by (metis fact_eq_def fact_norm_id)

text \<open>A complete section received exactly the pages 1 to the expected count, each once.\<close>

lemma pages_complete_perm:
  assumes "valid_pages p"
  shows "pages_complete p \<longleftrightarrow>
    finished p \<and> qp_error p = None \<and> distinct (received_pages p) \<and>
    set (received_pages p) = {1..expected_pages p}"
proof -
  let ?R = "received_pages p" and ?n = "expected_pages p"
  have pos: "0 < ?n" and pos': "\<forall>x\<in>set ?R. 1 \<le> x"
    using assms by (auto simp: valid_pages_def)
  have "int (length ?R) = ?n \<and> int (card (set ?R)) = ?n \<and> (\<forall>x\<in>set ?R. x \<le> ?n) \<longleftrightarrow>
    distinct ?R \<and> set ?R = {1..?n}"
  proof
    assume l: "int (length ?R) = ?n \<and> int (card (set ?R)) = ?n \<and> (\<forall>x\<in>set ?R. x \<le> ?n)"
    then have "set ?R \<subseteq> {1..?n}" and "card (set ?R) = card {1..?n}" using pos' by auto
    then have "set ?R = {1..?n}" by (simp add: card_subset_eq)
    moreover have "distinct ?R" using l by (intro card_distinct) linarith
    ultimately show "distinct ?R \<and> set ?R = {1..?n}" by simp
  next
    assume r: "distinct ?R \<and> set ?R = {1..?n}"
    then have "length ?R = card {1..?n}" by (metis distinct_card)
    then show "int (length ?R) = ?n \<and> int (card (set ?R)) = ?n \<and> (\<forall>x\<in>set ?R. x \<le> ?n)"
      using r pos by auto
  qed
  then show ?thesis by (auto simp: pages_complete_def)
qed

end
