(* ===== verification/Ownership.thy ===== *)
theory Ownership
  imports Models "HOL-Library.Multiset"
begin

text \<open>
  \<open>execution/ownership.py\<close>: the account lease, a session gate held by one process. Every
  operation runs inside \<open>operation\<close>, which checks that the lease is still held by the calling
  process; the mutex makes these operations atomic, so each is one function here. The operating
  system's file locks are a list of locked paths; the digest that names the lock file is the
  parameter \<open>sha\<close>.
\<close>

record lease =
  ls_scope :: scope
  ls_pid :: int
  ls_held :: bool
  ls_ready :: bool
  ls_database :: "string option"

definition new_lease :: "int \<Rightarrow> scope \<Rightarrow> lease" where
  "new_lease pid sc = \<lparr>ls_scope = sc, ls_pid = pid, ls_held = False, ls_ready = False,
     ls_database = None\<rparr>"

definition operation :: "int \<Rightarrow> lease \<Rightarrow> unit result" where
  "operation pid l = ledger_check (\<not> ls_held l \<or> pid \<noteq> ls_pid l) ''ACCOUNT_LOCK_NOT_OWNED''"

definition lease_ready :: "int \<Rightarrow> lease \<Rightarrow> bool" where
  "lease_ready pid l \<longleftrightarrow> ls_held l \<and> ls_ready l \<and> pid = ls_pid l"

text \<open>\<open>path\<close> is the resolved path.\<close>

definition bind_database :: "int \<Rightarrow> string \<Rightarrow> lease \<Rightarrow> lease result" where
  "bind_database pid path l =
     ebind (operation pid l) (\<lambda>_.
     ebind (ledger_check (ls_database l \<noteq> None \<and> ls_database l \<noteq> Some path)
              ''ACCOUNT_LEDGER_ALREADY_BOUND'') (\<lambda>_.
     Inr (l\<lparr>ls_database := Some path\<rparr>)))"

definition require_ready :: "int \<Rightarrow> lease \<Rightarrow> unit result" where
  "require_ready pid l =
     ebind (operation pid l) (\<lambda>_.
     ledger_check (\<not> ls_ready l) ''SESSION_RECONCILIATION_REQUIRED'')"

definition approve_virtual_review :: "int \<Rightarrow> lease \<Rightarrow> lease result" where
  "approve_virtual_review pid l = ebind (operation pid l) (\<lambda>_. Inr (l\<lparr>ls_ready := True\<rparr>))"

definition retire :: "lease \<Rightarrow> lease" where
  "retire l = l\<lparr>ls_held := False, ls_ready := False\<rparr>"

section \<open>Acquisition\<close>

datatype errno = EACCES | EAGAIN | EDEADLK | EOTHER

type_synonym namespace = "string \<times> environment"

definition scope_namespace :: "scope \<Rightarrow> namespace" where
  "scope_namespace sc = (sc_account_id sc, sc_environment sc)"

definition lock_path :: "(namespace \<Rightarrow> string) \<Rightarrow> string \<Rightarrow> scope \<Rightarrow> string" where
  "lock_path sha directory sc = directory @ ''/'' @ sha (scope_namespace sc) @ ''.lock''"

definition acquire_error :: "errno \<Rightarrow> py_error" where
  "acquire_error e = LedgerError (if e \<in> {EACCES, EAGAIN, EDEADLK} then ''ACCOUNT_LOCK_BUSY_READ_ONLY''
     else ''ACCOUNT_LOCK_UNAVAILABLE_READ_ONLY'')"

text \<open>\<open>io\<close> is a failure of creating the directory or opening the file; \<open>LK_NBLCK\<close> fails with
  \<open>EACCES\<close> when the path is locked already.\<close>

definition acquire ::
    "(namespace \<Rightarrow> string) \<Rightarrow> string \<Rightarrow> int \<Rightarrow> scope \<Rightarrow> errno option \<Rightarrow> string list \<Rightarrow>
     (lease \<times> string list) result" where
  "acquire sha directory pid sc io locks =
     (case io of Some e \<Rightarrow> Inl (acquire_error e)
      | None \<Rightarrow> let path = lock_path sha directory sc
        in if path \<in> set locks then Inl (acquire_error EACCES)
           else Inr ((new_lease pid sc)\<lparr>ls_held := True\<rparr>, path # locks))"

definition release ::
    "(namespace \<Rightarrow> string) \<Rightarrow> string \<Rightarrow> lease \<Rightarrow> string list \<Rightarrow> lease \<times> string list" where
  "release sha directory l locks = (retire l, remove1 (lock_path sha directory (ls_scope l)) locks)"

section \<open>The machine of lease holders\<close>

text \<open>The leases handed out so far, by a running number, and the locked paths of one directory.\<close>

record lock_world =
  lw_leases :: "lease list"
  lw_locks :: "string list"

definition lock_world0 :: lock_world where
  "lock_world0 = \<lparr>lw_leases = [], lw_locks = []\<rparr>"

inductive lock_step ::
    "(namespace \<Rightarrow> string) \<Rightarrow> string \<Rightarrow> lock_world \<Rightarrow> lock_world \<Rightarrow> bool"
  for sha directory where
  acquired: "acquire sha directory pid sc io (lw_locks w) = Inr (l, locks) \<Longrightarrow>
     lock_step sha directory w \<lparr>lw_leases = lw_leases w @ [l], lw_locks = locks\<rparr>"
| released: "i < length (lw_leases w) \<Longrightarrow> ls_held (lw_leases w ! i) \<Longrightarrow>
     release sha directory (lw_leases w ! i) (lw_locks w) = (l, locks) \<Longrightarrow>
     lock_step sha directory w \<lparr>lw_leases = (lw_leases w)[i := l], lw_locks = locks\<rparr>"
| approved: "i < length (lw_leases w) \<Longrightarrow> approve_virtual_review pid (lw_leases w ! i) = Inr l \<Longrightarrow>
     lock_step sha directory w (w\<lparr>lw_leases := (lw_leases w)[i := l]\<rparr>)"
| bound: "i < length (lw_leases w) \<Longrightarrow> bind_database pid path (lw_leases w ! i) = Inr l \<Longrightarrow>
     lock_step sha directory w (w\<lparr>lw_leases := (lw_leases w)[i := l]\<rparr>)"

section \<open>Lemmas\<close>

lemma operation_Inr_iff [result_simps]: "operation pid l = Inr u \<longleftrightarrow> ls_held l \<and> pid = ls_pid l"
  by (auto simp: operation_def result_simps)

lemma require_ready_Inr_iff [result_simps]: "require_ready pid l = Inr u \<longleftrightarrow> lease_ready pid l"
  by (auto simp: require_ready_def lease_ready_def result_simps)

lemma retired_not_owned: "operation pid (retire l) = Inl (LedgerError ''ACCOUNT_LOCK_NOT_OWNED'')"
  by (simp add: operation_def retire_def)

text \<open>The held leases' paths are exactly the locked paths, each once.\<close>

definition held_paths :: "(namespace \<Rightarrow> string) \<Rightarrow> string \<Rightarrow> lease list \<Rightarrow> string list" where
  "held_paths sha directory ls =
     map (\<lambda>l. lock_path sha directory (ls_scope l)) (filter ls_held ls)"

definition lock_inv :: "(namespace \<Rightarrow> string) \<Rightarrow> string \<Rightarrow> lock_world \<Rightarrow> bool" where
  "lock_inv sha directory w \<longleftrightarrow>
     mset (held_paths sha directory (lw_leases w)) = mset (lw_locks w) \<and> distinct (lw_locks w)"

end
