(* ===== verification/Storage.thy ===== *)
theory Storage
  imports Facts Ownership "HOL-Library.List_Lexorder" "HOL-Library.Char_ord"
begin

text \<open>
  \<open>execution/storage.py\<close>: the append-only SQLite journal with its transactional outbox and the
  quote cursors. A table is the list of its rows. The JSON text of a pydantic record is represented by
  the record itself: a payload is a tagged record, and reading a row whose kind does not match its
  payload fails as validation would. A transaction body is a function from the database to a
  result and the new database, so a raised exception leaves the database as it was.
\<close>

datatype entry_kind =
    KRequest | KFact | KAllocation | KControl | KConfig | KStopBinding | KStopAssignment
  | KStopLatch | KStopSellObligation

datatype payload =
    PRequest request
  | PFact fact
  | PAllocation allocation
  | PControl control
  | PConfig applied_config
  | PStopBinding virtual_stop_binding
  | PStopAssignment stop_rule_assignment
  | PStopLatch stop_latch
  | PStopSellObligation stop_sell_obligation

fun payload_kind :: "payload \<Rightarrow> entry_kind" where
  "payload_kind (PRequest _) = KRequest"
| "payload_kind (PFact _) = KFact"
| "payload_kind (PAllocation _) = KAllocation"
| "payload_kind (PControl _) = KControl"
| "payload_kind (PConfig _) = KConfig"
| "payload_kind (PStopBinding _) = KStopBinding"
| "payload_kind (PStopAssignment _) = KStopAssignment"
| "payload_kind (PStopLatch _) = KStopLatch"
| "payload_kind (PStopSellObligation _) = KStopSellObligation"

record journal_entry =
  en_kind :: entry_kind
  en_key :: string
  en_payload :: payload

record row =
  row_seq :: int
  row_scope :: scope
  row_kind :: entry_kind
  row_key :: string
  row_payload :: payload

record cursor =
  cur_scope :: scope
  cur_checkpoint :: stop_quote_checkpoint

text \<open>\<open>sqlite_master\<close> as the list of named objects, a table or not.\<close>

record db =
  db_objects :: "(bool \<times> string) list"
  db_version :: int
  db_journal :: "row list"
  db_outbox :: "(int \<times> payload) list"
  db_cursors :: "cursor list"

definition empty_db :: db where
  "empty_db = \<lparr>db_objects = [], db_version = 0, db_journal = [], db_outbox = [], db_cursors = []\<rparr>"

record journal =
  requests :: "request list"
  facts :: "fact list"
  allocations :: "allocation list"
  controls :: "control list"
  configs :: "applied_config list"
  stop_bindings :: "virtual_stop_binding list"
  stop_assignments :: "stop_rule_assignment list"
  stop_latches :: "stop_latch list"
  stop_quotes :: "stop_quote_checkpoint list"
  stop_sell_obligations :: "stop_sell_obligation list"

definition revision :: "journal \<Rightarrow> int" where
  "revision j = int (length (requests j) + length (facts j) + length (allocations j) +
     length (controls j) + length (configs j) + length (stop_bindings j) +
     length (stop_assignments j) + length (stop_latches j) + length (stop_sell_obligations j))"

section \<open>Opening a database\<close>

definition schema_objects :: "(bool \<times> string) list" where
  "schema_objects = [(True, ''journal''), (True, ''outbox''), (False, ''publish''),
     (True, ''stop_quote_cursors'')]"

definition schema_names :: "string list" where
  "schema_names = map snd schema_objects"

definition initialize_schema :: "db \<Rightarrow> db result" where
  "initialize_schema d =
     (if filter fst (db_objects d) = []
      then Inr (d\<lparr>db_objects := db_objects d @ schema_objects, db_version := 2\<rparr>)
      else let object_count = length (filter (\<lambda>(_, n). n \<in> set schema_names) (db_objects d));
               migrate = (db_version d = 1 \<and> object_count = 3);
               d' = (if migrate then d\<lparr>db_objects := db_objects d @ [(True, ''stop_quote_cursors'')],
                       db_version := 2\<rparr> else d);
               object_count' = (if migrate then 4 else object_count)
           in ebind (ledger_check (object_count' \<noteq> 4) ''UNRECOGNIZED_DATABASE'') (\<lambda>_.
              ebind (ledger_check (db_version d' \<noteq> 2) ''UNSUPPORTED_SCHEMA_VERSION'') (\<lambda>_.
              Inr d')))"

section \<open>Reading\<close>

definition journal_of :: "payload list \<Rightarrow> stop_quote_checkpoint list \<Rightarrow> journal" where
  "journal_of ps quotes =
     \<lparr>requests = List.map_filter (\<lambda>p. case p of PRequest x \<Rightarrow> Some x | _ \<Rightarrow> None) ps,
      facts = List.map_filter (\<lambda>p. case p of PFact x \<Rightarrow> Some x | _ \<Rightarrow> None) ps,
      allocations = List.map_filter (\<lambda>p. case p of PAllocation x \<Rightarrow> Some x | _ \<Rightarrow> None) ps,
      controls = List.map_filter (\<lambda>p. case p of PControl x \<Rightarrow> Some x | _ \<Rightarrow> None) ps,
      configs = List.map_filter (\<lambda>p. case p of PConfig x \<Rightarrow> Some x | _ \<Rightarrow> None) ps,
      stop_bindings = List.map_filter (\<lambda>p. case p of PStopBinding x \<Rightarrow> Some x | _ \<Rightarrow> None) ps,
      stop_assignments =
        List.map_filter (\<lambda>p. case p of PStopAssignment x \<Rightarrow> Some x | _ \<Rightarrow> None) ps,
      stop_latches = List.map_filter (\<lambda>p. case p of PStopLatch x \<Rightarrow> Some x | _ \<Rightarrow> None) ps,
      stop_quotes = quotes,
      stop_sell_obligations =
        List.map_filter (\<lambda>p. case p of PStopSellObligation x \<Rightarrow> Some x | _ \<Rightarrow> None) ps\<rparr>"

definition parse_row :: "row \<Rightarrow> payload result" where
  "parse_row r = (if payload_kind (row_payload r) = row_kind r then Inr (row_payload r)
     else Inl (ValueError ''PAYLOAD_INVALID''))"

definition scope_rows :: "scope \<Rightarrow> db \<Rightarrow> row list" where
  "scope_rows sc d = sort_key row_seq (filter (\<lambda>r. row_scope r = sc) (db_journal d))"

definition scope_quotes :: "scope \<Rightarrow> db \<Rightarrow> stop_quote_checkpoint list" where
  "scope_quotes sc d = sort_key cp_symbol
     (map cur_checkpoint (filter (\<lambda>c. cur_scope c = sc) (db_cursors d)))"

definition read_journal :: "scope \<Rightarrow> db \<Rightarrow> journal result" where
  "read_journal sc d =
     ebind (emap parse_row (scope_rows sc d)) (\<lambda>ps. Inr (journal_of ps (scope_quotes sc d)))"

section \<open>Writing\<close>

definition next_seq :: "db \<Rightarrow> int" where
  "next_seq d = Max (set (0 # map row_seq (db_journal d))) + 1"

text \<open>The insert, its UNIQUE constraint, and the trigger that publishes the payload.\<close>

definition append_entry :: "scope \<Rightarrow> journal_entry \<Rightarrow> db \<Rightarrow> db result" where
  "append_entry sc e d =
     ebind (raise_if (\<exists>r\<in>set (db_journal d). row_scope r = sc \<and> row_kind r = en_kind e \<and>
              row_key r = en_key e) IntegrityError) (\<lambda>_.
     let n = next_seq d
     in ebind (raise_if (n \<in> set (map fst (db_outbox d))) IntegrityError) (\<lambda>_.
        Inr (d\<lparr>db_journal := db_journal d @ [\<lparr>row_seq = n, row_scope = sc, row_kind = en_kind e,
                                         row_key = en_key e, row_payload = en_payload e\<rparr>],
               db_outbox := db_outbox d @ [(n, en_payload e)]\<rparr>)))"

definition entry :: "string \<Rightarrow> payload \<Rightarrow> journal_entry" where
  "entry key p = \<lparr>en_kind = payload_kind p, en_key = key, en_payload = p\<rparr>"

definition checkpoint_stop_quote :: "scope \<Rightarrow> stop_quote_checkpoint \<Rightarrow> db \<Rightarrow> db" where
  "checkpoint_stop_quote sc c d =
     (let same = (\<lambda>x. cur_scope x = sc \<and> cp_symbol (cur_checkpoint x) = cp_symbol c)
      in if \<exists>x\<in>set (db_cursors d). same x
         then d\<lparr>db_cursors := map (\<lambda>x. if same x then x\<lparr>cur_checkpoint := c\<rparr> else x) (db_cursors d)\<rparr>
         else d\<lparr>db_cursors := db_cursors d @ [\<lparr>cur_scope = sc, cur_checkpoint = c\<rparr>]\<rparr>)"

section \<open>Ledger state and transactions\<close>

record ledger =
  lg_db :: db
  lg_lease :: lease
  lg_pid :: int

definition lg_scope :: "ledger \<Rightarrow> scope" where
  "lg_scope L = ls_scope (lg_lease L)"

definition transaction :: "(db \<Rightarrow> ('a \<times> db) result) \<Rightarrow> ledger \<Rightarrow> ('a \<times> ledger) result" where
  "transaction body L =
     ebind (operation (lg_pid L) (lg_lease L)) (\<lambda>_.
     ebind (body (lg_db L)) (\<lambda>(x, d). Inr (x, L\<lparr>lg_db := d\<rparr>)))"

text \<open>Binding the path to the lease persists even when the schema check then fails.\<close>

definition open_storage :: "string \<Rightarrow> int \<Rightarrow> lease \<Rightarrow> db \<Rightarrow> lease \<times> ledger result" where
  "open_storage path pid l d =
     (case bind_database pid path l of
       Inl e \<Rightarrow> (l, Inl e)
     | Inr l' \<Rightarrow> (l', ebind (operation pid l') (\<lambda>_.
         ebind (initialize_schema d) (\<lambda>d'.
         Inr \<lparr>lg_db = d', lg_lease = l', lg_pid = pid\<rparr>))))"

section \<open>The journal as a sequence of payloads\<close>

fun push :: "payload \<Rightarrow> journal \<Rightarrow> journal" where
  "push (PRequest x) j = j\<lparr>requests := requests j @ [x]\<rparr>"
| "push (PFact x) j = j\<lparr>facts := facts j @ [x]\<rparr>"
| "push (PAllocation x) j = j\<lparr>allocations := allocations j @ [x]\<rparr>"
| "push (PControl x) j = j\<lparr>controls := controls j @ [x]\<rparr>"
| "push (PConfig x) j = j\<lparr>configs := configs j @ [x]\<rparr>"
| "push (PStopBinding x) j = j\<lparr>stop_bindings := stop_bindings j @ [x]\<rparr>"
| "push (PStopAssignment x) j = j\<lparr>stop_assignments := stop_assignments j @ [x]\<rparr>"
| "push (PStopLatch x) j = j\<lparr>stop_latches := stop_latches j @ [x]\<rparr>"
| "push (PStopSellObligation x) j = j\<lparr>stop_sell_obligations := stop_sell_obligations j @ [x]\<rparr>"

lemma map_filter_snoc:
  "List.map_filter f (xs @ [x]) = List.map_filter f xs @ (case f x of None \<Rightarrow> [] | Some y \<Rightarrow> [y])"
  by (auto simp: List.map_filter_def split: option.splits)

lemma journal_of_snoc: "journal_of (ps @ [p]) quotes = push p (journal_of ps quotes)"
  by (cases p) (simp_all add: journal_of_def map_filter_snoc)

lemma revision_push [simp]: "revision (push p j) = revision j + 1"
  by (cases p) (simp_all add: revision_def)

lemma push_fields [simp]:
  "requests (push p j) = requests j @ (case p of PRequest x \<Rightarrow> [x] | _ \<Rightarrow> [])"
  "facts (push p j) = facts j @ (case p of PFact x \<Rightarrow> [x] | _ \<Rightarrow> [])"
  "allocations (push p j) = allocations j @ (case p of PAllocation x \<Rightarrow> [x] | _ \<Rightarrow> [])"
  "controls (push p j) = controls j @ (case p of PControl x \<Rightarrow> [x] | _ \<Rightarrow> [])"
  "configs (push p j) = configs j @ (case p of PConfig x \<Rightarrow> [x] | _ \<Rightarrow> [])"
  "stop_bindings (push p j) = stop_bindings j @ (case p of PStopBinding x \<Rightarrow> [x] | _ \<Rightarrow> [])"
  "stop_assignments (push p j) = stop_assignments j @ (case p of PStopAssignment x \<Rightarrow> [x] | _ \<Rightarrow> [])"
  "stop_latches (push p j) = stop_latches j @ (case p of PStopLatch x \<Rightarrow> [x] | _ \<Rightarrow> [])"
  "stop_sell_obligations (push p j) = stop_sell_obligations j @ (case p of PStopSellObligation x \<Rightarrow> [x] | _ \<Rightarrow> [])"
  "stop_quotes (push p j) = stop_quotes j"
  by (cases p; simp)+

declare push.simps [simp del]

text \<open>Well-formed databases: the outbox mirrors the journal, sequence numbers grow, keys are
  unique per scope and kind, and every row parses.\<close>

definition row_id :: "row \<Rightarrow> scope \<times> entry_kind \<times> string" where
  "row_id r = (row_scope r, row_kind r, row_key r)"

definition db_ok :: "db \<Rightarrow> bool" where
  "db_ok d \<longleftrightarrow>
     sorted_wrt (<) (map row_seq (db_journal d)) \<and> (\<forall>r\<in>set (db_journal d). 0 < row_seq r) \<and>
     db_outbox d = map (\<lambda>r. (row_seq r, row_payload r)) (db_journal d) \<and>
     (\<forall>r\<in>set (db_journal d). payload_kind (row_payload r) = row_kind r) \<and>
     distinct (map row_id (db_journal d)) \<and>
     distinct (map (\<lambda>c. (cur_scope c, cp_symbol (cur_checkpoint c))) (db_cursors d))"

lemma next_seq_gt: "r \<in> set (db_journal d) \<Longrightarrow> row_seq r < next_seq d"
  unfolding next_seq_def by (rule zle_add1_eq_le [THEN iffD2], rule Max_ge) auto

lemma next_seq_pos: "0 < next_seq d"
  unfolding next_seq_def by (rule zle_add1_eq_le [THEN iffD2], rule Max_ge) auto

lemma sort_key_sorted_wrt:
  "sorted_wrt (<) (map f xs) \<Longrightarrow> sort_key f xs = xs" for f :: "'a \<Rightarrow> int"
  by (rule sort_key_id_if_sorted, rule strict_sorted_imp_sorted)

lemma sorted_wrt_filter_map:
  "sorted_wrt R (map f xs) \<Longrightarrow> sorted_wrt R (map f (filter P xs))"
  by (induction xs) auto

lemma scope_rows_ok: "db_ok d \<Longrightarrow> scope_rows sc d = filter (\<lambda>r. row_scope r = sc) (db_journal d)"
  unfolding scope_rows_def db_ok_def by (intro sort_key_sorted_wrt sorted_wrt_filter_map) simp

lemma emap_parse_ok:
  "(\<forall>r\<in>set rs. payload_kind (row_payload r) = row_kind r) \<Longrightarrow>
     emap parse_row rs = Inr (map row_payload rs)"
  by (induction rs) (simp_all add: parse_row_def)

lemma read_journal_ok:
  assumes "db_ok d"
  shows "read_journal sc d = Inr (journal_of
    (map row_payload (filter (\<lambda>r. row_scope r = sc) (db_journal d))) (scope_quotes sc d))"
proof -
  have "emap parse_row (scope_rows sc d) = Inr (map row_payload (scope_rows sc d))"
    using assms by (intro emap_parse_ok) (auto simp: scope_rows_ok db_ok_def)
  then show ?thesis using assms by (simp add: read_journal_def scope_rows_ok)
qed

definition key_free :: "scope \<Rightarrow> entry_kind \<Rightarrow> string \<Rightarrow> db \<Rightarrow> bool" where
  "key_free sc k key d \<longleftrightarrow> (sc, k, key) \<notin> row_id ` set (db_journal d)"

lemma append_entry_Inr:
  "append_entry sc e d = Inr d' \<longleftrightarrow> key_free sc (en_kind e) (en_key e) d \<and>
     next_seq d \<notin> set (map fst (db_outbox d)) \<and>
     d' = d\<lparr>db_journal := db_journal d @ [\<lparr>row_seq = next_seq d, row_scope = sc, row_kind = en_kind e,
              row_key = en_key e, row_payload = en_payload e\<rparr>],
            db_outbox := db_outbox d @ [(next_seq d, en_payload e)]\<rparr>"
  by (auto simp: append_entry_def key_free_def row_id_def Let_def result_simps image_iff)

lemma append_entry_ok:
  assumes "db_ok d" and "key_free sc (payload_kind p) key d"
  shows "\<exists>d'. append_entry sc (entry key p) d = Inr d'"
  using assms next_seq_gt [of _ d]
  by (fastforce simp: append_entry_Inr db_ok_def entry_def)

lemma append_entry_db_ok:
  assumes ok: "db_ok d" and app: "append_entry sc (entry key p) d = Inr d'"
  shows "db_ok d'"
  using ok app next_seq_gt [of _ d] next_seq_pos [of d]
  by (auto simp: append_entry_Inr db_ok_def entry_def sorted_wrt_append row_id_def key_free_def)

lemma append_entry_read:
  assumes "db_ok d" and "append_entry sc (entry key p) d = Inr d'"
    and "read_journal sc d = Inr j"
  shows "read_journal sc d' = Inr (push p j)"
proof -
  have "db_ok d'" by (rule append_entry_db_ok [OF assms(1,2)])
  then show ?thesis
    using assms read_journal_ok [of d sc]
    by (simp add: read_journal_ok append_entry_Inr entry_def scope_quotes_def
        journal_of_snoc)
qed

lemma append_entry_other_scope:
  assumes "db_ok d" and "append_entry sc (entry key p) d = Inr d'" and "sc' \<noteq> sc"
  shows "read_journal sc' d' = read_journal sc' d"
proof -
  have "db_ok d'" by (rule append_entry_db_ok [OF assms(1,2)])
  then show ?thesis
    using assms by (simp add: read_journal_ok append_entry_Inr entry_def scope_quotes_def)
qed

end
