(* ===== verification/Outcomes.thy ===== *)
theory Outcomes
  imports Storage
begin

text \<open>
  \<open>execution/outcomes.py\<close>: the transport and effect projection of one request from the
  journal's facts, with contradictory evidence retained.
\<close>

datatype request_transport =
    INTENT_PERSISTED | T_SENDING | T_SENT | T_UNKNOWN | T_RECONCILING
  | ACKED | REJECTED_BY_BROKER | SEND_FAILED

fun observed_transport :: "transport_state \<Rightarrow> request_transport" where
  "observed_transport SENDING = T_SENDING"
| "observed_transport SENT = T_SENT"
| "observed_transport UNKNOWN = T_UNKNOWN"
| "observed_transport RECONCILING = T_RECONCILING"

datatype request_effect = E_CONFIRMED | E_REJECTED | E_UNKNOWN | E_PENDING

record request_status =
  st_transport :: request_transport
  st_effect :: "request_effect option"
  st_conflict :: bool
  st_positive_evidence :: bool
  st_failed :: bool
  st_rejected :: bool

definition in_flight :: "request_transport \<Rightarrow> bool" where
  "in_flight t \<longleftrightarrow> t \<in> {T_SENDING, T_SENT, T_UNKNOWN, T_RECONCILING}"

definition unresolved :: "request_status \<Rightarrow> bool" where
  "unresolved s \<longleftrightarrow> st_conflict s \<or>
     (st_transport s = INTENT_PERSISTED \<and> st_positive_evidence s) \<or>
     in_flight (st_transport s) \<or>
     (st_transport s = ACKED \<and> st_effect s \<in> {Some E_PENDING, Some E_UNKNOWN})"

definition status_effect_settled :: "request_status \<Rightarrow> bool" where
  "status_effect_settled s \<longleftrightarrow> \<not> st_conflict s \<and> st_effect s \<in> {Some E_CONFIRMED, Some E_REJECTED}"

text \<open>The request a fact of one of the seven request-bound classes is about.\<close>

fun fact_request :: "fact \<Rightarrow> uuid option" where
  "fact_request (Ack f) = Some (ack_request_id f)"
| "fact_request (Amended f) = Some (amended_request_id f)"
| "fact_request (Cancelled f) = Some (cancelled_request_id f)"
| "fact_request (EffectRejected f) = Some (er_request_id f)"
| "fact_request (Rejected f) = Some (rej_request_id f)"
| "fact_request (SendFailed f) = Some (sf_request_id f)"
| "fact_request (Transport f) = Some (transport_request_id f)"
| "fact_request _ = None"

fun is_ack :: "fact \<Rightarrow> bool" where "is_ack (Ack _) = True" | "is_ack _ = False"
fun is_effect :: "fact \<Rightarrow> bool" where
  "is_effect (Amended _) = True" | "is_effect (Cancelled _) = True" | "is_effect _ = False"
fun is_effect_rejected :: "fact \<Rightarrow> bool" where
  "is_effect_rejected (EffectRejected _) = True" | "is_effect_rejected _ = False"
fun is_send_failed :: "fact \<Rightarrow> bool" where
  "is_send_failed (SendFailed _) = True" | "is_send_failed _ = False"
fun is_rejected :: "fact \<Rightarrow> bool" where
  "is_rejected (Rejected _) = True" | "is_rejected _ = False"
fun is_fill_of :: "uuid \<Rightarrow> fact \<Rightarrow> bool" where
  "is_fill_of oid (Fill f) = (order_id f = oid)" | "is_fill_of oid _ = False"
fun transport_of :: "fact \<Rightarrow> transport_state option" where
  "transport_of (Transport f) = Some (transport_state f)" | "transport_of _ = None"

definition last_transport :: "fact list \<Rightarrow> request_transport" where
  "last_transport fs = (case rev (List.map_filter transport_of fs) of
     [] \<Rightarrow> INTENT_PERSISTED | t # _ \<Rightarrow> observed_transport t)"

definition request_facts :: "journal \<Rightarrow> request \<Rightarrow> fact list" where
  "request_facts j r = filter (\<lambda>f. fact_request f = Some (req_id r)) (facts j)"

definition status :: "journal \<Rightarrow> request \<Rightarrow> request_status" where
  "status j r =
     (let fs = request_facts j r;
          accepted = (\<exists>f\<in>set fs. is_ack f \<or> is_effect f \<or> is_effect_rejected f);
          confirmed = (\<exists>f\<in>set fs. is_effect f);
          effect_rej = (\<exists>f\<in>set fs. is_effect_rejected f);
          failed = (\<exists>f\<in>set fs. is_send_failed f);
          rejected = (\<exists>f\<in>set fs. is_rejected f);
          changed = is_change (req_command r);
          executed = (\<not> changed \<and> (\<exists>f\<in>set (facts j). is_fill_of (req_order_id r) f));
          transport = (if accepted then ACKED
                       else if rejected then REJECTED_BY_BROKER
                       else if failed then SEND_FAILED
                       else last_transport fs);
          effect = (if \<not> changed then None
                    else if confirmed then Some E_CONFIRMED
                    else if failed \<or> rejected \<or> effect_rej then Some E_REJECTED
                    else if transport \<in> {T_UNKNOWN, T_RECONCILING} then Some E_UNKNOWN
                    else Some E_PENDING);
          conflict = ((failed \<or> rejected) \<and> (accepted \<or> executed) \<or> failed \<and> rejected \<or>
                      confirmed \<and> effect_rej)
      in \<lparr>st_transport = transport, st_effect = effect, st_conflict = conflict,
          st_positive_evidence = (accepted \<or> executed), st_failed = failed, st_rejected = rejected\<rparr>)"

definition request_state :: "journal \<Rightarrow> request \<Rightarrow> request_transport" where
  "request_state j r = st_transport (status j r)"

definition effect_confirmed :: "journal \<Rightarrow> request \<Rightarrow> bool" where
  "effect_confirmed j r \<longleftrightarrow> st_effect (status j r) = Some E_CONFIRMED"

definition effect_settled :: "journal \<Rightarrow> request \<Rightarrow> bool" where
  "effect_settled j r \<longleftrightarrow> status_effect_settled (status j r)"

section \<open>Lemmas\<close>

lemma last_transport_snoc:
  "last_transport (fs @ [f]) =
     (case transport_of f of None \<Rightarrow> last_transport fs | Some t \<Rightarrow> observed_transport t)"
  by (simp add: last_transport_def map_filter_snoc split: option.splits)

lemma observed_in_flight [simp]: "in_flight (observed_transport t)"
  by (cases t) (simp_all add: in_flight_def)

lemma observed_not_intent [simp]: "observed_transport t \<noteq> INTENT_PERSISTED"
  by (cases t) simp_all

lemma last_transport_cases:
  "last_transport fs = INTENT_PERSISTED \<or> in_flight (last_transport fs)"
  by (simp add: last_transport_def split: list.splits)

lemma last_transport_intent_iff:
  "last_transport fs = INTENT_PERSISTED \<longleftrightarrow> (\<forall>f\<in>set fs. transport_of f = None)"
proof (induction fs rule: rev_induct)
  case (snoc f fs)
  then show ?case by (auto simp: last_transport_snoc split: option.splits)
qed (simp add: last_transport_def)

lemma last_transport_not_terminal [simp]:
  "last_transport fs \<noteq> ACKED" "last_transport fs \<noteq> REJECTED_BY_BROKER"
  "last_transport fs \<noteq> SEND_FAILED"
  using last_transport_cases [of fs] by (auto simp: in_flight_def)

text \<open>Every field of a status in terms of the facts it reads.\<close>

lemma request_facts_set:
  "f \<in> set (request_facts j r) \<longleftrightarrow> f \<in> set (facts j) \<and> fact_request f = Some (req_id r)"
  by (auto simp: request_facts_def)

definition accepted_by :: "journal \<Rightarrow> request \<Rightarrow> bool" where
  "accepted_by j r \<longleftrightarrow>
     (\<exists>f\<in>set (request_facts j r). is_ack f \<or> is_effect f \<or> is_effect_rejected f)"

definition executed_by :: "journal \<Rightarrow> request \<Rightarrow> bool" where
  "executed_by j r \<longleftrightarrow> is_new (req_command r) \<and>
     (\<exists>f\<in>set (facts j). is_fill_of (req_order_id r) f)"

definition failed_by :: "journal \<Rightarrow> request \<Rightarrow> bool" where
  "failed_by j r \<longleftrightarrow> (\<exists>f\<in>set (request_facts j r). is_send_failed f)"

definition rejected_by :: "journal \<Rightarrow> request \<Rightarrow> bool" where
  "rejected_by j r \<longleftrightarrow> (\<exists>f\<in>set (request_facts j r). is_rejected f)"

definition confirmed_by :: "journal \<Rightarrow> request \<Rightarrow> bool" where
  "confirmed_by j r \<longleftrightarrow> (\<exists>f\<in>set (request_facts j r). is_effect f)"

definition effect_rejected_by :: "journal \<Rightarrow> request \<Rightarrow> bool" where
  "effect_rejected_by j r \<longleftrightarrow> (\<exists>f\<in>set (request_facts j r). is_effect_rejected f)"

lemmas status_parts = accepted_by_def executed_by_def failed_by_def rejected_by_def
  confirmed_by_def effect_rejected_by_def

lemma status_failed [simp]: "st_failed (status j r) = failed_by j r"
  and status_rejected [simp]: "st_rejected (status j r) = rejected_by j r"
  and status_positive [simp]: "st_positive_evidence (status j r) = (accepted_by j r \<or> executed_by j r)"
  by (auto simp: status_def Let_def status_parts)

lemma status_conflict:
  "st_conflict (status j r) \<longleftrightarrow>
     (failed_by j r \<or> rejected_by j r) \<and> (accepted_by j r \<or> executed_by j r) \<or>
     failed_by j r \<and> rejected_by j r \<or> confirmed_by j r \<and> effect_rejected_by j r"
  by (auto simp: status_def Let_def status_parts)

lemma status_transport:
  "st_transport (status j r) =
     (if accepted_by j r then ACKED else if rejected_by j r then REJECTED_BY_BROKER
      else if failed_by j r then SEND_FAILED else last_transport (request_facts j r))"
  by (simp add: status_def Let_def status_parts)

lemma status_effect:
  "st_effect (status j r) =
     (if is_new (req_command r) then None
      else if confirmed_by j r then Some E_CONFIRMED
      else if failed_by j r \<or> rejected_by j r \<or> effect_rejected_by j r then Some E_REJECTED
      else if st_transport (status j r) \<in> {T_UNKNOWN, T_RECONCILING} then Some E_UNKNOWN
      else Some E_PENDING)"
  by (simp add: status_def Let_def status_parts)

lemma status_acked_iff [simp]: "st_transport (status j r) = ACKED \<longleftrightarrow> accepted_by j r"
  by (simp add: status_transport)

text \<open>Only the facts matter, and only as a set, except for the last transport observation.\<close>

lemma status_facts_cong: "facts j = facts j' \<Longrightarrow> status j r = status j' r"
  by (simp add: status_def request_facts_def)

lemma status_set_cong:
  assumes "set (facts j) = set (facts j')"
  shows "accepted_by j r = accepted_by j' r" and "executed_by j r = executed_by j' r"
    and "failed_by j r = failed_by j' r" and "rejected_by j r = rejected_by j' r"
    and "confirmed_by j r = confirmed_by j' r" and "effect_rejected_by j r = effect_rejected_by j' r"
  using assms by (auto simp: status_parts request_facts_set)

text \<open>Evidence never goes away.\<close>

lemma request_facts_mono:
  "set (facts j) \<subseteq> set (facts j') \<Longrightarrow> set (request_facts j r) \<subseteq> set (request_facts j' r)"
  by (auto simp: request_facts_set)

lemma status_mono:
  assumes "set (facts j) \<subseteq> set (facts j')"
  shows "accepted_by j r \<Longrightarrow> accepted_by j' r" and "executed_by j r \<Longrightarrow> executed_by j' r"
    and "failed_by j r \<Longrightarrow> failed_by j' r" and "rejected_by j r \<Longrightarrow> rejected_by j' r"
    and "confirmed_by j r \<Longrightarrow> confirmed_by j' r"
    and "effect_rejected_by j r \<Longrightarrow> effect_rejected_by j' r"
  unfolding status_parts using assms request_facts_mono [OF assms, of r] by blast+

lemma conflict_mono:
  "set (facts j) \<subseteq> set (facts j') \<Longrightarrow> st_conflict (status j r) \<Longrightarrow> st_conflict (status j' r)"
  unfolding status_conflict using status_mono by meson

lemma request_state_intent_iff:
  "request_state j r = INTENT_PERSISTED \<longleftrightarrow>
     (\<forall>f\<in>set (request_facts j r). transport_of f = None \<and> \<not> is_ack f \<and> \<not> is_effect f \<and>
        \<not> is_effect_rejected f \<and> \<not> is_rejected f \<and> \<not> is_send_failed f)"
  by (auto simp: request_state_def status_transport last_transport_intent_iff status_parts)

lemma request_state_intent_iff':
  "request_state j r = INTENT_PERSISTED \<longleftrightarrow> request_facts j r = []"
proof -
  have "fact_request f = None" if "transport_of f = None" "\<not> is_ack f" "\<not> is_effect f"
    "\<not> is_effect_rejected f" "\<not> is_rejected f" "\<not> is_send_failed f" for f
    using that by (cases f) simp_all
  then show ?thesis
    unfolding request_state_intent_iff
    by (metis (no_types, lifting) request_facts_set last_in_set list.set(1) empty_iff
        option.distinct(1))
qed

lemma left_intent_forever:
  "set (facts j) \<subseteq> set (facts j') \<Longrightarrow> request_state j r \<noteq> INTENT_PERSISTED \<Longrightarrow>
     request_state j' r \<noteq> INTENT_PERSISTED"
  unfolding request_state_intent_iff' by (metis request_facts_mono set_empty subset_empty)

lemma effect_settled_iff:
  "effect_settled j r \<longleftrightarrow> \<not> st_conflict (status j r) \<and> is_change (req_command r) \<and>
     (confirmed_by j r \<or> failed_by j r \<or> rejected_by j r \<or> effect_rejected_by j r)"
proof -
  have "st_effect (status j r) \<in> {Some E_CONFIRMED, Some E_REJECTED} \<longleftrightarrow> is_change (req_command r) \<and>
     (confirmed_by j r \<or> failed_by j r \<or> rejected_by j r \<or> effect_rejected_by j r)"
    unfolding status_effect by (simp split: if_splits)
  then show ?thesis by (simp add: effect_settled_def status_effect_settled_def)
qed

lemma in_flight_last_transport:
  "in_flight (last_transport fs) \<longleftrightarrow> (\<exists>f\<in>set fs. transport_of f \<noteq> None)"
proof -
  have "\<not> in_flight INTENT_PERSISTED" by (simp add: in_flight_def)
  then show ?thesis using last_transport_cases [of fs] last_transport_intent_iff [of fs] by metis
qed

end
