(* ===== verification/Projection.thy ===== *)
theory Projection
  imports Outcomes
begin

text \<open>
  \<open>execution/projection.py\<close>: the pure quantity projections of an order and of a symbol's
  portfolio from the journal, and the cost and rule evidence of a stop.
\<close>

record order_record =
  ord_id :: uuid
  original :: int
  delta :: int
  filled :: int
  ord_cancelled :: int
  active :: "int option"
  ord_reserved :: int
  gap :: "int option"
  acknowledged :: bool
  terminal_cancel :: bool
  ord_reconciliation_required :: bool
  ord_link_version :: int
  ord_rejected :: bool
  submission_failed :: bool

datatype order_lifecycle = L_REJECTED | L_CANCELLED | L_FILLED | L_PARTIALLY_FILLED | L_OPEN | L_PENDING

definition lifecycle :: "order_record \<Rightarrow> order_lifecycle" where
  "lifecycle x =
     (if ord_rejected x then L_REJECTED
      else if terminal_cancel x then L_CANCELLED
      else if active x = Some 0 \<and> filled x = original x + delta x \<and> ord_cancelled x = 0
        then L_FILLED
      else if filled x > 0 then L_PARTIALLY_FILLED
      else if acknowledged x then L_OPEN else L_PENDING)"

record portfolio_record =
  managed :: int
  reserved :: int
  protected :: int
  liquidation :: int
  pf_entry_stopped :: bool
  pf_liquidating :: bool
  reconciliation_required :: bool
  sell_uncertain :: bool

definition available :: "portfolio_record \<Rightarrow> int" where
  "available p = (if reconciliation_required p \<or> sell_uncertain p then 0
     else max 0 (managed p - reserved p))"

section \<open>Orders\<close>

definition fills_of :: "journal \<Rightarrow> uuid \<Rightarrow> fill list" where
  "fills_of j oid = List.map_filter
     (\<lambda>f. case f of Fill x \<Rightarrow> if order_id x = oid then Some x else None | _ \<Rightarrow> None) (facts j)"

definition cancels_of :: "journal \<Rightarrow> uuid \<Rightarrow> cancelled list" where
  "cancels_of j oid = List.map_filter
     (\<lambda>f. case f of Cancelled x \<Rightarrow> if order_id x = oid then Some x else None | _ \<Rightarrow> None) (facts j)"

definition changes_of :: "journal \<Rightarrow> uuid \<Rightarrow> amended list" where
  "changes_of j oid = List.map_filter
     (\<lambda>f. case f of Amended x \<Rightarrow> if order_id x = oid then Some x else None | _ \<Rightarrow> None) (facts j)"

definition observations_of :: "journal \<Rightarrow> uuid \<Rightarrow> observation list" where
  "observations_of j oid = map observation.truncate (fills_of j oid) @
     map observation.truncate (cancels_of j oid) @ map observation.truncate (changes_of j oid)"

text \<open>\<open>max(xs, key=...)\<close> is the first element with the greatest key.\<close>

fun max_version :: "observation \<Rightarrow> observation list \<Rightarrow> observation" where
  "max_version best [] = best"
| "max_version best (x # xs) =
     max_version (if evidence_version x > evidence_version best then x else best) xs"

definition initial_request :: "journal \<Rightarrow> uuid \<Rightarrow> request option" where
  "initial_request j oid =
     List.find (\<lambda>r. req_order_id r = oid \<and> is_new (req_command r)) (requests j)"

text \<open>The quantity of a new order; \<open>order\<close> applies it to the initial request only.\<close>

fun command_qty :: "order_command \<Rightarrow> int" where
  "command_qty (New c) = new_qty c"
| "command_qty _ = 0"

definition observation_conflict :: "journal \<Rightarrow> uuid \<Rightarrow> bool" where
  "observation_conflict j oid \<longleftrightarrow>
     (\<exists>a\<in>set (observations_of j oid). \<exists>b\<in>set (observations_of j oid).
        evidence_version a = evidence_version b \<and> remaining a \<noteq> remaining b) \<or>
     (\<exists>c\<in>set (cancels_of j oid). \<exists>ob\<in>set (observations_of j oid).
        remaining c = 0 \<and> evidence_version ob > evidence_version c \<and> remaining ob > 0)"

definition order_of_request :: "journal \<Rightarrow> uuid \<Rightarrow> request \<Rightarrow> order_record" where
  "order_of_request j oid initial =
     (let fills = fills_of j oid; cancels = cancels_of j oid; changes = changes_of j oid;
          obs = observations_of j oid;
          qty = command_qty (req_command initial);
          fld = sum_list (map fill_qty fills);
          cnc = sum_list (map cancelled_qty cancels);
          dlt = sum_list (map amended_delta changes);
          outcome = status j initial;
          void = ((st_failed outcome \<or> st_rejected outcome) \<and> \<not> st_positive_evidence outcome);
          ackd = (st_transport outcome = ACKED);
          active0 = (case obs of x # xs \<Rightarrow> Some (remaining (max_version x xs))
                     | [] \<Rightarrow> if ackd then Some qty else None);
          term_cancel = (\<exists>c\<in>set cancels. remaining c = 0);
          active1 = (if term_cancel then Some 0 else active0);
          exposure = qty + dlt - fld - cnc;
          active2 = (if void then Some 0 else active1);
          gp = (case active2 of None \<Rightarrow> None | Some a \<Rightarrow> if void then None else Some (exposure - a))
      in \<lparr>ord_id = oid, original = qty, delta = dlt, filled = fld, ord_cancelled = cnc,
          active = active2,
          ord_reserved = (case oc_side (req_command initial) of
             SELL \<Rightarrow> if void then 0 else max 0 exposure | BUY \<Rightarrow> 0),
          gap = gp, acknowledged = ackd, terminal_cancel = term_cancel,
          ord_reconciliation_required =
            (gp \<notin> {None, Some 0} \<or> observation_conflict j oid \<or> st_conflict outcome \<or> exposure < 0),
          ord_link_version = 1 + int (length changes),
          ord_rejected = st_rejected outcome, submission_failed = st_failed outcome\<rparr>)"

definition order :: "journal \<Rightarrow> uuid \<Rightarrow> order_record result" where
  "order j oid = (case initial_request j oid of
     None \<Rightarrow> Inl (LedgerError ''ORDER_NOT_FOUND'')
   | Some r \<Rightarrow> Inr (order_of_request j oid r))"

section \<open>Portfolio\<close>

definition resolved_discrepancies :: "journal \<Rightarrow> string \<Rightarrow> uuid set" where
  "resolved_discrepancies j symb = set (List.map_filter
     (\<lambda>f. case f of Reconciled x \<Rightarrow> if rec_symbol x = symb then Some (discrepancy_id x) else None
        | _ \<Rightarrow> None) (facts j))"

definition released_quarantines :: "journal \<Rightarrow> uuid set" where
  "released_quarantines j = set (List.map_filter
     (\<lambda>f. case f of QuarantineReleased x \<Rightarrow> Some (quarantine_id x) | _ \<Rightarrow> None) (facts j))"

definition open_discrepancy :: "journal \<Rightarrow> string \<Rightarrow> bool" where
  "open_discrepancy j symb \<longleftrightarrow>
     (\<exists>f\<in>set (facts j). case f of
        Discrepancy x \<Rightarrow> disc_symbol x = symb \<and> event_id x \<notin> resolved_discrepancies j symb
      | _ \<Rightarrow> False) \<or>
     (\<exists>f\<in>set (facts j). case f of
        QuarantinedFill x \<Rightarrow> qf_symbol x = symb \<and> event_id x \<notin> released_quarantines j
      | _ \<Rightarrow> False)"

text \<open>The running values of the loop over requests.\<close>

record portfolio_sums =
  ps_managed :: int
  ps_reserved :: int
  ps_discrepancy :: bool
  ps_uncertain :: bool

definition request_uncertain :: "journal \<Rightarrow> request \<Rightarrow> bool" where
  "request_uncertain j r \<longleftrightarrow> req_decision r = REQ_ACCEPTED \<and> oc_side (req_command r) = SELL \<and>
     (in_flight (request_state j r) \<or> is_change (req_command r) \<and> \<not> effect_settled j r)"

definition portfolio_step ::
    "journal \<Rightarrow> string \<Rightarrow> request \<Rightarrow> portfolio_sums \<Rightarrow> portfolio_sums result" where
  "portfolio_step j symb r s =
     (if oc_symbol (req_command r) \<noteq> symb then Inr s
      else let s1 = s\<lparr>ps_discrepancy := ps_discrepancy s \<or> st_conflict (status j r)\<rparr>
      in ebind (if is_new (req_command r)
           then ebind (order j (req_order_id r)) (\<lambda>x. Inr (s1\<lparr>
                  ps_reserved := ps_reserved s1 + ord_reserved x,
                  ps_discrepancy := ps_discrepancy s1 \<or> ord_reconciliation_required x,
                  ps_managed := (case oc_side (req_command r) of
                     BUY \<Rightarrow> ps_managed s1 + filled x | SELL \<Rightarrow> ps_managed s1 - filled x)\<rparr>))
           else Inr s1)
         (\<lambda>s2. Inr (s2\<lparr>ps_uncertain := ps_uncertain s2 \<or> request_uncertain j r\<rparr>)))"

definition symbol_controls :: "journal \<Rightarrow> string \<Rightarrow> control list" where
  "symbol_controls j symb = filter (\<lambda>c. ct_symbol c = symb) (controls j)"

definition allocated :: "journal \<Rightarrow> string \<Rightarrow> int" where
  "allocated j symb = sum_list (map al_qty (filter (\<lambda>a. al_symbol a = symb) (allocations j)))"

definition portfolio :: "journal \<Rightarrow> string \<Rightarrow> portfolio_record result" where
  "portfolio j symb =
     ebind (efold (portfolio_step j symb) (requests j)
              \<lparr>ps_managed = allocated j symb, ps_reserved = 0,
               ps_discrepancy = open_discrepancy j symb, ps_uncertain = False\<rparr>) (\<lambda>s.
     let cs = symbol_controls j symb;
         stopped = (cs \<noteq> [] \<and> entry_stopped (last cs));
         liq = (cs \<noteq> [] \<and> liquidating (last cs))
     in Inr \<lparr>managed = ps_managed s, reserved = ps_reserved s,
             protected = max 0 (ps_managed s),
             liquidation = (if liq then max 0 (ps_managed s) else 0),
             pf_entry_stopped = stopped, pf_liquidating = liq,
             reconciliation_required = (ps_discrepancy s \<or> ps_uncertain s \<or> ps_managed s < 0 \<or>
                                        ps_reserved s > ps_managed s),
             sell_uncertain = ps_uncertain s\<rparr>)"

section \<open>Stop evidence\<close>

record stop_cost_basis =
  scb_qty :: int
  scb_average_cost :: decimal
  scb_rule_version :: int

record stop_holdings =
  sh_qty :: int
  sh_rule_version :: int

text \<open>The dict of the symbol's new orders: a later request with the same order id replaces the earlier
  value, so a look-up takes the last one.\<close>

definition symbol_order :: "journal \<Rightarrow> string \<Rightarrow> uuid \<Rightarrow> order_command option" where
  "symbol_order j symb oid = map_option req_command (List.find (\<lambda>r. req_order_id r = oid \<and>
     is_new (req_command r) \<and> oc_symbol (req_command r) = symb) (rev (requests j)))"

definition all_fills :: "journal \<Rightarrow> fill list" where
  "all_fills j = List.map_filter (\<lambda>f. case f of Fill x \<Rightarrow> Some x | _ \<Rightarrow> None) (facts j)"

definition symbol_fills :: "journal \<Rightarrow> string \<Rightarrow> fill list" where
  "symbol_fills j symb = filter (\<lambda>f. symbol_order j symb (order_id f) \<noteq> None) (all_fills j)"

definition symbol_buy_fills :: "journal \<Rightarrow> string \<Rightarrow> fill list" where
  "symbol_buy_fills j symb = filter
     (\<lambda>f. map_option oc_side (symbol_order j symb (order_id f)) = Some BUY) (all_fills j)"

definition assignment_of :: "journal \<Rightarrow> uuid \<Rightarrow> stop_rule_assignment option" where
  "assignment_of j eid = List.find (\<lambda>a. sa_fill_event_id a = eid) (rev (stop_assignments j))"

definition assigned_version :: "journal \<Rightarrow> string \<Rightarrow> fill \<Rightarrow> int option" where
  "assigned_version j symb f = (case assignment_of j (event_id f) of
     None \<Rightarrow> None
   | Some a \<Rightarrow> if sa_symbol a = symb \<and> sa_qty a = fill_qty f then Some (sa_rule_version a) else None)"

definition find_binding :: "journal \<Rightarrow> string \<Rightarrow> int \<Rightarrow> virtual_stop_binding option" where
  "find_binding j symb v =
     List.find (\<lambda>b. vb_symbol b = symb \<and> vb_version b = v) (stop_bindings j)"

definition confirmed_stop_holdings :: "journal \<Rightarrow> string \<Rightarrow> stop_holdings option result" where
  "confirmed_stop_holdings j symb =
     (let fills = symbol_buy_fills j symb;
          versions = List.map_filter (assigned_version j symb) fills
      in if \<exists>a\<in>set (allocations j). al_symbol a = symb \<and> al_qty a > 0 then Inr None
         else if fills = [] then Inr None
         else (case remdups versions of
           [v] \<Rightarrow>
             if length fills \<noteq> length versions then Inr None
             else if find_binding j symb v = None then Inr None
             else ebind (portfolio j symb) (\<lambda>p.
               if managed p \<le> 0 \<or> reconciliation_required p then Inr None
               else Inr (Some \<lparr>sh_qty = managed p, sh_rule_version = v\<rparr>))
         | _ \<Rightarrow> Inr None))"

definition price_times_qty :: "fill \<Rightarrow> decimal option" where
  "price_times_qty f =
     map_option (\<lambda>p. dec_mul (dec_of_price p) (dec_of_int (fill_qty f))) (fill_price f)"

definition fills_cost :: "fill list \<Rightarrow> decimal" where
  "fills_cost fs = foldl dec_add (dec_of_int 0) (List.map_filter price_times_qty fs)"

definition confirmed_stop_cost_basis :: "journal \<Rightarrow> string \<Rightarrow> stop_cost_basis option result" where
  "confirmed_stop_cost_basis j symb =
     ebind (confirmed_stop_holdings j symb) (\<lambda>h. case h of
       None \<Rightarrow> Inr None
     | Some holdings \<Rightarrow>
         let fills = symbol_fills j symb; qty = sum_list (map fill_qty fills)
         in if \<exists>f\<in>set fills. map_option oc_side (symbol_order j symb (order_id f)) = Some SELL \<or>
                 fill_price f = None then Inr None
            else if qty \<noteq> sh_qty holdings then Inr None
            else Inr (Some \<lparr>scb_qty = qty,
                            scb_average_cost = dec_div (fills_cost fills) (dec_of_int qty),
                            scb_rule_version = sh_rule_version holdings\<rparr>))"

definition buy_order_average_cost :: "journal \<Rightarrow> uuid \<Rightarrow> decimal option result" where
  "buy_order_average_cost j oid = (case initial_request j oid of
     None \<Rightarrow> Inl (LedgerError ''ORDER_NOT_FOUND'')
   | Some r \<Rightarrow>
       if oc_side (req_command r) \<noteq> BUY then Inl (LedgerError ''BUY_ORDER_REQUIRED'')
       else let fills = fills_of j oid
         in if fills = [] \<or> (\<exists>f\<in>set fills. fill_price f = None) then Inr None
            else Inr (Some (dec_div (fills_cost fills)
                   (dec_of_int (sum_list (map fill_qty fills))))))"

section \<open>Closed forms\<close>

text \<open>The order of a request of the journal, and the portfolio as sums over the symbol's requests.
  The loop of \<^const>\<open>portfolio\<close> never raises, because every order it looks up is in the journal.\<close>

definition order_view :: "journal \<Rightarrow> request \<Rightarrow> order_record" where
  "order_view j r =
     order_of_request j (req_order_id r) (the (initial_request j (req_order_id r)))"

definition symbol_requests :: "journal \<Rightarrow> string \<Rightarrow> request list" where
  "symbol_requests j symb = filter (\<lambda>r. oc_symbol (req_command r) = symb) (requests j)"

definition signed_fill :: "journal \<Rightarrow> request \<Rightarrow> int" where
  "signed_fill j r = (if is_new (req_command r)
     then (if oc_side (req_command r) = BUY then filled (order_view j r)
           else - filled (order_view j r)) else 0)"

definition request_reserved :: "journal \<Rightarrow> request \<Rightarrow> int" where
  "request_reserved j r = (if is_new (req_command r) then ord_reserved (order_view j r) else 0)"

definition request_discrepancy :: "journal \<Rightarrow> request \<Rightarrow> bool" where
  "request_discrepancy j r \<longleftrightarrow> st_conflict (status j r) \<or>
     is_new (req_command r) \<and> ord_reconciliation_required (order_view j r)"

definition managed_of :: "journal \<Rightarrow> string \<Rightarrow> int" where
  "managed_of j symb = allocated j symb + sum_list (map (signed_fill j) (symbol_requests j symb))"

definition reserved_of :: "journal \<Rightarrow> string \<Rightarrow> int" where
  "reserved_of j symb = sum_list (map (request_reserved j) (symbol_requests j symb))"

definition discrepancy_of :: "journal \<Rightarrow> string \<Rightarrow> bool" where
  "discrepancy_of j symb \<longleftrightarrow> open_discrepancy j symb \<or>
     (\<exists>r\<in>set (symbol_requests j symb). request_discrepancy j r)"

definition uncertain_of :: "journal \<Rightarrow> string \<Rightarrow> bool" where
  "uncertain_of j symb \<longleftrightarrow> (\<exists>r\<in>set (symbol_requests j symb). request_uncertain j r)"

definition entry_stopped_of :: "journal \<Rightarrow> string \<Rightarrow> bool" where
  "entry_stopped_of j symb \<longleftrightarrow> symbol_controls j symb \<noteq> [] \<and>
     entry_stopped (last (symbol_controls j symb))"

definition liquidating_of :: "journal \<Rightarrow> string \<Rightarrow> bool" where
  "liquidating_of j symb \<longleftrightarrow> symbol_controls j symb \<noteq> [] \<and>
     liquidating (last (symbol_controls j symb))"

definition portfolio_view :: "journal \<Rightarrow> string \<Rightarrow> portfolio_record" where
  "portfolio_view j symb =
     \<lparr>managed = managed_of j symb, reserved = reserved_of j symb,
      protected = max 0 (managed_of j symb),
      liquidation = (if liquidating_of j symb then max 0 (managed_of j symb) else 0),
      pf_entry_stopped = entry_stopped_of j symb, pf_liquidating = liquidating_of j symb,
      reconciliation_required = (discrepancy_of j symb \<or> uncertain_of j symb \<or>
        managed_of j symb < 0 \<or> reserved_of j symb > managed_of j symb),
      sell_uncertain = uncertain_of j symb\<rparr>"

lemma order_in_journal:
  assumes "r \<in> set (requests j)" and "is_new (req_command r)"
  shows "order j (req_order_id r) = Inr (order_view j r)"
proof -
  have "\<exists>r'. initial_request j (req_order_id r) = Some r'"
    unfolding initial_request_def using assms by (intro find_exists [of r]) simp_all
  then show ?thesis by (auto simp: order_def order_view_def)
qed

lemma portfolio_fold:
  assumes "set rs \<subseteq> set (requests j)"
  shows "efold (portfolio_step j symb) rs s =
    (let rs' = filter (\<lambda>r. oc_symbol (req_command r) = symb) rs
     in Inr \<lparr>ps_managed = ps_managed s + sum_list (map (signed_fill j) rs'),
             ps_reserved = ps_reserved s + sum_list (map (request_reserved j) rs'),
             ps_discrepancy = (ps_discrepancy s \<or> (\<exists>r\<in>set rs'. request_discrepancy j r)),
             ps_uncertain = (ps_uncertain s \<or> (\<exists>r\<in>set rs'. request_uncertain j r))\<rparr>)"
  using assms
proof (induction rs arbitrary: s)
  case Nil
  then show ?case by (simp add: Let_def)
next
  case (Cons r rs)
  have "is_new (req_command r) \<Longrightarrow> order j (req_order_id r) = Inr (order_view j r)"
    using Cons.prems by (intro order_in_journal) simp_all
  moreover have "portfolio_sums.more s = ()" by simp
  ultimately show ?case using Cons
    by (cases "is_new (req_command r)"; cases "oc_side (req_command r)")
       (simp_all add: portfolio_step_def Let_def signed_fill_def request_reserved_def
          request_discrepancy_def disj_left_commute disj_commute)
qed

theorem portfolio_closed: "portfolio j symb = Inr (portfolio_view j symb)"
  by (simp add: portfolio_def portfolio_fold Let_def portfolio_view_def managed_of_def
      reserved_of_def discrepancy_of_def uncertain_of_def symbol_requests_def
      entry_stopped_of_def liquidating_of_def disj_left_commute disj_commute)

lemma portfolio_view_simps [simp]:
  "managed (portfolio_view j symb) = managed_of j symb"
  "reserved (portfolio_view j symb) = reserved_of j symb"
  "sell_uncertain (portfolio_view j symb) = uncertain_of j symb"
  "pf_entry_stopped (portfolio_view j symb) = entry_stopped_of j symb"
  "pf_liquidating (portfolio_view j symb) = liquidating_of j symb"
  by (simp_all add: portfolio_view_def)

lemma reconciliation_required_view:
  "reconciliation_required (portfolio_view j symb) \<longleftrightarrow> discrepancy_of j symb \<or>
     uncertain_of j symb \<or> managed_of j symb < 0 \<or> reserved_of j symb > managed_of j symb"
  by (simp add: portfolio_view_def)

lemma available_bounds:
  "0 \<le> available p" "available p \<le> max 0 (managed p - reserved p)"
  by (simp_all add: available_def)

lemma available_pos:
  "0 < available p \<Longrightarrow> \<not> reconciliation_required p \<and> \<not> sell_uncertain p \<and>
     available p = managed p - reserved p"
  by (auto simp: available_def split: if_splits)

section \<open>Fields of an order\<close>

definition order_void :: "journal \<Rightarrow> request \<Rightarrow> bool" where
  "order_void j r \<longleftrightarrow>
     (failed_by j r \<or> rejected_by j r) \<and> \<not> (accepted_by j r \<or> executed_by j r)"

definition exposure :: "journal \<Rightarrow> uuid \<Rightarrow> int \<Rightarrow> int" where
  "exposure j oid qty = qty + sum_list (map amended_delta (changes_of j oid)) -
     sum_list (map fill_qty (fills_of j oid)) - sum_list (map cancelled_qty (cancels_of j oid))"

lemma order_fields [simp]:
  "ord_id (order_of_request j oid r) = oid"
  "original (order_of_request j oid r) = command_qty (req_command r)"
  "delta (order_of_request j oid r) = sum_list (map amended_delta (changes_of j oid))"
  "filled (order_of_request j oid r) = sum_list (map fill_qty (fills_of j oid))"
  "ord_cancelled (order_of_request j oid r) = sum_list (map cancelled_qty (cancels_of j oid))"
  "acknowledged (order_of_request j oid r) = accepted_by j r"
  "terminal_cancel (order_of_request j oid r) = (\<exists>c\<in>set (cancels_of j oid). remaining c = 0)"
  "ord_link_version (order_of_request j oid r) = 1 + int (length (changes_of j oid))"
  "ord_rejected (order_of_request j oid r) = rejected_by j r"
  "submission_failed (order_of_request j oid r) = failed_by j r"
  by (simp_all add: order_of_request_def Let_def)

lemma order_reserved:
  "ord_reserved (order_of_request j oid r) =
     (if oc_side (req_command r) = SELL \<and> \<not> order_void j r
      then max 0 (exposure j oid (command_qty (req_command r))) else 0)"
  by (cases "oc_side (req_command r)")
     (auto simp: order_of_request_def Let_def order_void_def exposure_def)

lemma order_active:
  "active (order_of_request j oid r) =
     (if order_void j r \<or> (\<exists>c\<in>set (cancels_of j oid). remaining c = 0) then Some 0
      else case observations_of j oid of x # xs \<Rightarrow> Some (remaining (max_version x xs))
      | [] \<Rightarrow> if accepted_by j r then Some (command_qty (req_command r)) else None)"
  by (cases "order_void j r")
     (auto simp: order_of_request_def Let_def order_void_def split: list.splits)

lemma order_gap:
  "gap (order_of_request j oid r) =
     (if order_void j r then None
      else map_option (\<lambda>a. exposure j oid (command_qty (req_command r)) - a)
             (active (order_of_request j oid r)))"
  unfolding order_active
  by (auto simp: order_of_request_def Let_def order_void_def exposure_def split: list.splits)

lemma order_reconciliation:
  "ord_reconciliation_required (order_of_request j oid r) \<longleftrightarrow>
     gap (order_of_request j oid r) \<notin> {None, Some 0} \<or> observation_conflict j oid \<or>
     st_conflict (status j r) \<or> exposure j oid (command_qty (req_command r)) < 0"
  by (simp add: order_of_request_def Let_def exposure_def)

section \<open>What a journal entry leaves unchanged\<close>

lemmas fact_views = fills_of_def cancels_of_def changes_of_def observations_of_def
  open_discrepancy_def resolved_discrepancies_def released_quarantines_def

lemma views_facts_cong:
  assumes "facts j' = facts j"
  shows "fills_of j' = fills_of j" "cancels_of j' = cancels_of j" "changes_of j' = changes_of j"
    "observations_of j' = observations_of j" "open_discrepancy j' = open_discrepancy j"
    "observation_conflict j' = observation_conflict j" "status j' = status j"
proof -
  have r: "resolved_discrepancies j' = resolved_discrepancies j"
    "released_quarantines j' = released_quarantines j"
    by (simp_all add: fun_eq_iff fact_views assms)
  show "open_discrepancy j' = open_discrepancy j"
    unfolding fun_eq_iff open_discrepancy_def r assms by simp
  show v: "fills_of j' = fills_of j" "cancels_of j' = cancels_of j" "changes_of j' = changes_of j"
    by (simp_all add: fun_eq_iff fact_views assms)
  then show o: "observations_of j' = observations_of j"
    by (simp add: fun_eq_iff observations_of_def)
  show "observation_conflict j' = observation_conflict j"
    by (simp add: fun_eq_iff observation_conflict_def o v)
  show "status j' = status j" by (rule ext, rule status_facts_cong, rule assms)
qed

lemma order_of_request_facts:
  "facts j' = facts j \<Longrightarrow> order_of_request j' = order_of_request j"
proof (intro ext)
  fix ident and r :: request
  assume "facts j' = facts j"
  note same = views_facts_cong [OF this]
  show "order_of_request j' ident r = order_of_request j ident r" by (simp only: order_of_request_def same)
qed

definition same_trading :: "journal \<Rightarrow> journal \<Rightarrow> bool" where
  "same_trading j j' \<longleftrightarrow> requests j' = requests j \<and> facts j' = facts j \<and>
     allocations j' = allocations j \<and> controls j' = controls j"

lemma portfolio_same_trading:
  assumes "same_trading j j'"
  shows "portfolio_view j' symb = portfolio_view j symb"
proof -
  have [simp]: "requests j' = requests j" "facts j' = facts j" "allocations j' = allocations j"
    "controls j' = controls j" using assms by (simp_all add: same_trading_def)
  note cong = views_facts_cong [of j' j, simplified]
  have [simp]: "order_view j' r = order_view j r" for r
    by (simp add: order_view_def initial_request_def order_of_request_facts [of j' j])
  have [simp]: "signed_fill j' = signed_fill j" "request_reserved j' = request_reserved j"
    "request_discrepancy j' = request_discrepancy j" "request_uncertain j' = request_uncertain j"
    by (auto simp: fun_eq_iff signed_fill_def request_reserved_def request_discrepancy_def
        request_uncertain_def request_state_def effect_settled_def cong split: side.splits)
  show ?thesis
    by (simp add: portfolio_view_def managed_of_def reserved_of_def discrepancy_of_def
        uncertain_of_def entry_stopped_of_def liquidating_of_def symbol_requests_def
        symbol_controls_def allocated_def cong)
qed

section \<open>A request enters the journal\<close>

definition fresh_order_id :: "journal \<Rightarrow> uuid \<Rightarrow> bool" where
  "fresh_order_id j oid \<longleftrightarrow> (\<forall>r\<in>set (requests j). req_order_id r \<noteq> oid) \<and>
     (\<forall>f\<in>set (facts j). case f of Fill x \<Rightarrow> order_id x \<noteq> oid | Amended x \<Rightarrow> order_id x \<noteq> oid
        | Cancelled x \<Rightarrow> order_id x \<noteq> oid | _ \<Rightarrow> True)"

definition fresh_request_id :: "journal \<Rightarrow> uuid \<Rightarrow> bool" where
  "fresh_request_id j rid \<longleftrightarrow> (\<forall>r\<in>set (requests j). req_id r \<noteq> rid) \<and>
     (\<forall>f\<in>set (facts j). fact_request f \<noteq> Some rid)"

lemma map_filter_Nil_iff: "List.map_filter f xs = [] \<longleftrightarrow> (\<forall>x\<in>set xs. f x = None)"
  by (induction xs) (auto simp: List.map_filter_def)

lemma fresh_order_views:
  assumes "fresh_order_id j oid"
  shows "fills_of j oid = []" "cancels_of j oid = []" "changes_of j oid = []"
    "observations_of j oid = []" "f \<in> set (facts j) \<Longrightarrow> \<not> is_fill_of oid f"
  using assms
  by (cases f; fastforce simp: fact_views map_filter_Nil_iff fresh_order_id_def split: fact.splits)+

lemma push_request_views [simp]:
  "status (push (PRequest r) j) = status j"
  "fills_of (push (PRequest r) j) = fills_of j"
  "cancels_of (push (PRequest r) j) = cancels_of j"
  "changes_of (push (PRequest r) j) = changes_of j"
  "observations_of (push (PRequest r) j) = observations_of j"
  "open_discrepancy (push (PRequest r) j) = open_discrepancy j"
  "order_of_request (push (PRequest r) j) = order_of_request j"
  by (rule views_facts_cong order_of_request_facts; simp)+

lemma push_request_allocated [simp]: "allocated (push (PRequest r) j) = allocated j"
  by (simp add: fun_eq_iff allocated_def)

lemma order_view_push_request:
  assumes "r' \<in> set (requests j)" and "is_new (req_command r')"
  shows "order_view (push (PRequest r) j) r' = order_view j r'"
proof -
  obtain r0 where "initial_request j (req_order_id r') = Some r0"
    using find_exists [OF assms(1)] assms(2) unfolding initial_request_def by force
  then show ?thesis by (simp add: order_view_def initial_request_def find_append)
qed

lemma push_request_old:
  assumes "r' \<in> set (requests j)"
  shows "signed_fill (push (PRequest r) j) r' = signed_fill j r'"
    and "request_reserved (push (PRequest r) j) r' = request_reserved j r'"
    and "request_discrepancy (push (PRequest r) j) r' = request_discrepancy j r'"
    and "request_uncertain (push (PRequest r) j) r' = request_uncertain j r'"
  using order_view_push_request [OF assms]
  by (auto simp: signed_fill_def request_reserved_def request_discrepancy_def
      request_uncertain_def request_state_def effect_settled_def split: side.splits)

lemma push_request_sums:
  fixes r :: request
  defines "own \<equiv> \<lambda>symb. oc_symbol (req_command r) = symb"
  shows "managed_of (push (PRequest r) j) symb =
      managed_of j symb + (if own symb then signed_fill (push (PRequest r) j) r else 0)"
    and "reserved_of (push (PRequest r) j) symb =
      reserved_of j symb + (if own symb then request_reserved (push (PRequest r) j) r else 0)"
    and "discrepancy_of (push (PRequest r) j) symb \<longleftrightarrow>
      discrepancy_of j symb \<or> own symb \<and> request_discrepancy (push (PRequest r) j) r"
    and "uncertain_of (push (PRequest r) j) symb \<longleftrightarrow>
      uncertain_of j symb \<or> own symb \<and> request_uncertain (push (PRequest r) j) r"
proof -
  have old: "symbol_requests (push (PRequest r) j) symb =
      symbol_requests j symb @ (if own symb then [r] else [])"
    by (simp add: symbol_requests_def own_def)
  have in_j: "r' \<in> set (requests j)" if "r' \<in> set (symbol_requests j symb)" for r'
    using that by (simp add: symbol_requests_def)
  have m: "map (signed_fill (push (PRequest r) j)) (symbol_requests j symb) =
      map (signed_fill j) (symbol_requests j symb)"
    and v: "map (request_reserved (push (PRequest r) j)) (symbol_requests j symb) =
      map (request_reserved j) (symbol_requests j symb)"
    using in_j push_request_old by auto
  have d: "(\<exists>r'\<in>set (symbol_requests j symb). request_discrepancy (push (PRequest r) j) r') \<longleftrightarrow>
      (\<exists>r'\<in>set (symbol_requests j symb). request_discrepancy j r')"
    and u: "(\<exists>r'\<in>set (symbol_requests j symb). request_uncertain (push (PRequest r) j) r') \<longleftrightarrow>
      (\<exists>r'\<in>set (symbol_requests j symb). request_uncertain j r')"
    using in_j push_request_old(3,4) by (auto intro!: bex_cong)
  show "managed_of (push (PRequest r) j) symb =
      managed_of j symb + (if own symb then signed_fill (push (PRequest r) j) r else 0)"
    unfolding managed_of_def old map_append sum_list.append m by simp
  show "reserved_of (push (PRequest r) j) symb =
      reserved_of j symb + (if own symb then request_reserved (push (PRequest r) j) r else 0)"
    unfolding reserved_of_def old map_append sum_list.append v by simp
  show "discrepancy_of (push (PRequest r) j) symb \<longleftrightarrow>
      discrepancy_of j symb \<or> own symb \<and> request_discrepancy (push (PRequest r) j) r"
    unfolding discrepancy_of_def old set_append bex_Un d by auto
  show "uncertain_of (push (PRequest r) j) symb \<longleftrightarrow>
      uncertain_of j symb \<or> own symb \<and> request_uncertain (push (PRequest r) j) r"
    unfolding uncertain_of_def old set_append bex_Un u by auto
qed

text \<open>A fresh new order: nothing is filled, a sell reserves its whole quantity, nothing is uncertain.\<close>

lemma fresh_request_status:
  assumes "fresh_request_id j (req_id r)" and "fresh_order_id j (req_order_id r) \<or> \<not> is_new (req_command r)"
  shows "request_facts j r = []" "\<not> accepted_by j r" "\<not> executed_by j r" "\<not> failed_by j r"
    "\<not> rejected_by j r" "\<not> confirmed_by j r" "\<not> effect_rejected_by j r"
    "request_state j r = INTENT_PERSISTED"
proof -
  show nil: "request_facts j r = []"
    using assms(1) by (auto simp: request_facts_def fresh_request_id_def)
  show "\<not> executed_by j r"
    using assms(2) fresh_order_views(5) [of j "req_order_id r"] by (auto simp: executed_by_def)
  show "\<not> accepted_by j r" "\<not> failed_by j r" "\<not> rejected_by j r" "\<not> confirmed_by j r"
    "\<not> effect_rejected_by j r" using nil by (simp_all add: status_parts)
  show "request_state j r = INTENT_PERSISTED" using nil by (simp add: request_state_intent_iff')
qed

lemma push_fresh_new:
  assumes "req_command r = New c" and "fresh_request_id j (req_id r)"
    and fo: "fresh_order_id j (req_order_id r)" and "0 < new_qty c"
  shows "signed_fill (push (PRequest r) j) r = 0"
    and "request_reserved (push (PRequest r) j) r = (if cmd_side c = SELL then new_qty c else 0)"
    and "\<not> request_discrepancy (push (PRequest r) j) r"
    and "\<not> request_uncertain (push (PRequest r) j) r"
proof -
  note st = fresh_request_status [OF assms(2) disjI1 [OF fo]]
  note views = fresh_order_views [OF fo]
  have "List.find (\<lambda>x. req_order_id x = req_order_id r \<and> is_new (req_command x)) (requests j) = None"
    using fo by (auto simp: find_None_iff' fresh_order_id_def)
  then have ov: "order_view (push (PRequest r) j) r = order_of_request j (req_order_id r) r"
    using assms(1) by (simp add: order_view_def initial_request_def find_append)
  have ex: "exposure j (req_order_id r) (command_qty (req_command r)) = new_qty c"
    using assms(1) views by (simp add: exposure_def)
  have nv: "\<not> order_void j r" using st by (simp add: order_void_def)
  show "signed_fill (push (PRequest r) j) r = 0"
    using assms(1) views by (simp add: signed_fill_def ov split: side.splits)
  show "request_reserved (push (PRequest r) j) r = (if cmd_side c = SELL then new_qty c else 0)"
    using assms(1,4) nv ex
    by (cases "cmd_side c") (simp_all add: request_reserved_def ov order_reserved)
  have "gap (order_of_request j (req_order_id r) r) = None"
    using views nv st by (simp add: order_gap order_active)
  then show "\<not> request_discrepancy (push (PRequest r) j) r"
    using st assms(4) ex views
    by (simp add: request_discrepancy_def ov order_reconciliation status_conflict
        observation_conflict_def)
  show "\<not> request_uncertain (push (PRequest r) j) r"
    using st assms(1) by (simp add: request_uncertain_def request_state_def in_flight_def)
qed

section \<open>Arrival order\<close>

text \<open>Two journals with the same entries whose facts arrived in different orders.\<close>

definition reordered :: "journal \<Rightarrow> journal \<Rightarrow> bool" where
  "reordered j j' \<longleftrightarrow> requests j' = requests j \<and> mset (facts j') = mset (facts j) \<and>
     allocations j' = allocations j \<and> controls j' = controls j"

lemma map_filter_alt: "List.map_filter f xs = map (\<lambda>x. the (f x)) (filter (\<lambda>x. f x \<noteq> None) xs)"
  by (simp add: List.map_filter_def comp_def)

lemma map_filter_mset_cong:
  "mset xs = mset ys \<Longrightarrow> mset (List.map_filter f xs) = mset (List.map_filter f ys)"
  by (simp add: map_filter_alt)

lemma map_filter_set: "set (List.map_filter f xs) = {y. \<exists>x\<in>set xs. f x = Some y}"
  by (force simp: map_filter_alt image_iff)

lemma sum_list_mset_cong:
  "mset xs = mset ys \<Longrightarrow> sum_list (map f xs) = sum_list (map f ys)" for f :: "'a \<Rightarrow> int"
  by (metis mset_map sum_mset_sum_list)

lemma max_version_set: "max_version b xs \<in> set (b # xs)"
  by (induction xs arbitrary: b) auto

lemma max_version_ge: "y \<in> set (b # xs) \<Longrightarrow> evidence_version y \<le> evidence_version (max_version b xs)"
proof (induction xs arbitrary: b y)
  case (Cons x xs)
  let ?b = "if evidence_version x > evidence_version b then x else b"
  have step: "z \<in> set (?b # xs) \<Longrightarrow>
      evidence_version z \<le> evidence_version (max_version b (x # xs))" for z
    using Cons.IH [of z ?b] by simp
  have "evidence_version y \<le> evidence_version ?b" if "y \<in> {b, x}" using that by auto
  then show ?case using Cons.prems step [of ?b] step [of y] by fastforce
qed simp

definition newest_remaining :: "observation list \<Rightarrow> int option" where
  "newest_remaining obs = (case obs of x # xs \<Rightarrow> Some (remaining (max_version x xs)) | [] \<Rightarrow> None)"

lemma newest_remaining_cong:
  assumes same: "set xs = set ys"
    and agree: "\<And>a b. a \<in> set xs \<Longrightarrow> b \<in> set xs \<Longrightarrow>
      evidence_version a = evidence_version b \<Longrightarrow> remaining a = remaining b"
  shows "newest_remaining xs = newest_remaining ys"
proof (cases xs)
  case Nil
  then show ?thesis using same by simp
next
  case (Cons x xs')
  then obtain y ys' where ys: "ys = y # ys'" using same by (cases ys) auto
  let ?a = "max_version x xs'" and ?b = "max_version y ys'"
  have "?a \<in> set xs" and "?b \<in> set xs"
    using max_version_set [of x xs'] max_version_set [of y ys'] same Cons ys by auto
  moreover have "evidence_version ?b \<le> evidence_version ?a"
    using calculation(2) Cons by (intro max_version_ge) simp
  moreover have "evidence_version ?a \<le> evidence_version ?b"
    using calculation(1) same ys by (intro max_version_ge) simp
  ultimately have "remaining ?a = remaining ?b" by (intro agree order_antisym) simp_all
  then show ?thesis by (simp add: newest_remaining_def Cons ys)
qed

lemma order_active':
  "active (order_of_request j oid r) =
     (if order_void j r \<or> (\<exists>c\<in>set (cancels_of j oid). remaining c = 0) then Some 0
      else case newest_remaining (observations_of j oid) of Some n \<Rightarrow> Some n
      | None \<Rightarrow> if accepted_by j r then Some (command_qty (req_command r)) else None)"
  unfolding order_active newest_remaining_def by (simp split: list.splits)

lemma reordered_views:
  assumes "reordered j j'"
  shows "mset (fills_of j' oid) = mset (fills_of j oid)"
    and "mset (cancels_of j' oid) = mset (cancels_of j oid)"
    and "mset (changes_of j' oid) = mset (changes_of j oid)"
    and "set (facts j') = set (facts j)"
  using assms
  by (auto simp: reordered_def fact_views intro!: map_filter_mset_cong dest: mset_eq_setD)

lemma reordered_sums:
  assumes "reordered j j'"
  shows "sum_list (map fill_qty (fills_of j' oid)) = sum_list (map fill_qty (fills_of j oid))"
    and "sum_list (map cancelled_qty (cancels_of j' oid)) = sum_list (map cancelled_qty (cancels_of j oid))"
    and "sum_list (map amended_delta (changes_of j' oid)) = sum_list (map amended_delta (changes_of j oid))"
    and "length (changes_of j' oid) = length (changes_of j oid)"
    and "set (observations_of j' oid) = set (observations_of j oid)"
    and "set (cancels_of j' oid) = set (cancels_of j oid)"
  using reordered_views(1-3) [OF assms, of oid]
  by (auto intro!: sum_list_mset_cong mset_eq_length simp: observations_of_def dest: mset_eq_setD)

lemma reordered_conflict:
  "reordered j j' \<Longrightarrow> observation_conflict j' oid = observation_conflict j oid"
  by (simp add: observation_conflict_def reordered_sums)

lemma reordered_status:
  assumes "reordered j j'"
  shows "accepted_by j' = accepted_by j" "executed_by j' = executed_by j" "failed_by j' = failed_by j"
    "rejected_by j' = rejected_by j" "confirmed_by j' = confirmed_by j"
    "effect_rejected_by j' = effect_rejected_by j" "order_void j' = order_void j"
    "st_conflict (status j' r) = st_conflict (status j r)"
    "in_flight (request_state j' r) = in_flight (request_state j r)"
    "effect_settled j' r = effect_settled j r"
proof -
  note same = reordered_views(4) [OF assms]
  note cong = status_set_cong [OF same]
  show eqs: "accepted_by j' = accepted_by j" "executed_by j' = executed_by j"
    "failed_by j' = failed_by j" "rejected_by j' = rejected_by j" "confirmed_by j' = confirmed_by j"
    "effect_rejected_by j' = effect_rejected_by j"
    using cong by (auto simp: fun_eq_iff)
  then show "order_void j' = order_void j" by (simp add: fun_eq_iff order_void_def)
  show c: "st_conflict (status j' r) = st_conflict (status j r)"
    by (simp add: status_conflict eqs)
  have rf: "set (request_facts j' r) = set (request_facts j r)"
    using same by (auto simp: request_facts_set)
  then have "in_flight (last_transport (request_facts j' r)) =
      in_flight (last_transport (request_facts j r))"
    by (simp add: in_flight_last_transport)
  then show "in_flight (request_state j' r) = in_flight (request_state j r)"
    by (simp add: request_state_def status_transport eqs)
  show "effect_settled j' r = effect_settled j r"
    by (simp add: effect_settled_iff c eqs)
qed

text \<open>Every field but the two read from the newest observation is independent of arrival order,
  and those two are as well unless the observations contradict each other.\<close>

lemma reordered_order:
  assumes "reordered j j'" and "order j oid = Inr x"
  shows "\<exists>y. order j' oid = Inr y \<and> y = x\<lparr>active := active y, gap := gap y\<rparr> \<and>
    (observation_conflict j oid \<or> y = x)"
proof -
  obtain r where r: "initial_request j oid = Some r" and x: "x = order_of_request j oid r"
    using assms(2) by (auto simp: order_def split: option.splits)
  have "initial_request j' oid = Some r"
    using r assms(1) by (simp add: initial_request_def reordered_def)
  then have y: "order j' oid = Inr (order_of_request j' oid r)" by (simp add: order_def)
  let ?y = "order_of_request j' oid r"
  note st = reordered_status [OF assms(1)]
  note sums = reordered_sums [OF assms(1), of oid]
  have expo: "exposure j' oid = exposure j oid" by (simp add: fun_eq_iff exposure_def sums)
  have act: "active ?y = active x" if "\<not> observation_conflict j oid"
  proof -
    have "newest_remaining (observations_of j oid) = newest_remaining (observations_of j' oid)"
      by (rule newest_remaining_cong)
         (use that sums(5) in \<open>simp, unfold observation_conflict_def, blast\<close>)
    then show ?thesis by (simp add: x order_active' st sums)
  qed
  have gp: "gap ?y = gap x" if "\<not> observation_conflict j oid"
    using act [OF that] by (simp add: x order_gap st expo)
  have rec: "ord_reconciliation_required ?y = ord_reconciliation_required x"
    using gp
    by (cases "observation_conflict j oid")
       (simp_all add: x order_reconciliation reordered_conflict [OF assms(1)] st expo)
  have eq: "?y = x\<lparr>active := active ?y, gap := gap ?y\<rparr>"
    by (rule order_record.equality) (use rec in \<open>simp_all add: x order_reserved st expo sums\<close>)
  have "?y = x" if "\<not> observation_conflict j oid"
    by (rule order_record.equality) (use rec act [OF that] gp [OF that] in
        \<open>simp_all add: x order_reserved st expo sums\<close>)
  then show ?thesis using y eq by blast
qed

lemma reordered_portfolio:
  assumes "reordered j j'"
  shows "portfolio_view j' symb = portfolio_view j symb"
proof -
  have eq: "requests j' = requests j" "allocations j' = allocations j" "controls j' = controls j"
    using assms by (simp_all add: reordered_def)
  note st = reordered_status [OF assms]
  have ov: "filled (order_view j' r) = filled (order_view j r) \<and>
      ord_reserved (order_view j' r) = ord_reserved (order_view j r) \<and>
      ord_reconciliation_required (order_view j' r) = ord_reconciliation_required (order_view j r)"
    if "r \<in> set (requests j)" "is_new (req_command r)" for r
  proof -
    have "order j (req_order_id r) = Inr (order_view j r)"
      and "order j' (req_order_id r) = Inr (order_view j' r)"
      using that eq by (auto intro: order_in_journal)
    then obtain a g where e: "order_view j' r = (order_view j r)\<lparr>active := a, gap := g\<rparr>"
      using reordered_order [OF assms] by fastforce
    show ?thesis by (simp add: e)
  qed
  have f: "signed_fill j' r = signed_fill j r" "request_reserved j' r = request_reserved j r"
    "request_discrepancy j' r = request_discrepancy j r"
    "request_uncertain j' r = request_uncertain j r" if "r \<in> set (requests j)" for r
    using ov [OF that] st
    by (auto simp: signed_fill_def request_reserved_def request_discrepancy_def
        request_uncertain_def split: side.splits)
  have sub: "r \<in> set (requests j)" if "r \<in> set (symbol_requests j symb)" for r
    using that by (simp add: symbol_requests_def)
  have sr: "symbol_requests j' = symbol_requests j" by (simp add: fun_eq_iff symbol_requests_def eq)
  have od: "open_discrepancy j' symb = open_discrepancy j symb"
    unfolding open_discrepancy_def resolved_discrepancies_def released_quarantines_def
      map_filter_set reordered_views(4) [OF assms] ..
  have "managed_of j' symb = managed_of j symb" "reserved_of j' symb = reserved_of j symb"
    using f(1,2) sub
    by (auto simp: managed_of_def reserved_of_def sr allocated_def eq intro!: arg_cong [of _ _ sum_list])
  moreover have "discrepancy_of j' symb = discrepancy_of j symb" "uncertain_of j' symb = uncertain_of j symb"
    using f(3,4) sub by (auto simp: discrepancy_of_def uncertain_of_def sr od)
  ultimately show ?thesis
    by (simp add: portfolio_view_def entry_stopped_of_def liquidating_of_def symbol_controls_def eq)
qed

end
