(* ===== verification/Validation.thy ===== *)
theory Validation
  imports Projection
begin

text \<open>
  \<open>execution/freshness.py\<close>, \<open>execution/linkage.py\<close> and \<open>execution/validation.py\<close>:
  the business checks made after the replay comparison. The name-based UUID of
  the standard library is the parameter \<open>u5\<close>.
\<close>

section \<open>Freshness\<close>

definition applied_version :: "journal \<Rightarrow> string \<Rightarrow> int" where
  "applied_version j symb =
     (let versions = map ac_version (filter (\<lambda>c. ac_symbol c = symb) (configs j))
      in if versions = [] then 1 else last versions)"

definition check_freshness :: "journal \<Rightarrow> order_command \<Rightarrow> datetime \<Rightarrow> unit result" where
  "check_freshness j c now =
     ebind (ledger_check (\<not> aware now) ''CLOCK_TIMEZONE_REQUIRED'') (\<lambda>_.
     ebind (ledger_check (case oc_expires_at c of None \<Rightarrow> False | Some e \<Rightarrow> dt_le e now)
              ''COMMAND_EXPIRED'') (\<lambda>_.
     ledger_check (oc_config_version c \<noteq> applied_version j (oc_symbol c)) ''STALE_CONFIG_VERSION''))"

section \<open>Commands\<close>

definition check_new :: "journal \<Rightarrow> new_order \<Rightarrow> unit result" where
  "check_new j c =
     ebind (portfolio j (cmd_symbol c)) (\<lambda>position.
     case cmd_side c of
       BUY \<Rightarrow> ledger_check (pf_entry_stopped position \<or> reconciliation_required position) ''ENTRY_BLOCKED''
     | SELL \<Rightarrow> ledger_check (new_qty c > available position) ''SELL_QUANTITY_UNAVAILABLE'')"

definition change_pending :: "journal \<Rightarrow> uuid \<Rightarrow> bool" where
  "change_pending j oid \<longleftrightarrow> (\<exists>r\<in>set (requests j). is_change (req_command r) \<and>
     req_order_id r = oid \<and> req_decision r = REQ_ACCEPTED \<and> \<not> effect_settled j r)"

text \<open>The part of \<open>_check_change\<close> common to amendments and cancellations; \<open>over\<close> compares
  the requested quantity with the active one and \<open>code\<close> is its error.\<close>

definition check_change ::
    "journal \<Rightarrow> 'a change_scheme \<Rightarrow> (int \<Rightarrow> bool) \<Rightarrow> string \<Rightarrow> unit result" where
  "check_change j c over code =
     (case List.find (\<lambda>r. req_order_id r = target c) (requests j) of
       None \<Rightarrow> Inl (LedgerError ''ORDER_NOT_FOUND'')
     | Some t \<Rightarrow>
         ebind (ledger_check (oc_symbol (req_command t) \<noteq> cmd_symbol c \<or>
                  oc_side (req_command t) \<noteq> cmd_side c) ''TARGET_OWNERSHIP_MISMATCH'') (\<lambda>_.
         ebind (order j (target c)) (\<lambda>snapshot.
         ebind (ledger_check (link_version c \<noteq> ord_link_version snapshot) ''STALE_LINK_VERSION'') (\<lambda>_.
         case active snapshot of
           None \<Rightarrow> Inl (LedgerError ''TARGET_QUANTITY_UNCONFIRMED'')
         | Some act \<Rightarrow>
             ebind (ledger_check (act \<le> 0 \<or> ord_reconciliation_required snapshot)
                      ''TARGET_QUANTITY_UNCONFIRMED'') (\<lambda>_.
             ebind (ledger_check (change_pending j (target c)) ''CHANGE_ALREADY_PENDING'') (\<lambda>_.
             ledger_check (over act) code))))))"

fun check_command :: "journal \<Rightarrow> order_command \<Rightarrow> unit result" where
  "check_command j (New c) = check_new j c"
| "check_command j (Amend c) =
     check_change j c (\<lambda>act. qty_delta c < - act) ''AMEND_QUANTITY_EXCEEDS_ACTIVE''"
| "check_command j (Cancel c) =
     check_change j c (\<lambda>act. cancel_qty c > act) ''CANCEL_QUANTITY_EXCEEDS_ACTIVE''"

section \<open>Facts\<close>

definition find_request :: "journal \<Rightarrow> uuid \<Rightarrow> request result" where
  "find_request j rid = (case List.find (\<lambda>r. req_id r = rid) (requests j) of
     None \<Rightarrow> Inl (LedgerError ''REQUEST_NOT_FOUND_OR_UNSUPPORTED'')
   | Some r \<Rightarrow> if req_decision r \<noteq> REQ_ACCEPTED
       then Inl (LedgerError ''REQUEST_NOT_FOUND_OR_UNSUPPORTED'') else Inr r)"

definition check_amended :: "journal \<Rightarrow> amended \<Rightarrow> unit result" where
  "check_amended j f =
     ebind (find_request j (amended_request_id f)) (\<lambda>r.
     ebind (ledger_check (case req_command r of
              Amend c \<Rightarrow> req_order_id r \<noteq> order_id f \<or> qty_delta c \<noteq> amended_delta f
            | _ \<Rightarrow> True) ''AMEND_CORRELATION_MISMATCH'') (\<lambda>_.
     ledger_check (effect_confirmed j r) ''EFFECT_ALREADY_CONFIRMED''))"

definition check_cancelled :: "journal \<Rightarrow> cancelled \<Rightarrow> unit result" where
  "check_cancelled j f =
     ebind (find_request j (cancelled_request_id f)) (\<lambda>r.
     ebind (ledger_check (case req_command r of
              Cancel c \<Rightarrow> req_order_id r \<noteq> order_id f \<or> cancelled_qty f > cancel_qty c
            | _ \<Rightarrow> True) ''CANCEL_CORRELATION_MISMATCH'') (\<lambda>_.
     ledger_check (effect_confirmed j r) ''EFFECT_ALREADY_CONFIRMED''))"

definition check_unsent :: "journal \<Rightarrow> send_failed \<Rightarrow> unit result" where
  "check_unsent j f =
     ebind (find_request j (sf_request_id f)) (\<lambda>r.
     let current = status j r in
     ebind (ledger_check (st_positive_evidence current) ''UNSENT_PROOF_INVALID'') (\<lambda>_.
     ledger_check (\<not> (case sf_proof f of
         NOT_INVOKED \<Rightarrow> st_transport current = INTENT_PERSISTED
       | VERIFIED_UNSENT \<Rightarrow> st_transport current \<in> {T_SENDING, T_UNKNOWN, T_RECONCILING}))
       ''UNSENT_PROOF_INVALID''))"

text \<open>\<open>_check_rejection\<close> for a rejection (\<open>effect\<close> false) or an effect rejection.\<close>

definition check_rejection :: "journal \<Rightarrow> bool \<Rightarrow> uuid \<Rightarrow> unit result" where
  "check_rejection j effect rid =
     ebind (find_request j rid) (\<lambda>r.
     ebind (ledger_check (st_transport (status j r) = INTENT_PERSISTED)
              ''REJECTION_BEFORE_INVOCATION'') (\<lambda>_.
     ledger_check (effect \<and> is_new (req_command r)) ''EFFECT_REJECTION_REQUIRES_CHANGE''))"

fun is_discrepancy_of :: "uuid \<Rightarrow> string \<Rightarrow> fact \<Rightarrow> bool" where
  "is_discrepancy_of d symb (Discrepancy x) = (event_id x = d \<and> disc_symbol x = symb)"
| "is_discrepancy_of d symb _ = False"

fun resolves :: "uuid \<Rightarrow> fact \<Rightarrow> bool" where
  "resolves d (Reconciled x) = (discrepancy_id x = d)"
| "resolves d _ = False"

text \<open>\<open>any(status(r).unresolved or order(r).reconciliation_required for r in related)\<close>: an order
  look-up that raises stops the scan.\<close>

fun any_unresolved :: "journal \<Rightarrow> request list \<Rightarrow> bool result" where
  "any_unresolved j [] = Inr False"
| "any_unresolved j (r # rs) =
     (if unresolved (status j r) then Inr True
      else ebind (order j (req_order_id r)) (\<lambda>x.
        if ord_reconciliation_required x then Inr True else any_unresolved j rs))"

definition check_reconciliation :: "journal \<Rightarrow> reconciled \<Rightarrow> unit result" where
  "check_reconciliation j f =
     ebind (ledger_check (\<not> (\<exists>x\<in>set (facts j). is_discrepancy_of (discrepancy_id f) (rec_symbol f) x))
              ''DISCREPANCY_NOT_FOUND'') (\<lambda>_.
     ebind (ledger_check (\<exists>x\<in>set (facts j). resolves (discrepancy_id f) x)
              ''DISCREPANCY_ALREADY_RESOLVED'') (\<lambda>_.
     ebind (ledger_check (revision j \<noteq> reviewed_revision f) ''STALE_RECONCILIATION_REVIEW'') (\<lambda>_.
     ebind (ledger_check (\<not> evidence_complete (rec_query f) \<or>
              revision_at_finish (rec_query f) \<noteq> reviewed_revision f)
              ''QUERY_EVIDENCE_INCOMPLETE'') (\<lambda>_.
     ebind (ledger_check (qe_observed_managed (rec_query f) \<noteq> observed_managed f)
              ''QUERY_QUANTITY_MISMATCH'') (\<lambda>_.
     ebind (any_unresolved j (filter (\<lambda>r. oc_symbol (req_command r) = rec_symbol f) (requests j))) (\<lambda>b.
     ebind (ledger_check b ''RECONCILIATION_ORDER_UNRESOLVED'') (\<lambda>_.
     ebind (portfolio j (rec_symbol f)) (\<lambda>p.
     ledger_check (managed p \<noteq> observed_managed f) ''RECONCILIATION_QUANTITY_MISMATCH''))))))))"

section \<open>Quarantine linkage\<close>

fun quarantined_as :: "uuid \<Rightarrow> fact \<Rightarrow> bool" where
  "quarantined_as q (QuarantinedFill x) = (event_id x = q)"
| "quarantined_as q _ = False"

definition find_quarantined :: "journal \<Rightarrow> uuid \<Rightarrow> quarantined_fill option" where
  "find_quarantined j q = (case List.find (quarantined_as q) (facts j) of
     Some (QuarantinedFill x) \<Rightarrow> Some x | _ \<Rightarrow> None)"

definition acked_requests :: "journal \<Rightarrow> string \<Rightarrow> uuid set" where
  "acked_requests j broker_no = set (List.map_filter
     (\<lambda>f. case f of Ack x \<Rightarrow> if broker_order_no x = broker_no then Some (ack_request_id x) else None
        | _ \<Rightarrow> None) (facts j))"

definition linked_targets :: "journal \<Rightarrow> string \<Rightarrow> uuid list" where
  "linked_targets j broker_no = remdups (map req_order_id
     (filter (\<lambda>r. req_id r \<in> acked_requests j broker_no \<and> req_decision r = REQ_ACCEPTED) (requests j)))"

definition fill_of_quarantine :: "(uuid \<Rightarrow> string \<Rightarrow> uuid) \<Rightarrow> uuid \<Rightarrow> quarantined_fill \<Rightarrow> fill" where
  "fill_of_quarantine u5 oid s =
     \<lparr>event_id = u5 (event_id s) ''linked-fill'', order_id = oid,
      evidence_version = qf_evidence_version s, remaining = qf_remaining s,
      fill_qty = qf_qty s, fill_price = None, trading_date = None\<rparr>"

definition linked_fill :: "(uuid \<Rightarrow> string \<Rightarrow> uuid) \<Rightarrow> journal \<Rightarrow> uuid \<Rightarrow> fill result" where
  "linked_fill u5 j q = (case find_quarantined j q of
     None \<Rightarrow> Inl (LedgerError ''QUARANTINE_NOT_FOUND'')
   | Some s \<Rightarrow> (case linked_targets j (qf_broker_order_no s) of
       [oid] \<Rightarrow>
         ebind (next_or_raise (\<lambda>r. req_order_id r = oid \<and> is_new (req_command r)) (requests j)) (\<lambda>r.
         ebind (ledger_check (oc_symbol (req_command r) \<noteq> qf_symbol s) ''QUARANTINE_SYMBOL_MISMATCH'')
           (\<lambda>_. Inr (fill_of_quarantine u5 oid s)))
     | _ \<Rightarrow> Inl (LedgerError ''QUARANTINE_LINK_NOT_UNIQUE'')))"

fun releases :: "uuid \<Rightarrow> fact \<Rightarrow> bool" where
  "releases q (QuarantineReleased x) = (quarantine_id x = q)"
| "releases q _ = False"

definition check_release ::
    "(uuid \<Rightarrow> string \<Rightarrow> uuid) \<Rightarrow> journal \<Rightarrow> quarantine_released \<Rightarrow> unit result" where
  "check_release u5 j f =
     ebind (linked_fill u5 j (quarantine_id f)) (\<lambda>fl.
     ebind (ledger_check (released_fill_id f \<noteq> event_id fl \<or> \<not> (\<exists>x\<in>set (facts j). fact_eq x (Fill fl)))
              ''QUARANTINE_FILL_NOT_COMMITTED'') (\<lambda>_.
     ledger_check (\<exists>x\<in>set (facts j). releases (quarantine_id f) x) ''QUARANTINE_ALREADY_RELEASED''))"

section \<open>The dispatch over facts\<close>

fun check_fact :: "(uuid \<Rightarrow> string \<Rightarrow> uuid) \<Rightarrow> journal \<Rightarrow> fact \<Rightarrow> unit result" where
  "check_fact u5 j (Fill f) = ebind (order j (order_id f)) (\<lambda>_. Inr ())"
| "check_fact u5 j (Ack f) = ebind (find_request j (ack_request_id f)) (\<lambda>_. Inr ())"
| "check_fact u5 j (Transport f) = ebind (find_request j (transport_request_id f)) (\<lambda>_. Inr ())"
| "check_fact u5 j (Amended f) = check_amended j f"
| "check_fact u5 j (Cancelled f) = check_cancelled j f"
| "check_fact u5 j (SendFailed f) = check_unsent j f"
| "check_fact u5 j (Rejected f) = check_rejection j False (rej_request_id f)"
| "check_fact u5 j (EffectRejected f) = check_rejection j True (er_request_id f)"
| "check_fact u5 j (Discrepancy f) = Inr ()"
| "check_fact u5 j (QuarantinedFill f) = Inr ()"
| "check_fact u5 j (QuarantineReleased f) = check_release u5 j f"
| "check_fact u5 j (Reconciled f) = check_reconciliation j f"

section \<open>Lemmas\<close>

lemma check_freshness_Inr [result_simps]:
  "check_freshness j c now = Inr u \<longleftrightarrow> aware now \<and>
     (case oc_expires_at c of None \<Rightarrow> True | Some e \<Rightarrow> dt_lt now e) \<and>
     oc_config_version c = applied_version j (oc_symbol c)"
  by (auto simp: check_freshness_def result_simps not_le split: option.splits)

lemma check_new_Inr:
  "check_new j c = Inr u \<longleftrightarrow> (case cmd_side c of
     BUY \<Rightarrow> \<not> entry_stopped_of j (cmd_symbol c) \<and>
       \<not> reconciliation_required (portfolio_view j (cmd_symbol c))
   | SELL \<Rightarrow> new_qty c \<le> available (portfolio_view j (cmd_symbol c)))"
  by (cases "cmd_side c") (auto simp: check_new_def portfolio_closed result_simps)

lemma find_request_Inr [result_simps]:
  "find_request j rid = Inr r \<longleftrightarrow>
     List.find (\<lambda>r. req_id r = rid) (requests j) = Some r \<and> req_decision r = REQ_ACCEPTED"
  by (auto simp: find_request_def split: option.splits)

end
