(* ===== verification/LedgerState.thy ===== *)
theory LedgerState
  imports Validation
begin

text \<open>
  The state invariant of the ledger facade (\<open>execution/ledger.py\<close> on \<open>execution/storage.py\<close>):
  besides a well-formed database, every row is stored under the key its payload determines. The
  journal of a scope is then a total view of the database, appending an entry is pushing its payload onto
  that view, and the UNIQUE constraint can be decided on the view.
\<close>

section \<open>Keys of payloads\<close>

definition binding_key :: "string \<Rightarrow> int \<Rightarrow> string" where
  "binding_key symb v = symb @ '':'' @ str_int v"

text \<open>Controls and direct configurations are stored under a random key.\<close>

fun payload_key :: "payload \<Rightarrow> string option" where
  "payload_key (PRequest r) = Some (oc_key (req_command r))"
| "payload_key (PFact f) = Some (str_uuid (fact_id f))"
| "payload_key (PAllocation a) = Some (al_symbol a)"
| "payload_key (PControl c) = None"
| "payload_key (PConfig c) = map_option str_uuid (ac_command_id c)"
| "payload_key (PStopBinding b) = Some (binding_key (vb_symbol b) (vb_version b))"
| "payload_key (PStopAssignment a) = Some (str_uuid (sa_fill_event_id a))"
| "payload_key (PStopLatch l) = Some (sl_symbol l)"
| "payload_key (PStopSellObligation b) = Some (str_uuid (so_request_id b))"

definition keyed :: "payload \<Rightarrow> string \<Rightarrow> bool" where
  "keyed p key \<longleftrightarrow> (case payload_key p of None \<Rightarrow> True | Some k \<Rightarrow> key = k)"

definition store_ok :: "db \<Rightarrow> bool" where
  "store_ok d \<longleftrightarrow> db_ok d \<and> (\<forall>r\<in>set (db_journal d). keyed (row_payload r) (row_key r))"

definition payloads :: "scope \<Rightarrow> db \<Rightarrow> payload list" where
  "payloads sc d = map row_payload (filter (\<lambda>r. row_scope r = sc) (db_journal d))"

definition jnl :: "scope \<Rightarrow> db \<Rightarrow> journal" where
  "jnl sc d = journal_of (payloads sc d) (scope_quotes sc d)"

lemma read_jnl: "store_ok d \<Longrightarrow> read_journal sc d = Inr (jnl sc d)"
  by (simp add: store_ok_def jnl_def payloads_def read_journal_ok)

lemma empty_store_ok [simp]: "store_ok empty_db"
  by (simp add: store_ok_def db_ok_def empty_db_def)

lemma map_filter_mem: "y \<in> set (List.map_filter f xs) \<longleftrightarrow> (\<exists>x\<in>set xs. f x = Some y)"
  by (force simp: List.map_filter_def)

lemma payload_case_Some:
  "(case p of PRequest x \<Rightarrow> Some x | _ \<Rightarrow> None) = Some r \<longleftrightarrow> p = PRequest r"
  "(case p of PFact x \<Rightarrow> Some x | _ \<Rightarrow> None) = Some f \<longleftrightarrow> p = PFact f"
  "(case p of PAllocation x \<Rightarrow> Some x | _ \<Rightarrow> None) = Some a \<longleftrightarrow> p = PAllocation a"
  "(case p of PControl x \<Rightarrow> Some x | _ \<Rightarrow> None) = Some ct \<longleftrightarrow> p = PControl ct"
  "(case p of PConfig x \<Rightarrow> Some x | _ \<Rightarrow> None) = Some cf \<longleftrightarrow> p = PConfig cf"
  "(case p of PStopBinding x \<Rightarrow> Some x | _ \<Rightarrow> None) = Some b \<longleftrightarrow> p = PStopBinding b"
  "(case p of PStopAssignment x \<Rightarrow> Some x | _ \<Rightarrow> None) = Some sa \<longleftrightarrow> p = PStopAssignment sa"
  "(case p of PStopLatch x \<Rightarrow> Some x | _ \<Rightarrow> None) = Some l \<longleftrightarrow> p = PStopLatch l"
  "(case p of PStopSellObligation x \<Rightarrow> Some x | _ \<Rightarrow> None) = Some so \<longleftrightarrow> p = PStopSellObligation so"
  by (cases p; simp)+

lemma payload_mem [simp]:
  "PRequest r \<in> set (payloads sc d) \<longleftrightarrow> r \<in> set (requests (jnl sc d))"
  "PFact f \<in> set (payloads sc d) \<longleftrightarrow> f \<in> set (facts (jnl sc d))"
  "PAllocation a \<in> set (payloads sc d) \<longleftrightarrow> a \<in> set (allocations (jnl sc d))"
  "PControl ct \<in> set (payloads sc d) \<longleftrightarrow> ct \<in> set (controls (jnl sc d))"
  "PConfig cf \<in> set (payloads sc d) \<longleftrightarrow> cf \<in> set (configs (jnl sc d))"
  "PStopBinding b \<in> set (payloads sc d) \<longleftrightarrow> b \<in> set (stop_bindings (jnl sc d))"
  "PStopAssignment sa \<in> set (payloads sc d) \<longleftrightarrow> sa \<in> set (stop_assignments (jnl sc d))"
  "PStopLatch l \<in> set (payloads sc d) \<longleftrightarrow> l \<in> set (stop_latches (jnl sc d))"
  "PStopSellObligation so \<in> set (payloads sc d) \<longleftrightarrow> so \<in> set (stop_sell_obligations (jnl sc d))"
  by (simp_all add: jnl_def journal_of_def map_filter_mem payload_case_Some)

text \<open>The UNIQUE constraint per kind.\<close>

lemma payload_kind_iff:
  "payload_kind q = KRequest \<longleftrightarrow> (\<exists>x. q = PRequest x)"
  "payload_kind q = KFact \<longleftrightarrow> (\<exists>x. q = PFact x)"
  "payload_kind q = KAllocation \<longleftrightarrow> (\<exists>x. q = PAllocation x)"
  "payload_kind q = KStopBinding \<longleftrightarrow> (\<exists>x. q = PStopBinding x)"
  "payload_kind q = KStopAssignment \<longleftrightarrow> (\<exists>x. q = PStopAssignment x)"
  "payload_kind q = KStopLatch \<longleftrightarrow> (\<exists>x. q = PStopLatch x)"
  "payload_kind q = KStopSellObligation \<longleftrightarrow> (\<exists>x. q = PStopSellObligation x)"
  by (cases q; simp)+

lemma key_free_payloads:
  assumes ok: "store_ok d" and kind: "K \<notin> {KControl, KConfig}"
  shows "key_free sc K k d \<longleftrightarrow>
    (\<forall>q\<in>set (payloads sc d). payload_kind q = K \<longrightarrow> payload_key q \<noteq> Some k)"
proof -
  have key: "payload_key p = Some k'" if "keyed p k'" "payload_kind p = K" for p k'
    using that kind by (cases p) (auto simp: keyed_def)
  have row: "row_kind r = K \<longleftrightarrow> payload_kind (row_payload r) = K"
    "payload_kind (row_payload r) = K \<Longrightarrow> payload_key (row_payload r) = Some (row_key r)"
    if "r \<in> set (db_journal d)" for r
    using ok that key [of "row_payload r" "row_key r"] by (auto simp: store_ok_def db_ok_def)
  have "(sc, K, k) \<in> row_id ` set (db_journal d) \<longleftrightarrow>
      (\<exists>r\<in>set (db_journal d). row_scope r = sc \<and> row_kind r = K \<and> row_key r = k)"
    by (auto simp: row_id_def)
  then show ?thesis using row by (auto simp: key_free_def payloads_def)
qed

lemma key_free_kinds:
  assumes "store_ok d"
  shows "key_free sc KRequest k d \<longleftrightarrow> (\<forall>r\<in>set (requests (jnl sc d)). oc_key (req_command r) \<noteq> k)"
    and "key_free sc KFact (str_uuid u) d \<longleftrightarrow> (\<forall>f\<in>set (facts (jnl sc d)). fact_id f \<noteq> u)"
    and "key_free sc KAllocation k d \<longleftrightarrow> (\<forall>a\<in>set (allocations (jnl sc d)). al_symbol a \<noteq> k)"
    and "key_free sc KStopBinding k d \<longleftrightarrow>
      (\<forall>b\<in>set (stop_bindings (jnl sc d)). binding_key (vb_symbol b) (vb_version b) \<noteq> k)"
    and "key_free sc KStopAssignment (str_uuid u) d \<longleftrightarrow>
      (\<forall>a\<in>set (stop_assignments (jnl sc d)). sa_fill_event_id a \<noteq> u)"
    and "key_free sc KStopLatch k d \<longleftrightarrow> (\<forall>l\<in>set (stop_latches (jnl sc d)). sl_symbol l \<noteq> k)"
    and "key_free sc KStopSellObligation (str_uuid u) d \<longleftrightarrow>
      (\<forall>b\<in>set (stop_sell_obligations (jnl sc d)). so_request_id b \<noteq> u)"
  using payload_mem [of _ sc d]
  by (auto simp: key_free_payloads [OF assms] payload_kind_iff)

section \<open>Appending\<close>

lemma append_store:
  assumes ok: "store_ok d" and app: "append_entry sc (entry key p) d = Inr d'" and key: "keyed p key"
  shows "store_ok d'" and "jnl sc d' = push p (jnl sc d)"
    and "sc' \<noteq> sc \<Longrightarrow> jnl sc' d' = jnl sc' d"
proof -
  have d: "db_ok d" using ok by (simp add: store_ok_def)
  have d': "db_ok d'" by (rule append_entry_db_ok [OF d app])
  show ok': "store_ok d'"
    using ok app d' key by (auto simp: store_ok_def append_entry_Inr entry_def)
  show "jnl sc d' = push p (jnl sc d)"
    using append_entry_read [OF d app read_jnl [OF ok]] read_jnl [OF ok'] by simp
  show "jnl sc' d' = jnl sc' d" if "sc' \<noteq> sc"
    using append_entry_other_scope [OF d app that] read_jnl [OF ok] read_jnl [OF ok'] by simp
qed

lemma append_store_exists:
  assumes "store_ok d" and "key_free sc (payload_kind p) key d"
  obtains d' where "append_entry sc (entry key p) d = Inr d'"
  using append_entry_ok [of d sc p key] assms by (auto simp: store_ok_def)

section \<open>Quote cursors\<close>

lemma find_sort_key:
  fixes key :: "'a \<Rightarrow> 'k::linorder"
  assumes "distinct (map key xs)"
  shows "List.find (\<lambda>x. key x = k) (sort_key key xs) = List.find (\<lambda>x. key x = k) xs"
proof (cases "List.find (\<lambda>x. key x = k) xs")
  case None
  then show ?thesis by (metis (no_types, lifting) find_None_iff' set_sort)
next
  case (Some x)
  have "List.find (\<lambda>x. key x = k) (sort_key key xs) = Some x"
  proof (rule find_unique)
    show "x \<in> set (sort_key key xs)" "key x = k" using find_SomeD [OF Some] by simp_all
    show "y = x" if "y \<in> set (sort_key key xs)" "key y = k" for y
      using find_SomeD [OF Some] that assms by (simp add: distinct_map inj_on_def)
  qed
  then show ?thesis using Some by simp
qed

definition cursors :: "scope \<Rightarrow> db \<Rightarrow> stop_quote_checkpoint list" where
  "cursors sc d = map cur_checkpoint (filter (\<lambda>c. cur_scope c = sc) (db_cursors d))"

definition last_quote :: "journal \<Rightarrow> string \<Rightarrow> stop_quote_checkpoint option" where
  "last_quote j symb = List.find (\<lambda>c. cp_symbol c = symb) (stop_quotes j)"

lemma cursors_distinct: "db_ok d \<Longrightarrow> distinct (map cp_symbol (cursors sc d))"
proof -
  have "distinct (map (\<lambda>c. (cur_scope c, cp_symbol (cur_checkpoint c))) cs) \<Longrightarrow>
      distinct (map cp_symbol (map cur_checkpoint (filter (\<lambda>c. cur_scope c = sc) cs)))"
    for cs :: "cursor list"
    by (induction cs) (auto simp: image_iff)
  then show "db_ok d \<Longrightarrow> ?thesis" by (simp add: db_ok_def cursors_def)
qed

lemma last_quote_jnl:
  "store_ok d \<Longrightarrow> last_quote (jnl sc d) symb = List.find (\<lambda>c. cp_symbol c = symb) (cursors sc d)"
  unfolding last_quote_def jnl_def journal_of_def scope_quotes_def cursors_def [symmetric]
  by (simp add: find_sort_key cursors_distinct store_ok_def)

lemma find_rev_distinct:
  assumes "distinct (map key xs)"
  shows "List.find (\<lambda>x. key x = k) (rev xs) = List.find (\<lambda>x. key x = k) xs"
proof (cases "List.find (\<lambda>x. key x = k) xs")
  case None
  then show ?thesis by (metis (no_types, lifting) find_None_iff' set_rev)
next
  case (Some x)
  then have "x \<in> set xs" "key x = k" using find_SomeD [OF Some] by simp_all
  then have "List.find (\<lambda>x. key x = k) (rev xs) = Some x"
    using assms by (intro find_unique) (auto simp: distinct_map inj_on_def)
  then show ?thesis using Some by simp
qed

lemma stop_quotes_distinct: "store_ok d \<Longrightarrow> distinct (map cp_symbol (stop_quotes (jnl sc d)))"
  using cursors_distinct [of d sc]
  by (simp add: store_ok_def jnl_def journal_of_def scope_quotes_def cursors_def [symmetric]
      distinct_map)

lemma last_quote_rev:
  "store_ok d \<Longrightarrow>
     List.find (\<lambda>c. cp_symbol c = symb) (rev (stop_quotes (jnl sc d))) = last_quote (jnl sc d) symb"
  by (simp add: last_quote_def find_rev_distinct stop_quotes_distinct)

lemma checkpoint_fields [simp]:
  "db_journal (checkpoint_stop_quote sc c d) = db_journal d"
  "db_outbox (checkpoint_stop_quote sc c d) = db_outbox d"
  by (simp_all add: checkpoint_stop_quote_def Let_def)

lemma checkpoint_store_ok:
  assumes "store_ok d"
  shows "store_ok (checkpoint_stop_quote sc c d)"
proof -
  let ?id = "\<lambda>x. (cur_scope x, cp_symbol (cur_checkpoint x))"
  have "map ?id (map (\<lambda>x. if ?id x = (sc, cp_symbol c) then x\<lparr>cur_checkpoint := c\<rparr> else x) cs) =
      map ?id cs" for cs :: "cursor list" by (induction cs) auto
  moreover have "distinct (map ?id (db_cursors d))"
    using assms by (simp add: store_ok_def db_ok_def)
  ultimately have "distinct (map ?id (db_cursors (checkpoint_stop_quote sc c d)))"
    by (auto simp: checkpoint_stop_quote_def Let_def simp del: map_map)
  then show ?thesis using assms by (simp add: store_ok_def db_ok_def)
qed

lemma checkpoint_cursors:
  "List.find (\<lambda>x. cp_symbol x = s) (cursors sc' (checkpoint_stop_quote sc c d)) =
     (if sc' = sc \<and> s = cp_symbol c then Some c
      else List.find (\<lambda>x. cp_symbol x = s) (cursors sc' d))"
proof (cases "\<exists>x\<in>set (db_cursors d). cur_scope x = sc \<and> cp_symbol (cur_checkpoint x) = cp_symbol c")
  case True
  have "List.find (\<lambda>x. cp_symbol x = s) (map cur_checkpoint (filter (\<lambda>x. cur_scope x = sc')
      (map (\<lambda>x. if cur_scope x = sc \<and> cp_symbol (cur_checkpoint x) = cp_symbol c
        then x\<lparr>cur_checkpoint := c\<rparr> else x) cs))) =
    (if sc' = sc \<and> s = cp_symbol c \<and>
        (\<exists>x\<in>set cs. cur_scope x = sc \<and> cp_symbol (cur_checkpoint x) = cp_symbol c) then Some c
     else List.find (\<lambda>x. cp_symbol x = s) (map cur_checkpoint (filter (\<lambda>x. cur_scope x = sc') cs)))"
    for cs :: "cursor list" by (induction cs) auto
  then show ?thesis using True by (simp add: cursors_def checkpoint_stop_quote_def)
next
  case False
  then have "List.find (\<lambda>x. cp_symbol x = cp_symbol c) (cursors sc d) = None"
    by (auto simp: find_None_iff' cursors_def)
  moreover have "cursors sc' (checkpoint_stop_quote sc c d) =
      cursors sc' d @ (if sc' = sc then [c] else [])"
    using False by (auto simp: cursors_def checkpoint_stop_quote_def)
  ultimately show ?thesis by (auto simp: find_append split: option.splits)
qed

lemma checkpoint_jnl:
  assumes "store_ok d"
  shows "\<exists>qs. jnl sc' (checkpoint_stop_quote sc c d) = (jnl sc' d)\<lparr>stop_quotes := qs\<rparr>"
    and "last_quote (jnl sc' (checkpoint_stop_quote sc c d)) s =
      (if sc' = sc \<and> s = cp_symbol c then Some c else last_quote (jnl sc' d) s)"
proof -
  show "\<exists>qs. jnl sc' (checkpoint_stop_quote sc c d) = (jnl sc' d)\<lparr>stop_quotes := qs\<rparr>"
    by (rule exI [of _ "scope_quotes sc' (checkpoint_stop_quote sc c d)"])
       (simp add: jnl_def journal_of_def payloads_def)
  show "last_quote (jnl sc' (checkpoint_stop_quote sc c d)) s =
      (if sc' = sc \<and> s = cp_symbol c then Some c else last_quote (jnl sc' d) s)"
    using assms by (simp add: last_quote_jnl checkpoint_store_ok checkpoint_cursors)
qed

section \<open>Transactions\<close>

definition ledger_ok :: "ledger \<Rightarrow> bool" where
  "ledger_ok L \<longleftrightarrow> store_ok (lg_db L)"

definition ljnl :: "ledger \<Rightarrow> journal" where
  "ljnl L = jnl (lg_scope L) (lg_db L)"

lemma transaction_Inr:
  "transaction body L = Inr (x, L') \<longleftrightarrow> ls_held (lg_lease L) \<and> lg_pid L = ls_pid (lg_lease L) \<and>
     (\<exists>d. body (lg_db L) = Inr (x, d) \<and> L' = L\<lparr>lg_db := d\<rparr>)"
  by (auto simp: transaction_def result_simps)

lemma ledger_read: "ledger_ok L \<Longrightarrow> read_journal (lg_scope L) (lg_db L) = Inr (ljnl L)"
  by (simp add: ledger_ok_def ljnl_def read_jnl)

lemma lg_scope_db [simp]: "lg_scope (L\<lparr>lg_db := d\<rparr>) = lg_scope L"
  by (simp add: lg_scope_def)

lemma ljnl_db: "ljnl (L\<lparr>lg_db := d\<rparr>) = jnl (lg_scope L) d"
  by (simp add: ljnl_def)

end
