(* ===== verification/LedgerOrders.thy ===== *)
theory LedgerOrders
  imports LedgerState
begin

text \<open>
  \<open>execution/ledger.py\<close>, the order side of the facade: submission, ingestion of evidence,
  local discard, ownership, controls and the reads. Each mutation is one transaction on the
  ledger. The values of \<open>uuid4()\<close>, the clock reading and the SHA-256 digest of a payload are
  arguments; a generated identity that is already used anywhere is excluded by hypothesis where a
  property needs it.
\<close>

section \<open>Submission\<close>

record submission =
  sub_request :: request
  sub_created :: bool

definition stop_key :: "string \<Rightarrow> bool" where
  "stop_key k \<longleftrightarrow> starts_with ''virtual-stop:'' k"

definition check_virtual_stop_link :: "journal \<Rightarrow> order_command \<Rightarrow> unit result" where
  "check_virtual_stop_link j c = (case c of
     New n \<Rightarrow>
       ebind (ledger_check (stop_key (cmd_key n) \<and> stop_latch_version n = None)
                ''STOP_LATCH_LINK_REQUIRED'') (\<lambda>_.
       case stop_latch_version n of
         None \<Rightarrow> Inr ()
       | Some v \<Rightarrow>
           ebind (ledger_check (\<not> stop_key (cmd_key n)) ''STOP_LATCH_KEY_REQUIRED'') (\<lambda>_.
           ledger_check (\<not> (\<exists>l\<in>set (stop_latches j). sl_symbol l = cmd_symbol n \<and> sl_rule_version l = v))
             ''STOP_LATCH_LINK_NOT_FOUND''))
   | _ \<Rightarrow> Inr ())"

definition symbol_latched :: "journal \<Rightarrow> string \<Rightarrow> bool" where
  "symbol_latched j symb \<longleftrightarrow> (\<exists>l\<in>set (stop_latches j). sl_symbol l = symb)"

definition check_submit :: "journal \<Rightarrow> order_command \<Rightarrow> datetime \<Rightarrow> unit result" where
  "check_submit j c now =
     ebind (check_freshness j c now) (\<lambda>_.
     ebind (ledger_check (is_new c \<and> oc_side c = BUY \<and> symbol_latched j (oc_symbol c))
              ''ENTRY_STOP_LATCHED'') (\<lambda>_.
     ebind (check_virtual_stop_link j c) (\<lambda>_.
     check_command j c)))"

fun command_order_id :: "uuid \<Rightarrow> order_command \<Rightarrow> uuid" where
  "command_order_id fresh (New c) = fresh"
| "command_order_id fresh (Amend c) = target c"
| "command_order_id fresh (Cancel c) = target c"

fun command_decision :: "order_command \<Rightarrow> request_decision" where
  "command_decision (New c) = REQ_ACCEPTED"
| "command_decision (Amend c) = (if qty_delta c > 0 then REQ_REJECTED_UNSUPPORTED else REQ_ACCEPTED)"
| "command_decision (Cancel c) = REQ_ACCEPTED"

definition new_request :: "(order_command \<Rightarrow> string) \<Rightarrow> uuid \<Rightarrow> uuid \<Rightarrow> order_command \<Rightarrow> request" where
  "new_request sha oid rid c =
     \<lparr>req_id = rid, req_order_id = command_order_id oid c, req_command = c,
      req_decision = command_decision c, req_digest = sha c\<rparr>"

definition obligation_of :: "request \<Rightarrow> stop_sell_obligation option" where
  "obligation_of r = (case req_command r of
     New c \<Rightarrow> map_option (\<lambda>v. \<lparr>so_request_id = req_id r, so_order_id = req_order_id r,
       so_symbol = cmd_symbol c, so_qty = new_qty c, so_rule_version = v\<rparr>) (stop_latch_version c)
   | _ \<Rightarrow> None)"

definition append_obligation :: "scope \<Rightarrow> request \<Rightarrow> db \<Rightarrow> db result" where
  "append_obligation sc r d = (case obligation_of r of
     None \<Rightarrow> Inr d
   | Some b \<Rightarrow> append_entry sc (entry (str_uuid (req_id r)) (PStopSellObligation b)) d)"

definition find_key :: "journal \<Rightarrow> string \<Rightarrow> request option" where
  "find_key j k = List.find (\<lambda>r. oc_key (req_command r) = k) (requests j)"

definition submit ::
    "(order_command \<Rightarrow> string) \<Rightarrow> datetime \<Rightarrow> uuid \<Rightarrow> uuid \<Rightarrow> order_command \<Rightarrow> ledger \<Rightarrow>
     (submission \<times> ledger) result" where
  "submit sha now oid rid c L = transaction (\<lambda>d.
     ebind (read_journal (lg_scope L) d) (\<lambda>j.
     case find_key j (oc_key c) of
       Some existing \<Rightarrow>
         if req_command existing \<noteq> c then Inl (LedgerError ''CONFLICT_IDEMPOTENCY_MISMATCH'')
         else Inr (\<lparr>sub_request = existing, sub_created = False\<rparr>, d)
     | None \<Rightarrow>
         ebind (require_ready (lg_pid L) (lg_lease L)) (\<lambda>_.
         ebind (check_submit j c now) (\<lambda>_.
         let request = new_request sha oid rid c in
         ebind (append_entry (lg_scope L) (entry (oc_key c) (PRequest request)) d) (\<lambda>d1.
         ebind (append_obligation (lg_scope L) request d1) (\<lambda>d2.
         Inr (\<lparr>sub_request = request, sub_created = True\<rparr>, d2))))))) L"

definition submit_json ::
    "(order_command \<Rightarrow> string) \<Rightarrow> datetime \<Rightarrow> uuid \<Rightarrow> uuid \<Rightarrow> bool \<Rightarrow> order_command \<Rightarrow> ledger \<Rightarrow>
     (submission \<times> ledger) result" where
  "submit_json sha now oid rid explicit payload L =
     ebind (make_command explicit payload) (\<lambda>c. submit sha now oid rid c L)"

section \<open>Evidence\<close>

definition find_fact :: "journal \<Rightarrow> uuid \<Rightarrow> fact option" where
  "find_fact j u = List.find (\<lambda>f. fact_id f = u) (facts j)"

definition buy_request :: "journal \<Rightarrow> uuid \<Rightarrow> request option" where
  "buy_request j oid = List.find (\<lambda>r. req_order_id r = oid \<and> is_new (req_command r) \<and>
     oc_side (req_command r) = BUY) (requests j)"

definition assignment_for :: "journal \<Rightarrow> fact \<Rightarrow> stop_rule_assignment option" where
  "assignment_for j f = (case f of
     Fill x \<Rightarrow> (case buy_request j (order_id x) of
         None \<Rightarrow> None
       | Some buy \<Rightarrow>
           map_option (\<lambda>b. \<lparr>sa_fill_event_id = event_id x, sa_symbol = oc_symbol (req_command buy),
               sa_qty = fill_qty x, sa_rule_version = vb_version b\<rparr>)
             (find_binding j (oc_symbol (req_command buy)) (oc_config_version (req_command buy))))
   | _ \<Rightarrow> None)"

definition append_assignment :: "scope \<Rightarrow> journal \<Rightarrow> fact \<Rightarrow> db \<Rightarrow> db result" where
  "append_assignment sc j f d = (case assignment_for j f of
     None \<Rightarrow> Inr d
   | Some a \<Rightarrow> append_entry sc (entry (str_uuid (fact_id f)) (PStopAssignment a)) d)"

definition append_fact :: "scope \<Rightarrow> fact \<Rightarrow> db \<Rightarrow> db result" where
  "append_fact sc f d = append_entry sc (entry (str_uuid (fact_id f)) (PFact f)) d"

definition ingest :: "(uuid \<Rightarrow> string \<Rightarrow> uuid) \<Rightarrow> fact \<Rightarrow> ledger \<Rightarrow> (bool \<times> ledger) result" where
  "ingest u5 f L = transaction (\<lambda>d.
     ebind (read_journal (lg_scope L) d) (\<lambda>j.
     case find_fact j (fact_id f) of
       Some existing \<Rightarrow>
         if \<not> fact_eq existing f then Inl (LedgerError ''CONFLICT_EVENT_ID_MISMATCH'')
         else Inr (False, d)
     | None \<Rightarrow>
         ebind (check_fact u5 j f) (\<lambda>_.
         ebind (append_fact (lg_scope L) f d) (\<lambda>d1.
         ebind (append_assignment (lg_scope L) j f d1) (\<lambda>d2.
         Inr (True, d2)))))) L"

definition ingest_json :: "(uuid \<Rightarrow> string \<Rightarrow> uuid) \<Rightarrow> fact \<Rightarrow> ledger \<Rightarrow> (bool \<times> ledger) result" where
  "ingest_json u5 payload L = ebind (make_fact payload) (\<lambda>f. ingest u5 f L)"

definition discard_fact :: "(uuid \<Rightarrow> string \<Rightarrow> uuid) \<Rightarrow> uuid \<Rightarrow> string \<Rightarrow> fact" where
  "discard_fact u5 rid reason = SendFailed \<lparr>event_id = u5 rid ''local-discard'',
     sf_request_id = rid, sf_proof = NOT_INVOKED, sf_reason = reason\<rparr>"

definition discard ::
    "(uuid \<Rightarrow> string \<Rightarrow> uuid) \<Rightarrow> uuid \<Rightarrow> string \<Rightarrow> int \<Rightarrow> ledger \<Rightarrow> (bool \<times> ledger) result" where
  "discard u5 rid reason expected L =
     ebind (make_fact (discard_fact u5 rid reason)) (\<lambda>f.
     transaction (\<lambda>d.
     ebind (read_journal (lg_scope L) d) (\<lambda>j.
     case find_fact j (fact_id f) of
       Some existing \<Rightarrow>
         if \<not> fact_eq existing f then Inl (LedgerError ''CONFLICT_EVENT_ID_MISMATCH'')
         else Inr (False, d)
     | None \<Rightarrow>
         ebind (require_ready (lg_pid L) (lg_lease L)) (\<lambda>_.
         ebind (ledger_check (revision j \<noteq> expected) ''STALE_DISCARD_REVIEW'') (\<lambda>_.
         ebind (check_fact u5 j f) (\<lambda>_.
         ebind (append_fact (lg_scope L) f d) (\<lambda>d1.
         Inr (True, d1))))))) L)"

section \<open>Ownership, controls and review\<close>

definition allocate :: "allocation \<Rightarrow> ledger \<Rightarrow> (unit \<times> ledger) result" where
  "allocate a L = transaction (\<lambda>d.
     ebind (read_journal (lg_scope L) d) (\<lambda>j.
     let existing = List.find (\<lambda>x. al_symbol x = al_symbol a) (allocations j) in
     if existing = Some a then Inr ((), d)
     else ebind (require_ready (lg_pid L) (lg_lease L)) (\<lambda>_.
       ebind (ledger_check (existing \<noteq> None \<or>
                (\<exists>r\<in>set (requests j). oc_symbol (req_command r) = al_symbol a))
                ''ALLOCATION_ALREADY_STARTED'') (\<lambda>_.
       ebind (append_entry (lg_scope L) (entry (al_symbol a) (PAllocation a)) d) (\<lambda>d1.
       Inr ((), d1)))))) L"

text \<open>The switch is stored under a fresh random key.\<close>

definition put_control :: "uuid \<Rightarrow> control \<Rightarrow> ledger \<Rightarrow> (unit \<times> ledger) result" where
  "put_control u c L = transaction (\<lambda>d.
     ebind (require_ready (lg_pid L) (lg_lease L)) (\<lambda>_.
     ebind (append_entry (lg_scope L) (entry (str_uuid u) (PControl c)) d) (\<lambda>d1.
     Inr ((), d1)))) L"

definition review_symbols :: "journal \<Rightarrow> string set" where
  "review_symbols j = set (map (\<lambda>r. oc_symbol (req_command r)) (requests j)) \<union>
     set (map al_symbol (allocations j)) \<union>
     set (List.map_filter (\<lambda>f. case f of Discrepancy x \<Rightarrow> Some (disc_symbol x)
        | QuarantinedFill x \<Rightarrow> Some (qf_symbol x) | _ \<Rightarrow> None) (facts j))"

definition review_blocked :: "journal \<Rightarrow> bool" where
  "review_blocked j \<longleftrightarrow> (\<exists>r\<in>set (requests j). unresolved (status j r)) \<or>
     (\<exists>symb\<in>review_symbols j. reconciliation_required (portfolio_view j symb))"

text \<open>The approval of the lease happens inside the transaction, so an exception leaves it as it
  was; \<^const>\<open>portfolio_view\<close> is the value of \<^const>\<open>portfolio\<close>.\<close>

definition approve_virtual_reconciliation :: "int \<Rightarrow> ledger \<Rightarrow> (unit \<times> ledger) result" where
  "approve_virtual_reconciliation expected L =
     ebind (operation (lg_pid L) (lg_lease L)) (\<lambda>_.
     ebind (read_journal (lg_scope L) (lg_db L)) (\<lambda>j.
     ebind (ledger_check (revision j \<noteq> expected) ''STALE_RECONCILIATION_REVIEW'') (\<lambda>_.
     ebind (ledger_check (review_blocked j) ''SESSION_RECONCILIATION_REQUIRED'') (\<lambda>_.
     ebind (approve_virtual_review (lg_pid L) (lg_lease L)) (\<lambda>l.
     Inr ((), L\<lparr>lg_lease := l\<rparr>))))))"

section \<open>Reads\<close>

definition snapshot :: "ledger \<Rightarrow> journal result" where
  "snapshot L = ebind (operation (lg_pid L) (lg_lease L)) (\<lambda>_. read_journal (lg_scope L) (lg_db L))"

definition ledger_order :: "uuid \<Rightarrow> ledger \<Rightarrow> order_record result" where
  "ledger_order oid L = ebind (snapshot L) (\<lambda>j. order j oid)"

definition ledger_portfolio :: "string \<Rightarrow> ledger \<Rightarrow> portfolio_record result" where
  "ledger_portfolio symb L = ebind (snapshot L) (\<lambda>j. portfolio j symb)"

definition ledger_buy_average_cost :: "uuid \<Rightarrow> ledger \<Rightarrow> decimal option result" where
  "ledger_buy_average_cost oid L = ebind (snapshot L) (\<lambda>j. buy_order_average_cost j oid)"

definition request_transport_of :: "uuid \<Rightarrow> ledger \<Rightarrow> request_transport result" where
  "request_transport_of rid L = ebind (snapshot L) (\<lambda>j.
     case List.find (\<lambda>r. req_id r = rid) (requests j) of
       None \<Rightarrow> Inl (LedgerError ''REQUEST_NOT_FOUND'')
     | Some r \<Rightarrow> Inr (request_state j r))"

definition symbol_buy_orders :: "journal \<Rightarrow> string \<Rightarrow> uuid set" where
  "symbol_buy_orders j symb = set (map req_order_id (filter (\<lambda>r. is_new (req_command r) \<and>
     oc_side (req_command r) = BUY \<and> oc_symbol (req_command r) = symb) (requests j)))"

definition filled_buy_qty_on :: "string \<Rightarrow> date \<Rightarrow> ledger \<Rightarrow> int result" where
  "filled_buy_qty_on symb day L = ebind (snapshot L) (\<lambda>j.
     let fills = filter (\<lambda>f. order_id f \<in> symbol_buy_orders j symb) (all_fills j) in
     ebind (ledger_check (\<exists>f\<in>set fills. trading_date f = None) ''BUY_FILL_TRADING_DATE_UNKNOWN'') (\<lambda>_.
     Inr (sum_list (map fill_qty (filter (\<lambda>f. trading_date f = Some day) fills)))))"

section \<open>What a submission does\<close>

definition push_request :: "request \<Rightarrow> journal \<Rightarrow> journal" where
  "push_request r j = (case obligation_of r of
     None \<Rightarrow> push (PRequest r) j
   | Some b \<Rightarrow> push (PStopSellObligation b) (push (PRequest r) j))"

lemma new_request_fields [simp]:
  "req_id (new_request sha oid rid c) = rid"
  "req_command (new_request sha oid rid c) = c"
  "req_decision (new_request sha oid rid c) = command_decision c"
  "req_order_id (new_request sha oid rid c) = command_order_id oid c"
  by (simp_all add: new_request_def)

lemma obligation_request_id: "obligation_of r = Some b \<Longrightarrow> so_request_id b = req_id r"
  by (auto simp: obligation_of_def split: order_command.splits)

lemma keyed_simps [simp]:
  "keyed (PRequest r) k \<longleftrightarrow> k = oc_key (req_command r)"
  "keyed (PFact f) k \<longleftrightarrow> k = str_uuid (fact_id f)"
  "keyed (PAllocation a) k \<longleftrightarrow> k = al_symbol a"
  "keyed (PControl ct) k"
  "keyed (PStopBinding b) k \<longleftrightarrow> k = binding_key (vb_symbol b) (vb_version b)"
  "keyed (PStopAssignment sa) k \<longleftrightarrow> k = str_uuid (sa_fill_event_id sa)"
  "keyed (PStopLatch l) k \<longleftrightarrow> k = sl_symbol l"
  "keyed (PStopSellObligation so) k \<longleftrightarrow> k = str_uuid (so_request_id so)"
  by (simp_all add: keyed_def)

lemma append_obligation_store:
  assumes "store_ok d" and "append_obligation sc r d = Inr d'"
  shows "store_ok d'" and "jnl sc d' = (case obligation_of r of None \<Rightarrow> jnl sc d
      | Some b \<Rightarrow> push (PStopSellObligation b) (jnl sc d))"
    and "sc' \<noteq> sc \<Longrightarrow> jnl sc' d' = jnl sc' d"
proof -
  have "store_ok d' \<and> jnl sc d' = (case obligation_of r of None \<Rightarrow> jnl sc d
      | Some b \<Rightarrow> push (PStopSellObligation b) (jnl sc d)) \<and> (sc' \<noteq> sc \<longrightarrow> jnl sc' d' = jnl sc' d)"
  proof (cases "obligation_of r")
    case None
    then show ?thesis using assms by (simp add: append_obligation_def)
  next
    case (Some b)
    then have "append_entry sc (entry (str_uuid (req_id r)) (PStopSellObligation b)) d = Inr d'"
      using assms(2) by (simp add: append_obligation_def)
    from append_store [OF assms(1) this] Some show ?thesis by (simp add: obligation_request_id)
  qed
  then show "store_ok d'" "jnl sc d' = (case obligation_of r of None \<Rightarrow> jnl sc d
      | Some b \<Rightarrow> push (PStopSellObligation b) (jnl sc d))" "sc' \<noteq> sc \<Longrightarrow> jnl sc' d' = jnl sc' d"
    by simp_all
qed

lemma submit_Inr:
  assumes "ledger_ok L"
  shows "submit sha now oid rid c L = Inr (s, L') \<longleftrightarrow>
    ls_held (lg_lease L) \<and> lg_pid L = ls_pid (lg_lease L) \<and>
    (case find_key (ljnl L) (oc_key c) of
       Some r \<Rightarrow> req_command r = c \<and> s = \<lparr>sub_request = r, sub_created = False\<rparr> \<and> L' = L
     | None \<Rightarrow> ls_ready (lg_lease L) \<and> check_submit (ljnl L) c now = Inr () \<and>
         s = \<lparr>sub_request = new_request sha oid rid c, sub_created = True\<rparr> \<and>
         (\<exists>d1 d2. append_entry (lg_scope L)
              (entry (oc_key c) (PRequest (new_request sha oid rid c))) (lg_db L) = Inr d1 \<and>
            append_obligation (lg_scope L) (new_request sha oid rid c) d1 = Inr d2 \<and>
            L' = L\<lparr>lg_db := d2\<rparr>))"
  using ledger_read [OF assms]
  by (auto simp: submit_def transaction_Inr result_simps Let_def lease_ready_def
      split: option.splits if_splits)

lemma submit_created:
  assumes ok: "ledger_ok L" and sub: "submit sha now oid rid c L = Inr (s, L')" and "sub_created s"
  shows "find_key (ljnl L) (oc_key c) = None" and "ls_ready (lg_lease L)"
    and "check_submit (ljnl L) c now = Inr ()" and "sub_request s = new_request sha oid rid c"
    and "ledger_ok L'" and "ljnl L' = push_request (sub_request s) (ljnl L)"
    and "lg_lease L' = lg_lease L" and "lg_pid L' = lg_pid L"
    and "sc' \<noteq> lg_scope L \<Longrightarrow> jnl sc' (lg_db L') = jnl sc' (lg_db L)"
proof -
  let ?r = "new_request sha oid rid c"
  obtain d1 d2 where none: "find_key (ljnl L) (oc_key c) = None"
    and ready: "ls_ready (lg_lease L)" and check: "check_submit (ljnl L) c now = Inr ()"
    and s: "s = \<lparr>sub_request = ?r, sub_created = True\<rparr>"
    and d1: "append_entry (lg_scope L) (entry (oc_key c) (PRequest ?r)) (lg_db L) = Inr d1"
    and d2: "append_obligation (lg_scope L) ?r d1 = Inr d2" and L': "L' = L\<lparr>lg_db := d2\<rparr>"
    using sub \<open>sub_created s\<close> unfolding submit_Inr [OF ok] by (auto split: option.splits)
  have store: "store_ok (lg_db L)" using ok by (simp add: ledger_ok_def)
  note a1 = append_store [OF store d1, simplified]
  note a2 = append_obligation_store [OF a1(1) d2]
  show "find_key (ljnl L) (oc_key c) = None" "ls_ready (lg_lease L)"
    "check_submit (ljnl L) c now = Inr ()" "sub_request s = ?r"
    "lg_lease L' = lg_lease L" "lg_pid L' = lg_pid L" "ledger_ok L'"
    using none ready check s L' a2(1) by (simp_all add: ledger_ok_def)
  show "ljnl L' = push_request (sub_request s) (ljnl L)"
    using a1(2) a2(2) s L' by (simp add: ljnl_db ljnl_def push_request_def split: option.splits)
  show "jnl sc' (lg_db L') = jnl sc' (lg_db L)" if "sc' \<noteq> lg_scope L"
    using a1(3) [OF that] a2(3) [OF that] L' by simp
qed

lemma submit_not_created:
  assumes "ledger_ok L" and "submit sha now oid rid c L = Inr (s, L')" and "\<not> sub_created s"
  shows "L' = L" and "find_key (ljnl L) (oc_key c) = Some (sub_request s)"
    and "req_command (sub_request s) = c"
  using assms by (auto simp: submit_Inr split: option.splits)

lemma find_key_push_request:
  "find_key (push_request r j) k =
     (case find_key j k of Some x \<Rightarrow> Some x | None \<Rightarrow> if oc_key (req_command r) = k then Some r else None)"
  by (simp add: find_key_def push_request_def find_append split: option.splits)

lemma submit_keeps:
  assumes "ledger_ok L" and "submit sha now oid rid c L = Inr (s, L')"
  shows "ledger_ok L'" and "lg_lease L' = lg_lease L" and "lg_pid L' = lg_pid L"
    and "find_key (ljnl L') (oc_key c) = Some (sub_request s)" and "req_command (sub_request s) = c"
    and "ls_held (lg_lease L)" and "lg_pid L = ls_pid (lg_lease L)"
proof -
  show "ls_held (lg_lease L)" "lg_pid L = ls_pid (lg_lease L)"
    using assms(2) by (auto simp: submit_def transaction_Inr)
  have "ledger_ok L' \<and> lg_lease L' = lg_lease L \<and> lg_pid L' = lg_pid L \<and>
      find_key (ljnl L') (oc_key c) = Some (sub_request s) \<and> req_command (sub_request s) = c"
  proof (cases "sub_created s")
    case True
    note d = submit_created [OF assms True]
    show ?thesis using d by (simp add: find_key_push_request)
  next
    case False
    then show ?thesis using submit_not_created [OF assms False] assms(1) by simp
  qed
  then show "ledger_ok L'" "lg_lease L' = lg_lease L" "lg_pid L' = lg_pid L"
    "find_key (ljnl L') (oc_key c) = Some (sub_request s)" "req_command (sub_request s) = c" by simp_all
qed

section \<open>What the other mutations do\<close>

definition push_fact :: "fact \<Rightarrow> journal \<Rightarrow> journal" where
  "push_fact f j = (case assignment_for j f of
     None \<Rightarrow> push (PFact f) j
   | Some a \<Rightarrow> push (PStopAssignment a) (push (PFact f) j))"

lemma assignment_event: "assignment_for j f = Some a \<Longrightarrow> sa_fill_event_id a = fact_id f"
  by (cases f) (auto simp: assignment_for_def split: option.splits)

lemma append_assignment_store:
  assumes "store_ok d" and "append_assignment sc j f d = Inr d'"
  shows "store_ok d' \<and> jnl sc d' = (case assignment_for j f of None \<Rightarrow> jnl sc d
      | Some a \<Rightarrow> push (PStopAssignment a) (jnl sc d)) \<and> (sc' \<noteq> sc \<longrightarrow> jnl sc' d' = jnl sc' d)"
proof (cases "assignment_for j f")
  case None
  then show ?thesis using assms by (simp add: append_assignment_def)
next
  case (Some a)
  then have "append_entry sc (entry (str_uuid (fact_id f)) (PStopAssignment a)) d = Inr d'"
    using assms(2) by (simp add: append_assignment_def)
  from append_store [OF assms(1) this] Some show ?thesis by (simp add: assignment_event)
qed

lemma append_fact_store:
  assumes "store_ok d" and "append_fact sc f d = Inr d'"
  shows "store_ok d'" and "jnl sc d' = push (PFact f) (jnl sc d)"
    and "sc' \<noteq> sc \<Longrightarrow> jnl sc' d' = jnl sc' d"
  using append_store [OF assms(1), of sc "str_uuid (fact_id f)" "PFact f" d'] assms(2)
  by (simp_all add: append_fact_def)

lemma ingest_Inr:
  assumes "ledger_ok L"
  shows "ingest u5 f L = Inr (b, L') \<longleftrightarrow>
    ls_held (lg_lease L) \<and> lg_pid L = ls_pid (lg_lease L) \<and>
    (case find_fact (ljnl L) (fact_id f) of
       Some g \<Rightarrow> fact_eq g f \<and> \<not> b \<and> L' = L
     | None \<Rightarrow> b \<and> check_fact u5 (ljnl L) f = Inr () \<and>
         (\<exists>d1 d2. append_fact (lg_scope L) f (lg_db L) = Inr d1 \<and>
            append_assignment (lg_scope L) (ljnl L) f d1 = Inr d2 \<and> L' = L\<lparr>lg_db := d2\<rparr>))"
  using ledger_read [OF assms]
  by (auto simp: ingest_def transaction_Inr result_simps split: option.splits if_splits)

lemma ingest_new:
  assumes ok: "ledger_ok L" and ing: "ingest u5 f L = Inr (True, L')"
  shows "find_fact (ljnl L) (fact_id f) = None" and "check_fact u5 (ljnl L) f = Inr ()"
    and "ledger_ok L'" and "ljnl L' = push_fact f (ljnl L)"
    and "lg_lease L' = lg_lease L" and "lg_pid L' = lg_pid L"
    and "sc' \<noteq> lg_scope L \<Longrightarrow> jnl sc' (lg_db L') = jnl sc' (lg_db L)"
proof -
  obtain d1 d2 where none: "find_fact (ljnl L) (fact_id f) = None"
    and check: "check_fact u5 (ljnl L) f = Inr ()"
    and d1: "append_fact (lg_scope L) f (lg_db L) = Inr d1"
    and d2: "append_assignment (lg_scope L) (ljnl L) f d1 = Inr d2" and L': "L' = L\<lparr>lg_db := d2\<rparr>"
    using ing unfolding ingest_Inr [OF ok] by (auto split: option.splits)
  have store: "store_ok (lg_db L)" using ok by (simp add: ledger_ok_def)
  note a1 = append_fact_store [OF store d1]
  note a2 = append_assignment_store [OF a1(1) d2]
  show "find_fact (ljnl L) (fact_id f) = None" "check_fact u5 (ljnl L) f = Inr ()"
    "lg_lease L' = lg_lease L" "lg_pid L' = lg_pid L" "ledger_ok L'"
    using none check L' a2 by (simp_all add: ledger_ok_def)
  show "ljnl L' = push_fact f (ljnl L)"
    using a1(2) a2 L' by (simp add: ljnl_db ljnl_def push_fact_def split: option.splits)
  show "jnl sc' (lg_db L') = jnl sc' (lg_db L)" if "sc' \<noteq> lg_scope L"
    using a1(3) [OF that] a2 [of sc'] that L' by simp
qed

lemma ingest_old: "ledger_ok L \<Longrightarrow> ingest u5 f L = Inr (False, L') \<Longrightarrow> L' = L"
  by (auto simp: ingest_Inr split: option.splits)

lemma find_fact_push_fact:
  "find_fact (push_fact f j) u =
     (case find_fact j u of Some x \<Rightarrow> Some x | None \<Rightarrow> if fact_id f = u then Some f else None)"
  by (simp add: find_fact_def push_fact_def find_append split: option.splits)

lemma ingest_keeps:
  assumes "ledger_ok L" and "ingest u5 f L = Inr (b, L')"
  shows "ledger_ok L'" and "lg_lease L' = lg_lease L" and "lg_pid L' = lg_pid L"
    and "\<exists>g. find_fact (ljnl L') (fact_id f) = Some g \<and> fact_eq g f"
    and "ls_held (lg_lease L)" and "lg_pid L = ls_pid (lg_lease L)"
proof -
  show "ls_held (lg_lease L)" "lg_pid L = ls_pid (lg_lease L)"
    using assms(2) by (auto simp: ingest_def transaction_Inr)
  have "ledger_ok L' \<and> lg_lease L' = lg_lease L \<and> lg_pid L' = lg_pid L \<and>
      (\<exists>g. find_fact (ljnl L') (fact_id f) = Some g \<and> fact_eq g f)"
  proof (cases b)
    case True
    then have "ingest u5 f L = Inr (True, L')" using assms(2) by simp
    note d = ingest_new [OF assms(1) this]
    show ?thesis using d by (simp add: find_fact_push_fact)
  next
    case False
    then show ?thesis using assms by (auto simp: ingest_Inr split: option.splits)
  qed
  then show "ledger_ok L'" "lg_lease L' = lg_lease L" "lg_pid L' = lg_pid L"
    "\<exists>g. find_fact (ljnl L') (fact_id f) = Some g \<and> fact_eq g f" by simp_all
qed

lemma make_fact_Inr: "make_fact f = Inr g \<longleftrightarrow> valid_fact f \<and> g = f"
  by (auto simp: make_fact_def result_simps)

lemma discard_Inr:
  assumes "ledger_ok L"
  shows "discard u5 rid reason expected L = Inr (b, L') \<longleftrightarrow> is_key reason \<and>
    ls_held (lg_lease L) \<and> lg_pid L = ls_pid (lg_lease L) \<and>
    (case find_fact (ljnl L) (fact_id (discard_fact u5 rid reason)) of
       Some g \<Rightarrow> fact_eq g (discard_fact u5 rid reason) \<and> \<not> b \<and> L' = L
     | None \<Rightarrow> b \<and> ls_ready (lg_lease L) \<and> revision (ljnl L) = expected \<and>
         check_fact u5 (ljnl L) (discard_fact u5 rid reason) = Inr () \<and>
         (\<exists>d1. append_fact (lg_scope L) (discard_fact u5 rid reason) (lg_db L) = Inr d1 \<and> L' = L\<lparr>lg_db := d1\<rparr>))"
  using ledger_read [OF assms(1)]
  by (auto simp: discard_def make_fact_Inr transaction_Inr result_simps discard_fact_def
      lease_ready_def split: option.splits if_splits)

lemma discard_new:
  assumes ok: "ledger_ok L" and dis: "discard u5 rid reason expected L = Inr (True, L')"
  shows "check_fact u5 (ljnl L) (discard_fact u5 rid reason) = Inr ()" and "revision (ljnl L) = expected"
    and "ls_ready (lg_lease L)" and "ledger_ok L'" and "ljnl L' = push (PFact (discard_fact u5 rid reason)) (ljnl L)"
    and "lg_lease L' = lg_lease L" and "lg_pid L' = lg_pid L"
    and "find_fact (ljnl L) (fact_id (discard_fact u5 rid reason)) = None"
proof -
  obtain d1 where check: "check_fact u5 (ljnl L) (discard_fact u5 rid reason) = Inr ()" and rev: "revision (ljnl L) = expected"
    and ready: "ls_ready (lg_lease L)" and none: "find_fact (ljnl L) (fact_id (discard_fact u5 rid reason)) = None"
    and d1: "append_fact (lg_scope L) (discard_fact u5 rid reason) (lg_db L) = Inr d1" and L': "L' = L\<lparr>lg_db := d1\<rparr>"
    using dis unfolding discard_Inr [OF ok] by (auto split: option.splits)
  have "store_ok (lg_db L)" using ok by (simp add: ledger_ok_def)
  note a = append_fact_store [OF this d1]
  show "check_fact u5 (ljnl L) (discard_fact u5 rid reason) = Inr ()" "revision (ljnl L) = expected" "ls_ready (lg_lease L)"
    "ledger_ok L'" "ljnl L' = push (PFact (discard_fact u5 rid reason)) (ljnl L)" "lg_lease L' = lg_lease L" "lg_pid L' = lg_pid L"
    "find_fact (ljnl L) (fact_id (discard_fact u5 rid reason)) = None"
    using check rev ready L' a none by (simp_all add: ledger_ok_def ljnl_db ljnl_def)
qed

lemma discard_old: "ledger_ok L \<Longrightarrow> discard u5 rid reason expected L = Inr (False, L') \<Longrightarrow> L' = L"
  by (auto simp: discard_Inr split: option.splits)

end
