(* ===== verification/StopEvaluation.thy ===== *)
theory StopEvaluation
  imports Settings
begin

text \<open>
  \<open>contracts/stop_evaluation.py\<close>: the pure stop observation and the protection candidate.
  Quotes, costs and fills hold the decimal their validated text denotes.
\<close>

record managed_position =
  mp_symbol :: string
  confirmed_qty :: int
  average_cost :: "decimal option"

record quote =
  quote_symbol :: string
  quote_price :: decimal
  quote_received_at :: datetime

record confirmed_buy_fill =
  cbf_qty :: int
  cbf_price :: decimal

datatype stop_status = TRIGGERED | NOT_TRIGGERED | UNAVAILABLE

record stop_observation =
  obs_status :: stop_status
  obs_reason :: string
  threshold_price :: "decimal option"

record protection_exposure =
  managed_qty :: int
  reserved_sell_qty :: int
  exp_reconciliation_required :: bool
  exp_sell_uncertain :: bool

datatype protection_status = CANDIDATE | BLOCKED | NONE

record protection_decision =
  prot_status :: protection_status
  prot_reason :: string
  unreserved_qty :: int

record observe_at =
  obs_now :: datetime
  max_quote_age_seconds :: int

section \<open>Validators\<close>

definition make_managed_position :: "string \<Rightarrow> int \<Rightarrow> string option \<Rightarrow> managed_position result" where
  "make_managed_position symb qty cost =
     ebind (raise_if (\<not> is_symbol symb \<or> qty < 0) (ValueError ''POSITION_INVALID'')) (\<lambda>_.
     case cost of
       None \<Rightarrow> Inr \<lparr>mp_symbol = symb, confirmed_qty = qty, average_cost = None\<rparr>
     | Some text \<Rightarrow> ebind (exact_decimal ''INVALID_AVERAGE_COST'' text) (\<lambda>d.
         Inr \<lparr>mp_symbol = symb, confirmed_qty = qty, average_cost = Some d\<rparr>))"

definition make_quote :: "string \<Rightarrow> string \<Rightarrow> datetime \<Rightarrow> quote result" where
  "make_quote symb price rcv =
     ebind (raise_if (\<not> is_symbol symb \<or> \<not> aware rcv) (ValueError ''QUOTE_INVALID'')) (\<lambda>_.
     ebind (exact_decimal ''INVALID_QUOTE_PRICE'' price) (\<lambda>d.
     Inr \<lparr>quote_symbol = symb, quote_price = d, quote_received_at = rcv\<rparr>))"

definition make_confirmed_buy_fill :: "int \<Rightarrow> string \<Rightarrow> confirmed_buy_fill result" where
  "make_confirmed_buy_fill qty price =
     ebind (raise_if (qty \<le> 0) (ValueError ''FILL_INVALID'')) (\<lambda>_.
     ebind (exact_decimal ''INVALID_FILL_PRICE'' price) (\<lambda>d.
     Inr \<lparr>cbf_qty = qty, cbf_price = d\<rparr>))"

definition make_observe_at :: "datetime \<Rightarrow> int \<Rightarrow> observe_at result" where
  "make_observe_at now age =
     ebind (raise_if (\<not> (0 < age \<and> age \<le> 2)) (ValueError ''MAX_AGE_INVALID'')) (\<lambda>_.
     ebind (raise_if (\<not> aware now) (ValueError ''CLOCK_TIMEZONE_REQUIRED'')) (\<lambda>_.
     Inr \<lparr>obs_now = now, max_quote_age_seconds = age\<rparr>))"

section \<open>Average cost\<close>

definition average_buy_cost :: "confirmed_buy_fill list \<Rightarrow> decimal result" where
  "average_buy_cost fills =
     (if fills = [] then Inl (ValueError ''CONFIRMED_BUY_FILLS_REQUIRED'')
      else Inr (dec_div
        (foldl dec_add (dec_of_int 0) (map (\<lambda>f. dec_mul (cbf_price f) (dec_of_int (cbf_qty f))) fills))
        (dec_of_int (sum_list (map cbf_qty fills)))))"

section \<open>Observation and candidate\<close>

definition quote_fresh :: "quote \<Rightarrow> observe_at \<Rightarrow> bool" where
  "quote_fresh q t \<longleftrightarrow> (let age = dt_minus (obs_now t) (quote_received_at q)
     in \<not> (age < 0 \<or> age > seconds (max_quote_age_seconds t)))"

definition unavailable :: "string \<Rightarrow> stop_observation" where
  "unavailable r = \<lparr>obs_status = UNAVAILABLE, obs_reason = r, threshold_price = None\<rparr>"

definition compare_threshold :: "quote \<Rightarrow> decimal \<Rightarrow> stop_observation" where
  "compare_threshold q t =
     \<lparr>obs_status = (if dec_le (quote_price q) t then TRIGGERED else NOT_TRIGGERED),
      obs_reason = (if dec_le (quote_price q) t then ''PRICE_AT_OR_BELOW_THRESHOLD''
                    else ''ABOVE_THRESHOLD''),
      threshold_price = Some t\<rparr>"

definition evaluate_stop ::
    "managed_position \<Rightarrow> quote option \<Rightarrow> stop_rule \<Rightarrow> observe_at \<Rightarrow> stop_observation" where
  "evaluate_stop p quote rule timing =
     (if confirmed_qty p = 0 then unavailable ''NO_MANAGED_POSITION''
      else case quote of
        None \<Rightarrow> unavailable ''QUOTE_MISSING_OR_WRONG_SYMBOL''
      | Some q \<Rightarrow>
          if quote_symbol q \<noteq> mp_symbol p then unavailable ''QUOTE_MISSING_OR_WRONG_SYMBOL''
          else if \<not> quote_fresh q timing then unavailable ''QUOTE_NOT_FRESH''
          else if rule_kind rule = PRICE_AT_OR_BELOW then compare_threshold q (threshold rule)
          else (case average_cost p of
              None \<Rightarrow> unavailable ''AVERAGE_COST_MISSING''
            | Some cost \<Rightarrow>
                compare_threshold q (dec_mul cost (dec_sub (dec_of_int 1) (threshold rule)))))"

definition blocked :: "string \<Rightarrow> protection_decision" where
  "blocked r = \<lparr>prot_status = BLOCKED, prot_reason = r, unreserved_qty = 0\<rparr>"

definition no_candidate :: "string \<Rightarrow> protection_decision" where
  "no_candidate r = \<lparr>prot_status = NONE, prot_reason = r, unreserved_qty = 0\<rparr>"

definition protection_candidate ::
    "stop_observation \<Rightarrow> managed_position \<Rightarrow> protection_exposure \<Rightarrow> protection_decision" where
  "protection_candidate ob p ex =
     (if obs_status ob \<noteq> TRIGGERED then no_candidate (obs_reason ob)
      else if managed_qty ex \<noteq> confirmed_qty p then blocked ''POSITION_EVIDENCE_MISMATCH''
      else if exp_reconciliation_required ex \<or> exp_sell_uncertain ex
        then blocked ''SELL_EVIDENCE_UNRESOLVED''
      else if reserved_sell_qty ex > managed_qty ex then blocked ''SELL_RESERVATION_EXCEEDS_HOLDING''
      else let available = managed_qty ex - reserved_sell_qty ex
           in if available = 0 then no_candidate ''SHARES_ALREADY_RESERVED_OR_SOLD''
              else \<lparr>prot_status = CANDIDATE, prot_reason = ''TRIGGERED_UNRESERVED_SHARES'',
                    unreserved_qty = available\<rparr>)"

section \<open>Facts\<close>

definition stop_line :: "managed_position \<Rightarrow> stop_rule \<Rightarrow> decimal option" where
  "stop_line p r = (case rule_kind r of
      PRICE_AT_OR_BELOW \<Rightarrow> Some (threshold r)
    | AVERAGE_COST_DROP \<Rightarrow>
        map_option (\<lambda>c. dec_mul c (dec_sub (dec_of_int 1) (threshold r))) (average_cost p))"

lemma compare_threshold_status:
  "obs_status (compare_threshold q t) = TRIGGERED \<longleftrightarrow> dec_val (quote_price q) \<le> dec_val t"
  "obs_status (compare_threshold q t) \<noteq> UNAVAILABLE"
  by (auto simp: compare_threshold_def dec_le_val)

lemma evaluate_stop_triggered_iff:
  "obs_status (evaluate_stop p quote r t) = TRIGGERED \<longleftrightarrow>
     confirmed_qty p \<noteq> 0 \<and>
     (\<exists>q line. quote = Some q \<and> quote_symbol q = mp_symbol p \<and> quote_fresh q t \<and>
        stop_line p r = Some line \<and> dec_val (quote_price q) \<le> dec_val line)"
  by (cases "rule_kind r")
     (auto simp: evaluate_stop_def unavailable_def stop_line_def compare_threshold_status
       split: option.splits)

lemma protection_candidate_iff:
  "prot_status (protection_candidate ob p ex) = CANDIDATE \<longleftrightarrow>
     obs_status ob = TRIGGERED \<and> managed_qty ex = confirmed_qty p \<and>
     \<not> exp_reconciliation_required ex \<and> \<not> exp_sell_uncertain ex \<and>
     reserved_sell_qty ex < managed_qty ex"
  by (auto simp: protection_candidate_def blocked_def no_candidate_def Let_def)

lemma protection_candidate_qty:
  "prot_status (protection_candidate ob p ex) = CANDIDATE \<Longrightarrow>
     unreserved_qty (protection_candidate ob p ex) = managed_qty ex - reserved_sell_qty ex"
  by (auto simp: protection_candidate_def blocked_def no_candidate_def Let_def split: if_splits)

lemma protection_not_candidate_qty:
  "prot_status (protection_candidate ob p ex) \<noteq> CANDIDATE \<Longrightarrow>
     unreserved_qty (protection_candidate ob p ex) = 0"
  by (auto simp: protection_candidate_def blocked_def no_candidate_def Let_def)

end
