(* ===== verification/LedgerStops.thy ===== *)
theory LedgerStops
  imports LedgerOrders StopEvaluation
begin

text \<open>
  \<open>execution/ledger.py\<close>, the virtual stop side of the facade: quotes are ordered, evaluated
  against the assigned rule and latched in one transaction; candidates are read-only projections. With it
  \<open>execution/quote_status.py\<close>, the freshness of the last accepted quote.
\<close>

section \<open>Quote ordering\<close>

definition find_latch :: "journal \<Rightarrow> string \<Rightarrow> stop_latch option" where
  "find_latch j symb = List.find (\<lambda>l. sl_symbol l = symb) (stop_latches j)"

definition previous_quote :: "journal \<Rightarrow> string \<Rightarrow> stop_quote_checkpoint option" where
  "previous_quote j symb = List.find (\<lambda>c. cp_symbol c = symb) (rev (stop_quotes j))"

definition quote_order_reason :: "stop_quote_checkpoint option \<Rightarrow> quote \<Rightarrow> observe_at \<Rightarrow> string option" where
  "quote_order_reason previous q timing = (case previous of
     None \<Rightarrow> None
   | Some p \<Rightarrow>
       if dt_lt (obs_now timing) (cp_evaluated_at p) then Some ''EVALUATION_TIME_REVERSED''
       else if dt_eq (quote_received_at q) (cp_received_at p) then Some ''QUOTE_DUPLICATE''
       else if dt_lt (quote_received_at q) (cp_received_at p) then Some ''QUOTE_OUT_OF_ORDER''
       else None)"

definition quote_rejection_reason ::
    "journal \<Rightarrow> string \<Rightarrow> quote \<Rightarrow> observe_at \<Rightarrow> string option" where
  "quote_rejection_reason j symb q timing =
     (if quote_symbol q \<noteq> symb then Some ''QUOTE_MISSING_OR_WRONG_SYMBOL''
      else if \<not> quote_fresh q timing then Some ''QUOTE_NOT_FRESH''
      else case quote_order_reason (previous_quote j symb) q timing of
        Some r \<Rightarrow> Some r
      | None \<Rightarrow> if symbol_latched j symb then Some ''STOP_ALREADY_LATCHED'' else None)"

section \<open>Evaluation of an accepted quote\<close>

text \<open>The version and position of the cost basis, or of the holdings when prices are missing.\<close>

definition stop_position ::
    "string \<Rightarrow> stop_cost_basis option \<Rightarrow> stop_holdings option \<Rightarrow> (int \<times> managed_position) option result"
    where
  "stop_position symb basis holdings = (case basis of
     Some b \<Rightarrow>
       ebind (make_managed_position symb (scb_qty b) (Some (dec_str (scb_average_cost b)))) (\<lambda>m.
       Inr (Some (scb_rule_version b, m)))
   | None \<Rightarrow> (case holdings of
       Some h \<Rightarrow> ebind (make_managed_position symb (sh_qty h) None) (\<lambda>m.
         Inr (Some (sh_rule_version h, m)))
     | None \<Rightarrow> Inr None))"

definition evaluate_bound ::
    "managed_position \<Rightarrow> quote option \<Rightarrow> virtual_stop_binding \<Rightarrow> observe_at \<Rightarrow> stop_observation result" where
  "evaluate_bound m q b timing =
     ebind (make_stop_rule (vb_rule_kind b) (vb_threshold b)) (\<lambda>rule.
     Inr (evaluate_stop m q rule timing))"

definition evaluate_virtual_quote ::
    "journal \<Rightarrow> string \<Rightarrow> quote \<Rightarrow> observe_at \<Rightarrow>
     (stop_observation \<times> virtual_stop_binding option) result" where
  "evaluate_virtual_quote j symb q timing =
     ebind (portfolio j symb) (\<lambda>position.
     if reconciliation_required position \<or> sell_uncertain position
     then Inr (unavailable ''SELL_EVIDENCE_UNRESOLVED'', None)
     else if available position = 0
     then Inr (unavailable ''NO_UNRESERVED_MANAGED_POSITION'', None)
     else
       ebind (confirmed_stop_cost_basis j symb) (\<lambda>basis.
       ebind (confirmed_stop_holdings j symb) (\<lambda>holdings.
       ebind (stop_position symb basis holdings) (\<lambda>vm. case vm of
         None \<Rightarrow> Inr (unavailable ''STOP_RULE_EVIDENCE_INCOMPLETE'', None)
       | Some (version, m) \<Rightarrow> (case find_binding j symb version of
           None \<Rightarrow> Inr (unavailable ''STOP_RULE_EVIDENCE_INCOMPLETE'', None)
         | Some b \<Rightarrow> ebind (evaluate_bound m (Some q) b timing) (\<lambda>ob. Inr (ob, Some b)))))))"

section \<open>Processing a quote\<close>

record virtual_stop_input_result =
  vr_accepted :: bool
  vr_observation :: stop_observation
  vr_latch :: "stop_latch option"

definition latch_of :: "string \<Rightarrow> virtual_stop_binding \<Rightarrow> quote \<Rightarrow> stop_latch" where
  "latch_of symb b q = \<lparr>sl_symbol = symb, sl_rule_version = vb_version b, sl_rule_kind = vb_rule_kind b,
     sl_quote_price = dec_str (quote_price q), sl_quote_received_at = quote_received_at q\<rparr>"

definition checkpoint_of :: "string \<Rightarrow> quote \<Rightarrow> observe_at \<Rightarrow> stop_quote_checkpoint" where
  "checkpoint_of symb q timing = \<lparr>cp_symbol = symb, cp_price = dec_str (quote_price q),
     cp_received_at = quote_received_at q, cp_evaluated_at = obs_now timing\<rparr>"

definition append_latch :: "scope \<Rightarrow> string \<Rightarrow> virtual_stop_binding \<Rightarrow> quote \<Rightarrow> db \<Rightarrow> (stop_latch \<times> db) result"
    where
  "append_latch sc symb b q d =
     ebind (make_latch (latch_of symb b q)) (\<lambda>l.
     ebind (append_entry sc (entry symb (PStopLatch l)) d) (\<lambda>d'. Inr (l, d')))"

text \<open>The accepted quote moves the cursor and, when it triggers the assigned rule, latches.\<close>

definition accept_quote ::
    "scope \<Rightarrow> journal \<Rightarrow> string \<Rightarrow> quote \<Rightarrow> observe_at \<Rightarrow> db \<Rightarrow> (virtual_stop_input_result \<times> db) result"
    where
  "accept_quote sc j symb q timing d =
     ebind (evaluate_virtual_quote j symb q timing) (\<lambda>(ob, binding).
     ebind (make_checkpoint (checkpoint_of symb q timing)) (\<lambda>cp.
     let d1 = checkpoint_stop_quote sc cp d in
     if binding \<noteq> None \<and> obs_status ob = TRIGGERED
     then ebind (append_latch sc symb (the binding) q d1) (\<lambda>(l, d2).
       Inr (\<lparr>vr_accepted = True, vr_observation = ob, vr_latch = Some l\<rparr>, d2))
     else Inr (\<lparr>vr_accepted = True, vr_observation = ob, vr_latch = None\<rparr>, d1)))"

definition process_virtual_stop_quote ::
    "string \<Rightarrow> quote \<Rightarrow> observe_at \<Rightarrow> ledger \<Rightarrow> (virtual_stop_input_result \<times> ledger) result" where
  "process_virtual_stop_quote symb q timing L = transaction (\<lambda>d.
     ebind (require_ready (lg_pid L) (lg_lease L)) (\<lambda>_.
     ebind (read_journal (lg_scope L) d) (\<lambda>j.
     case quote_rejection_reason j symb q timing of
       Some rejection \<Rightarrow>
         Inr (\<lparr>vr_accepted = False, vr_observation = unavailable rejection,
               vr_latch = (if rejection = ''STOP_ALREADY_LATCHED'' then find_latch j symb else None)\<rparr>, d)
     | None \<Rightarrow> accept_quote (lg_scope L) j symb q timing d))) L"

section \<open>Freshness of the last quote\<close>

datatype quote_freshness = NO_QUOTE | FRESH | STALE | CLOCK_UNCERTAIN

record quote_status =
  vq_symbol :: string
  vq_freshness :: quote_freshness
  vq_received_at :: "datetime option"
  vq_evaluated_at :: "datetime option"

definition virtual_quote_status :: "journal \<Rightarrow> string \<Rightarrow> observe_at \<Rightarrow> quote_status" where
  "virtual_quote_status j symb timing = (case last_quote j symb of
     None \<Rightarrow> \<lparr>vq_symbol = symb, vq_freshness = NO_QUOTE, vq_received_at = None, vq_evaluated_at = None\<rparr>
   | Some c \<Rightarrow>
       let age = dt_minus (obs_now timing) (cp_received_at c) in
       \<lparr>vq_symbol = symb,
        vq_freshness = (if age < 0 \<or> dt_lt (obs_now timing) (cp_evaluated_at c) then CLOCK_UNCERTAIN
          else if age > seconds (max_quote_age_seconds timing) then STALE else FRESH),
        vq_received_at = Some (cp_received_at c), vq_evaluated_at = Some (cp_evaluated_at c)\<rparr>)"

definition ledger_quote_status :: "string \<Rightarrow> observe_at \<Rightarrow> ledger \<Rightarrow> quote_status result" where
  "ledger_quote_status symb timing L =
     ebind (snapshot L) (\<lambda>j. Inr (virtual_quote_status j symb timing))"

section \<open>Observation and candidates\<close>

definition make_exposure :: "portfolio_record \<Rightarrow> protection_exposure result" where
  "make_exposure p =
     ebind (raise_if (managed p < 0 \<or> reserved p < 0) (ValueError ''EXPOSURE_INVALID'')) (\<lambda>_.
     Inr \<lparr>managed_qty = managed p, reserved_sell_qty = reserved p,
          exp_reconciliation_required = reconciliation_required p,
          exp_sell_uncertain = sell_uncertain p\<rparr>)"

definition cost_position :: "string \<Rightarrow> stop_cost_basis \<Rightarrow> managed_position result" where
  "cost_position symb b =
     make_managed_position symb (scb_qty b) (Some (dec_str (scb_average_cost b)))"

definition observe_cost_stop ::
    "journal \<Rightarrow> string \<Rightarrow> quote option \<Rightarrow> observe_at \<Rightarrow> stop_observation result" where
  "observe_cost_stop j symb q timing =
     ebind (confirmed_stop_cost_basis j symb) (\<lambda>basis. case basis of
       None \<Rightarrow> Inr (unavailable ''COST_EVIDENCE_INCOMPLETE'')
     | Some b \<Rightarrow> (case find_binding j symb (scb_rule_version b) of
         None \<Rightarrow> Inr (unavailable ''COST_RULE_NOT_ASSIGNED'')
       | Some binding \<Rightarrow>
           if vb_rule_kind binding \<noteq> AVERAGE_COST_DROP
           then Inr (unavailable ''COST_RULE_NOT_ASSIGNED'')
           else ebind (cost_position symb b) (\<lambda>m. evaluate_bound m q binding timing)))"

definition observe_virtual_cost_stop ::
    "string \<Rightarrow> quote option \<Rightarrow> observe_at \<Rightarrow> ledger \<Rightarrow> stop_observation result" where
  "observe_virtual_cost_stop symb q timing L =
     ebind (snapshot L) (\<lambda>j. observe_cost_stop j symb q timing)"

definition virtual_cost_stop_candidate ::
    "string \<Rightarrow> quote option \<Rightarrow> observe_at \<Rightarrow> ledger \<Rightarrow> protection_decision result" where
  "virtual_cost_stop_candidate symb q timing L =
     ebind (snapshot L) (\<lambda>j.
     if \<not> lease_ready (lg_pid L) (lg_lease L) then Inr (blocked ''SESSION_RECONCILIATION_REQUIRED'')
     else ebind (portfolio j symb) (\<lambda>p.
       if reconciliation_required p \<or> sell_uncertain p then Inr (blocked ''SELL_EVIDENCE_UNRESOLVED'')
       else ebind (confirmed_stop_cost_basis j symb) (\<lambda>basis. case basis of
         None \<Rightarrow> Inr (blocked ''COST_EVIDENCE_INCOMPLETE'')
       | Some b \<Rightarrow>
           ebind (observe_cost_stop j symb q timing) (\<lambda>ob.
           ebind (cost_position symb b) (\<lambda>m.
           ebind (make_exposure p) (\<lambda>ex.
           Inr (protection_candidate ob m ex)))))))"

definition virtual_price_stop_candidate ::
    "string \<Rightarrow> quote option \<Rightarrow> observe_at \<Rightarrow> ledger \<Rightarrow> protection_decision result" where
  "virtual_price_stop_candidate symb q timing L =
     ebind (snapshot L) (\<lambda>j.
     if \<not> lease_ready (lg_pid L) (lg_lease L) then Inr (blocked ''SESSION_RECONCILIATION_REQUIRED'')
     else ebind (portfolio j symb) (\<lambda>p.
       if reconciliation_required p \<or> sell_uncertain p then Inr (blocked ''SELL_EVIDENCE_UNRESOLVED'')
       else ebind (confirmed_stop_holdings j symb) (\<lambda>holdings. case holdings of
         None \<Rightarrow> Inr (blocked ''RULE_EVIDENCE_INCOMPLETE'')
       | Some h \<Rightarrow> (case find_binding j symb (sh_rule_version h) of
           None \<Rightarrow> Inr (blocked ''PRICE_RULE_NOT_ASSIGNED'')
         | Some binding \<Rightarrow>
             if vb_rule_kind binding \<noteq> PRICE_AT_OR_BELOW
             then Inr (blocked ''PRICE_RULE_NOT_ASSIGNED'')
             else ebind (make_managed_position symb (sh_qty h) None) (\<lambda>m.
               ebind (evaluate_bound m q binding timing) (\<lambda>ob.
               ebind (make_exposure p) (\<lambda>ex.
               Inr (protection_candidate ob m ex))))))))"

text \<open>The two latching operations differ in the evidence they need and in the rule kind.\<close>

definition latch_blocked :: "portfolio_record \<Rightarrow> quote option \<Rightarrow> 'a option \<Rightarrow> bool" where
  "latch_blocked p q evidence \<longleftrightarrow> q = None \<or> evidence = None \<or> reconciliation_required p \<or>
     sell_uncertain p \<or> available p = 0"

definition latch_triggered ::
    "scope \<Rightarrow> journal \<Rightarrow> string \<Rightarrow> rule_kind \<Rightarrow> int \<Rightarrow> managed_position result \<Rightarrow> quote \<Rightarrow> observe_at \<Rightarrow>
     db \<Rightarrow> (stop_latch option \<times> db) result" where
  "latch_triggered sc j symb k version position q timing d = (case find_binding j symb version of
     None \<Rightarrow> Inr (None, d)
   | Some b \<Rightarrow>
       if vb_rule_kind b \<noteq> k then Inr (None, d)
       else ebind position (\<lambda>m.
         ebind (evaluate_bound m (Some q) b timing) (\<lambda>ob.
         if obs_status ob \<noteq> TRIGGERED then Inr (None, d)
         else ebind (append_latch sc symb b q d) (\<lambda>(l, d'). Inr (Some l, d')))))"

definition latch_virtual_price_stop ::
    "string \<Rightarrow> quote option \<Rightarrow> observe_at \<Rightarrow> ledger \<Rightarrow> (stop_latch option \<times> ledger) result" where
  "latch_virtual_price_stop symb quote timing L = transaction (\<lambda>d.
     ebind (require_ready (lg_pid L) (lg_lease L)) (\<lambda>_.
     ebind (read_journal (lg_scope L) d) (\<lambda>j.
     case find_latch j symb of
       Some l \<Rightarrow> Inr (if sl_rule_kind l = PRICE_AT_OR_BELOW then Some l else None, d)
     | None \<Rightarrow>
         ebind (portfolio j symb) (\<lambda>p.
         ebind (confirmed_stop_holdings j symb) (\<lambda>holdings.
         case (quote, holdings) of
           (Some q, Some h) \<Rightarrow>
             if latch_blocked p quote holdings then Inr (None, d)
             else latch_triggered (lg_scope L) j symb PRICE_AT_OR_BELOW (sh_rule_version h)
               (make_managed_position symb (sh_qty h) None) q timing d
         | _ \<Rightarrow> Inr (None, d)))))) L"

definition latch_virtual_cost_stop ::
    "string \<Rightarrow> quote option \<Rightarrow> observe_at \<Rightarrow> ledger \<Rightarrow> (stop_latch option \<times> ledger) result" where
  "latch_virtual_cost_stop symb quote timing L = transaction (\<lambda>d.
     ebind (require_ready (lg_pid L) (lg_lease L)) (\<lambda>_.
     ebind (read_journal (lg_scope L) d) (\<lambda>j.
     case find_latch j symb of
       Some l \<Rightarrow> Inr (if sl_rule_kind l = AVERAGE_COST_DROP then Some l else None, d)
     | None \<Rightarrow>
         ebind (portfolio j symb) (\<lambda>p.
         ebind (confirmed_stop_cost_basis j symb) (\<lambda>basis.
         case (quote, basis) of
           (Some q, Some b) \<Rightarrow>
             if latch_blocked p quote basis then Inr (None, d)
             else latch_triggered (lg_scope L) j symb AVERAGE_COST_DROP (scb_rule_version b)
               (cost_position symb b) q timing d
         | _ \<Rightarrow> Inr (None, d)))))) L"

definition latched_candidate :: "journal \<Rightarrow> string \<Rightarrow> bool \<Rightarrow> protection_decision result" where
  "latched_candidate j symb ready = (case find_latch j symb of
     None \<Rightarrow> Inr (no_candidate ''STOP_NOT_LATCHED'')
   | Some l \<Rightarrow>
       if \<not> ready then Inr (blocked ''SESSION_RECONCILIATION_REQUIRED'')
       else ebind (portfolio j symb) (\<lambda>p.
         if reconciliation_required p \<or> sell_uncertain p then Inr (blocked ''SELL_EVIDENCE_UNRESOLVED'')
         else if available p = 0
         then Inr (no_candidate (if managed p = 0 then ''NO_MANAGED_POSITION''
                                 else ''SHARES_ALREADY_RESERVED_OR_SOLD''))
         else ebind (confirmed_stop_holdings j symb) (\<lambda>holdings. case holdings of
             None \<Rightarrow> Inr (blocked ''RULE_EVIDENCE_INCOMPLETE'')
           | Some h \<Rightarrow>
               if sh_rule_version h \<noteq> sl_rule_version l then Inr (blocked ''RULE_EVIDENCE_INCOMPLETE'')
               else Inr \<lparr>prot_status = CANDIDATE, prot_reason = ''LATCHED_UNRESERVED_SHARES'',
                         unreserved_qty = available p\<rparr>)))"

definition virtual_latched_stop_candidate :: "string \<Rightarrow> ledger \<Rightarrow> protection_decision result" where
  "virtual_latched_stop_candidate symb L =
     ebind (snapshot L) (\<lambda>j. latched_candidate j symb (lease_ready (lg_pid L) (lg_lease L)))"

section \<open>Lemmas\<close>

text \<open>Inversion of a successful step through a pair or an option.\<close>

lemma case_Inr_iff:
  "(case p of (a, b) \<Rightarrow> f a b) = Inr y \<longleftrightarrow> (\<exists>a b. p = (a, b) \<and> f a b = Inr y)"
  "(case x of None \<Rightarrow> m | Some z \<Rightarrow> g z) = Inr y \<longleftrightarrow>
     x = None \<and> m = Inr y \<or> (\<exists>z. x = Some z \<and> g z = Inr y)"
  for p :: "'a \<times> 'b" and x :: "'c option" and y :: 'd and m :: "'e + 'd"
  by (auto split: prod.splits option.splits)

lemma find_latch_None: "find_latch j symb = None \<longleftrightarrow> \<not> symbol_latched j symb"
  by (auto simp: find_latch_def symbol_latched_def find_None_iff')

lemma quote_rejection_None:
  "quote_rejection_reason j symb q timing = None \<longleftrightarrow>
     quote_symbol q = symb \<and> quote_fresh q timing \<and> \<not> symbol_latched j symb \<and>
     (\<forall>p. previous_quote j symb = Some p \<longrightarrow>
        dt_lt (cp_received_at p) (quote_received_at q) \<and> dt_le (cp_evaluated_at p) (obs_now timing))"
  by (auto simp: quote_rejection_reason_def quote_order_reason_def split: option.splits)

lemma previous_quote_ljnl: "ledger_ok L \<Longrightarrow> previous_quote (ljnl L) symb = last_quote (ljnl L) symb"
  by (simp add: previous_quote_def ljnl_def ledger_ok_def last_quote_rev)

lemma evaluate_bound_Inr:
  "evaluate_bound m q b timing = Inr ob \<longleftrightarrow>
     (\<exists>rule. make_stop_rule (vb_rule_kind b) (vb_threshold b) = Inr rule \<and> ob = evaluate_stop m q rule timing)"
  by (auto simp: evaluate_bound_def result_simps)

text \<open>What a triggered evaluation rests on.\<close>

definition stop_reached ::
    "journal \<Rightarrow> string \<Rightarrow> virtual_stop_binding \<Rightarrow> quote \<Rightarrow> observe_at \<Rightarrow> bool" where
  "stop_reached j symb b q timing \<longleftrightarrow>
     quote_symbol q = symb \<and> quote_fresh q timing \<and> 0 < available (portfolio_view j symb) \<and>
     find_binding j symb (vb_version b) = Some b \<and>
     (\<exists>m rule line. mp_symbol m = symb \<and> make_stop_rule (vb_rule_kind b) (vb_threshold b) = Inr rule \<and>
        stop_line m rule = Some line \<and> dec_val (quote_price q) \<le> dec_val line)"

lemma make_managed_position_symbol:
  "make_managed_position symb qty c = Inr m \<Longrightarrow> mp_symbol m = symb \<and> is_symbol symb"
  by (auto simp: make_managed_position_def result_simps split: option.splits)

lemma stop_position_symbol:
  "stop_position symb basis holdings = Inr (Some (v, m)) \<Longrightarrow> mp_symbol m = symb"
  by (auto simp: stop_position_def result_simps dest: make_managed_position_symbol split: option.splits)

lemma find_binding_SomeD:
  "find_binding j symb v = Some b \<Longrightarrow>
     b \<in> set (stop_bindings j) \<and> vb_symbol b = symb \<and> vb_version b = v"
  unfolding find_binding_def by (drule find_SomeD) simp

lemma evaluate_triggered:
  assumes "evaluate_bound m (Some q) b timing = Inr ob" and "obs_status ob = TRIGGERED"
  obtains rule line where "make_stop_rule (vb_rule_kind b) (vb_threshold b) = Inr rule"
    and "quote_symbol q = mp_symbol m" and "quote_fresh q timing"
    and "stop_line m rule = Some line" and "dec_val (quote_price q) \<le> dec_val line"
  using assms by (auto simp: evaluate_bound_Inr evaluate_stop_triggered_iff)

lemma evaluate_virtual_quote_triggered:
  assumes "evaluate_virtual_quote j symb q timing = Inr (ob, Some b)" and "obs_status ob = TRIGGERED"
  shows "stop_reached j symb b q timing"
proof -
  let ?p = "portfolio_view j symb"
  from assms(1) obtain basis holdings v m where
    avail: "available ?p \<noteq> 0"
    and pos: "stop_position symb basis holdings = Inr (Some (v, m))"
    and bind: "find_binding j symb v = Some b"
    and ev: "evaluate_bound m (Some q) b timing = Inr ob"
    by (auto simp: evaluate_virtual_quote_def portfolio_closed result_simps case_Inr_iff
        split: if_splits)
  show ?thesis
    using evaluate_triggered [OF ev assms(2)] stop_position_symbol [OF pos] bind
      find_binding_SomeD [OF bind] avail available_bounds(1) [of ?p]
    unfolding stop_reached_def by (metis order_le_imp_less_or_eq)
qed

lemma append_latch_Inr:
  "append_latch sc symb b q d = Inr (l, d') \<longleftrightarrow> make_latch (latch_of symb b q) = Inr l \<and>
     append_entry sc (entry symb (PStopLatch l)) d = Inr d'"
  by (auto simp: append_latch_def result_simps)

lemma append_latch_store:
  assumes "store_ok d" and "append_latch sc symb b q d = Inr (l, d')"
  shows "l = latch_of symb b q" and "store_ok d'" and "jnl sc d' = push (PStopLatch l) (jnl sc d)"
    and "sc' \<noteq> sc \<Longrightarrow> jnl sc' d' = jnl sc' d" and "db_cursors d' = db_cursors d"
proof -
  have l: "l = latch_of symb b q" and app: "append_entry sc (entry symb (PStopLatch l)) d = Inr d'"
    using assms(2) by (simp_all add: append_latch_Inr make_latch_Inr)
  note a = append_store [OF assms(1) app]
  show "l = latch_of symb b q" by (rule l)
  show "store_ok d'" "jnl sc d' = push (PStopLatch l) (jnl sc d)"
    "sc' \<noteq> sc \<Longrightarrow> jnl sc' d' = jnl sc' d"
    using a l by (simp_all add: latch_of_def)
  show "db_cursors d' = db_cursors d" using app by (auto simp: append_entry_Inr)
qed

lemma accept_quote_Inr:
  "accept_quote sc j symb q timing d = Inr (r, d') \<longleftrightarrow>
    (\<exists>ob binding. evaluate_virtual_quote j symb q timing = Inr (ob, binding) \<and>
      make_checkpoint (checkpoint_of symb q timing) = Inr (checkpoint_of symb q timing) \<and>
      (if binding \<noteq> None \<and> obs_status ob = TRIGGERED
       then \<exists>l. append_latch sc symb (the binding) q
              (checkpoint_stop_quote sc (checkpoint_of symb q timing) d) = Inr (l, d') \<and>
            r = \<lparr>vr_accepted = True, vr_observation = ob, vr_latch = Some l\<rparr>
       else d' = checkpoint_stop_quote sc (checkpoint_of symb q timing) d \<and>
            r = \<lparr>vr_accepted = True, vr_observation = ob, vr_latch = None\<rparr>))"
proof (cases "make_checkpoint (checkpoint_of symb q timing)")
  case (Inl e)
  then show ?thesis by (simp add: accept_quote_def result_simps split: prod.splits)
next
  case (Inr c)
  then have "c = checkpoint_of symb q timing" by (rule make_checkpoint_Inr)
  then show ?thesis using Inr
    by (auto simp: accept_quote_def result_simps case_Inr_iff Let_def split: if_splits)
qed

lemma process_quote_Inr:
  assumes "ledger_ok L"
  shows "process_virtual_stop_quote symb q timing L = Inr (r, L') \<longleftrightarrow>
    ls_held (lg_lease L) \<and> lg_pid L = ls_pid (lg_lease L) \<and> ls_ready (lg_lease L) \<and>
    (case quote_rejection_reason (ljnl L) symb q timing of
       Some e \<Rightarrow> L' = L \<and> r = \<lparr>vr_accepted = False, vr_observation = unavailable e,
         vr_latch = (if e = ''STOP_ALREADY_LATCHED'' then find_latch (ljnl L) symb else None)\<rparr>
     | None \<Rightarrow> (\<exists>d'. accept_quote (lg_scope L) (ljnl L) symb q timing (lg_db L) = Inr (r, d') \<and>
         L' = L\<lparr>lg_db := d'\<rparr>))"
  using ledger_read [OF assms]
  by (cases "quote_rejection_reason (ljnl L) symb q timing")
     (auto simp: process_virtual_stop_quote_def transaction_Inr result_simps lease_ready_def)

definition push_latch :: "stop_latch option \<Rightarrow> journal \<Rightarrow> journal" where
  "push_latch l j = (case l of None \<Rightarrow> j | Some x \<Rightarrow> push (PStopLatch x) j)"

lemma push_stop_quotes: "push p (j\<lparr>stop_quotes := qs\<rparr>) = (push p j)\<lparr>stop_quotes := qs\<rparr>"
  by (cases p) (simp_all add: push.simps)

lemma last_quote_push [simp]: "last_quote (push p j) = last_quote j"
  by (simp add: fun_eq_iff last_quote_def)

lemma accept_quote_effect:
  assumes ok: "store_ok d" and acc: "accept_quote sc j symb q timing d = Inr (r, d')"
  shows "vr_accepted r" and "store_ok d'"
    and "\<exists>qs. jnl sc d' = (push_latch (vr_latch r) (jnl sc d))\<lparr>stop_quotes := qs\<rparr>"
    and "last_quote (jnl sc d') s =
      (if s = symb then Some (checkpoint_of symb q timing) else last_quote (jnl sc d) s)"
    and "vr_latch r = Some l \<Longrightarrow> \<exists>b. l = latch_of symb b q \<and> stop_reached j symb b q timing"
    and "sc' \<noteq> sc \<Longrightarrow> \<exists>qs. jnl sc' d' = (jnl sc' d)\<lparr>stop_quotes := qs\<rparr>"
    and "sc' \<noteq> sc \<Longrightarrow> last_quote (jnl sc' d') s = last_quote (jnl sc' d) s"
proof -
  let ?d1 = "checkpoint_stop_quote sc (checkpoint_of symb q timing) d"
  obtain ob binding where ev: "evaluate_virtual_quote j symb q timing = Inr (ob, binding)"
    and step: "if binding \<noteq> None \<and> obs_status ob = TRIGGERED
       then \<exists>l. append_latch sc symb (the binding) q ?d1 = Inr (l, d') \<and>
            r = \<lparr>vr_accepted = True, vr_observation = ob, vr_latch = Some l\<rparr>
       else d' = ?d1 \<and> r = \<lparr>vr_accepted = True, vr_observation = ob, vr_latch = None\<rparr>"
    using acc unfolding accept_quote_Inr by blast
  have ok1: "store_ok ?d1" by (rule checkpoint_store_ok [OF ok])
  note q1 = checkpoint_jnl(1) [OF ok, of _ sc "checkpoint_of symb q timing"]
  note q2 = checkpoint_jnl(2) [OF ok, of _ sc "checkpoint_of symb q timing"]
  have sym: "cp_symbol (checkpoint_of symb q timing) = symb" by (simp add: checkpoint_of_def)
  have all: "vr_accepted r \<and> store_ok d' \<and> jnl sc d' = push_latch (vr_latch r) (jnl sc ?d1) \<and>
      (sc' \<noteq> sc \<longrightarrow> jnl sc' d' = jnl sc' ?d1) \<and>
      (vr_latch r = Some l \<longrightarrow> (\<exists>b. l = latch_of symb b q \<and> stop_reached j symb b q timing))"
    for l sc'
  proof (cases "binding \<noteq> None \<and> obs_status ob = TRIGGERED")
    case True
    then obtain b l' where b: "binding = Some b"
      and app: "append_latch sc symb b q ?d1 = Inr (l', d')"
      and r: "r = \<lparr>vr_accepted = True, vr_observation = ob, vr_latch = Some l'\<rparr>"
      using step by auto
    note a = append_latch_store [OF ok1 app]
    show ?thesis using a evaluate_virtual_quote_triggered [of j symb q timing ob b] ev b True r
      by (auto simp: push_latch_def)
  next
    case False
    then show ?thesis using step ok1 by (simp add: push_latch_def split: if_splits)
  qed
  show "vr_accepted r" "store_ok d'" using all [of sc l] by simp_all
  show "vr_latch r = Some l \<Longrightarrow> \<exists>b. l = latch_of symb b q \<and> stop_reached j symb b q timing"
    using all [of sc l] by simp
  have j': "jnl sc d' = push_latch (vr_latch r) (jnl sc ?d1)" using all [of sc l] by simp
  obtain qs where qs: "jnl sc ?d1 = (jnl sc d)\<lparr>stop_quotes := qs\<rparr>" using q1 by blast
  show "\<exists>qs. jnl sc d' = (push_latch (vr_latch r) (jnl sc d))\<lparr>stop_quotes := qs\<rparr>"
    unfolding j' qs by (rule exI [of _ qs]) (simp add: push_latch_def push_stop_quotes split: option.splits)
  show "last_quote (jnl sc d') s =
      (if s = symb then Some (checkpoint_of symb q timing) else last_quote (jnl sc d) s)"
    using q2 [of sc s] unfolding j' by (cases "vr_latch r"; cases "s = symb") (auto simp: push_latch_def sym)
  show "\<exists>qs. jnl sc' d' = (jnl sc' d)\<lparr>stop_quotes := qs\<rparr>" if "sc' \<noteq> sc"
    using all [of sc' l] q1 [of sc'] that by simp
  show "last_quote (jnl sc' d') s = last_quote (jnl sc' d) s" if "sc' \<noteq> sc"
    using all [of sc' l] q2 [of sc' s] that by simp
qed

end
