(* ===== verification/StopObligations.thy ===== *)
theory StopObligations
  imports LedgerStops
begin

text \<open>
  \<open>execution/stop_obligations.py\<close>: the read-only progress of the durable stop sell
  obligations of a symbol, with lost or inconsistent records shown as blocked evidence.
\<close>

datatype obligation_state = FULFILLED | BLOCKED_EVIDENCE | REVIEW_REQUIRED | PENDING

datatype obligation_action = ACT_NONE | ACT_QUERY_BROKER | ACT_REVIEW_AND_ALERT

record obligation_view =
  ov_request_id :: uuid
  ov_order_id :: uuid
  ov_initial_qty :: int
  ov_filled_qty :: int
  ov_unfilled_qty :: int
  ov_reserved_qty :: int
  ov_state :: obligation_state
  ov_failure_reason :: "string option"

definition next_action :: "obligation_view \<Rightarrow> obligation_action" where
  "next_action v = (if ov_state v = FULFILLED then ACT_NONE
     else if ov_state v = REVIEW_REQUIRED then ACT_REVIEW_AND_ALERT else ACT_QUERY_BROKER)"

definition blocked_view :: "uuid \<Rightarrow> uuid \<Rightarrow> int \<Rightarrow> obligation_view" where
  "blocked_view rid oid qty =
     \<lparr>ov_request_id = rid, ov_order_id = oid, ov_initial_qty = qty, ov_filled_qty = 0,
      ov_unfilled_qty = qty, ov_reserved_qty = 0, ov_state = BLOCKED_EVIDENCE, ov_failure_reason = None\<rparr>"

definition obligation_count :: "journal \<Rightarrow> uuid \<Rightarrow> int" where
  "obligation_count j rid =
     int (length (filter (\<lambda>b. so_request_id b = rid) (stop_sell_obligations j)))"

fun command_latch_version :: "order_command \<Rightarrow> int option" where
  "command_latch_version (New c) = stop_latch_version c"
| "command_latch_version _ = None"

text \<open>\<^const>\<open>command_latch_version\<close> is absent exactly when the command is not a tagged new order.\<close>

definition unpaired_stop_requests :: "journal \<Rightarrow> string \<Rightarrow> obligation_view list" where
  "unpaired_stop_requests j symb =
     map (\<lambda>r. blocked_view (req_id r) (req_order_id r) (command_qty (req_command r)))
       (filter (\<lambda>r. is_new (req_command r) \<and> oc_symbol (req_command r) = symb \<and>
          command_latch_version (req_command r) \<noteq> None \<and> obligation_count j (req_id r) = 0)
          (requests j))"

text \<open>\<open>{r.request_id: r for r in journal.requests}\<close>: the last request with the id.\<close>

definition request_by_id :: "journal \<Rightarrow> uuid \<Rightarrow> request option" where
  "request_by_id j rid = List.find (\<lambda>r. req_id r = rid) (rev (requests j))"

definition obligation_consistent ::
    "journal \<Rightarrow> string \<Rightarrow> stop_sell_obligation \<Rightarrow> request \<Rightarrow> order_record \<Rightarrow> bool" where
  "obligation_consistent j symb b r x \<longleftrightarrow>
     req_order_id r = so_order_id b \<and> obligation_count j (so_request_id b) = 1 \<and>
     oc_symbol (req_command r) = symb \<and> oc_side (req_command r) = SELL \<and>
     command_qty (req_command r) = so_qty b \<and>
     command_latch_version (req_command r) = Some (so_rule_version b) \<and>
     (\<exists>l\<in>set (stop_latches j). sl_symbol l = symb \<and> sl_rule_version l = so_rule_version b) \<and>
     original x = so_qty b \<and> filled x \<le> so_qty b"

definition obligation_state_of ::
    "journal \<Rightarrow> string \<Rightarrow> portfolio_record \<Rightarrow> stop_sell_obligation \<Rightarrow> request \<Rightarrow> order_record \<Rightarrow> obligation_state" where
  "obligation_state_of j symb p b r x =
     (if \<not> obligation_consistent j symb b r x \<or> ord_reconciliation_required x \<or>
         st_conflict (status j r) \<or> reconciliation_required p \<or> sell_uncertain p then BLOCKED_EVIDENCE
      else if filled x = so_qty b then FULFILLED
      else if ord_rejected x \<or> submission_failed x \<or> terminal_cancel x then REVIEW_REQUIRED
      else if st_transport (status j r) \<in> {T_UNKNOWN, T_RECONCILING} then BLOCKED_EVIDENCE
      else PENDING)"

definition failure_reasons :: "journal \<Rightarrow> uuid \<Rightarrow> string list" where
  "failure_reasons j rid = List.map_filter (\<lambda>f. case f of
       Rejected x \<Rightarrow> if rej_request_id x = rid then Some (rej_reason x) else None
     | SendFailed x \<Rightarrow> if sf_request_id x = rid then Some (sf_reason x) else None
     | _ \<Rightarrow> None) (facts j)"

definition obligation_view_of ::
    "journal \<Rightarrow> string \<Rightarrow> portfolio_record \<Rightarrow> stop_sell_obligation \<Rightarrow> obligation_view result" where
  "obligation_view_of j symb p b = (case request_by_id j (so_request_id b) of
     None \<Rightarrow> Inr (blocked_view (so_request_id b) (so_order_id b) (so_qty b))
   | Some r \<Rightarrow>
       if \<not> is_new (req_command r)
       then Inr (blocked_view (so_request_id b) (so_order_id b) (so_qty b))
       else ebind (order j (so_order_id b)) (\<lambda>x.
         let state = obligation_state_of j symb p b r x;
             reasons = failure_reasons j (so_request_id b)
         in Inr \<lparr>ov_request_id = so_request_id b, ov_order_id = so_order_id b,
                 ov_initial_qty = so_qty b, ov_filled_qty = filled x,
                 ov_unfilled_qty = max 0 (so_qty b - filled x), ov_reserved_qty = ord_reserved x,
                 ov_state = state,
                 ov_failure_reason = (if state = REVIEW_REQUIRED \<and> reasons \<noteq> []
                   then Some (last reasons) else None)\<rparr>))"

definition stop_obligation_views :: "journal \<Rightarrow> string \<Rightarrow> obligation_view list result" where
  "stop_obligation_views j symb =
     ebind (portfolio j symb) (\<lambda>p.
     ebind (emap (obligation_view_of j symb p)
              (filter (\<lambda>b. so_symbol b = symb) (stop_sell_obligations j))) (\<lambda>vs.
     Inr (vs @ unpaired_stop_requests j symb)))"

definition virtual_stop_obligations :: "string \<Rightarrow> ledger \<Rightarrow> obligation_view list result" where
  "virtual_stop_obligations symb L = ebind (snapshot L) (\<lambda>j. stop_obligation_views j symb)"

section \<open>Lemmas\<close>

lemma emap_Inr_iff: "emap f xs = Inr ys \<longleftrightarrow> list_all2 (\<lambda>x y. f x = Inr y) xs ys"
proof (induction xs arbitrary: ys)
  case (Cons x xs)
  then show ?case by (cases ys) (auto simp: result_simps list_all2_Cons1)
qed auto

lemma blocked_view_fields [simp]:
  "ov_request_id (blocked_view rid oid qty) = rid" "ov_state (blocked_view rid oid qty) = BLOCKED_EVIDENCE"
  "ov_initial_qty (blocked_view rid oid qty) = qty" "ov_unfilled_qty (blocked_view rid oid qty) = qty"
  "ov_filled_qty (blocked_view rid oid qty) = 0" "ov_failure_reason (blocked_view rid oid qty) = None"
  by (simp_all add: blocked_view_def)

lemma obligation_view_Inr:
  "obligation_view_of j symb p b = Inr v \<Longrightarrow>
     ov_request_id v = so_request_id b \<and> ov_initial_qty v = so_qty b \<and>
     (ov_state v \<noteq> BLOCKED_EVIDENCE \<longrightarrow>
       (\<exists>r x. request_by_id j (so_request_id b) = Some r \<and> is_new (req_command r) \<and>
          order j (so_order_id b) = Inr x \<and> obligation_consistent j symb b r x \<and>
          ov_filled_qty v = filled x \<and> ov_unfilled_qty v = so_qty b - filled x \<and>
          (ov_state v = FULFILLED \<longleftrightarrow> filled x = so_qty b)))"
proof (cases "request_by_id j (so_request_id b)")
  case None
  then show "obligation_view_of j symb p b = Inr v \<Longrightarrow> ?thesis" by (auto simp: obligation_view_of_def)
next
  case (Some r)
  assume v: "obligation_view_of j symb p b = Inr v"
  show ?thesis
  proof (cases "is_new (req_command r)")
    case False
    then show ?thesis using v Some by (auto simp: obligation_view_of_def)
  next
    case True
    then obtain x where x: "order j (so_order_id b) = Inr x"
      using v Some by (auto simp: obligation_view_of_def result_simps)
    have st: "obligation_state_of j symb p b r x \<noteq> BLOCKED_EVIDENCE \<Longrightarrow>
        obligation_consistent j symb b r x \<and>
        (obligation_state_of j symb p b r x = FULFILLED \<longleftrightarrow> filled x = so_qty b)"
      by (auto simp: obligation_state_of_def split: if_splits)
    have "obligation_consistent j symb b r x \<Longrightarrow> filled x \<le> so_qty b"
      by (simp add: obligation_consistent_def)
    then show ?thesis using v Some True x st by (auto simp: obligation_view_of_def Let_def)
  qed
qed

text \<open>No stop request of a symbol is left out of its views.\<close>

lemma stop_request_viewed:
  assumes views: "stop_obligation_views j symb = Inr vs"
    and r: "r \<in> set (requests j)" "oc_symbol (req_command r) = symb"
      "command_latch_version (req_command r) \<noteq> None"
    and own: "\<And>b. b \<in> set (stop_sell_obligations j) \<Longrightarrow> so_request_id b = req_id r \<Longrightarrow> so_symbol b = symb"
  shows "\<exists>v\<in>set vs. ov_request_id v = req_id r"
proof (cases "obligation_count j (req_id r) = 0")
  case True
  have "is_new (req_command r)" using r(3) by (cases "req_command r") auto
  then have "blocked_view (req_id r) (req_order_id r) (command_qty (req_command r)) \<in>
      set (unpaired_stop_requests j symb)"
    using r True by (auto simp: unpaired_stop_requests_def)
  then show ?thesis using views
    by (force simp: stop_obligation_views_def result_simps)
next
  case False
  then obtain b where b: "b \<in> set (stop_sell_obligations j)" "so_request_id b = req_id r"
    by (auto simp: obligation_count_def filter_empty_conv)
  from views obtain p ws where ws: "list_all2 (\<lambda>x y. obligation_view_of j symb p x = Inr y)
      (filter (\<lambda>b. so_symbol b = symb) (stop_sell_obligations j)) ws" and vs: "set ws \<subseteq> set vs"
    by (auto simp: stop_obligation_views_def result_simps emap_Inr_iff)
  have "b \<in> set (filter (\<lambda>b. so_symbol b = symb) (stop_sell_obligations j))"
    using b own by simp
  then obtain i where "i < length ws"
    "filter (\<lambda>b. so_symbol b = symb) (stop_sell_obligations j) ! i = b"
    using list_all2_lengthD [OF ws] unfolding in_set_conv_nth by metis
  then have "obligation_view_of j symb p b = Inr (ws ! i)" and "ws ! i \<in> set vs"
    using list_all2_nthD2 [OF ws, of i] vs by auto
  then show ?thesis using obligation_view_Inr b(2) by force
qed

end
