(* ===== verification/LedgerConfig.thy ===== *)
theory LedgerConfig
  imports LedgerOrders
begin

text \<open>
  \<open>execution/ledger.py\<close>, the configuration side of the facade: local revisions of a symbol's
  configuration, the inert stop rule bound to a revision, and the idempotent application of a command
  accepted by the inbox. The SHA-256 digest of a command is the parameter \<open>dg\<close>.
\<close>

definition advance_check :: "journal \<Rightarrow> string \<Rightarrow> int \<Rightarrow> int \<Rightarrow> unit result" where
  "advance_check j symb expected version =
     ebind (ledger_check (applied_version j symb \<noteq> expected) ''STALE_CONFIG_VERSION'') (\<lambda>_.
     ledger_check (version \<le> expected) ''CONFIG_VERSION_MUST_ADVANCE'')"

definition local_config :: "string \<Rightarrow> int \<Rightarrow> applied_config" where
  "local_config symb version =
     \<lparr>ac_symbol = symb, ac_version = version, ac_command_id = None, ac_command_digest = None\<rparr>"

definition append_config :: "scope \<Rightarrow> uuid \<Rightarrow> applied_config \<Rightarrow> db \<Rightarrow> db result" where
  "append_config sc u c d = append_entry sc (entry (str_uuid u) (PConfig c)) d"

definition append_binding :: "scope \<Rightarrow> virtual_stop_binding \<Rightarrow> db \<Rightarrow> db result" where
  "append_binding sc b d =
     append_entry sc (entry (binding_key (vb_symbol b) (vb_version b)) (PStopBinding b)) d"

text \<open>\<open>u\<close> is the random key of the configuration entry.\<close>

definition apply_config :: "uuid \<Rightarrow> string \<Rightarrow> int \<Rightarrow> int \<Rightarrow> ledger \<Rightarrow> (unit \<times> ledger) result" where
  "apply_config u symb expected version L =
     ebind (make_applied_config (local_config symb version)) (\<lambda>config.
     transaction (\<lambda>d.
     ebind (require_ready (lg_pid L) (lg_lease L)) (\<lambda>_.
     ebind (read_journal (lg_scope L) d) (\<lambda>j.
     ebind (advance_check j symb expected version) (\<lambda>_.
     ebind (append_config (lg_scope L) u config d) (\<lambda>d1.
     Inr ((), d1)))))) L)"

definition apply_virtual_stop_config ::
    "uuid \<Rightarrow> virtual_stop_binding \<Rightarrow> int \<Rightarrow> ledger \<Rightarrow> (unit \<times> ledger) result" where
  "apply_virtual_stop_config u b expected L =
     ebind (make_applied_config (local_config (vb_symbol b) (vb_version b))) (\<lambda>config.
     transaction (\<lambda>d.
     ebind (require_ready (lg_pid L) (lg_lease L)) (\<lambda>_.
     ebind (read_journal (lg_scope L) d) (\<lambda>j.
     ebind (advance_check j (vb_symbol b) expected (vb_version b)) (\<lambda>_.
     ebind (append_config (lg_scope L) u config d) (\<lambda>d1.
     ebind (append_binding (lg_scope L) b d1) (\<lambda>d2.
     Inr ((), d2))))))) L)"

section \<open>Application of an inbox command\<close>

definition existing_inbox_application ::
    "journal \<Rightarrow> config_command \<Rightarrow> string \<Rightarrow> virtual_stop_binding \<Rightarrow> applied_config option result" where
  "existing_inbox_application j c digest b =
     (case List.find (\<lambda>x. ac_command_id x = Some (command_id c)) (configs j) of
       None \<Rightarrow> Inr None
     | Some existing \<Rightarrow>
         ebind (ledger_check (ac_symbol existing \<noteq> vb_symbol b \<or> ac_version existing \<noteq> vb_version b \<or>
             ac_command_digest existing \<noteq> Some digest \<or>
             find_binding j (vb_symbol b) (vb_version b) \<noteq> Some b)
           ''CONFLICT_CONFIG_APPLY_IDENTITY'') (\<lambda>_.
         Inr (Some existing)))"

definition check_inbox_apply_version :: "journal \<Rightarrow> config_command \<Rightarrow> unit result" where
  "check_inbox_apply_version j c =
     (let s = cfg_settings c;
          configured = (\<exists>x\<in>set (configs j). ac_symbol x = set_symbol s);
          current = applied_version j (set_symbol s)
      in ebind (if configured
           then ledger_check (current \<noteq> expected_version c) ''STALE_CONFIG_VERSION''
           else ledger_check (expected_version c \<noteq> 0 \<or> current \<noteq> 1) ''STALE_CONFIG_VERSION'') (\<lambda>_.
         ledger_check (set_version s \<le> expected_version c) ''CONFIG_VERSION_MUST_ADVANCE''))"

definition command_binding :: "config_command \<Rightarrow> virtual_stop_binding" where
  "command_binding c =
     (let s = cfg_settings c; rule = pattern_stop (stop_pattern s)
      in \<lparr>vb_symbol = set_symbol s, vb_version = set_version s, vb_rule_kind = rule_kind rule,
          vb_threshold = format_f (threshold rule)\<rparr>)"

definition command_config :: "config_command \<Rightarrow> string \<Rightarrow> applied_config" where
  "command_config c digest =
     \<lparr>ac_symbol = set_symbol (cfg_settings c), ac_version = set_version (cfg_settings c),
      ac_command_id = Some (command_id c), ac_command_digest = Some digest\<rparr>"

definition check_inbox_scope ::
    "(config_command \<Rightarrow> string) \<Rightarrow> scope \<Rightarrow> config_command \<Rightarrow> string \<Rightarrow> unit result" where
  "check_inbox_scope dg sc c digest =
     (let s = cfg_settings c in
      ebind (ledger_check ((set_account_id s, set_environment s) \<noteq> (sc_account_id sc, sc_environment sc))
               ''CONFIG_EXECUTION_SCOPE_MISMATCH'') (\<lambda>_.
      ebind (ledger_check (entry_enabled s \<or> monitoring_enabled s)
               ''CONFIG_EXECUTION_MUST_REMAIN_DISABLED'') (\<lambda>_.
      ledger_check (dg c \<noteq> digest) ''CONFIG_COMMAND_DIGEST_MISMATCH'')))"

definition apply_inbox_config ::
    "(config_command \<Rightarrow> string) \<Rightarrow> config_command \<Rightarrow> string \<Rightarrow> ledger \<Rightarrow> (applied_config \<times> ledger) result"
    where
  "apply_inbox_config dg c0 digest L =
     ebind (revalidate c0) (\<lambda>c.
     ebind (check_inbox_scope dg (lg_scope L) c digest) (\<lambda>_.
     ebind (make_binding (command_binding c)) (\<lambda>b.
     transaction (\<lambda>d.
     ebind (require_ready (lg_pid L) (lg_lease L)) (\<lambda>_.
     ebind (read_journal (lg_scope L) d) (\<lambda>j.
     ebind (existing_inbox_application j c digest b) (\<lambda>existing.
     case existing of
       Some x \<Rightarrow> Inr (x, d)
     | None \<Rightarrow>
         ebind (check_inbox_apply_version j c) (\<lambda>_.
         ebind (ledger_check (\<exists>x\<in>set (stop_bindings j). vb_symbol x = vb_symbol b \<and>
                  vb_version x = vb_version b) ''CONFLICT_CONFIG_APPLY_VERSION'') (\<lambda>_.
         ebind (make_applied_config (command_config c digest)) (\<lambda>applied.
         ebind (append_config (lg_scope L) (command_id c) applied d) (\<lambda>d1.
         ebind (append_binding (lg_scope L) b d1) (\<lambda>d2.
         Inr (applied, d2)))))))))) L)))"

definition virtual_stop_binding_of :: "string \<Rightarrow> ledger \<Rightarrow> virtual_stop_binding option result" where
  "virtual_stop_binding_of symb L =
     ebind (snapshot L) (\<lambda>j. Inr (List.find
       (\<lambda>b. vb_symbol b = symb \<and> vb_version b = applied_version j symb) (rev (stop_bindings j))))"

section \<open>Lemmas\<close>

lemma advance_check_Inr [result_simps]:
  "advance_check j symb expected version = Inr u \<longleftrightarrow>
     applied_version j symb = expected \<and> expected < version"
  by (auto simp: advance_check_def result_simps)

lemma append_config_store:
  assumes "store_ok d" and "append_config sc u c d = Inr d'"
    and "ac_command_id c = None \<or> ac_command_id c = Some u"
  shows "store_ok d'" and "jnl sc d' = push (PConfig c) (jnl sc d)"
    and "sc' \<noteq> sc \<Longrightarrow> jnl sc' d' = jnl sc' d"
  using append_store [OF assms(1), of sc "str_uuid u" "PConfig c" d'] assms(2,3)
  by (auto simp: append_config_def keyed_def)

lemma append_binding_store:
  assumes "store_ok d" and "append_binding sc b d = Inr d'"
  shows "store_ok d'" and "jnl sc d' = push (PStopBinding b) (jnl sc d)"
    and "sc' \<noteq> sc \<Longrightarrow> jnl sc' d' = jnl sc' d"
  using append_store [OF assms(1), of sc "binding_key (vb_symbol b) (vb_version b)" "PStopBinding b" d']
    assms(2)
  by (auto simp: append_binding_def)

lemma applied_version_push [simp]:
  "applied_version (push (PConfig c) j) symb =
     (if ac_symbol c = symb then ac_version c else applied_version j symb)"
  "applied_version (push (PStopBinding b) j) symb = applied_version j symb"
  by (simp_all add: applied_version_def Let_def)

lemma apply_config_effect:
  assumes ok: "ledger_ok L" and app: "apply_config u symb expected version L = Inr (x, L')"
  shows "ledger_ok L'" and "ljnl L' = push (PConfig (local_config symb version)) (ljnl L)"
    and "applied_version (ljnl L) symb = expected" and "expected < version"
    and "lg_lease L' = lg_lease L" and "lg_pid L' = lg_pid L"
    and "sc' \<noteq> lg_scope L \<Longrightarrow> jnl sc' (lg_db L') = jnl sc' (lg_db L)"
proof -
  obtain d where d: "append_config (lg_scope L) u (local_config symb version) (lg_db L) = Inr d"
    and L': "L' = L\<lparr>lg_db := d\<rparr>" and v: "applied_version (ljnl L) symb = expected" "expected < version"
    using app ledger_read [OF ok]
    by (auto simp: apply_config_def transaction_Inr result_simps dest: make_applied_config_Inr)
  have "store_ok (lg_db L)" using ok by (simp add: ledger_ok_def)
  note a = append_config_store [OF this d]
  show "ledger_ok L'" "ljnl L' = push (PConfig (local_config symb version)) (ljnl L)"
    "sc' \<noteq> lg_scope L \<Longrightarrow> jnl sc' (lg_db L') = jnl sc' (lg_db L)"
    "lg_lease L' = lg_lease L" "lg_pid L' = lg_pid L"
    using a L' by (simp_all add: ledger_ok_def ljnl_db ljnl_def local_config_def)
  show "applied_version (ljnl L) symb = expected" "expected < version" by (rule v)+
qed

lemma apply_stop_config_effect:
  assumes ok: "ledger_ok L" and app: "apply_virtual_stop_config u b expected L = Inr (x, L')"
  shows "ledger_ok L'" and "ljnl L' = push (PStopBinding b)
      (push (PConfig (local_config (vb_symbol b) (vb_version b))) (ljnl L))"
    and "applied_version (ljnl L) (vb_symbol b) = expected" and "expected < vb_version b"
    and "lg_lease L' = lg_lease L" and "lg_pid L' = lg_pid L"
    and "sc' \<noteq> lg_scope L \<Longrightarrow> jnl sc' (lg_db L') = jnl sc' (lg_db L)"
proof -
  let ?c = "local_config (vb_symbol b) (vb_version b)"
  obtain d d2 where d: "append_config (lg_scope L) u ?c (lg_db L) = Inr d"
    and d2: "append_binding (lg_scope L) b d = Inr d2"
    and L': "L' = L\<lparr>lg_db := d2\<rparr>"
    and v: "applied_version (ljnl L) (vb_symbol b) = expected" "expected < vb_version b"
    using app ledger_read [OF ok]
    by (auto simp: apply_virtual_stop_config_def transaction_Inr result_simps dest: make_applied_config_Inr)
  have "store_ok (lg_db L)" using ok by (simp add: ledger_ok_def)
  note a = append_config_store [OF this d, unfolded local_config_def, simplified]
  note a2 = append_binding_store [OF a(1) d2]
  show "ledger_ok L'" "ljnl L' = push (PStopBinding b) (push (PConfig ?c) (ljnl L))"
    "sc' \<noteq> lg_scope L \<Longrightarrow> jnl sc' (lg_db L') = jnl sc' (lg_db L)"
    "lg_lease L' = lg_lease L" "lg_pid L' = lg_pid L"
    using a a2 L' by (simp_all add: ledger_ok_def ljnl_db ljnl_def local_config_def)
  show "applied_version (ljnl L) (vb_symbol b) = expected" "expected < vb_version b" by (rule v)+
qed

lemma existing_inbox_Inr:
  "existing_inbox_application j c digest b = Inr r \<longleftrightarrow>
     (case List.find (\<lambda>x. ac_command_id x = Some (command_id c)) (configs j) of
       None \<Rightarrow> r = None
     | Some x \<Rightarrow> r = Some x \<and> ac_symbol x = vb_symbol b \<and> ac_version x = vb_version b \<and>
         ac_command_digest x = Some digest \<and> find_binding j (vb_symbol b) (vb_version b) = Some b)"
  by (auto simp: existing_inbox_application_def result_simps split: option.splits)

lemma check_inbox_apply_version_Inr:
  "check_inbox_apply_version j c = Inr u \<longleftrightarrow>
     (let s = cfg_settings c in
      (if \<exists>x\<in>set (configs j). ac_symbol x = set_symbol s
       then applied_version j (set_symbol s) = expected_version c
       else expected_version c = 0 \<and> applied_version j (set_symbol s) = 1) \<and>
      expected_version c < set_version s)"
  by (auto simp: check_inbox_apply_version_def Let_def result_simps split: if_splits)

definition inbox_applied :: "journal \<Rightarrow> config_command \<Rightarrow> string \<Rightarrow> applied_config \<Rightarrow> bool" where
  "inbox_applied j c digest x \<longleftrightarrow>
     List.find (\<lambda>y. ac_command_id y = Some (command_id c)) (configs j) = Some x \<and>
     ac_symbol x = set_symbol (cfg_settings c) \<and> ac_version x = set_version (cfg_settings c) \<and>
     ac_command_digest x = Some digest \<and>
     find_binding j (set_symbol (cfg_settings c)) (set_version (cfg_settings c)) = Some (command_binding c)"

lemma command_binding_fields [simp]:
  "vb_symbol (command_binding c) = set_symbol (cfg_settings c)"
  "vb_version (command_binding c) = set_version (cfg_settings c)"
  by (simp_all add: command_binding_def Let_def)

lemma command_config_fields [simp]:
  "ac_symbol (command_config c digest) = set_symbol (cfg_settings c)"
  "ac_version (command_config c digest) = set_version (cfg_settings c)"
  "ac_command_id (command_config c digest) = Some (command_id c)"
  "ac_command_digest (command_config c digest) = Some digest"
  by (simp_all add: command_config_def)

text \<open>The preconditions that do not read the journal.\<close>

definition inbox_command_ok :: "(config_command \<Rightarrow> string) \<Rightarrow> scope \<Rightarrow> config_command \<Rightarrow> string \<Rightarrow> bool" where
  "inbox_command_ok dg sc c digest \<longleftrightarrow> revalidate c = Inr c \<and> check_inbox_scope dg sc c digest = Inr () \<and>
     make_binding (command_binding c) = Inr (command_binding c)"

lemma apply_inbox_Inr:
  assumes "ledger_ok L"
  shows "apply_inbox_config dg c digest L = Inr (x, L') \<longleftrightarrow>
    inbox_command_ok dg (lg_scope L) c digest \<and>
    ls_held (lg_lease L) \<and> lg_pid L = ls_pid (lg_lease L) \<and> ls_ready (lg_lease L) \<and>
    (case List.find (\<lambda>y. ac_command_id y = Some (command_id c)) (configs (ljnl L)) of
       Some y \<Rightarrow> inbox_applied (ljnl L) c digest x \<and> L' = L
     | None \<Rightarrow> check_inbox_apply_version (ljnl L) c = Inr () \<and>
         (\<forall>y\<in>set (stop_bindings (ljnl L)). vb_symbol y = set_symbol (cfg_settings c) \<longrightarrow>
            vb_version y \<noteq> set_version (cfg_settings c)) \<and>
         x = command_config c digest \<and> make_applied_config x = Inr x \<and>
         (\<exists>d1 d2. append_config (lg_scope L) (command_id c) x (lg_db L) = Inr d1 \<and>
            append_binding (lg_scope L) (command_binding c) d1 = Inr d2 \<and> L' = L\<lparr>lg_db := d2\<rparr>))"
proof (cases "revalidate c")
  case (Inl e)
  then show ?thesis by (simp add: apply_inbox_config_def inbox_command_ok_def)
next
  case (Inr c')
  then have c: "revalidate c = Inr c" using revalidate_Inr [of c c'] by simp
  show ?thesis
  proof (cases "make_binding (command_binding c)")
    case (Inl e)
    then show ?thesis by (auto simp: c apply_inbox_config_def inbox_command_ok_def result_simps)
  next
    case (Inr b)
    then have b: "make_binding (command_binding c) = Inr (command_binding c)"
      using make_binding_Inr by blast
    show ?thesis using ledger_read [OF assms]
      by (cases "List.find (\<lambda>y. ac_command_id y = Some (command_id c)) (configs (ljnl L))")
         (auto simp: c b apply_inbox_config_def inbox_command_ok_def transaction_Inr result_simps
           existing_inbox_Inr lease_ready_def inbox_applied_def dest: make_applied_config_Inr)
  qed
qed

lemma apply_inbox_new:
  assumes ok: "ledger_ok L" and app: "apply_inbox_config dg c digest L = Inr (x, L')"
    and new: "List.find (\<lambda>y. ac_command_id y = Some (command_id c)) (configs (ljnl L)) = None"
  shows "ledger_ok L'" and "x = command_config c digest"
    and "ljnl L' = push (PStopBinding (command_binding c)) (push (PConfig x) (ljnl L))"
    and "lg_lease L' = lg_lease L" and "lg_pid L' = lg_pid L"
    and "check_inbox_apply_version (ljnl L) c = Inr ()"
    and "find_binding (ljnl L) (set_symbol (cfg_settings c)) (set_version (cfg_settings c)) = None"
    and "sc' \<noteq> lg_scope L \<Longrightarrow> jnl sc' (lg_db L') = jnl sc' (lg_db L)"
proof -
  obtain d1 d2 where d1: "append_config (lg_scope L) (command_id c) (command_config c digest) (lg_db L) = Inr d1"
    and d2: "append_binding (lg_scope L) (command_binding c) d1 = Inr d2"
    and x: "x = command_config c digest" and L': "L' = L\<lparr>lg_db := d2\<rparr>"
    and ver: "check_inbox_apply_version (ljnl L) c = Inr ()"
    and nb: "\<forall>y\<in>set (stop_bindings (ljnl L)). vb_symbol y = set_symbol (cfg_settings c) \<longrightarrow>
            vb_version y \<noteq> set_version (cfg_settings c)"
    using app new unfolding apply_inbox_Inr [OF ok] by auto
  have "store_ok (lg_db L)" using ok by (simp add: ledger_ok_def)
  note a = append_config_store [OF this d1, simplified]
  note a2 = append_binding_store [OF a(1) d2]
  show "ledger_ok L'" "x = command_config c digest"
    "ljnl L' = push (PStopBinding (command_binding c)) (push (PConfig x) (ljnl L))"
    "lg_lease L' = lg_lease L" "lg_pid L' = lg_pid L"
    "check_inbox_apply_version (ljnl L) c = Inr ()"
    "sc' \<noteq> lg_scope L \<Longrightarrow> jnl sc' (lg_db L') = jnl sc' (lg_db L)"
    using a a2 x L' ver by (simp_all add: ledger_ok_def ljnl_db ljnl_def)
  show "find_binding (ljnl L) (set_symbol (cfg_settings c)) (set_version (cfg_settings c)) = None"
    using nb by (auto simp: find_binding_def find_None_iff')
qed

lemma apply_inbox_old:
  assumes "ledger_ok L" and "apply_inbox_config dg c digest L = Inr (x, L')"
    and "List.find (\<lambda>y. ac_command_id y = Some (command_id c)) (configs (ljnl L)) \<noteq> None"
  shows "L' = L" and "inbox_applied (ljnl L) c digest x"
  using assms by (auto simp: apply_inbox_Inr split: option.splits)

lemma apply_inbox_applied:
  assumes "ledger_ok L" and "apply_inbox_config dg c digest L = Inr (x, L')"
  shows "inbox_applied (ljnl L') c digest x" and "ledger_ok L'" and "lg_lease L' = lg_lease L"
    and "lg_pid L' = lg_pid L"
proof -
  have "inbox_applied (ljnl L') c digest x \<and> ledger_ok L' \<and> lg_lease L' = lg_lease L \<and> lg_pid L' = lg_pid L"
  proof (cases "List.find (\<lambda>y. ac_command_id y = Some (command_id c)) (configs (ljnl L))")
    case None
    note n = apply_inbox_new [OF assms None]
    have "find_binding (ljnl L') (set_symbol (cfg_settings c)) (set_version (cfg_settings c)) =
        Some (command_binding c)"
      using n(3,7) by (simp add: find_binding_def find_append)
    then show ?thesis using n None by (simp add: inbox_applied_def find_append)
  next
    case (Some y)
    then show ?thesis using apply_inbox_old [OF assms] assms(1) by simp
  qed
  then show "inbox_applied (ljnl L') c digest x" "ledger_ok L'" "lg_lease L' = lg_lease L"
    "lg_pid L' = lg_pid L" by simp_all
qed

end
