(* ===== verification/Dispatcher.thy ===== *)
theory Dispatcher
  imports StopObligations LedgerConfig
begin

text \<open>
  \<open>execution/virtual.py\<close>: the single virtual dispatcher. A request is claimed durably before it
  is appended to the list of simulated calls, so a failure after the claim leaves both behind. Every
  operation therefore returns its result together with the state it leaves, an exception included. The
  clock readings and the generated identities are two streams, read in the order the code reads them.
\<close>

record environment_streams =
  env_u4 :: "nat \<Rightarrow> uuid"
  env_clock :: "nat \<Rightarrow> datetime"
  env_sha :: "order_command \<Rightarrow> string"
  env_u5 :: "uuid \<Rightarrow> string \<Rightarrow> uuid"

record dispatcher =
  dp_ledger :: ledger
  dp_calls :: "request list"
  dp_tick :: nat

datatype stop_session = REGULAR | CLOSED

type_synonym 'a run = "'a result \<times> dispatcher"

text \<open>The continuation runs on the state left behind; an exception ends the run.\<close>

definition rbind :: "'a run \<Rightarrow> ('a \<Rightarrow> dispatcher \<Rightarrow> 'b run) \<Rightarrow> 'b run" where
  "rbind m f = (case m of (Inl e, D) \<Rightarrow> (Inl e, D) | (Inr x, D) \<Rightarrow> f x D)"

text \<open>A ledger transaction of the dispatcher's own ledger that consumes \<open>n\<close> stream values.\<close>

definition on_ledger :: "nat \<Rightarrow> (ledger \<Rightarrow> ('a \<times> ledger) result) \<Rightarrow> dispatcher \<Rightarrow> 'a run" where
  "on_ledger n f D = (let D' = D\<lparr>dp_tick := dp_tick D + n\<rparr> in case f (dp_ledger D) of
     Inl e \<Rightarrow> (Inl e, D') | Inr (x, L) \<Rightarrow> (Inr x, D'\<lparr>dp_ledger := L\<rparr>))"

definition reading :: "(ledger \<Rightarrow> 'a result) \<Rightarrow> dispatcher \<Rightarrow> 'a run" where
  "reading f D = (f (dp_ledger D), D)"

definition given :: "'a result \<Rightarrow> dispatcher \<Rightarrow> 'a run" where
  "given m D = (m, D)"

section \<open>Send\<close>

definition transport_fact :: "uuid \<Rightarrow> uuid \<Rightarrow> transport_state \<Rightarrow> fact" where
  "transport_fact u rid st = Transport \<lparr>event_id = u, transport_request_id = rid, transport_state = st\<rparr>"

definition sendable :: "journal \<Rightarrow> uuid \<Rightarrow> request option" where
  "sendable j rid = (case List.find (\<lambda>r. req_id r = rid) (requests j) of
     None \<Rightarrow> None
   | Some r \<Rightarrow> if req_decision r \<noteq> REQ_ACCEPTED \<or> request_state j r \<noteq> INTENT_PERSISTED \<or>
         st_positive_evidence (status j r) then None else Some r)"

definition current_views :: "obligation_view list \<Rightarrow> uuid \<Rightarrow> obligation_view list" where
  "current_views vs rid = filter (\<lambda>v. ov_request_id v = rid) vs"

text \<open>Whether a tagged stop sell may be sent in this session.\<close>

definition stop_send_ok :: "journal \<Rightarrow> request \<Rightarrow> stop_session option \<Rightarrow> bool result" where
  "stop_send_ok j r session =
     (if \<not> stop_key (oc_key (req_command r)) then Inr True
      else if session \<noteq> Some REGULAR \<or> \<not> is_new (req_command r) \<or>
              command_latch_version (req_command r) = None then Inr False
      else ebind (stop_obligation_views j (oc_symbol (req_command r))) (\<lambda>vs. Inr (
        (case current_views vs (req_id r) of [v] \<Rightarrow> ov_state v = PENDING | _ \<Rightarrow> False) \<and>
        \<not> (\<exists>v\<in>set vs. ov_state v \<in> {REVIEW_REQUIRED, BLOCKED_EVIDENCE}))))"

definition buy_send_ok :: "journal \<Rightarrow> order_command \<Rightarrow> bool result" where
  "buy_send_ok j c =
     (if is_new c \<and> oc_side c = BUY
      then ebind (portfolio j (oc_symbol c)) (\<lambda>p. Inr (\<not> (pf_entry_stopped p \<or>
             reconciliation_required p \<or> symbol_latched j (oc_symbol c))))
      else Inr True)"

definition send_claim ::
    "uuid \<Rightarrow> stop_session option \<Rightarrow> datetime \<Rightarrow> uuid \<Rightarrow> ledger \<Rightarrow> (request option \<times> ledger) result" where
  "send_claim rid session now u L = transaction (\<lambda>d.
     ebind (read_journal (lg_scope L) d) (\<lambda>j.
     case sendable j rid of
       None \<Rightarrow> Inr (None, d)
     | Some r \<Rightarrow>
         ebind (stop_send_ok j r session) (\<lambda>stop_ok.
         if \<not> stop_ok then Inr (None, d)
         else
           ebind (require_ready (lg_pid L) (lg_lease L)) (\<lambda>_.
           ebind (check_freshness j (req_command r) now) (\<lambda>_.
           ebind (buy_send_ok j (req_command r)) (\<lambda>buy_ok.
           if \<not> buy_ok then Inr (None, d)
           else
             ebind (append_fact (lg_scope L) (transport_fact u rid SENDING) d) (\<lambda>d1.
             Inr (Some r, d1))))))) ) L"

definition send :: "environment_streams \<Rightarrow> uuid \<Rightarrow> stop_session option \<Rightarrow> dispatcher \<Rightarrow> bool run" where
  "send E rid session D =
     rbind (on_ledger 1 (send_claim rid session (env_clock E (dp_tick D)) (env_u4 E (dp_tick D))) D)
       (\<lambda>claimed D1. case claimed of
          None \<Rightarrow> (Inr False, D1)
        | Some r \<Rightarrow>
            let D2 = D1\<lparr>dp_calls := dp_calls D1 @ [r]\<rparr> in
            rbind (on_ledger 1 (ingest (env_u5 E) (transport_fact (env_u4 E (dp_tick D2)) rid SENT)) D2)
              (\<lambda>_ D3. (Inr True, D3)))"

section \<open>Acknowledge and recover\<close>

definition ack_fact :: "uuid \<Rightarrow> request \<Rightarrow> fact" where
  "ack_fact u r = Ack \<lparr>event_id = u, ack_request_id = req_id r,
     broker_order_no = ''virtual-'' @ str_uuid (req_id r)\<rparr>"

definition acknowledge :: "environment_streams \<Rightarrow> request \<Rightarrow> dispatcher \<Rightarrow> unit run" where
  "acknowledge E r D =
     rbind (on_ledger 1 (ingest (env_u5 E) (ack_fact (env_u4 E (dp_tick D)) r)) D)
       (\<lambda>_ D1. (Inr (), D1))"

definition recovery_state :: "journal \<Rightarrow> request \<Rightarrow> transport_state" where
  "recovery_state j r = (if request_state j r = T_SENDING then UNKNOWN else RECONCILING)"

definition to_recover :: "journal \<Rightarrow> request list" where
  "to_recover j = filter (\<lambda>r. req_decision r = REQ_ACCEPTED \<and> unresolved (status j r)) (requests j)"

fun append_recovery ::
    "(nat \<Rightarrow> uuid) \<Rightarrow> scope \<Rightarrow> journal \<Rightarrow> nat \<Rightarrow> request list \<Rightarrow> db \<Rightarrow> db result" where
  "append_recovery u4 sc j n [] d = Inr d"
| "append_recovery u4 sc j n (r # rs) d =
     ebind (append_fact sc (transport_fact (u4 n) (req_id r) (recovery_state j r)) d)
       (append_recovery u4 sc j (Suc n) rs)"

definition recover_ledger ::
    "(nat \<Rightarrow> uuid) \<Rightarrow> nat \<Rightarrow> ledger \<Rightarrow> (uuid list \<times> ledger) result" where
  "recover_ledger u4 n L = transaction (\<lambda>d.
     ebind (read_journal (lg_scope L) d) (\<lambda>j.
     ebind (append_recovery u4 (lg_scope L) j n (to_recover j) d) (\<lambda>d1.
     Inr (map req_id (to_recover j), d1)))) L"

text \<open>The number of generated identities is at most the number of requests.\<close>

definition recover :: "environment_streams \<Rightarrow> dispatcher \<Rightarrow> uuid list run" where
  "recover E D = on_ledger (case snapshot (dp_ledger D) of Inr j \<Rightarrow> length (to_recover j) | Inl _ \<Rightarrow> 0)
     (recover_ledger (env_u4 E) (dp_tick D)) D"

section \<open>Draining\<close>

definition market_sell :: "string \<Rightarrow> string \<Rightarrow> int \<Rightarrow> int \<Rightarrow> int option \<Rightarrow> new_order" where
  "market_sell key symb version qty latch =
     \<lparr>cmd_key = key, cmd_symbol = symb, cmd_side = SELL, cmd_config_version = version,
      cmd_expires_at = None, new_qty = qty, new_order_type = MARKET, new_price = None,
      stop_latch_version = latch\<rparr>"

definition failed_sell :: "journal \<Rightarrow> string \<Rightarrow> bool" where
  "failed_sell j symb \<longleftrightarrow> (\<exists>r\<in>set (requests j). oc_symbol (req_command r) = symb \<and>
     oc_side (req_command r) = SELL \<and> (st_failed (status j r) \<or> st_rejected (status j r)))"

definition submit_run :: "environment_streams \<Rightarrow> order_command \<Rightarrow> dispatcher \<Rightarrow> submission run" where
  "submit_run E c D = on_ledger 2 (submit (env_sha E) (env_clock E (dp_tick D)) (env_u4 E (dp_tick D))
     (env_u4 E (Suc (dp_tick D))) c) D"

text \<open>\<open>send\<close>, and the virtual acknowledgement when it sent.\<close>

definition send_and_acknowledge ::
    "environment_streams \<Rightarrow> request \<Rightarrow> stop_session option \<Rightarrow> dispatcher \<Rightarrow> unit run" where
  "send_and_acknowledge E r session D =
     rbind (send E (req_id r) session D) (\<lambda>sent D1.
     if sent then acknowledge E r D1 else (Inr (), D1))"

text \<open>The checks of \<open>drain_virtual_stop\<close> before it submits, in order; \<open>None\<close> ends the call.\<close>

definition drain_candidate :: "string \<Rightarrow> ledger \<Rightarrow> (journal \<times> stop_latch \<times> int) option result" where
  "drain_candidate symb L =
     ebind (snapshot L) (\<lambda>j. case find_latch j symb of
       None \<Rightarrow> Inr None
     | Some l \<Rightarrow>
         ebind (portfolio j symb) (\<lambda>p.
         if pf_liquidating p then Inr None
         else ebind (virtual_stop_obligations symb L) (\<lambda>vs.
           if \<exists>v\<in>set vs. ov_state v \<in> {REVIEW_REQUIRED, BLOCKED_EVIDENCE} then Inr None
           else if failed_sell j symb then Inr None
           else ebind (virtual_latched_stop_candidate symb L) (\<lambda>candidate.
             if prot_status candidate \<noteq> CANDIDATE then Inr None
             else Inr (Some (j, l, unreserved_qty candidate))))))"

definition stop_sell_command :: "journal \<Rightarrow> string \<Rightarrow> stop_latch \<Rightarrow> int \<Rightarrow> new_order" where
  "stop_sell_command j symb l qty =
     market_sell (''virtual-stop:'' @ symb @ '':'' @ str_int (revision j)) symb
       (applied_version j symb) qty (Some (sl_rule_version l))"

text \<open>Two refusals of the submission end the call quietly; any other exception passes.\<close>

definition submit_stop_sell ::
    "environment_streams \<Rightarrow> stop_session \<Rightarrow> new_order \<Rightarrow> dispatcher \<Rightarrow> request option run" where
  "submit_stop_sell E session c D = (case submit_run E (New c) D of
     (Inl e, D1) \<Rightarrow>
       if e \<in> {LedgerError ''SELL_QUANTITY_UNAVAILABLE'', LedgerError ''STALE_CONFIG_VERSION''}
       then (Inr None, D1) else (Inl e, D1)
   | (Inr s, D1) \<Rightarrow>
       rbind (send_and_acknowledge E (sub_request s) (Some session) D1)
         (\<lambda>_ D2. (Inr (Some (sub_request s)), D2)))"

definition drain_virtual_stop ::
    "environment_streams \<Rightarrow> string \<Rightarrow> stop_session \<Rightarrow> dispatcher \<Rightarrow> request option run" where
  "drain_virtual_stop E symb session D =
     (if session \<noteq> REGULAR then (Inr None, D)
      else rbind (reading (drain_candidate symb) D) (\<lambda>candidate D1. case candidate of
        None \<Rightarrow> (Inr None, D1)
      | Some (j, l, qty) \<Rightarrow>
          rbind (given (make_new (stop_sell_command j symb l qty)) D1) (submit_stop_sell E session)))"

section \<open>Processing a fact\<close>

definition control_symbols :: "journal \<Rightarrow> string list" where
  "control_symbols j = sort (remdups (map ct_symbol (controls j)))"

definition liquidation_command :: "journal \<Rightarrow> string \<Rightarrow> int \<Rightarrow> new_order" where
  "liquidation_command j symb qty =
     market_sell (''liquidation:'' @ symb @ '':'' @ str_int (int (length (facts j)))) symb
       (applied_version j symb) qty None"

definition liquidate :: "environment_streams \<Rightarrow> journal \<Rightarrow> string \<Rightarrow> dispatcher \<Rightarrow> unit run" where
  "liquidate E j symb D =
     rbind (reading (ledger_portfolio symb) D) (\<lambda>p D1.
     if pf_liquidating p \<and> available p > 0 \<and> \<not> failed_sell j symb
     then rbind (given (make_new (liquidation_command j symb (available p))) D1) (\<lambda>c D2.
          rbind (submit_run E (New c) D2) (\<lambda>s D3.
          send_and_acknowledge E (sub_request s) None D3))
     else (Inr (), D1))"

fun liquidate_all :: "environment_streams \<Rightarrow> journal \<Rightarrow> string list \<Rightarrow> dispatcher \<Rightarrow> unit run" where
  "liquidate_all E j [] D = (Inr (), D)"
| "liquidate_all E j (s # ss) D = rbind (liquidate E j s D) (\<lambda>_. liquidate_all E j ss)"

definition process :: "environment_streams \<Rightarrow> fact \<Rightarrow> dispatcher \<Rightarrow> unit run" where
  "process E f D =
     rbind (on_ledger 0 (ingest (env_u5 E) f) D) (\<lambda>_ D1.
     rbind (reading snapshot D1) (\<lambda>j D2.
     liquidate_all E j (control_symbols j) D2))"

end
