(* ===== verification/Quarantine.thy ===== *)
theory Quarantine
  imports LedgerOrders
begin

text \<open>
  \<open>execution/quarantine.py\<close>: a quarantined fill is linked to its order and released in one
  transaction. The derived fill has no trading date and no price, and no stop-rule assignment is made.
\<close>

definition release_of :: "(uuid \<Rightarrow> string \<Rightarrow> uuid) \<Rightarrow> uuid \<Rightarrow> string \<Rightarrow> quarantine_released" where
  "release_of u5 q proof_ref = \<lparr>event_id = u5 q ''release'', quarantine_id = q,
     released_fill_id = u5 q ''linked-fill'', qr_proof_reference = proof_ref\<rparr>"

text \<open>The fill is appended unless the journal has it already.\<close>

definition append_linked_fill ::
    "(uuid \<Rightarrow> string \<Rightarrow> uuid) \<Rightarrow> scope \<Rightarrow> journal \<Rightarrow> fill \<Rightarrow> db \<Rightarrow> db result" where
  "append_linked_fill u5 sc j fl d = (case find_fact j (event_id fl) of
     Some existing \<Rightarrow>
       ebind (ledger_check (\<not> fact_eq existing (Fill fl)) ''CONFLICT_EVENT_ID_MISMATCH'') (\<lambda>_. Inr d)
   | None \<Rightarrow> ebind (check_fact u5 j (Fill fl)) (\<lambda>_. append_fact sc (Fill fl) d))"

definition reprocess ::
    "(uuid \<Rightarrow> string \<Rightarrow> uuid) \<Rightarrow> uuid \<Rightarrow> string \<Rightarrow> int \<Rightarrow> ledger \<Rightarrow> (bool \<times> ledger) result" where
  "reprocess u5 q proof_ref expected L =
     ebind (make_fact (QuarantineReleased (release_of u5 q proof_ref))) (\<lambda>release.
     transaction (\<lambda>d.
     ebind (read_journal (lg_scope L) d) (\<lambda>j.
     case find_fact j (fact_id release) of
       Some existing \<Rightarrow>
         if \<not> fact_eq existing release then Inl (LedgerError ''CONFLICT_EVENT_ID_MISMATCH'')
         else Inr (False, d)
     | None \<Rightarrow>
         ebind (ledger_check (revision j \<noteq> expected) ''STALE_QUARANTINE_REVIEW'') (\<lambda>_.
         ebind (linked_fill u5 j q) (\<lambda>fl.
         ebind (append_linked_fill u5 (lg_scope L) j fl d) (\<lambda>d1.
         ebind (read_journal (lg_scope L) d1) (\<lambda>j1.
         ebind (check_fact u5 j1 release) (\<lambda>_.
         ebind (append_fact (lg_scope L) release d1) (\<lambda>d2.
         Inr (True, d2))))))))) L)"

section \<open>Lemmas\<close>

lemma linked_fill_Inr:
  "linked_fill u5 j q = Inr fl \<Longrightarrow>
     (\<exists>s r. find_quarantined j q = Some s \<and> linked_targets j (qf_broker_order_no s) = [order_id fl] \<and>
        r \<in> set (requests j) \<and> req_order_id r = order_id fl \<and> is_new (req_command r) \<and>
        oc_symbol (req_command r) = qf_symbol s \<and> fl = fill_of_quarantine u5 (order_id fl) s)"
  by (auto simp: linked_fill_def result_simps fill_of_quarantine_def split: option.splits list.splits
      dest!: find_SomeD)

lemma find_quarantined_id: "find_quarantined j q = Some s \<Longrightarrow> event_id s = q"
  by (auto simp: find_quarantined_def split: option.splits fact.splits dest!: find_SomeD)

lemma fill_of_quarantine_id: "event_id (fill_of_quarantine u5 oid s) = u5 (event_id s) ''linked-fill''"
  by (simp add: fill_of_quarantine_def)

lemma linked_fill_id: "linked_fill u5 j q = Inr fl \<Longrightarrow> event_id fl = u5 q ''linked-fill''"
proof -
  assume "linked_fill u5 j q = Inr fl"
  then obtain s where s: "find_quarantined j q = Some s"
    and fl: "fl = fill_of_quarantine u5 (order_id fl) s" by (auto dest: linked_fill_Inr)
  have "event_id fl = event_id (fill_of_quarantine u5 (order_id fl) s)" using fl by (rule arg_cong)
  then show ?thesis using find_quarantined_id [OF s] by (simp add: fill_of_quarantine_id)
qed

lemma append_linked_fill_store:
  assumes "store_ok d" and "append_linked_fill u5 sc (jnl sc d) fl d = Inr d'"
  shows "store_ok d'"
    and "jnl sc d' = (if find_fact (jnl sc d) (event_id fl) = None then push (PFact (Fill fl)) (jnl sc d)
                      else jnl sc d)"
    and "\<exists>x\<in>set (facts (jnl sc d')). fact_eq x (Fill fl)"
    and "sc' \<noteq> sc \<Longrightarrow> jnl sc' d' = jnl sc' d"
proof -
  have "store_ok d' \<and> jnl sc d' = (if find_fact (jnl sc d) (event_id fl) = None
      then push (PFact (Fill fl)) (jnl sc d) else jnl sc d) \<and>
    (\<exists>x\<in>set (facts (jnl sc d')). fact_eq x (Fill fl)) \<and> (sc' \<noteq> sc \<longrightarrow> jnl sc' d' = jnl sc' d)"
  proof (cases "find_fact (jnl sc d) (event_id fl)")
    case None
    then have "append_fact sc (Fill fl) d = Inr d'"
      using assms(2) by (auto simp: append_linked_fill_def result_simps)
    from append_fact_store [OF assms(1) this] None show ?thesis by simp
  next
    case (Some x)
    then have "fact_eq x (Fill fl)" and "d' = d"
      using assms(2) by (auto simp: append_linked_fill_def result_simps)
    moreover have "x \<in> set (facts (jnl sc d))" using Some by (auto simp: find_fact_def dest: find_SomeD)
    ultimately show ?thesis using Some assms(1) by auto
  qed
  then show "store_ok d'" "jnl sc d' = (if find_fact (jnl sc d) (event_id fl) = None
      then push (PFact (Fill fl)) (jnl sc d) else jnl sc d)"
    "\<exists>x\<in>set (facts (jnl sc d')). fact_eq x (Fill fl)" "sc' \<noteq> sc \<Longrightarrow> jnl sc' d' = jnl sc' d"
    by auto
qed

lemma reprocess_True:
  assumes ok: "ledger_ok L" and run: "reprocess u5 q pr expected L = Inr (True, L')"
  obtains fl d1 where "linked_fill u5 (ljnl L) q = Inr fl" and "revision (ljnl L) = expected"
    and "append_linked_fill u5 (lg_scope L) (ljnl L) fl (lg_db L) = Inr d1"
    and "check_fact u5 (jnl (lg_scope L) d1) (QuarantineReleased (release_of u5 q pr)) = Inr ()"
    and "ledger_ok L'" and "ljnl L' = push (PFact (QuarantineReleased (release_of u5 q pr)))
      (jnl (lg_scope L) d1)"
    and "lg_lease L' = lg_lease L" and "lg_pid L' = lg_pid L"
    and "find_fact (ljnl L) (event_id (release_of u5 q pr)) = None"
    and "\<And>sc'. sc' \<noteq> lg_scope L \<Longrightarrow> jnl sc' (lg_db L') = jnl sc' (lg_db L)"
proof -
  let ?R = "QuarantineReleased (release_of u5 q pr)"
  have store: "store_ok (lg_db L)" using ok by (simp add: ledger_ok_def)
  from run ledger_read [OF ok] obtain fl d1 j1 d2 where
    fl: "linked_fill u5 (ljnl L) q = Inr fl" and rev: "revision (ljnl L) = expected"
    and d1: "append_linked_fill u5 (lg_scope L) (ljnl L) fl (lg_db L) = Inr d1"
    and j1: "read_journal (lg_scope L) d1 = Inr j1"
    and chk: "check_fact u5 j1 ?R = Inr ()" and d2: "append_fact (lg_scope L) ?R d1 = Inr d2"
    and L': "L' = L\<lparr>lg_db := d2\<rparr>" and none: "find_fact (ljnl L) (fact_id ?R) = None"
    by (auto simp: reprocess_def make_fact_Inr transaction_Inr result_simps
        simp del: check_fact.simps split: option.splits if_splits)
  note a1 = append_linked_fill_store [OF store d1 [unfolded ljnl_def]]
  have j1': "j1 = jnl (lg_scope L) d1" using j1 read_jnl [OF a1(1)] by simp
  note a2 = append_fact_store [OF a1(1) d2]
  show ?thesis
    by (rule that [OF fl rev d1])
       (use chk j1' a1 a2 L' none in \<open>simp_all add: ledger_ok_def ljnl_db del: check_fact.simps\<close>)
qed

lemma reprocess_False: "ledger_ok L \<Longrightarrow> reprocess u5 q pr expected L = Inr (False, L') \<Longrightarrow> L' = L"
  using ledger_read [of L]
  by (auto simp: reprocess_def transaction_Inr result_simps simp del: check_fact.simps
      split: option.splits if_splits)

end
