(* ===== verification/LedgerMachine.thy ===== *)
theory LedgerMachine
  imports Dispatcher Quarantine Interfaces "HOL-Library.Sublist"
begin

text \<open>
  The ledger as a transition system: one rule per mutating operation of \<open>execution/ledger.py\<close>,
  \<open>execution/quarantine.py\<close> and of the two direct writes of \<open>execution/virtual.py\<close>. Every
  operation keeps the store well formed and only appends to the journal, which is the contract the
  dispatcher and the configuration coordinator rely on.
\<close>

section \<open>Growth of a journal\<close>

text \<open>The tables only get longer; the quote cursor of a symbol is kept or moves to a quote that was
  received strictly later and evaluated no earlier.\<close>

definition quotes_ahead :: "journal \<Rightarrow> journal \<Rightarrow> bool" where
  "quotes_ahead j j' \<longleftrightarrow> (\<forall>s p. last_quote j s = Some p \<longrightarrow> (\<exists>p'. last_quote j' s = Some p' \<and>
     (p' = p \<or> dt_lt (cp_received_at p) (cp_received_at p') \<and> dt_le (cp_evaluated_at p) (cp_evaluated_at p'))))"

definition appended :: "journal \<Rightarrow> journal \<Rightarrow> bool" where
  "appended j j' \<longleftrightarrow> prefix (requests j) (requests j') \<and> prefix (facts j) (facts j') \<and>
     prefix (allocations j) (allocations j') \<and> prefix (controls j) (controls j') \<and>
     prefix (configs j) (configs j') \<and> prefix (stop_bindings j) (stop_bindings j') \<and>
     prefix (stop_assignments j) (stop_assignments j') \<and> prefix (stop_latches j) (stop_latches j') \<and>
     prefix (stop_sell_obligations j) (stop_sell_obligations j')"

definition grown :: "journal \<Rightarrow> journal \<Rightarrow> bool" where
  "grown j j' \<longleftrightarrow> appended j j' \<and> quotes_ahead j j'"

lemma quotes_ahead_trans:
  assumes "quotes_ahead a b" and "quotes_ahead b c"
  shows "quotes_ahead a c"
  unfolding quotes_ahead_def
proof (intro allI impI)
  fix s p assume "last_quote a s = Some p"
  then obtain p' where p': "last_quote b s = Some p'" "p' = p \<or> dt_lt (cp_received_at p) (cp_received_at p') \<and>
      dt_le (cp_evaluated_at p) (cp_evaluated_at p')"
    using assms(1) by (auto simp: quotes_ahead_def)
  then obtain p'' where "last_quote c s = Some p''" "p'' = p' \<or>
      dt_lt (cp_received_at p') (cp_received_at p'') \<and> dt_le (cp_evaluated_at p') (cp_evaluated_at p'')"
    using assms(2) by (auto simp: quotes_ahead_def)
  then show "\<exists>p'. last_quote c s = Some p' \<and> (p' = p \<or> dt_lt (cp_received_at p) (cp_received_at p') \<and>
      dt_le (cp_evaluated_at p) (cp_evaluated_at p'))"
    using p'(2) by auto
qed

lemma grown_refl [simp]: "grown j j"
  by (simp add: grown_def appended_def quotes_ahead_def)

lemma appended_trans: "appended a b \<Longrightarrow> appended b c \<Longrightarrow> appended a c"
  unfolding appended_def by (meson prefix_order.trans)

lemma grown_trans [trans]: "grown a b \<Longrightarrow> grown b c \<Longrightarrow> grown a c"
  unfolding grown_def using appended_trans quotes_ahead_trans by blast

lemma grown_push [simp]: "grown j (push p j)"
  by (simp add: grown_def appended_def quotes_ahead_def)

lemma grown_push': "grown j j' \<Longrightarrow> grown j (push p j')"
  by (rule grown_trans [OF _ grown_push])

lemma appended_quotes [simp]: "appended j (j'\<lparr>stop_quotes := qs\<rparr>) = appended j j'"
  by (simp add: appended_def)

lemma grown_push_latch [simp]: "grown j (push_latch l j)"
  by (simp add: push_latch_def split: option.splits)

lemma grown_push_request [simp]: "grown j (push_request r j)"
  by (simp add: push_request_def grown_push' split: option.splits)

lemma grown_push_fact [simp]: "grown j (push_fact f j)"
  by (simp add: push_fact_def grown_push' split: option.splits)

lemma prefix_subset: "prefix xs ys \<Longrightarrow> set xs \<subseteq> set ys"
  by (auto simp: prefix_def)

lemma grown_sets:
  assumes "grown j j'"
  shows "set (requests j) \<subseteq> set (requests j')" and "set (facts j) \<subseteq> set (facts j')"
    and "set (stop_latches j) \<subseteq> set (stop_latches j')"
    and "set (stop_sell_obligations j) \<subseteq> set (stop_sell_obligations j')"
  using assms by (auto simp: grown_def appended_def dest: prefix_subset)

lemma prefix_find:
  assumes "prefix xs ys" and "List.find P xs = Some x"
  shows "List.find P ys = Some x"
  using assms by (auto simp: prefix_def find_append)

lemma grown_find_key: "grown j j' \<Longrightarrow> find_key j k = Some r \<Longrightarrow> find_key j' k = Some r"
  by (auto simp: grown_def appended_def find_key_def intro: prefix_find)

lemma grown_find_fact: "grown j j' \<Longrightarrow> find_fact j k = Some r \<Longrightarrow> find_fact j' k = Some r"
  by (auto simp: grown_def appended_def find_fact_def intro: prefix_find)

section \<open>Steps of a ledger\<close>

text \<open>The ledger keeps its scope and process, stays well formed, and its journal grows; other scopes of
  the same file are untouched, their quote cursors included.\<close>

definition advances :: "ledger \<Rightarrow> ledger \<Rightarrow> bool" where
  "advances L L' \<longleftrightarrow> ledger_ok L' \<and> lg_scope L' = lg_scope L \<and> lg_pid L' = lg_pid L \<and>
     ls_pid (lg_lease L') = ls_pid (lg_lease L) \<and> (ls_held (lg_lease L) \<longrightarrow> ls_held (lg_lease L')) \<and>
     (ls_ready (lg_lease L) \<longrightarrow> ls_ready (lg_lease L')) \<and>
     grown (ljnl L) (ljnl L')"

lemma advances_refl: "ledger_ok L \<Longrightarrow> advances L L"
  by (simp add: advances_def)

lemma advances_trans [trans]: "advances a b \<Longrightarrow> advances b c \<Longrightarrow> advances a c"
  unfolding advances_def by (metis grown_trans)

lemma advancesI:
  "ledger_ok L' \<Longrightarrow> lg_lease L' = lg_lease L \<Longrightarrow> lg_pid L' = lg_pid L \<Longrightarrow> grown (ljnl L) (ljnl L') \<Longrightarrow>
     advances L L'"
  by (simp add: advances_def lg_scope_def)

lemma submit_advances:
  assumes "ledger_ok L" and "submit sha now oid rid c L = Inr (s, L')"
  shows "advances L L'"
proof (cases "sub_created s")
  case True
  note d = submit_created [OF assms True]
  show ?thesis using d by (intro advancesI) simp_all
next
  case False
  then show ?thesis using submit_not_created [OF assms False] assms(1) by (simp add: advances_refl)
qed

lemma ingest_advances:
  assumes "ledger_ok L" and "ingest u5 f L = Inr (b, L')"
  shows "advances L L'"
proof (cases b)
  case True
  then have "ingest u5 f L = Inr (True, L')" using assms(2) by simp
  note d = ingest_new [OF assms(1) this]
  show ?thesis using d by (intro advancesI) simp_all
next
  case False
  then have "L' = L" using ingest_old [OF assms(1)] assms(2) by simp
  then show ?thesis using assms(1) by (simp add: advances_refl)
qed

lemma discard_advances:
  assumes "ledger_ok L" and "discard u5 rid reason expected L = Inr (b, L')"
  shows "advances L L'"
proof (cases b)
  case True
  then have "discard u5 rid reason expected L = Inr (True, L')" using assms(2) by simp
  note d = discard_new [OF assms(1) this]
  show ?thesis using d by (intro advancesI) simp_all
next
  case False
  then have "L' = L" using discard_old [OF assms(1)] assms(2) by simp
  then show ?thesis using assms(1) by (simp add: advances_refl)
qed

lemma append_advances:
  assumes ok: "ledger_ok L" and app: "append_entry (lg_scope L) (entry key p) (lg_db L) = Inr d"
    and key: "keyed p key"
  shows "advances L (L\<lparr>lg_db := d\<rparr>)" and "ljnl (L\<lparr>lg_db := d\<rparr>) = push p (ljnl L)"
proof -
  have "store_ok (lg_db L)" using ok by (simp add: ledger_ok_def)
  note a = append_store [OF this app key]
  show "ljnl (L\<lparr>lg_db := d\<rparr>) = push p (ljnl L)" using a by (simp add: ljnl_db ljnl_def)
  then show "advances L (L\<lparr>lg_db := d\<rparr>)" using a by (intro advancesI) (simp_all add: ledger_ok_def)
qed

lemma allocate_Inr:
  assumes "ledger_ok L" and "allocate a L = Inr (x, L')"
  shows "ls_held (lg_lease L)" and "lg_pid L = ls_pid (lg_lease L)"
    and "L' = L \<and> List.find (\<lambda>x. al_symbol x = al_symbol a) (allocations (ljnl L)) = Some a \<or>
      ls_ready (lg_lease L) \<and> (\<forall>x\<in>set (allocations (ljnl L)). al_symbol x \<noteq> al_symbol a) \<and>
      (\<forall>r\<in>set (requests (ljnl L)). oc_symbol (req_command r) \<noteq> al_symbol a) \<and>
      (\<exists>d. append_entry (lg_scope L) (entry (al_symbol a) (PAllocation a)) (lg_db L) = Inr d \<and>
         L' = L\<lparr>lg_db := d\<rparr>)"
  using assms(2) ledger_read [OF assms(1)]
  by (auto simp: allocate_def transaction_Inr result_simps Let_def lease_ready_def find_None_iff'
      split: if_splits)

lemma allocate_advances:
  assumes "ledger_ok L" and "allocate a L = Inr (x, L')"
  shows "advances L L'"
  using allocate_Inr(3) [OF assms] assms(1) append_advances(1) [OF assms(1)]
  by (auto intro: advances_refl)

lemma put_control_advances:
  assumes "ledger_ok L" and "put_control u c L = Inr (x, L')"
  shows "advances L L'"
  using assms append_advances(1) [OF assms(1)]
  by (auto simp: put_control_def transaction_Inr result_simps)

lemma apply_config_advances:
  assumes "ledger_ok L" and "apply_config u symb expected version L = Inr (x, L')"
  shows "advances L L'"
  using apply_config_effect [OF assms] by (intro advancesI) simp_all

lemma apply_stop_config_advances:
  assumes "ledger_ok L" and "apply_virtual_stop_config u b expected L = Inr (x, L')"
  shows "advances L L'"
  using apply_stop_config_effect [OF assms] by (intro advancesI) (simp_all add: grown_push')

lemma apply_inbox_advances:
  assumes "ledger_ok L" and "apply_inbox_config dg c digest L = Inr (x, L')"
  shows "advances L L'"
proof (cases "List.find (\<lambda>y. ac_command_id y = Some (command_id c)) (configs (ljnl L))")
  case None
  then show ?thesis using apply_inbox_new [OF assms] by (intro advancesI) (simp_all add: grown_push')
next
  case (Some y)
  then show ?thesis using apply_inbox_old [OF assms] assms(1) by (simp add: advances_refl)
qed

lemma process_quote_advances:
  assumes ok: "ledger_ok L" and run: "process_virtual_stop_quote symb q timing L = Inr (r, L')"
  shows "advances L L'"
proof (cases "quote_rejection_reason (ljnl L) symb q timing")
  case None
  then obtain d where acc: "accept_quote (lg_scope L) (ljnl L) symb q timing (lg_db L) = Inr (r, d)"
    and L': "L' = L\<lparr>lg_db := d\<rparr>" using run unfolding process_quote_Inr [OF ok] by auto
  have "store_ok (lg_db L)" using ok by (simp add: ledger_ok_def)
  note a = accept_quote_effect(2,3,4) [OF this acc]
  from a(2) obtain qs where j': "ljnl L' = (push_latch (vr_latch r) (ljnl L))\<lparr>stop_quotes := qs\<rparr>"
    using L' by (auto simp: ljnl_def)
  have "appended (ljnl L) (ljnl L')"
    using grown_push_latch [of "ljnl L" "vr_latch r"] unfolding j' by (simp add: grown_def)
  moreover have "quotes_ahead (ljnl L) (ljnl L')"
    using None a(3) previous_quote_ljnl [OF ok]
    by (auto simp: quotes_ahead_def quote_rejection_None L' ljnl_def checkpoint_of_def)
  ultimately show ?thesis using a(1) L' by (intro advancesI) (simp_all add: ledger_ok_def grown_def)
next
  case (Some e)
  then show ?thesis using run ok unfolding process_quote_Inr [OF ok] by (simp add: advances_refl)
qed

lemma latch_triggered_advances:
  assumes ok: "ledger_ok L"
    and run: "latch_triggered (lg_scope L) (ljnl L) symb k v position q timing (lg_db L) = Inr (l, d)"
  shows "advances L (L\<lparr>lg_db := d\<rparr>)"
    and "ljnl (L\<lparr>lg_db := d\<rparr>) = push_latch l (ljnl L)"
    and "l = Some x \<Longrightarrow> \<exists>b m ob. x = latch_of symb b q \<and> find_binding (ljnl L) symb v = Some b \<and>
      vb_rule_kind b = k \<and> position = Inr m \<and> evaluate_bound m (Some q) b timing = Inr ob \<and>
      obs_status ob = TRIGGERED"
proof -
  have store: "store_ok (lg_db L)" using ok by (simp add: ledger_ok_def)
  consider (none) "l = None" "d = lg_db L"
    | (latched) b m ob y where "l = Some y" "find_binding (ljnl L) symb v = Some b"
      "vb_rule_kind b = k" "position = Inr m" "evaluate_bound m (Some q) b timing = Inr ob"
      "obs_status ob = TRIGGERED" "append_latch (lg_scope L) symb b q (lg_db L) = Inr (y, d)"
    using run by (auto simp: latch_triggered_def result_simps case_Inr_iff split: if_splits)
  then have "advances L (L\<lparr>lg_db := d\<rparr>) \<and> ljnl (L\<lparr>lg_db := d\<rparr>) = push_latch l (ljnl L) \<and>
    (l = Some x \<longrightarrow> (\<exists>b m ob. x = latch_of symb b q \<and> find_binding (ljnl L) symb v = Some b \<and>
      vb_rule_kind b = k \<and> position = Inr m \<and> evaluate_bound m (Some q) b timing = Inr ob \<and>
      obs_status ob = TRIGGERED))" for x
  proof cases
    case none
    then show ?thesis using ok by (auto simp: push_latch_def advances_refl)
  next
    case latched
    note a = append_latch_store [OF store latched(7)]
    have j: "ljnl (L\<lparr>lg_db := d\<rparr>) = push (PStopLatch y) (ljnl L)"
      using a(3) by (simp add: ljnl_db ljnl_def)
    have "advances L (L\<lparr>lg_db := d\<rparr>)" using a(2) j by (intro advancesI) (simp_all add: ledger_ok_def)
    then show ?thesis using j latched a(1) by (auto simp: push_latch_def)
  qed
  then show "advances L (L\<lparr>lg_db := d\<rparr>)" "ljnl (L\<lparr>lg_db := d\<rparr>) = push_latch l (ljnl L)"
    "l = Some x \<Longrightarrow> \<exists>b m ob. x = latch_of symb b q \<and> find_binding (ljnl L) symb v = Some b \<and>
      vb_rule_kind b = k \<and> position = Inr m \<and> evaluate_bound m (Some q) b timing = Inr ob \<and>
      obs_status ob = TRIGGERED" by simp_all
qed

lemma latch_price_cases:
  assumes "ledger_ok L" and "latch_virtual_price_stop symb quote timing L = Inr (l, L')"
  obtains (same) "L' = L" "l = None \<or> (\<exists>x. find_latch (ljnl L) symb = Some x \<and> l = Some x)"
  | (run) q h d where "quote = Some q" "find_latch (ljnl L) symb = None"
      "0 < available (portfolio_view (ljnl L) symb)"
      "confirmed_stop_holdings (ljnl L) symb = Inr (Some h)" "L' = L\<lparr>lg_db := d\<rparr>"
      "latch_triggered (lg_scope L) (ljnl L) symb PRICE_AT_OR_BELOW (sh_rule_version h)
        (make_managed_position symb (sh_qty h) None) q timing (lg_db L) = Inr (l, d)"
  using assms(2) ledger_read [OF assms(1)] available_bounds(1) [of "portfolio_view (ljnl L) symb"]
  by (auto simp: latch_virtual_price_stop_def transaction_Inr result_simps case_Inr_iff portfolio_closed
      latch_blocked_def split: if_splits option.splits)

lemma latch_cost_cases:
  assumes "ledger_ok L" and "latch_virtual_cost_stop symb quote timing L = Inr (l, L')"
  obtains (same) "L' = L" "l = None \<or> (\<exists>x. find_latch (ljnl L) symb = Some x \<and> l = Some x)"
  | (run) q b d where "quote = Some q" "find_latch (ljnl L) symb = None"
      "0 < available (portfolio_view (ljnl L) symb)"
      "confirmed_stop_cost_basis (ljnl L) symb = Inr (Some b)" "L' = L\<lparr>lg_db := d\<rparr>"
      "latch_triggered (lg_scope L) (ljnl L) symb AVERAGE_COST_DROP (scb_rule_version b)
        (cost_position symb b) q timing (lg_db L) = Inr (l, d)"
  using assms(2) ledger_read [OF assms(1)] available_bounds(1) [of "portfolio_view (ljnl L) symb"]
  by (auto simp: latch_virtual_cost_stop_def transaction_Inr result_simps case_Inr_iff portfolio_closed
      latch_blocked_def split: if_splits option.splits)

lemma latch_advances:
  assumes "ledger_ok L"
  shows "latch_virtual_price_stop symb quote timing L = Inr (l, L') \<Longrightarrow> advances L L'"
    and "latch_virtual_cost_stop symb quote timing L = Inr (l, L') \<Longrightarrow> advances L L'"
  using assms latch_triggered_advances(1) [OF assms]
  by (auto elim!: latch_price_cases [OF assms] latch_cost_cases [OF assms] intro: advances_refl)

lemma reprocess_advances:
  assumes ok: "ledger_ok L" and run: "reprocess u5 q pr expected L = Inr (b, L')"
  shows "advances L L'"
proof (cases b)
  case True
  then have "reprocess u5 q pr expected L = Inr (True, L')" using run by simp
  then obtain fl d1 where app: "append_linked_fill u5 (lg_scope L) (ljnl L) fl (lg_db L) = Inr d1"
    and L': "ledger_ok L'" "lg_lease L' = lg_lease L" "lg_pid L' = lg_pid L"
      "ljnl L' = push (PFact (QuarantineReleased (release_of u5 q pr))) (jnl (lg_scope L) d1)"
    by (rule reprocess_True [OF ok])
  have "store_ok (lg_db L)" using ok by (simp add: ledger_ok_def)
  from append_linked_fill_store(2) [OF this app [unfolded ljnl_def]]
  have "grown (ljnl L) (jnl (lg_scope L) d1)" by (simp add: ljnl_def)
  then show ?thesis using L' by (intro advancesI) (simp_all add: grown_push')
next
  case False
  then have "L' = L" using reprocess_False [OF ok] run by simp
  then show ?thesis using ok by (simp add: advances_refl)
qed

lemma approve_Inr:
  assumes "ledger_ok L" and "approve_virtual_reconciliation expected L = Inr (x, L')"
  shows "ls_held (lg_lease L)" and "lg_pid L = ls_pid (lg_lease L)" and "revision (ljnl L) = expected"
    and "\<not> review_blocked (ljnl L)" and "L' = L\<lparr>lg_lease := (lg_lease L)\<lparr>ls_ready := True\<rparr>\<rparr>"
  using assms(2) ledger_read [OF assms(1)]
  by (auto simp: approve_virtual_reconciliation_def approve_virtual_review_def result_simps)

lemma approve_advances:
  assumes "ledger_ok L" and "approve_virtual_reconciliation expected L = Inr (x, L')"
  shows "advances L L'"
  using approve_Inr(5) [OF assms] assms(1)
  by (simp add: advances_def ledger_ok_def lg_scope_def ljnl_def)

section \<open>The dispatcher's own writes\<close>

lemma sendable_Some:
  "sendable j rid = Some r \<longleftrightarrow> List.find (\<lambda>r. req_id r = rid) (requests j) = Some r \<and>
     req_decision r = REQ_ACCEPTED \<and> request_state j r = INTENT_PERSISTED \<and>
     \<not> st_positive_evidence (status j r)"
  by (auto simp: sendable_def split: option.splits)

lemma transport_fact_simps [simp]:
  "fact_id (transport_fact u rid st) = u"
  "fact_request (transport_fact u rid st) = Some rid"
  "transport_of (transport_fact u rid st) = Some st"
  by (simp_all add: transport_fact_def)

lemma append_fact_advances:
  assumes "ledger_ok L" and "append_fact (lg_scope L) f (lg_db L) = Inr d"
  shows "advances L (L\<lparr>lg_db := d\<rparr>)" and "ljnl (L\<lparr>lg_db := d\<rparr>) = push (PFact f) (ljnl L)"
  using append_advances [OF assms(1), of "str_uuid (fact_id f)" "PFact f" d] assms(2)
  by (simp_all add: append_fact_def)

lemma send_claim_None:
  "ledger_ok L \<Longrightarrow> send_claim rid session now u L = Inr (None, L') \<Longrightarrow> L' = L"
  using ledger_read [of L]
  by (auto simp: send_claim_def transaction_Inr result_simps split: option.splits if_splits)

lemma send_claim_Some:
  assumes "ledger_ok L" and "send_claim rid session now u L = Inr (Some r, L')"
  shows "sendable (ljnl L) rid = Some r" and "stop_send_ok (ljnl L) r session = Inr True"
    and "check_freshness (ljnl L) (req_command r) now = Inr ()"
    and "buy_send_ok (ljnl L) (req_command r) = Inr True" and "ls_ready (lg_lease L)"
    and "ljnl L' = push (PFact (transport_fact u rid SENDING)) (ljnl L)" and "advances L L'"
    and "ls_held (lg_lease L)" and "lg_pid L = ls_pid (lg_lease L)" and "lg_lease L' = lg_lease L"
proof -
  obtain d where "sendable (ljnl L) rid = Some r" "stop_send_ok (ljnl L) r session = Inr True"
    "check_freshness (ljnl L) (req_command r) now = Inr ()"
    "buy_send_ok (ljnl L) (req_command r) = Inr True" "ls_ready (lg_lease L)"
    "ls_held (lg_lease L)" "lg_pid L = ls_pid (lg_lease L)"
    and d: "append_fact (lg_scope L) (transport_fact u rid SENDING) (lg_db L) = Inr d"
    and L': "L' = L\<lparr>lg_db := d\<rparr>"
    using assms(2) ledger_read [OF assms(1)]
    by (auto simp: send_claim_def transaction_Inr require_ready_Inr_iff lease_ready_def ebind_Inr_iff
        case_Inr_iff split: if_splits)
  then show "sendable (ljnl L) rid = Some r" "stop_send_ok (ljnl L) r session = Inr True"
    "check_freshness (ljnl L) (req_command r) now = Inr ()"
    "buy_send_ok (ljnl L) (req_command r) = Inr True" "ls_ready (lg_lease L)"
    "ls_held (lg_lease L)" "lg_pid L = ls_pid (lg_lease L)" "lg_lease L' = lg_lease L" by simp_all
  show "ljnl L' = push (PFact (transport_fact u rid SENDING)) (ljnl L)" "advances L L'"
    using append_fact_advances [OF assms(1) d] L' by simp_all
qed

text \<open>Recovery appends one transport observation per unresolved request.\<close>

fun recovery_facts :: "(nat \<Rightarrow> uuid) \<Rightarrow> journal \<Rightarrow> nat \<Rightarrow> request list \<Rightarrow> fact list" where
  "recovery_facts u4 j n [] = []"
| "recovery_facts u4 j n (r # rs) =
     transport_fact (u4 n) (req_id r) (recovery_state j r) # recovery_facts u4 j (Suc n) rs"

definition push_facts :: "fact list \<Rightarrow> journal \<Rightarrow> journal" where
  "push_facts fs j = j\<lparr>facts := facts j @ fs\<rparr>"

lemma push_facts_simps [simp]:
  "push_facts [] j = j"
  "push_facts fs (push (PFact f) j) = push_facts (f # fs) j"
  "facts (push_facts fs j) = facts j @ fs" "requests (push_facts fs j) = requests j"
  "grown j (push_facts fs j)"
  by (simp_all add: push_facts_def push.simps grown_def appended_def quotes_ahead_def last_quote_def)

lemma append_recovery_store:
  assumes "store_ok d" and "append_recovery u4 sc j n rs d = Inr d'"
  shows "store_ok d' \<and> jnl sc d' = push_facts (recovery_facts u4 j n rs) (jnl sc d)"
  using assms
proof (induction rs arbitrary: n d)
  case (Cons r rs)
  then obtain d1 where d1: "append_fact sc (transport_fact (u4 n) (req_id r) (recovery_state j r)) d = Inr d1"
    and rest: "append_recovery u4 sc j (Suc n) rs d1 = Inr d'" by (auto simp: result_simps)
  note a = append_fact_store [OF Cons.prems(1) d1]
  show ?case using Cons.IH [OF a(1) rest] a(2) by simp
qed simp

lemma recover_ledger_Inr:
  assumes "ledger_ok L" and "recover_ledger u4 n L = Inr (ids, L')"
  shows "ids = map req_id (to_recover (ljnl L))" and "advances L L'"
    and "ljnl L' = push_facts (recovery_facts u4 (ljnl L) n (to_recover (ljnl L))) (ljnl L)"
proof -
  obtain d where d: "append_recovery u4 (lg_scope L) (ljnl L) n (to_recover (ljnl L)) (lg_db L) = Inr d"
    and L': "L' = L\<lparr>lg_db := d\<rparr>" and ids: "ids = map req_id (to_recover (ljnl L))"
    using assms(2) ledger_read [OF assms(1)] by (auto simp: recover_ledger_def transaction_Inr result_simps)
  have "store_ok (lg_db L)" using assms(1) by (simp add: ledger_ok_def)
  note a = append_recovery_store [OF this d]
  show "ids = map req_id (to_recover (ljnl L))" by (rule ids)
  show "ljnl L' = push_facts (recovery_facts u4 (ljnl L) n (to_recover (ljnl L))) (ljnl L)"
    using a L' by (simp add: ljnl_db ljnl_def)
  then show "advances L L'" using a L' by (intro advancesI) (simp_all add: ledger_ok_def)
qed

section \<open>The transition relation\<close>

text \<open>A generated identity is one that no request and no fact carries.\<close>

definition fresh_ids :: "ledger \<Rightarrow> uuid \<Rightarrow> uuid \<Rightarrow> bool" where
  "fresh_ids L oid rid \<longleftrightarrow> fresh_order_id (ljnl L) oid \<and> fresh_request_id (ljnl L) rid \<and>
     (\<forall>b\<in>set (stop_sell_obligations (ljnl L)). so_request_id b \<noteq> rid)"

text \<open>\<open>restarted\<close> is a crash or an exit, and a new process that opens the same file for the
  same scope.\<close>

inductive ledger_step ::
    "(order_command \<Rightarrow> string) \<Rightarrow> (config_command \<Rightarrow> string) \<Rightarrow> (uuid \<Rightarrow> string \<Rightarrow> uuid) \<Rightarrow> ledger \<Rightarrow> ledger \<Rightarrow> bool"
  for sha dg u5 where
  submitted: "submit sha now oid rid c L = Inr (s, L') \<Longrightarrow> fresh_ids L oid rid \<Longrightarrow>
     ledger_step sha dg u5 L L'"
| ingested: "ingest u5 f L = Inr (b, L') \<Longrightarrow> ledger_step sha dg u5 L L'"
| discarded: "discard u5 rid reason expected L = Inr (b, L') \<Longrightarrow> ledger_step sha dg u5 L L'"
| allocated_shares: "allocate a L = Inr (x, L') \<Longrightarrow> ledger_step sha dg u5 L L'"
| controlled: "put_control u ct L = Inr (x, L') \<Longrightarrow> ledger_step sha dg u5 L L'"
| configured: "apply_config u symb expected version L = Inr (x, L') \<Longrightarrow> ledger_step sha dg u5 L L'"
| stop_configured: "apply_virtual_stop_config u b expected L = Inr (x, L') \<Longrightarrow> ledger_step sha dg u5 L L'"
| inbox_configured: "apply_inbox_config dg cc digest L = Inr (y, L') \<Longrightarrow> ledger_step sha dg u5 L L'"
| quoted: "process_virtual_stop_quote symb q timing L = Inr (r, L') \<Longrightarrow> ledger_step sha dg u5 L L'"
| price_latched: "latch_virtual_price_stop symb quote timing L = Inr (l, L') \<Longrightarrow> ledger_step sha dg u5 L L'"
| cost_latched: "latch_virtual_cost_stop symb quote timing L = Inr (l, L') \<Longrightarrow> ledger_step sha dg u5 L L'"
| reprocessed: "reprocess u5 qid pr expected L = Inr (b, L') \<Longrightarrow> ledger_step sha dg u5 L L'"
| reviewed: "approve_virtual_reconciliation expected L = Inr (x, L') \<Longrightarrow> ledger_step sha dg u5 L L'"
| claimed: "send_claim rid session now u L = Inr (ro, L') \<Longrightarrow> ledger_step sha dg u5 L L'"
| recovered: "recover_ledger u4 n L = Inr (ids, L') \<Longrightarrow> ledger_step sha dg u5 L L'"
| restarted: "ls_scope l = lg_scope L \<Longrightarrow> lg_db L' = lg_db L \<Longrightarrow> lg_lease L' = l \<Longrightarrow> ledger_step sha dg u5 L L'"

definition continues :: "ledger \<Rightarrow> ledger \<Rightarrow> bool" where
  "continues L L' \<longleftrightarrow> ledger_ok L' \<and> lg_scope L' = lg_scope L \<and> grown (ljnl L) (ljnl L')"

definition usable :: "ledger \<Rightarrow> bool" where
  "usable L \<longleftrightarrow> ls_held (lg_lease L) \<and> lg_pid L = ls_pid (lg_lease L)"

lemma advances_continues: "advances L L' \<Longrightarrow> continues L L'"
  by (simp add: advances_def continues_def)

lemma continues_trans: "continues a b \<Longrightarrow> continues b c \<Longrightarrow> continues a c"
  unfolding continues_def by (metis grown_trans)

lemmas operation_advances = submit_advances ingest_advances discard_advances allocate_advances
  put_control_advances apply_config_advances apply_stop_config_advances apply_inbox_advances
  process_quote_advances latch_advances reprocess_advances approve_advances
  recover_ledger_Inr(2)

lemma send_claim_advances:
  "ledger_ok L \<Longrightarrow> send_claim rid session now u L = Inr (ro, L') \<Longrightarrow> advances L L'"
  by (cases ro) (use send_claim_None advances_refl in blast, use send_claim_Some(7) in blast)

lemma ledger_step_continues:
  assumes "ledger_ok L" and "ledger_step sha dg u5 L L'"
  shows "continues L L'"
  using assms(2)
proof cases
  case (restarted l)
  then have "lg_scope L' = lg_scope L" by (simp add: lg_scope_def)
  then show ?thesis using restarted assms(1) by (simp add: continues_def ledger_ok_def ljnl_def)
qed (use assms(1) in \<open>auto intro!: advances_continues intro: operation_advances send_claim_advances\<close>)

interpretation ledger: growing_system "ledger_step sha dg u5" ledger_ok continues for sha dg u5
proof unfold_locales
  show "ledger_ok s'" if "ledger_ok s" "ledger_step sha dg u5 s s'" for s s'
    using ledger_step_continues [OF that] by (simp add: continues_def)
  show "continues s s'" if "ledger_ok s" "ledger_step sha dg u5 s s'" for s s'
    by (rule ledger_step_continues [OF that])
  show "continues s s" if "ledger_ok s" for s using that by (simp add: continues_def)
  show "continues a c" if "continues a b" "continues b c" for a b c using continues_trans that .
qed

end
