(* ===== verification/ConfigApply.thy ===== *)
theory ConfigApply
  imports InboxProperties LedgerMachine
begin

text \<open>
  \<open>execution/config_apply.py\<close>: the resumable bridge from the inbox to the ledger. The two stores
  commit independently, so a call returns its result with the state it leaves, also when it raises, and
  a crash may fall between any two commits.
\<close>

record config_apply_result =
  car_command_id :: uuid
  car_state :: apply_state
  car_reason :: "string option"
  car_applied_version :: "int option"

type_synonym stores = "inbox \<times> ledger"

definition apply_result :: "inbox_application \<Rightarrow> config_apply_result" where
  "apply_result app = \<lparr>car_command_id = command_id (ia_command app), car_state = ia_state app,
     car_reason = ia_reason app, car_applied_version = ia_applied_version app\<rparr>"

text \<open>The stores must be distinct files; paths are resolved.\<close>

definition make_coordinator :: "string \<Rightarrow> string \<Rightarrow> unit result" where
  "make_coordinator inbox_path ledger_path =
     raise_if (inbox_path = ledger_path) (ValueError ''CONFIG_STORES_MUST_BE_SEPARATE'')"

definition block_application ::
    "inbox_application \<Rightarrow> string \<Rightarrow> stores \<Rightarrow> config_apply_result result \<times> stores" where
  "block_application app reason S =
     (case block_apply (command_id (ia_command app)) reason (fst S) of
       Inl e \<Rightarrow> (Inl e, S)
     | Inr (app1, I) \<Rightarrow> (Inr (apply_result app1), (I, snd S)))"

definition execution_scope_ok :: "config_command \<Rightarrow> scope \<Rightarrow> bool" where
  "execution_scope_ok c sc \<longleftrightarrow> set_account_id (cfg_settings c) = sc_account_id sc \<and>
     set_environment (cfg_settings c) = sc_environment sc"

text \<open>The two halves of \<open>apply\<close>: the local application, and its acknowledgement in the inbox.\<close>

definition acknowledge_applied ::
    "uuid \<Rightarrow> inbox_application \<Rightarrow> applied_config \<Rightarrow> stores \<Rightarrow> config_apply_result result \<times> stores" where
  "acknowledge_applied cid app applied S =
     (case mark_applied cid (ia_digest app) (ac_version applied) (fst S) of
       Inl e \<Rightarrow> (Inl e, S)
     | Inr (completed, I) \<Rightarrow> (Inr (apply_result completed), (I, snd S)))"

definition apply_locally ::
    "(config_command \<Rightarrow> string) \<Rightarrow> uuid \<Rightarrow> inbox_application \<Rightarrow> stores \<Rightarrow>
     config_apply_result result \<times> stores" where
  "apply_locally dg cid app S =
     (if \<not> execution_scope_ok (ia_command app) (lg_scope (snd S))
      then block_application app ''CONFIG_EXECUTION_SCOPE_MISMATCH'' S
      else case apply_inbox_config dg (ia_command app) (ia_digest app) (snd S) of
        Inl (LedgerError code) \<Rightarrow> block_application app code S
      | Inl e \<Rightarrow> (Inl e, S)
      | Inr (applied, L) \<Rightarrow> acknowledge_applied cid app applied (fst S, L))"

definition coordinator_apply ::
    "(config_command \<Rightarrow> string) \<Rightarrow> bool \<Rightarrow> uuid \<Rightarrow> stores \<Rightarrow> config_apply_result result \<times> stores" where
  "coordinator_apply dg retry_blocked cid S =
     (if \<not> lease_ready (lg_pid (snd S)) (lg_lease (snd S))
      then (Inl (LedgerError ''SESSION_RECONCILIATION_REQUIRED''), S)
      else case begin_apply cid retry_blocked (fst S) of
        Inl e \<Rightarrow> (Inl e, S)
      | Inr (app, I) \<Rightarrow>
          if ia_state app \<noteq> APPLYING then (Inr (apply_result app), (I, snd S))
          else apply_locally dg cid app (I, snd S))"

fun apply_all ::
    "(config_command \<Rightarrow> string) \<Rightarrow> uuid list \<Rightarrow> stores \<Rightarrow> config_apply_result list result \<times> stores" where
  "apply_all dg [] S = (Inr [], S)"
| "apply_all dg (cid # cids) S = (case coordinator_apply dg False cid S of
     (Inl e, S1) \<Rightarrow> (Inl e, S1)
   | (Inr r, S1) \<Rightarrow> (case apply_all dg cids S1 of
       (Inl e, S2) \<Rightarrow> (Inl e, S2) | (Inr rs, S2) \<Rightarrow> (Inr (r # rs), S2)))"

definition resume_applying ::
    "(config_command \<Rightarrow> string) \<Rightarrow> stores \<Rightarrow> config_apply_result list result \<times> stores" where
  "resume_applying dg S = apply_all dg (applying_command_ids (fst S)) S"

definition resume_pending ::
    "(config_command \<Rightarrow> string) \<Rightarrow> stores \<Rightarrow> config_apply_result list result \<times> stores" where
  "resume_pending dg S =
     (if \<not> lease_ready (lg_pid (snd S)) (lg_lease (snd S))
      then (Inl (LedgerError ''SESSION_RECONCILIATION_REQUIRED''), S)
      else apply_all dg (pending_application_ids (fst S)) S)"

section \<open>Lemmas\<close>

lemma find_update_command:
  assumes "find_command cid d = Some r" and "\<And>r. ir_command_id (f r) = ir_command_id r"
  shows "find_command cid (update_command cid f d) = Some (f r)"
proof -
  have "List.find (\<lambda>r. ir_command_id r = cid) (map (\<lambda>r. if ir_command_id r = cid then f r else r) rows) =
      map_option f (List.find (\<lambda>r. ir_command_id r = cid) rows)" for rows
    by (induction rows) (simp_all add: assms(2))
  then show ?thesis using assms(1) by (simp add: find_command_def update_command_def)
qed

lemma move_ids [simp]:
  "ir_command_id (start_applying r) = ir_command_id r" "ir_decision (start_applying r) = ir_decision r"
  "ir_payload (start_applying r) = ir_payload r" "ir_digest (start_applying r) = ir_digest r"
  "ir_apply_state (start_applying r) = APPLYING"
  "ir_command_id (apply_row v r) = ir_command_id r" "ir_decision (apply_row v r) = ir_decision r"
  "ir_payload (apply_row v r) = ir_payload r" "ir_digest (apply_row v r) = ir_digest r"
  "ir_apply_state (apply_row v r) = APPLIED" "ir_applied_version (apply_row v r) = Some v"
  by (simp_all add: start_applying_def apply_row_def)

lemma row_application_simps [simp]:
  "ia_command (row_application r) = ir_payload r" "ia_digest (row_application r) = ir_digest r"
  "ia_state (row_application r) = ir_apply_state r" "ia_reason (row_application r) = ir_apply_reason r"
  "ia_applied_version (row_application r) = ir_applied_version r"
  by (simp_all add: row_application_def)

text \<open>After a start, the inbox has the row in the applying state.\<close>

lemma begin_apply_applying:
  assumes "begin_apply cid retry d = Inr (app, d1)" and "ia_state app = APPLYING"
  obtains r where "find_command cid d1 = Some r" "ir_decision r = ACCEPTED" "ir_apply_state r = APPLYING"
    "app = row_application r" "begin_apply cid retry' d1 = Inr (app, d1)"
  using assms(1)
proof (cases rule: begin_apply_cases)
  case (unchanged r)
  then show ?thesis using that [of r] assms(2)
    by (simp add: begin_apply_def accepted_row_def)
next
  case (started r)
  have f: "find_command cid d1 = Some (start_applying r)"
    using find_update_command [OF started(1), of start_applying] started(5) by simp
  show ?thesis
    by (rule that [OF f]) (simp_all add: f started(2-4) begin_apply_def accepted_row_def)
qed

lemma mark_applied_applying:
  assumes "find_command cid d = Some r" and "ir_decision r = ACCEPTED" and "ir_apply_state r = APPLYING"
    and "v = set_version (cfg_settings (ir_payload r))"
  defines "d' \<equiv> update_command cid (apply_row v) d"
  shows "mark_applied cid (ir_digest r) v d = Inr (row_application (apply_row v r), d')"
    and "begin_apply cid retry d' = Inr (row_application (apply_row v r), d')"
  using assms(1-4) find_update_command [OF assms(1), of "apply_row v"]
  by (simp_all add: d'_def mark_applied_def begin_apply_def accepted_row_def)

lemma begin_apply_command:
  assumes ok: "inbox_ok dg I" and start: "begin_apply cid retry I = Inr (app, I1)"
  shows "command_id (ia_command app) = cid"
proof -
  have row: "command_id (ir_payload r) = cid" if "find_command cid I = Some r" for r
    using find_command_row [OF that] ok by (auto simp: inbox_ok_def row_ok_def Let_def)
  show ?thesis using start by (cases rule: begin_apply_cases) (simp_all add: row)
qed

text \<open>Blocking a row that is being applied succeeds, records the reason and leaves the ledger alone.\<close>

lemma block_application_applying:
  assumes "find_command cid I = Some r" and "ir_decision r = ACCEPTED" and "ir_apply_state r = APPLYING"
    and "command_id (ir_payload r) = cid"
  shows "\<exists>res I'. block_application (row_application r) reason (I, L) = (Inr res, (I', L)) \<and>
    car_state res = APPLY_BLOCKED \<and> car_reason res = Some reason"
  using assms
  by (simp add: block_application_def block_apply_def accepted_row_def raise_if_def apply_result_def
      row_application_def block_row_def)

text \<open>A configuration that was applied is applied again without a change, whatever the ledger did since.\<close>

lemma inbox_config_repeats:
  assumes ok: "ledger_ok L" and local: "apply_inbox_config dg c digest L = Inr (x, L1)"
    and run: "(ledger_step sha dg u5)\<^sup>*\<^sup>* L1 T" and T: "lease_ready (lg_pid T) (lg_lease T)"
  shows "apply_inbox_config dg c digest T = Inr (x, T)"
proof -
  note applied = apply_inbox_applied [OF ok local]
  have usableT: "usable T \<and> ls_ready (lg_lease T)" using T by (simp add: lease_ready_def usable_def)
  have contT: "ledger_ok T" "lg_scope T = lg_scope L1" "grown (ljnl L1) (ljnl T)"
    using ledger.run_le [OF run applied(2)] by (simp_all add: continues_def)
  have "inbox_applied (ljnl T) c digest x"
    using applied(1) contT(3)
    by (auto simp: inbox_applied_def find_binding_def grown_def appended_def intro: prefix_find)
  moreover have "inbox_command_ok dg (lg_scope T) c digest"
    using local contT(2) applied(3) unfolding apply_inbox_Inr [OF ok] by (simp add: lg_scope_def)
  ultimately show ?thesis using usableT
    by (simp add: apply_inbox_Inr [OF contT(1)] usable_def) (simp add: inbox_applied_def)
qed

section \<open>Properties\<close>

text \<open>C4: Applying a configuration survives a crash at either commit boundary. When a started command can be
  applied locally, the call ends applied. After a crash between the start and the local application, any ledger
  operations and restarts may follow: when the command is called again, it ends applied with the same result and the
  same inbox if the ledger takes the configuration then; if the ledger refuses it with a code, the command ends blocked
  with that code and the ledger is unchanged; and any other failure changes nothing. After a crash between the local
  application and its acknowledgement, any ledger operations and restarts may follow too, and the
  repetition ends applied with the same result and changes only the inbox; a repetition after completion changes
  nothing.\<close>

theorem coordinator_resumes:
  assumes ok: "ledger_ok L" "inbox_ok dg I" and start: "begin_apply cid retry I = Inr (app, I1)" and app: "ia_state app = APPLYING"
    and ready: "lease_ready (lg_pid L) (lg_lease L)" and scope: "execution_scope_ok (ia_command app) (lg_scope L)"
    and local: "apply_inbox_config dg (ia_command app) (ia_digest app) L = Inr (x, L1)"
    and early: "(ledger_step sha dg u5)\<^sup>*\<^sup>* L S" and S: "lease_ready (lg_pid S) (lg_lease S)"
    and run: "(ledger_step sha dg u5)\<^sup>*\<^sup>* L1 T" and T: "lease_ready (lg_pid T) (lg_lease T)"
  shows "\<exists>res I2. car_state res = APPLIED \<and> car_applied_version res = Some (ac_version x) \<and>
    coordinator_apply dg retry cid (I, L) = (Inr res, (I2, L1)) \<and>
    (case apply_inbox_config dg (ia_command app) (ia_digest app) S of
       Inr (y, S1) \<Rightarrow> coordinator_apply dg retry' cid (I1, S) = (Inr res, (I2, S1))
     | Inl (LedgerError code) \<Rightarrow> (\<exists>res3 I3. coordinator_apply dg retry' cid (I1, S) = (Inr res3, (I3, S)) \<and>
         car_state res3 = APPLY_BLOCKED \<and> car_reason res3 = Some code)
     | Inl e \<Rightarrow> coordinator_apply dg retry' cid (I1, S) = (Inl e, (I1, S))) \<and>
    coordinator_apply dg retry' cid (I1, T) = (Inr res, (I2, T)) \<and>
    coordinator_apply dg retry' cid (I2, T) = (Inr res, (I2, T))"
proof -
  obtain r where r: "find_command cid I1 = Some r" "ir_decision r = ACCEPTED" "ir_apply_state r = APPLYING"
    "app = row_application r" and again: "begin_apply cid retry' I1 = Inr (app, I1)"
    by (rule begin_apply_applying [OF start app])
  have cid: "command_id (ir_payload r) = cid" by (rule begin_apply_command [OF ok(2) start, unfolded r(4), simplified])
  note applied = apply_inbox_applied [OF ok(1) local]
  have v: "ac_version x = set_version (cfg_settings (ir_payload r))"
    using applied(1) r(4) by (simp add: inbox_applied_def)
  let ?I2 = "update_command cid (apply_row (ac_version x)) I1"
  let ?done = "row_application (apply_row (ac_version x) r)"
  note marked = mark_applied_applying [OF r(1-3) v]
  have contT: "ledger_ok T" "lg_scope T = lg_scope L1" "grown (ljnl L1) (ljnl T)"
    using ledger.run_le [OF run applied(2)] by (simp_all add: continues_def)
  have localT: "apply_inbox_config dg (ia_command app) (ia_digest app) T = Inr (x, T)"
    by (rule inbox_config_repeats [OF ok(1) local run T])
  have scopeT: "execution_scope_ok (ia_command app) (lg_scope T)"
    using scope contT(2) applied(3) by (simp add: lg_scope_def)
  have contS: "ledger_ok S" "lg_scope S = lg_scope L"
    using ledger.run_le [OF early ok(1)] by (simp_all add: continues_def)
  have appS: "coordinator_apply dg retry' cid (I1, S) = apply_locally dg cid app (I1, S)"
    using again app S by (simp add: coordinator_apply_def)
  have "case apply_inbox_config dg (ia_command app) (ia_digest app) S of
       Inr (y, S1) \<Rightarrow> coordinator_apply dg retry' cid (I1, S) = (Inr (apply_result ?done), (?I2, S1))
     | Inl (LedgerError code) \<Rightarrow> (\<exists>res3 I3. coordinator_apply dg retry' cid (I1, S) = (Inr res3, (I3, S)) \<and>
         car_state res3 = APPLY_BLOCKED \<and> car_reason res3 = Some code)
     | Inl e \<Rightarrow> coordinator_apply dg retry' cid (I1, S) = (Inl e, (I1, S))"
  proof (cases "apply_inbox_config dg (ia_command app) (ia_digest app) S")
    case (Inr z)
    obtain y S1 where z: "z = (y, S1)" by (cases z)
    have "ac_version y = ac_version x"
      using apply_inbox_applied(1) [OF contS(1) Inr [unfolded z]] v r(4) by (simp add: inbox_applied_def)
    then show ?thesis using appS scope contS(2) Inr z marked(1) r(4)
      by (simp add: apply_locally_def acknowledge_applied_def)
  next
    case (Inl e)
    note blocked = block_application_applying [OF r(1-3) cid, folded r(4)]
    show ?thesis using appS scope contS(2) Inl blocked
      by (cases e) (simp_all add: apply_locally_def del: ex_simps)
  qed
  moreover have "coordinator_apply dg retry cid (I, L) = (Inr (apply_result ?done), (?I2, L1))"
    using start again app ready scope local marked(1) r(4)
    by (simp_all add: coordinator_apply_def apply_locally_def acknowledge_applied_def)
  moreover have "coordinator_apply dg retry' cid (I1, T) = (Inr (apply_result ?done), (?I2, T))"
    using again app T scopeT localT marked(1) r(4)
    by (simp add: coordinator_apply_def apply_locally_def acknowledge_applied_def)
  moreover have "coordinator_apply dg retry' cid (?I2, T) = (Inr (apply_result ?done), (?I2, T))"
    using T marked(2) [of retry'] by (simp add: coordinator_apply_def)
  moreover have "car_state (apply_result ?done) = APPLIED"
    "car_applied_version (apply_result ?done) = Some (ac_version x)"
    by (simp_all add: apply_result_def)
  ultimately show ?thesis by blast
qed

text \<open>C9: The inbox calls a command applied only when the ledger holds it. Whenever a call of the coordinator returns
  APPLIED for a command that was not applied before, the ledger's journal has the command's
  configuration, with its digest and version, and its stop rule bound to that version.\<close>

theorem coordinator_applied_in_ledger:
  assumes ok: "ledger_ok L" and run: "coordinator_apply dg retry cid (I, L) = (Inr res, (I', L'))"
    and applied: "car_state res = APPLIED"
    and before: "\<And>r. find_command cid I = Some r \<Longrightarrow> ir_apply_state r \<noteq> APPLIED"
  shows "\<exists>r x. find_command cid I' = Some r \<and> inbox_applied (ljnl L') (ir_payload r) (ir_digest r) x \<and>
    car_applied_version res = Some (ac_version x)"
proof -
  obtain app I1 where b: "begin_apply cid retry I = Inr (app, I1)"
    using run by (auto simp: coordinator_apply_def split: if_splits sum.splits)
  have st: "ia_state app \<noteq> APPLIED"
    using b before by (cases rule: begin_apply_cases) auto
  then have app: "ia_state app = APPLYING"
    and loc: "apply_locally dg cid app (I1, L) = (Inr res, (I', L'))"
    using run b applied by (auto simp: coordinator_apply_def apply_result_def split: if_splits)
  obtain r where r: "find_command cid I1 = Some r" "ir_decision r = ACCEPTED" "ir_apply_state r = APPLYING"
    "app = row_application r" by (rule begin_apply_applying [OF b app])
  have nb: "block_application app reason S = (Inr res, S') \<Longrightarrow> False" for reason S S'
    using applied by (auto simp: block_application_def apply_result_def block_row_def
        elim!: block_apply_cases split: sum.splits prod.splits)
  obtain x L1 where x: "apply_inbox_config dg (ia_command app) (ia_digest app) L = Inr (x, L1)"
    and ack: "acknowledge_applied cid app x (I1, L1) = (Inr res, (I', L'))"
    using loc by (auto simp: apply_locally_def split: if_splits sum.splits py_error.splits dest: nb)
  note inb = apply_inbox_applied(1) [OF ok x]
  have v: "ac_version x = set_version (cfg_settings (ir_payload r))"
    using inb r(4) by (simp add: inbox_applied_def)
  note m = mark_applied_applying [OF r(1-3) v]
  have I': "I' = update_command cid (apply_row (ac_version x)) I1" "L' = L1"
    "res = apply_result (row_application (apply_row (ac_version x) r))"
    using ack m(1) r(4) by (simp_all add: acknowledge_applied_def)
  have "find_command cid I' = Some (apply_row (ac_version x) r)"
    using find_update_command [OF r(1), of "apply_row (ac_version x)"] I'(1) by simp
  then show ?thesis using inb r(4) I' by (auto simp: apply_result_def)
qed

text \<open>C26: A command id is looked up and updated without its scope. Whenever, in a well-formed inbox, another row
  carries the id of an accepted command that is about to be applied, that row belongs to another account or
  environment, which the keys of the table allow; beginning and completing the first command moves the other row to
  APPLYING and then to APPLIED as well, with the version of the first command whatever its own, and whether or not it
  was ever accepted.\<close>

theorem apply_marks_other_scope:
  assumes ok: "inbox_ok dg d" and first: "find_command cid d = Some r" and accepted: "ir_decision r = ACCEPTED"
    and waiting: "ir_apply_state r = NOT_APPLIED"
    and other: "k < length (ib_rows d)" "ir_command_id (ib_rows d ! k) = cid" "ib_rows d ! k \<noteq> r"
  defines "v \<equiv> set_version (cfg_settings (ir_payload r))"
  shows "(ir_account_id (ib_rows d ! k), ir_environment (ib_rows d ! k)) \<noteq> (ir_account_id r, ir_environment r) \<and>
    (\<exists>app d1 done d2. begin_apply cid retry d = Inr (app, d1) \<and> ir_apply_state (ib_rows d1 ! k) = APPLYING \<and>
       mark_applied cid (ir_digest r) v d1 = Inr (done, d2) \<and> ia_command done = ir_payload r \<and>
       row_identity (ib_rows d2 ! k) = row_identity (ib_rows d ! k) \<and>
       ir_apply_state (ib_rows d2 ! k) = APPLIED \<and> ir_applied_version (ib_rows d2 ! k) = Some v)"
proof -
  let ?d1 = "update_command cid start_applying d"
  let ?r1 = "start_applying r"
  have r: "r \<in> set (ib_rows d)" "ir_command_id r = cid" using find_command_row [OF first] by simp_all
  have "inj_on row_command_key (set (ib_rows d))" using ok by (simp add: inbox_ok_def distinct_map)
  then have "row_command_key (ib_rows d ! k) \<noteq> row_command_key r"
    using r(1) other(1,3) by (auto dest: inj_onD)
  then have scope: "(ir_account_id (ib_rows d ! k), ir_environment (ib_rows d ! k)) \<noteq> (ir_account_id r, ir_environment r)"
    using r(2) other(2) by (auto simp: row_command_key_def)
  have begun: "begin_apply cid retry d = Inr (row_application ?r1, ?d1)"
    using first accepted waiting by (simp add: begin_apply_def accepted_row_def)
  have "find_command cid ?d1 = Some ?r1" by (rule find_update_command [OF first]) simp
  then have marked: "mark_applied cid (ir_digest r) v ?d1 =
      Inr (row_application (apply_row v ?r1), update_command cid (apply_row v) ?d1)"
    using mark_applied_applying(1) [of cid ?d1 ?r1 v] accepted by (simp add: v_def)
  have moved: "ib_rows ?d1 ! k = start_applying (ib_rows d ! k)"
    "ib_rows (update_command cid (apply_row v) ?d1) ! k = apply_row v (start_applying (ib_rows d ! k))"
    using other by (simp_all add: update_command_def)
  show ?thesis using scope begun marked moved
    by (intro conjI exI [of _ "row_application ?r1"] exI [of _ ?d1] exI [of _ "row_application (apply_row v ?r1)"]
        exI [of _ "update_command cid (apply_row v) ?d1"]) simp_all
qed

end
