(* ===== verification/LedgerProperties.thy ===== *)
theory LedgerProperties
  imports LedgerMachine
begin

text \<open>
  The properties of the ledger facade: durable idempotence of submission, evidence, discard
  and configuration, reservation without overselling, the errors an operation can raise, the order
  of quotes and the single latch of a symbol, and the review gates.
\<close>

section \<open>Durable operations\<close>

lemma usable_ljnl: "usable L \<Longrightarrow> ls_held (lg_lease L) \<and> lg_pid L = ls_pid (lg_lease L)"
  by (simp add: usable_def)

interpretation submission: durable_operation "ledger_step sha dg u5" ledger_ok continues
  "\<lambda>(now, oid, rid) c. submit sha now oid rid c" "\<lambda>s. s\<lparr>sub_created := False\<rparr>" "\<lambda>_. usable"
  for sha dg u5
proof unfold_locales
  fix L L' T :: ledger and p p' :: "datetime \<times> uuid \<times> uuid" and c s
  assume ok: "ledger_ok L" and run: "(case p of (now, oid, rid) \<Rightarrow> submit sha now oid rid) c L = Inr (s, L')"
  obtain now oid rid where p: "p = (now, oid, rid)" by (cases p)
  have sub: "submit sha now oid rid c L = Inr (s, L')" using run p by simp
  note k = submit_keeps [OF ok sub]
  show "ledger_ok L' \<and> continues L L' \<and> usable L'"
    using k advances_continues [OF submit_advances [OF ok sub]] by (simp add: usable_def)
  assume T: "ledger_ok T" "continues L' T" "usable T"
  then have "find_key (ljnl T) (oc_key c) = Some (sub_request s)"
    using grown_find_key [OF _ k(4)] by (simp add: continues_def)
  then show "(case p' of (now, oid, rid) \<Rightarrow> submit sha now oid rid) c T = Inr (s\<lparr>sub_created := False\<rparr>, T)"
    using T usable_ljnl [OF T(3)] k(5) by (cases p') (simp add: submit_Inr)
qed

interpretation evidence: durable_operation "ledger_step sha dg u5" ledger_ok continues
  "\<lambda>_. ingest u5" "\<lambda>_. False" "\<lambda>_. usable" for sha dg u5
proof unfold_locales
  fix L L' T :: ledger and p p' :: unit and f b
  assume ok: "ledger_ok L" and run: "ingest u5 f L = Inr (b, L')"
  note k = ingest_keeps [OF ok run]
  show "ledger_ok L' \<and> continues L L' \<and> usable L'"
    using k advances_continues [OF ingest_advances [OF ok run]] by (simp add: usable_def)
  assume T: "ledger_ok T" "continues L' T" "usable T"
  obtain g where g: "find_fact (ljnl L') (fact_id f) = Some g" "fact_eq g f" using k(4) by blast
  then have "find_fact (ljnl T) (fact_id f) = Some g"
    using T grown_find_fact [OF _ g(1)] by (simp add: continues_def)
  then show "ingest u5 f T = Inr (False, T)"
    using T usable_ljnl [OF T(3)] g(2) by (simp add: ingest_Inr)
qed

interpretation configuration: durable_operation "ledger_step sha dg u5" ledger_ok continues
  "\<lambda>_ (c, digest). apply_inbox_config dg c digest" "\<lambda>x. x"
  "\<lambda>_ L. usable L \<and> ls_ready (lg_lease L)" for sha dg u5
proof unfold_locales
  fix L L' T :: ledger and p p' :: unit and cd :: "config_command \<times> string" and x
  obtain c digest where cd: "cd = (c, digest)" by (cases cd)
  assume ok: "ledger_ok L" and run: "(case cd of (c, digest) \<Rightarrow> apply_inbox_config dg c digest) L = Inr (x, L')"
  then have run': "apply_inbox_config dg c digest L = Inr (x, L')" by (simp add: cd)
  note k = apply_inbox_applied [OF ok run']
  have pre: "inbox_command_ok dg (lg_scope L) c digest \<and> ls_held (lg_lease L) \<and>
      lg_pid L = ls_pid (lg_lease L) \<and> ls_ready (lg_lease L)"
    using run' unfolding apply_inbox_Inr [OF ok] by simp
  show "ledger_ok L' \<and> continues L L' \<and> usable L' \<and> ls_ready (lg_lease L')"
    using k pre advances_continues [OF apply_inbox_advances [OF ok run']] by (simp add: usable_def)
  assume T: "ledger_ok T" "continues L' T" "usable T \<and> ls_ready (lg_lease T)"
  have scope: "lg_scope T = lg_scope L"
    using T(2) k(3) by (simp add: continues_def lg_scope_def)
  have g: "prefix (configs (ljnl L')) (configs (ljnl T))" "prefix (stop_bindings (ljnl L')) (stop_bindings (ljnl T))"
    using T(2) by (simp_all add: continues_def grown_def appended_def)
  then have "inbox_applied (ljnl T) c digest x"
    using k(1) by (auto simp: inbox_applied_def find_binding_def intro: prefix_find)
  then show "(case cd of (c, digest) \<Rightarrow> apply_inbox_config dg c digest) T = Inr (x, T)"
    using T pre scope usable_ljnl [of T] by (simp add: cd apply_inbox_Inr) (simp add: inbox_applied_def)
qed

text \<open>C1: Submission is durably idempotent. Once a command was accepted, resubmitting it at any later
  time, after any ledger operations and restarts, with any clock and whatever identities would be
  generated, returns the original request, reports no creation and leaves the ledger unchanged.\<close>

theorem submit_replay:
  assumes "ledger_ok L" and "submit sha now oid rid c L = Inr (s, L')"
    and "(ledger_step sha dg u5)\<^sup>*\<^sup>* L' T" and "usable T"
  shows "submit sha now' oid' rid' c T = Inr (s\<lparr>sub_created := False\<rparr>, T)"
  using submission.replay_later [where p = "(now, oid, rid)" and p' = "(now', oid', rid')"] assms
  by fastforce

text \<open>An idempotency key is never reused for another command: once a command was accepted, a
  different command with the same key is refused at any later time.\<close>

theorem submit_key_conflict:
  assumes "ledger_ok L" and "submit sha now oid rid c L = Inr (s, L')"
    and "(ledger_step sha dg u5)\<^sup>*\<^sup>* L' T" and "usable T"
    and "oc_key c' = oc_key c" and "c' \<noteq> c"
  shows "submit sha now' oid' rid' c' T = Inl (LedgerError ''CONFLICT_IDEMPOTENCY_MISMATCH'')"
proof -
  note k = submit_keeps [OF assms(1,2)]
  have T: "ledger_ok T \<and> continues L' T" using ledger.run_le [OF assms(3) k(1)] by simp
  then have "find_key (ljnl T) (oc_key c') = Some (sub_request s)"
    using grown_find_key [OF _ k(4)] assms(5) by (simp add: continues_def)
  then show ?thesis using T k(5) assms(4,6) ledger_read [of T]
    by (simp add: submit_def transaction_def operation_def usable_def)
qed

text \<open>Evidence is ingested once. A fact that was ingested or recognised is recognised at any later
  time, with no further effect on the ledger.\<close>

theorem ingest_replay:
  assumes "ledger_ok L" and "ingest u5 f L = Inr (b, L')"
    and "(ledger_step sha dg u5)\<^sup>*\<^sup>* L' T" and "usable T"
  shows "ingest u5 f T = Inr (False, T)"
  using evidence.replay_later [OF assms] .

text \<open>An accepted configuration command is applied once. Applying it again at any later time, after
  other revisions and restarts, returns the first application and changes nothing.\<close>

theorem inbox_config_replay:
  assumes "ledger_ok L" and "apply_inbox_config dg c digest L = Inr (x, L')"
    and "(ledger_step sha dg u5)\<^sup>*\<^sup>* L' T" and "usable T" and "ls_ready (lg_lease T)"
  shows "apply_inbox_config dg c digest T = Inr (x, T)"
  using configuration.replay_later [where c = "(c, digest)"] assms by fastforce

section \<open>Reservation\<close>

lemma push_obligation_trading: "same_trading (push (PRequest r) j) (push_request r j)"
  by (simp add: push_request_def same_trading_def split: option.splits)

lemma push_request_portfolio:
  "portfolio_view (push_request r j) symb = portfolio_view (push (PRequest r) j) symb"
  by (rule portfolio_same_trading [OF push_obligation_trading])

lemma fresh_new_request:
  assumes "fresh_ids L oid rid"
  shows "fresh_request_id (ljnl L) (req_id (new_request sha oid rid c))"
    and "is_new c \<Longrightarrow> fresh_order_id (ljnl L) (req_order_id (new_request sha oid rid c))"
  using assms by (cases c; simp add: fresh_ids_def)+

lemma submit_new_portfolio:
  assumes ok: "ledger_ok L" and sub: "submit sha now oid rid (New c) L = Inr (s, L')"
    and cr: "sub_created s" and fr: "fresh_ids L oid rid" and q: "0 < new_qty c"
  obtains j where "portfolio_view (ljnl L') symb = portfolio_view j symb"
    and "managed_of j symb = managed_of (ljnl L) symb"
    and "reserved_of j symb = reserved_of (ljnl L) symb +
      (if cmd_symbol c = symb \<and> cmd_side c = SELL then new_qty c else 0)"
    and "discrepancy_of j symb = discrepancy_of (ljnl L) symb"
    and "uncertain_of j symb = uncertain_of (ljnl L) symb"
    and "entry_stopped_of j symb = entry_stopped_of (ljnl L) symb"
    and "liquidating_of j symb = liquidating_of (ljnl L) symb"
proof -
  define r where "r = new_request sha oid rid (New c)"
  let ?j = "push (PRequest r) (ljnl L)"
  note d = submit_created [OF ok sub cr]
  have rc: "req_command r = New c" by (simp add: r_def)
  have f1: "fresh_request_id (ljnl L) (req_id r)" "fresh_order_id (ljnl L) (req_order_id r)"
    using fresh_new_request [OF fr, where c = "New c" and sha = sha] by (simp_all add: r_def)
  note p = push_fresh_new [OF rc f1 q]
  show ?thesis
  proof (rule that [of ?j])
    show "portfolio_view (ljnl L') symb = portfolio_view ?j symb"
      using d(4,6) by (simp add: r_def push_request_portfolio)
  qed (use p in \<open>simp_all add: push_request_sums rc entry_stopped_of_def liquidating_of_def
         symbol_controls_def\<close>)
qed

text \<open>C3: A sell is reserved exactly and never oversells. When a new sell order is accepted, the
  managed quantity of its symbol is unchanged, its reservation grows by exactly the ordered quantity, what
  remains available shrinks by it and stays non-negative, and the symbol needs no reconciliation.\<close>

theorem submit_sell_reserves:
  assumes "ledger_ok L" and "submit sha now oid rid (New c) L = Inr (s, L')"
    and "sub_created s" and "fresh_ids L oid rid" and "0 < new_qty c" and "cmd_side c = SELL"
  shows "managed (portfolio_view (ljnl L') (cmd_symbol c)) = managed (portfolio_view (ljnl L) (cmd_symbol c)) \<and>
    reserved (portfolio_view (ljnl L') (cmd_symbol c)) =
      reserved (portfolio_view (ljnl L) (cmd_symbol c)) + new_qty c \<and>
    available (portfolio_view (ljnl L') (cmd_symbol c)) =
      available (portfolio_view (ljnl L) (cmd_symbol c)) - new_qty c \<and>
    0 \<le> available (portfolio_view (ljnl L') (cmd_symbol c)) \<and>
    reserved (portfolio_view (ljnl L') (cmd_symbol c)) \<le> managed (portfolio_view (ljnl L') (cmd_symbol c)) \<and>
    \<not> reconciliation_required (portfolio_view (ljnl L') (cmd_symbol c))"
proof -
  have "check_new (ljnl L) c = Inr ()"
    using submit_created(3) [OF assms(1-3)] by (auto simp: check_submit_def result_simps)
  then have qty: "new_qty c \<le> available (portfolio_view (ljnl L) (cmd_symbol c))"
    using assms(6) by (simp add: check_new_Inr)
  then have "0 < available (portfolio_view (ljnl L) (cmd_symbol c))" using assms(5) by simp
  note av = available_pos [OF this]
  obtain j where "portfolio_view (ljnl L') (cmd_symbol c) = portfolio_view j (cmd_symbol c)"
    "managed_of j (cmd_symbol c) = managed_of (ljnl L) (cmd_symbol c)"
    "reserved_of j (cmd_symbol c) = reserved_of (ljnl L) (cmd_symbol c) + new_qty c"
    "discrepancy_of j (cmd_symbol c) = discrepancy_of (ljnl L) (cmd_symbol c)"
    "uncertain_of j (cmd_symbol c) = uncertain_of (ljnl L) (cmd_symbol c)"
    using submit_new_portfolio [OF assms(1-5), of "cmd_symbol c"] assms(6) by auto
  then show ?thesis using av qty
    by (auto simp: available_def reconciliation_required_view)
qed

text \<open>A submission touches one symbol only. An accepted buy order changes no portfolio at all, and an
  accepted sell order changes no portfolio of another symbol; whatever is submitted, the journals of
  the other accounts and environments of the database are unchanged.\<close>

theorem submit_frame:
  assumes "ledger_ok L" and "submit sha now oid rid (New c) L = Inr (s, L')"
    and "fresh_ids L oid rid" and "0 < new_qty c"
  shows "(cmd_side c = BUY \<or> symb \<noteq> cmd_symbol c \<longrightarrow>
      portfolio_view (ljnl L') symb = portfolio_view (ljnl L) symb) \<and>
    (sc \<noteq> lg_scope L \<longrightarrow> jnl sc (lg_db L') = jnl sc (lg_db L))"
proof (cases "sub_created s")
  case True
  obtain j where "portfolio_view (ljnl L') symb = portfolio_view j symb"
    "managed_of j symb = managed_of (ljnl L) symb"
    "reserved_of j symb = reserved_of (ljnl L) symb +
      (if cmd_symbol c = symb \<and> cmd_side c = SELL then new_qty c else 0)"
    "discrepancy_of j symb = discrepancy_of (ljnl L) symb"
    "uncertain_of j symb = uncertain_of (ljnl L) symb"
    "entry_stopped_of j symb = entry_stopped_of (ljnl L) symb"
    "liquidating_of j symb = liquidating_of (ljnl L) symb"
    by (rule submit_new_portfolio [OF assms(1,2) True assms(3,4)])
  then show ?thesis using submit_created(9) [OF assms(1,2) True]
    by (auto simp: portfolio_view_def)
next
  case False
  then show ?thesis using submit_not_created(1) [OF assms(1,2)] by simp
qed

section \<open>Errors\<close>

definition coded :: "py_error \<Rightarrow> bool" where
  "coded e \<longleftrightarrow> (\<exists>code. e = LedgerError code)"

lemma coded_simps [simp]: "coded (LedgerError code)" "\<not> coded IntegrityError" "\<not> coded (ValueError v)"
  by (simp_all add: coded_def)

lemma ledger_check_coded: "ledger_check b code = Inl e \<Longrightarrow> coded e"
  by (auto simp: result_simps)

lemma order_coded: "order j oid = Inl e \<Longrightarrow> coded e"
  by (auto simp: order_def split: option.splits)

lemma check_change_coded: "check_change j c over code = Inl e \<Longrightarrow> coded e"
  by (auto simp: check_change_def result_simps dest: order_coded split: option.splits)

lemma check_submit_coded:
  assumes "check_submit j c now = Inl e"
  shows "coded e"
proof -
  have link: "check_virtual_stop_link j c = Inl e \<Longrightarrow> coded e"
    by (auto simp: check_virtual_stop_link_def result_simps split: order_command.splits option.splits)
  have fresh: "check_freshness j c now = Inl e \<Longrightarrow> coded e"
    by (auto simp: check_freshness_def result_simps)
  have cmd: "check_command j c = Inl e \<Longrightarrow> coded e"
    by (cases c) (auto simp: check_new_def portfolio_closed result_simps dest: check_change_coded
        split: side.splits)
  show ?thesis using assms link fresh cmd by (auto simp: check_submit_def result_simps)
qed

text \<open>Submission on a well-formed ledger fails only with a coded ledger error: the UNIQUE
  constraint of the journal is never hit, and no other exception escapes.\<close>

theorem submit_errors_coded:
  assumes ok: "ledger_ok L" and fr: "fresh_ids L oid rid"
    and err: "submit sha now oid rid c L = Inl e"
  shows "\<exists>code. e = LedgerError code"
proof (rule ccontr)
  assume "\<not> ?thesis"
  then have nc: "\<not> coded e" by (simp add: coded_def)
  let ?r = "new_request sha oid rid c"
  have store: "store_ok (lg_db L)" using ok by (simp add: ledger_ok_def)
  have none: "find_key (ljnl L) (oc_key c) = None" and rest: "(\<exists>d1. append_entry (lg_scope L)
      (entry (oc_key c) (PRequest ?r)) (lg_db L) = Inr d1 \<and>
      append_obligation (lg_scope L) ?r d1 = Inl e) \<or>
    append_entry (lg_scope L) (entry (oc_key c) (PRequest ?r)) (lg_db L) = Inl e"
    using err nc ledger_read [OF ok] ledger_check_coded check_submit_coded
    by (auto simp: submit_def transaction_def result_simps Let_def operation_def require_ready_def
        split: option.splits if_splits)
  have "key_free (lg_scope L) (payload_kind (PRequest ?r)) (oc_key c) (lg_db L)"
    using none by (simp add: key_free_kinds [OF store] ljnl_def find_key_def find_None_iff')
  then obtain d1 where d1: "append_entry (lg_scope L) (entry (oc_key c) (PRequest ?r)) (lg_db L) = Inr d1"
    by (rule append_store_exists [OF store])
  note a = append_store [OF store d1, simplified]
  have "key_free (lg_scope L) KStopSellObligation (str_uuid rid) d1"
    using fr by (simp add: key_free_kinds [OF a(1)] a(2) fresh_ids_def ljnl_def)
  then have free: "key_free (lg_scope L) (payload_kind (PStopSellObligation b)) (str_uuid rid) d1" for b
    by simp
  have "\<exists>d2. append_obligation (lg_scope L) ?r d1 = Inr d2"
  proof (cases "obligation_of ?r")
    case None
    then show ?thesis by (simp add: append_obligation_def)
  next
    case (Some b)
    obtain d2 where "append_entry (lg_scope L) (entry (str_uuid rid) (PStopSellObligation b)) d1 = Inr d2"
      by (rule append_store_exists [OF a(1) free])
    then show ?thesis using Some by (simp add: append_obligation_def)
  qed
  then show False using rest d1 by auto
qed

end
