(* ===== verification/StopProperties.thy ===== *)
theory StopProperties
  imports LedgerMachine
begin

text \<open>
  The properties of the virtual stop: the order of accepted quotes, the soundness, uniqueness and
  permanence of a latch, and what a latch forbids. They hold over every run of the ledger.
\<close>

section \<open>Quote order\<close>

lemma process_quote_cases:
  assumes ok: "ledger_ok L" and run: "process_virtual_stop_quote symb q timing L = Inr (r, L')"
  obtains (rejected) e where "quote_rejection_reason (ljnl L) symb q timing = Some e" "L' = L"
      "\<not> vr_accepted r" "vr_observation r = unavailable e"
  | (accepted) d where "quote_rejection_reason (ljnl L) symb q timing = None" "vr_accepted r"
      "accept_quote (lg_scope L) (ljnl L) symb q timing (lg_db L) = Inr (r, d)" "L' = L\<lparr>lg_db := d\<rparr>"
proof (cases "quote_rejection_reason (ljnl L) symb q timing")
  case None
  then obtain d where d: "accept_quote (lg_scope L) (ljnl L) symb q timing (lg_db L) = Inr (r, d)"
    "L' = L\<lparr>lg_db := d\<rparr>" using run unfolding process_quote_Inr [OF ok] by auto
  have "store_ok (lg_db L)" using ok by (simp add: ledger_ok_def)
  then show ?thesis using accepted None d accept_quote_effect(1) by blast
next
  case (Some e)
  then show ?thesis using rejected run unfolding process_quote_Inr [OF ok] by auto
qed

lemma cursor_ahead:
  assumes "ledger_ok L" and "(ledger_step sha dg u5)\<^sup>*\<^sup>* L L'" and "last_quote (ljnl L) symb = Some p"
  shows "\<exists>p'. last_quote (ljnl L') symb = Some p' \<and> (p' = p \<or>
    dt_lt (cp_received_at p) (cp_received_at p') \<and> dt_le (cp_evaluated_at p) (cp_evaluated_at p'))"
  using ledger.run_le [OF assms(2,1)] assms(3)
  by (auto simp: continues_def grown_def quotes_ahead_def)

text \<open>C15: The accepted quotes of a symbol are strictly ordered. Along every run of the ledger, restarts
  included, the quote cursor of a symbol stays or moves to a quote that was received strictly later and
  evaluated no earlier; it is never lost.\<close>

theorem quote_cursor_monotone:
  assumes "ledger_ok L" and "(ledger_step sha dg u5)\<^sup>*\<^sup>* L L'" and "last_quote (ljnl L) symb = Some p"
  shows "\<exists>p'. last_quote (ljnl L') symb = Some p' \<and> (p' = p \<or>
    dt_lt (cp_received_at p) (cp_received_at p') \<and> dt_le (cp_evaluated_at p) (cp_evaluated_at p'))"
  by (rule cursor_ahead [OF assms])

text \<open>C14: No quote is evaluated twice or out of order. Once a quote was accepted, a quote of the symbol that
  was not received later, the same quote in particular, is refused at any later time and changes
  nothing.\<close>

theorem quote_not_reused:
  assumes ok: "ledger_ok L" and acc: "process_virtual_stop_quote symb q timing L = Inr (r, L')"
    and "vr_accepted r" and run: "(ledger_step sha dg u5)\<^sup>*\<^sup>* L' T"
    and again: "process_virtual_stop_quote symb q' timing' T = Inr (r', T')"
    and old: "dt_le (quote_received_at q') (quote_received_at q)"
  shows "\<not> vr_accepted r' \<and> T' = T"
proof -
  have ok': "ledger_ok L'" using process_quote_advances [OF ok acc] by (simp add: advances_def)
  have "last_quote (ljnl L') symb = Some (checkpoint_of symb q timing)"
    using \<open>vr_accepted r\<close>
  proof (cases rule: process_quote_cases [OF ok acc, case_names rejected accepted])
    case (accepted d)
    have "store_ok (lg_db L)" using ok by (simp add: ledger_ok_def)
    from accept_quote_effect(4) [OF this accepted(3)] accepted(4) show ?thesis by (simp add: ljnl_db)
  qed simp_all
  then obtain p where p: "last_quote (ljnl T) symb = Some p"
    and "dt_le (quote_received_at q) (cp_received_at p)"
    using cursor_ahead [OF ok' run] by (force simp: checkpoint_of_def)
  moreover have T: "ledger_ok T" by (rule ledger.run_inv [OF run ok'])
  ultimately have "quote_rejection_reason (ljnl T) symb q' timing' \<noteq> None"
    using old by (auto simp: quote_rejection_None previous_quote_ljnl)
  then show ?thesis by (cases rule: process_quote_cases [OF T again]) simp_all
qed

section \<open>Latches\<close>

lemma latched_push_latch:
  "stop_latches (push_latch l j) = stop_latches j @ (case l of None \<Rightarrow> [] | Some x \<Rightarrow> [x])"
  by (simp add: push_latch_def split: option.splits)

text \<open>A latch is sound. A latch that processing a quote creates rests on a fresh quote of the symbol at or
  below the line of the rule bound to the position, the position has unreserved managed shares,
  the symbol had no latch before, and the latch records that rule version and that quote.\<close>

theorem quote_latch_sound:
  assumes ok: "ledger_ok L" and run: "process_virtual_stop_quote symb q timing L = Inr (r, L')"
    and acc: "vr_accepted r" and latch: "vr_latch r = Some l"
  shows "\<exists>b. l = latch_of symb b q \<and> stop_reached (ljnl L) symb b q timing \<and>
    \<not> symbol_latched (ljnl L) symb \<and> stop_latches (ljnl L') = stop_latches (ljnl L) @ [l]"
  using acc
proof (cases rule: process_quote_cases [OF ok run, case_names rejected accepted])
  case (accepted d)
  have "store_ok (lg_db L)" using ok by (simp add: ledger_ok_def)
  note a = accept_quote_effect [OF this accepted(3)]
  obtain b where "l = latch_of symb b q" "stop_reached (ljnl L) symb b q timing"
    using a(5) [OF latch] by blast
  moreover have "stop_latches (ljnl L') = stop_latches (ljnl L) @ [l]"
    using a(3) accepted(4) latch by (auto simp: ljnl_db ljnl_def latched_push_latch)
  ultimately show ?thesis using accepted(1) by (auto simp: quote_rejection_None)
qed simp_all

text \<open>The UNIQUE constraint makes the latches of a scope pairwise about different symbols.\<close>

lemma distinct_latch_rows:
  assumes "distinct (map row_id rs)" and "\<forall>r\<in>set rs. payload_kind (row_payload r) = row_kind r"
    and "\<forall>r\<in>set rs. keyed (row_payload r) (row_key r)" and "\<forall>r\<in>set rs. row_scope r = sc"
  shows "distinct (map sl_symbol (List.map_filter
      (\<lambda>p. case p of PStopLatch x \<Rightarrow> Some x | _ \<Rightarrow> None) (map row_payload rs)))"
  using assms
proof (induction rs)
  case (Cons r rs)
  let ?f = "\<lambda>p. case p of PStopLatch x \<Rightarrow> Some x | _ \<Rightarrow> None"
  show ?case
  proof (cases "row_payload r")
    case (PStopLatch l)
    have "sl_symbol l \<noteq> sl_symbol x" if x: "x \<in> set (List.map_filter ?f (map row_payload rs))" for x
    proof -
      obtain r' where r': "r' \<in> set rs" "row_payload r' = PStopLatch x"
        using x by (auto simp: map_filter_mem payload_case_Some)
      have "row_kind r = KStopLatch" "row_kind r' = KStopLatch" "row_key r = sl_symbol l"
        "row_key r' = sl_symbol x"
        using Cons.prems r' PStopLatch by (auto 0 3 simp: ball_Un)
      then show ?thesis using Cons.prems r' by (force simp: row_id_def)
    qed
    then show ?thesis using Cons PStopLatch by auto
  qed (use Cons in simp_all)
qed simp

lemma distinct_latches:
  assumes "ledger_ok L"
  shows "distinct (map sl_symbol (stop_latches (ljnl L)))"
proof -
  let ?rs = "filter (\<lambda>r. row_scope r = lg_scope L) (db_journal (lg_db L))"
  have "distinct (map row_id ?rs)" and "\<forall>r\<in>set ?rs. payload_kind (row_payload r) = row_kind r"
    and "\<forall>r\<in>set ?rs. keyed (row_payload r) (row_key r)" and "\<forall>r\<in>set ?rs. row_scope r = lg_scope L"
    using assms by (auto simp: ledger_ok_def store_ok_def db_ok_def distinct_map inj_on_def)
  from distinct_latch_rows [OF this] show ?thesis
    by (simp add: ljnl_def jnl_def journal_of_def payloads_def)
qed

lemma latched_continues:
  "continues a b \<Longrightarrow> symbol_latched (ljnl a) symb \<Longrightarrow> symbol_latched (ljnl b) symb"
  using grown_sets(3) by (fastforce simp: continues_def symbol_latched_def)

text \<open>The three operations that can latch leave a latched symbol alone.\<close>

lemma latched_unmoved:
  assumes ok: "ledger_ok L" and latch: "symbol_latched (ljnl L) symb"
  shows "process_virtual_stop_quote symb q timing L = Inr (r, L') \<Longrightarrow> \<not> vr_accepted r \<and> L' = L"
    and "latch_virtual_price_stop symb quote timing L = Inr (l, L') \<Longrightarrow> L' = L \<and> l \<in> {None, find_latch (ljnl L) symb}"
    and "latch_virtual_cost_stop symb quote timing L = Inr (l, L') \<Longrightarrow> L' = L \<and> l \<in> {None, find_latch (ljnl L) symb}"
proof -
  have found: "find_latch (ljnl L) symb \<noteq> None" using latch find_latch_None by blast
  show "\<not> vr_accepted r \<and> L' = L" if "process_virtual_stop_quote symb q timing L = Inr (r, L')"
    by (cases rule: process_quote_cases [OF ok that]) (use latch in \<open>simp_all add: quote_rejection_None\<close>)
  show "L' = L \<and> l \<in> {None, find_latch (ljnl L) symb}" if "latch_virtual_price_stop symb quote timing L = Inr (l, L')"
    by (cases rule: latch_price_cases [OF ok that]) (use found in auto)
  show "L' = L \<and> l \<in> {None, find_latch (ljnl L) symb}" if "latch_virtual_cost_stop symb quote timing L = Inr (l, L')"
    by (cases rule: latch_cost_cases [OF ok that]) (use found in auto)
qed

text \<open>C16: A symbol is latched at most once, and for good. Along every run of the ledger, restarts included, that
  starts without a latch, the latches are about pairwise different symbols; every later ledger has the
  same latches, in the same order, before any new one; and for a symbol that is latched, no later quote is
  accepted or changes the ledger, and the two latch operations leave the ledger as it is and return the latch
  there is or none.\<close>

theorem one_latch_per_symbol:
  assumes ok: "ledger_ok L" and none: "stop_latches (ljnl L) = []"
    and run: "(ledger_step sha dg u5)\<^sup>*\<^sup>* L T" and later: "(ledger_step sha dg u5)\<^sup>*\<^sup>* T U"
  shows "distinct (map sl_symbol (stop_latches (ljnl T))) \<and>
    prefix (stop_latches (ljnl T)) (stop_latches (ljnl U)) \<and>
    (\<forall>x\<in>set (stop_latches (ljnl T)).
      (process_virtual_stop_quote (sl_symbol x) q timing U = Inr (r, U') \<longrightarrow> \<not> vr_accepted r \<and> U' = U) \<and>
      (latch_virtual_price_stop (sl_symbol x) quote timing U = Inr (l, U') \<longrightarrow> U' = U \<and> l \<in> {None, Some x}) \<and>
      (latch_virtual_cost_stop (sl_symbol x) quote timing U = Inr (l, U') \<longrightarrow> U' = U \<and> l \<in> {None, Some x}))"
proof -
  have T: "ledger_ok T" by (rule ledger.run_inv [OF run ok])
  note le = ledger.run_le [OF later T]
  have U: "ledger_ok U" and grow: "prefix (stop_latches (ljnl T)) (stop_latches (ljnl U))"
    using le by (simp_all add: continues_def grown_def appended_def)
  have there: "symbol_latched (ljnl U) (sl_symbol x) \<and> find_latch (ljnl U) (sl_symbol x) = Some x"
    if "x \<in> set (stop_latches (ljnl T))" for x
  proof -
    have x: "x \<in> set (stop_latches (ljnl U))" using that grow by (auto simp: prefix_def)
    then have latched: "symbol_latched (ljnl U) (sl_symbol x)" by (auto simp: symbol_latched_def)
    then obtain y where y: "find_latch (ljnl U) (sl_symbol x) = Some y"
      using find_latch_None by fastforce
    then have "y \<in> set (stop_latches (ljnl U))" "sl_symbol y = sl_symbol x"
      unfolding find_latch_def by (auto dest: find_SomeD)
    then have "y = x" using distinct_latches [OF U] x by (auto simp: distinct_map dest: inj_onD)
    then show ?thesis using latched y by simp
  qed
  show ?thesis using distinct_latches [OF T] grow latched_unmoved [OF U] there by fastforce
qed

text \<open>A latch forbids entry for good. Once a symbol is latched, no later submission creates a buy order for
  it and no buy request for it, however old, is claimed for sending, whatever happens to the ledger in
  between.\<close>

theorem latch_blocks_entry:
  assumes ok: "ledger_ok L" and latch: "symbol_latched (ljnl L) symb"
    and run: "(ledger_step sha dg u5)\<^sup>*\<^sup>* L T"
  shows "(submit sha now oid rid (New c) T = Inr (s, T') \<longrightarrow> cmd_side c = BUY \<longrightarrow> cmd_symbol c = symb \<longrightarrow>
      \<not> sub_created s) \<and>
    (send_claim rq session now u T = Inr (Some r, T') \<longrightarrow> is_new (req_command r) \<longrightarrow>
      oc_symbol (req_command r) = symb \<longrightarrow> oc_side (req_command r) = SELL)"
proof -
  have T: "ledger_ok T" by (rule ledger.run_inv [OF run ok])
  have l: "symbol_latched (ljnl T) symb"
    by (rule ledger.run_stable [where P = "\<lambda>L. symbol_latched (ljnl L) symb", OF run ok latch])
       (rule latched_continues)
  have "\<not> sub_created s" if "submit sha now oid rid (New c) T = Inr (s, T')" "cmd_side c = BUY"
    "cmd_symbol c = symb"
    using submit_created(3) [OF T that(1)] that(2,3) l
    by (auto simp: check_submit_def result_simps)
  moreover have "oc_side (req_command r) = SELL"
    if "send_claim rq session now u T = Inr (Some r, T')" "is_new (req_command r)"
      "oc_symbol (req_command r) = symb"
    using send_claim_Some(4) [OF T that(1)] that(2,3) l
    by (cases "oc_side (req_command r)") (auto simp: buy_send_ok_def portfolio_closed)
  ultimately show ?thesis by blast
qed

section \<open>Candidates\<close>

lemma latched_candidate_facts:
  assumes "latched_candidate j symb ready = Inr d" and "prot_status d = CANDIDATE"
  shows "ready \<and> 0 < unreserved_qty d \<and>
    unreserved_qty d = managed (portfolio_view j symb) - reserved (portfolio_view j symb) \<and>
    \<not> reconciliation_required (portfolio_view j symb) \<and>
    (\<exists>l h. find_latch j symb = Some l \<and> confirmed_stop_holdings j symb = Inr (Some h) \<and>
       sh_rule_version h = sl_rule_version l)"
proof -
  have "ready \<and> available (portfolio_view j symb) \<noteq> 0 \<and> unreserved_qty d = available (portfolio_view j symb) \<and>
    (\<exists>l h. find_latch j symb = Some l \<and> confirmed_stop_holdings j symb = Inr (Some h) \<and>
       sh_rule_version h = sl_rule_version l)"
    using assms
    by (auto simp: latched_candidate_def portfolio_closed result_simps case_Inr_iff blocked_def
        no_candidate_def split: if_splits)
  then show ?thesis using available_pos [of "portfolio_view j symb"]
      available_bounds(1) [of "portfolio_view j symb"]
    by (auto simp: order_less_le)
qed

text \<open>A latched candidate is backed by evidence. The candidate a retained latch yields is positive, is exactly
  the available quantity of a portfolio that needs no reconciliation, is never more than the managed
  shares that are not reserved, and belongs to the rule version of the latch; without a ready lease there
  is none.\<close>

theorem latched_candidate_sound:
  assumes "latched_candidate j symb ready = Inr d" and "prot_status d = CANDIDATE"
  shows "ready \<and> 0 < unreserved_qty d \<and>
    unreserved_qty d = managed (portfolio_view j symb) - reserved (portfolio_view j symb) \<and>
    \<not> reconciliation_required (portfolio_view j symb) \<and>
    (\<exists>l h. find_latch j symb = Some l \<and> confirmed_stop_holdings j symb = Inr (Some h) \<and>
       sh_rule_version h = sl_rule_version l)"
  by (rule latched_candidate_facts [OF assms])

text \<open>A quote whose price prints in exponent notation passes every check of the quote and is evaluated,
  but the call then raises: the text of its price is no price, so that its checkpoint cannot be built and the
  evaluation is lost.\<close>

theorem exponent_price_raises:
  assumes "ledger_ok L" and "usable L" and "ls_ready (lg_lease L)"
    and "quote_rejection_reason (ljnl L) symb q timing = None"
    and "evaluate_virtual_quote (ljnl L) symb q timing = Inr (ob, b)"
    and "\<not> is_price (dec_str (quote_price q))"
  shows "process_virtual_stop_quote symb q timing L = Inl (ValueError ''CHECKPOINT_INVALID'')"
  using assms ledger_read [OF assms(1)]
  by (simp add: process_virtual_stop_quote_def transaction_def usable_def operation_def require_ready_def
      accept_quote_def make_checkpoint_def checkpoint_of_def)

end
