(* ===== verification/DispatcherProperties.thy ===== *)
theory DispatcherProperties
  imports StopProperties
begin

text \<open>
  The dispatcher of \<open>execution/virtual.py\<close> as a transition system over its ledger: claims come
  before calls, no request is dispatched twice in the life of a journal, restarts included, recovery
  never resends, and draining stays within what is available.
\<close>

section \<open>Runs of the dispatcher\<close>

lemma rbind_cases:
  assumes "rbind m f = (res, D')"
  obtains (raised) e where "m = (Inl e, D')" "res = Inl e"
  | (returned) x D1 where "m = (Inr x, D1)" "f x D1 = (res, D')"
proof (cases m)
  case (Pair a D1)
  then show ?thesis using assms that by (cases a) (simp_all add: rbind_def)
qed

text \<open>A request is claimed when its claim is durable; its facts never disappear.\<close>

definition claimed :: "journal \<Rightarrow> request \<Rightarrow> bool" where
  "claimed j r \<longleftrightarrow> r \<in> set (requests j) \<and> req_decision r = REQ_ACCEPTED \<and>
     (\<exists>u. transport_fact u (req_id r) SENDING \<in> set (facts j))"

definition untouched :: "journal \<Rightarrow> request \<Rightarrow> bool" where
  "untouched j r \<longleftrightarrow> (\<forall>f\<in>set (facts j). fact_request f \<noteq> Some (req_id r))"

lemma claimed_grown: "grown j j' \<Longrightarrow> claimed j r \<Longrightarrow> claimed j' r"
  using grown_sets(1,2) by (fastforce simp: claimed_def)

lemma claimed_touched: "claimed j r \<Longrightarrow> untouched j r' \<Longrightarrow> req_id r \<noteq> req_id r'"
  by (force simp: claimed_def untouched_def)

lemma untouched_grown: "grown j j' \<Longrightarrow> untouched j' r \<Longrightarrow> untouched j r"
  using grown_sets(2) by (fastforce simp: untouched_def)

lemma intent_untouched: "request_state j r = INTENT_PERSISTED \<longleftrightarrow> untouched j r"
  by (simp add: request_state_intent_iff' request_facts_def filter_empty_conv untouched_def)

text \<open>What every operation of the dispatcher guarantees: the ledger continues, and the calls it adds are
  claimed afterwards and were untouched before.\<close>

definition dp_safe :: "dispatcher \<Rightarrow> dispatcher \<Rightarrow> bool" where
  "dp_safe D D' \<longleftrightarrow> continues (dp_ledger D) (dp_ledger D') \<and>
     (\<exists>new. dp_calls D' = dp_calls D @ new \<and> distinct (map req_id new) \<and>
        (\<forall>r\<in>set new. claimed (ljnl (dp_ledger D')) r \<and> untouched (ljnl (dp_ledger D)) r))"

lemma dp_safe_trans:
  assumes "dp_safe a b" and "dp_safe b c"
  shows "dp_safe a c"
proof -
  from assms(1) obtain xs where xs: "dp_calls b = dp_calls a @ xs" "distinct (map req_id xs)"
    "\<And>r. r \<in> set xs \<Longrightarrow> claimed (ljnl (dp_ledger b)) r \<and> untouched (ljnl (dp_ledger a)) r"
    and ab: "continues (dp_ledger a) (dp_ledger b)" by (auto simp: dp_safe_def)
  from assms(2) obtain ys where ys: "dp_calls c = dp_calls b @ ys" "distinct (map req_id ys)"
    "\<And>r. r \<in> set ys \<Longrightarrow> claimed (ljnl (dp_ledger c)) r \<and> untouched (ljnl (dp_ledger b)) r"
    and bc: "continues (dp_ledger b) (dp_ledger c)" by (auto simp: dp_safe_def)
  have "claimed (ljnl (dp_ledger c)) r \<and> untouched (ljnl (dp_ledger a)) r" if "r \<in> set (xs @ ys)" for r
    using that xs(3) ys(3) claimed_grown untouched_grown ab bc by (auto simp: continues_def)
  moreover have "distinct (map req_id (xs @ ys))"
    using xs(2,3) ys(2,3) claimed_touched [of "ljnl (dp_ledger b)"]
    by (auto simp: distinct_map inj_on_Un)
  ultimately show ?thesis using xs(1) ys(1) continues_trans [OF ab bc]
    unfolding dp_safe_def by (intro conjI exI [of _ "xs @ ys"]) simp_all
qed

definition dp_ok :: "dispatcher \<Rightarrow> bool" where
  "dp_ok D \<longleftrightarrow> ledger_ok (dp_ledger D)"

lemma dp_safe_refl: "dp_ok D \<Longrightarrow> dp_safe D D"
  by (simp add: dp_safe_def dp_ok_def continues_def)

lemma dp_safe_ok: "dp_safe D D' \<Longrightarrow> dp_ok D'"
  by (simp add: dp_safe_def dp_ok_def continues_def)

lemma on_ledger_cases:
  assumes "on_ledger n f D = (res, D')"
  obtains (raised) e where "res = Inl e" "D' = D\<lparr>dp_tick := dp_tick D + n\<rparr>"
  | (returned) x L where "f (dp_ledger D) = Inr (x, L)" "res = Inr x"
      "D' = D\<lparr>dp_tick := dp_tick D + n, dp_ledger := L\<rparr>"
  using assms that by (auto simp: on_ledger_def Let_def split: sum.splits prod.splits)

definition safe_run :: "(dispatcher \<Rightarrow> 'a run) \<Rightarrow> bool" where
  "safe_run f \<longleftrightarrow> (\<forall>D res D'. dp_ok D \<longrightarrow> f D = (res, D') \<longrightarrow> dp_safe D D')"

named_theorems safe_intros \<open>safe programs of the dispatcher\<close>

lemma safe_runD: "safe_run f \<Longrightarrow> dp_ok D \<Longrightarrow> f D = (res, D') \<Longrightarrow> dp_safe D D'"
  by (simp add: safe_run_def)

lemma safe_on_ledger:
  assumes "\<And>D x L. ledger_ok (dp_ledger D) \<Longrightarrow> f D (dp_ledger D) = Inr (x, L) \<Longrightarrow> advances (dp_ledger D) L"
  shows "safe_run (\<lambda>D. on_ledger (n D) (f D) D)"
  unfolding safe_run_def
proof (intro allI impI)
  fix D res D' assume ok: "dp_ok D" and run: "on_ledger (n D) (f D) D = (res, D')"
  from run show "dp_safe D D'"
  proof (cases rule: on_ledger_cases)
    case (raised e)
    then show ?thesis using ok by (simp add: dp_safe_def dp_ok_def continues_def)
  next
    case (returned x L)
    then show ?thesis using advances_continues assms ok by (fastforce simp: dp_safe_def dp_ok_def)
  qed
qed

lemma safe_rbind [safe_intros]:
  assumes f: "safe_run f" and g: "\<And>x. safe_run (g x)"
  shows "safe_run (\<lambda>D. rbind (f D) g)"
  unfolding safe_run_def
proof (intro allI impI)
  fix D res D' assume ok: "dp_ok D" and run: "rbind (f D) g = (res, D')"
  from run show "dp_safe D D'"
  proof (cases rule: rbind_cases)
    case (raised e)
    then show ?thesis using safe_runD [OF f ok] by simp
  next
    case (returned x D1)
    have "dp_safe D D1" using safe_runD [OF f ok] returned by simp
    then show ?thesis using safe_runD [OF g dp_safe_ok returned(2)] dp_safe_trans by blast
  qed
qed

lemma safe_pure [safe_intros]: "safe_run (\<lambda>D. (x, D))"
  by (simp add: safe_run_def dp_safe_refl)

lemma safe_reading [safe_intros]: "safe_run (reading f)" "safe_run (given m)"
  by (simp_all add: safe_run_def reading_def given_def dp_safe_refl)

lemma safe_if [safe_intros]: "safe_run f \<Longrightarrow> safe_run g \<Longrightarrow> safe_run (\<lambda>D. if b then f D else g D)"
  by (cases b) simp_all

lemma safe_option [safe_intros]:
  "safe_run f \<Longrightarrow> (\<And>x. safe_run (g x)) \<Longrightarrow> safe_run (\<lambda>D. case o' of None \<Rightarrow> f D | Some x \<Rightarrow> g x D)"
  by (cases o') simp_all

lemma safe_prod [safe_intros]:
  "(\<And>x y. safe_run (f x y)) \<Longrightarrow> safe_run (\<lambda>D. case p of (x, y) \<Rightarrow> f x y D)"
  by (cases p) simp

section \<open>Every operation is safe\<close>

lemma ingest_safe [safe_intros]: "safe_run (\<lambda>D. on_ledger n (ingest u5 (f D)) D)"
  using ingest_advances by (intro safe_on_ledger) auto

lemma acknowledge_safe [safe_intros]: "safe_run (acknowledge E r)"
  unfolding acknowledge_def by (intro safe_intros)

lemma submit_run_safe [safe_intros]: "safe_run (submit_run E c)"
  unfolding submit_run_def using submit_advances by (intro safe_on_ledger) auto

lemma recover_safe [safe_intros]: "safe_run (recover E)"
  unfolding recover_def using recover_ledger_Inr(2) by (intro safe_on_ledger) auto

lemma send_claim_safe:
  assumes ok: "ledger_ok L" and claim: "send_claim rid session now u L = Inr (Some r, L')"
  shows "claimed (ljnl L') r" and "untouched (ljnl L) r" and "req_id r = rid"
proof -
  note c = send_claim_Some [OF ok claim]
  have r: "r \<in> set (requests (ljnl L))" "req_id r = rid" "req_decision r = REQ_ACCEPTED"
    using c(1) by (auto simp: sendable_Some dest: find_SomeD)
  show "req_id r = rid" by (rule r(2))
  show "claimed (ljnl L') r" using r c(6) by (auto simp: claimed_def)
  show "untouched (ljnl L) r" using c(1) by (simp add: sendable_Some intent_untouched)
qed

text \<open>The call is added after the claim.\<close>

definition claim_and_call ::
    "environment_streams \<Rightarrow> uuid \<Rightarrow> stop_session option \<Rightarrow> dispatcher \<Rightarrow> request option run" where
  "claim_and_call E rid session D =
     rbind (on_ledger 1 (send_claim rid session (env_clock E (dp_tick D)) (env_u4 E (dp_tick D))) D)
       (\<lambda>claim D1. (Inr claim, case claim of None \<Rightarrow> D1 | Some r \<Rightarrow> D1\<lparr>dp_calls := dp_calls D1 @ [r]\<rparr>))"

lemma send_claim_and_call:
  "send E rid session D = rbind (claim_and_call E rid session D) (\<lambda>claim D1. case claim of
     None \<Rightarrow> (Inr False, D1)
   | Some r \<Rightarrow> rbind (on_ledger 1 (ingest (env_u5 E) (transport_fact (env_u4 E (dp_tick D1)) rid SENT)) D1)
       (\<lambda>_ D2. (Inr True, D2)))"
  by (auto simp: send_def claim_and_call_def rbind_def Let_def split: prod.splits sum.splits option.splits)

lemma claim_and_call_cases:
  assumes ok: "dp_ok D" and run: "claim_and_call E rid session D = (res, D')"
  obtains (refused) "dp_ledger D' = dp_ledger D" "dp_calls D' = dp_calls D" "\<forall>r. res \<noteq> Inr (Some r)"
  | (called) r where "res = Inr (Some r)" "dp_calls D' = dp_calls D @ [r]"
      "send_claim rid session (env_clock E (dp_tick D)) (env_u4 E (dp_tick D)) (dp_ledger D) =
         Inr (Some r, dp_ledger D')"
proof -
  have L: "ledger_ok (dp_ledger D)" using ok by (simp add: dp_ok_def)
  show ?thesis
  proof (cases "send_claim rid session (env_clock E (dp_tick D)) (env_u4 E (dp_tick D)) (dp_ledger D)")
    case (Inl e)
    then show ?thesis using refused run by (auto simp: claim_and_call_def on_ledger_def rbind_def)
  next
    case (Inr y)
    then obtain c L' where c: "send_claim rid session (env_clock E (dp_tick D)) (env_u4 E (dp_tick D))
        (dp_ledger D) = Inr (c, L')" by (cases y) auto
    show ?thesis
    proof (cases c)
      case None
      then have "L' = dp_ledger D" using send_claim_None [OF L] c by simp
      then show ?thesis using refused run c None
        by (auto simp: claim_and_call_def on_ledger_def rbind_def)
    next
      case (Some r)
      then show ?thesis using called run c
        by (auto simp: claim_and_call_def on_ledger_def rbind_def)
    qed
  qed
qed

lemma claim_and_call_safe [safe_intros]: "safe_run (claim_and_call E rid session)"
  unfolding safe_run_def
proof (intro allI impI)
  fix D res D' assume ok: "dp_ok D" and run: "claim_and_call E rid session D = (res, D')"
  have L: "ledger_ok (dp_ledger D)" using ok by (simp add: dp_ok_def)
  from ok run show "dp_safe D D'"
  proof (cases rule: claim_and_call_cases)
    case refused
    then show ?thesis using L by (simp add: dp_safe_def continues_def)
  next
    case (called r)
    then show ?thesis
      using send_claim_safe [OF L called(3)] advances_continues [OF send_claim_advances [OF L called(3)]]
      by (auto simp: dp_safe_def)
  qed
qed

lemma send_safe [safe_intros]: "safe_run (send E rid session)"
  unfolding send_claim_and_call by (intro safe_intros)

lemma send_and_acknowledge_safe [safe_intros]: "safe_run (send_and_acknowledge E r session)"
  unfolding send_and_acknowledge_def by (intro safe_intros)

lemma submit_stop_sell_safe [safe_intros]: "safe_run (submit_stop_sell E session c)"
  unfolding safe_run_def
proof (intro allI impI)
  fix D res D' assume ok: "dp_ok D" and run: "submit_stop_sell E session c D = (res, D')"
  obtain x D1 where sub: "submit_run E (New c) D = (x, D1)" by (cases "submit_run E (New c) D")
  have s: "dp_safe D D1" by (rule safe_runD [OF submit_run_safe ok sub])
  show "dp_safe D D'"
  proof (cases x)
    case (Inl e)
    then show ?thesis using run sub s by (auto simp: submit_stop_sell_def split: if_splits)
  next
    case (Inr sb)
    have "safe_run (\<lambda>D. rbind (send_and_acknowledge E (sub_request sb) (Some session) D)
        (\<lambda>_ D2. (Inr (Some (sub_request sb)), D2)))" by (intro safe_intros)
    moreover have "rbind (send_and_acknowledge E (sub_request sb) (Some session) D1)
        (\<lambda>_ D2. (Inr (Some (sub_request sb)), D2)) = (res, D')"
      using run sub Inr by (simp add: submit_stop_sell_def)
    ultimately show ?thesis using safe_runD [OF _ dp_safe_ok [OF s]] dp_safe_trans [OF s] by blast
  qed
qed

lemma drain_safe [safe_intros]: "safe_run (drain_virtual_stop E symb session)"
  unfolding drain_virtual_stop_def by (intro safe_intros)

lemma liquidate_safe [safe_intros]: "safe_run (liquidate E j symb)"
  unfolding liquidate_def by (intro safe_intros)

lemma liquidate_all_safe [safe_intros]: "safe_run (liquidate_all E j ss)"
  by (induction ss) (auto intro!: safe_intros simp: safe_pure)

lemma process_safe [safe_intros]: "safe_run (process E f)"
  unfolding process_def by (intro safe_intros)

section \<open>The transition system\<close>

text \<open>The dispatcher with the calls of its predecessors on the same journal.\<close>

record dispatch_world =
  dw_dispatcher :: dispatcher
  dw_history :: "request list"

inductive dispatch_step ::
    "environment_streams \<Rightarrow> (config_command \<Rightarrow> string) \<Rightarrow> dispatch_world \<Rightarrow> dispatch_world \<Rightarrow> bool"
  for E dg where
  sends: "send E rid session (dw_dispatcher W) = (bres, D') \<Longrightarrow>
     dispatch_step E dg W (W\<lparr>dw_dispatcher := D'\<rparr>)"
| drains: "drain_virtual_stop E symb ses (dw_dispatcher W) = (dres, D') \<Longrightarrow>
     dispatch_step E dg W (W\<lparr>dw_dispatcher := D'\<rparr>)"
| processes: "process E f (dw_dispatcher W) = (ures, D') \<Longrightarrow>
     dispatch_step E dg W (W\<lparr>dw_dispatcher := D'\<rparr>)"
| acknowledges: "acknowledge E r (dw_dispatcher W) = (ures, D') \<Longrightarrow>
     dispatch_step E dg W (W\<lparr>dw_dispatcher := D'\<rparr>)"
| recovers: "recover E (dw_dispatcher W) = (ires, D') \<Longrightarrow>
     dispatch_step E dg W (W\<lparr>dw_dispatcher := D'\<rparr>)"
| ledger_works: "ledger_step (env_sha E) dg (env_u5 E) (dp_ledger (dw_dispatcher W)) L \<Longrightarrow>
     dispatch_step E dg W (W\<lparr>dw_dispatcher := (dw_dispatcher W)\<lparr>dp_ledger := L\<rparr>\<rparr>)"
| restarts: "ledger_step (env_sha E) dg (env_u5 E) (dp_ledger (dw_dispatcher W)) L \<Longrightarrow>
     dispatch_step E dg W \<lparr>dw_dispatcher = \<lparr>dp_ledger = L, dp_calls = [], dp_tick = n\<rparr>,
       dw_history = dw_history W @ dp_calls (dw_dispatcher W)\<rparr>"

definition all_calls :: "dispatch_world \<Rightarrow> request list" where
  "all_calls W = dw_history W @ dp_calls (dw_dispatcher W)"

definition dispatch_inv :: "dispatch_world \<Rightarrow> bool" where
  "dispatch_inv W \<longleftrightarrow> dp_ok (dw_dispatcher W) \<and> distinct (map req_id (all_calls W)) \<and>
     (\<forall>r\<in>set (all_calls W). claimed (ljnl (dp_ledger (dw_dispatcher W))) r)"

lemma dp_safe_keeps_inv:
  assumes inv: "dispatch_inv W" and safe: "dp_safe (dw_dispatcher W) D'"
  shows "dispatch_inv (W\<lparr>dw_dispatcher := D'\<rparr>)"
proof -
  obtain new where new: "dp_calls D' = dp_calls (dw_dispatcher W) @ new" "distinct (map req_id new)"
    "\<And>r. r \<in> set new \<Longrightarrow> claimed (ljnl (dp_ledger D')) r \<and> untouched (ljnl (dp_ledger (dw_dispatcher W))) r"
    and cont: "continues (dp_ledger (dw_dispatcher W)) (dp_ledger D')"
    using safe by (auto simp: dp_safe_def)
  have all: "all_calls (W\<lparr>dw_dispatcher := D'\<rparr>) = all_calls W @ new" by (simp add: all_calls_def new(1))
  have "distinct (map req_id (all_calls W @ new))"
    using inv new(2,3) claimed_touched [of "ljnl (dp_ledger (dw_dispatcher W))"]
    by (auto simp: dispatch_inv_def distinct_map inj_on_Un)
  moreover have "claimed (ljnl (dp_ledger D')) r" if "r \<in> set (all_calls W @ new)" for r
    using that inv new(3) claimed_grown cont by (auto simp: dispatch_inv_def continues_def)
  ultimately show ?thesis using dp_safe_ok [OF safe] by (simp add: dispatch_inv_def all)
qed

lemma restart_keeps_inv:
  assumes inv: "dispatch_inv W" and cont: "continues (dp_ledger (dw_dispatcher W)) L"
  shows "dispatch_inv \<lparr>dw_dispatcher = \<lparr>dp_ledger = L, dp_calls = [], dp_tick = n\<rparr>,
    dw_history = dw_history W @ dp_calls (dw_dispatcher W)\<rparr>"
  using inv cont claimed_grown by (auto simp: dispatch_inv_def all_calls_def continues_def dp_ok_def)

lemmas run_safe = safe_runD [OF send_safe] safe_runD [OF drain_safe] safe_runD [OF process_safe]
  safe_runD [OF acknowledge_safe] safe_runD [OF recover_safe]

lemma dispatch_step_inv:
  assumes inv: "dispatch_inv W" and step: "dispatch_step E dg W W'"
  shows "dispatch_inv W'"
proof -
  have ok: "dp_ok (dw_dispatcher W)" using inv by (simp add: dispatch_inv_def)
  note keep = dp_safe_keeps_inv [OF inv]
  from step show ?thesis
  proof cases
    case (sends rid session bres D')
    then show ?thesis using keep [OF run_safe(1) [OF ok sends(2)]] by simp
  next
    case (drains symb ses dres D')
    then show ?thesis using keep [OF run_safe(2) [OF ok drains(2)]] by simp
  next
    case (processes f ures D')
    then show ?thesis using keep [OF run_safe(3) [OF ok processes(2)]] by simp
  next
    case (acknowledges r ures D')
    then show ?thesis using keep [OF run_safe(4) [OF ok acknowledges(2)]] by simp
  next
    case (recovers ires D')
    then show ?thesis using keep [OF run_safe(5) [OF ok recovers(2)]] by simp
  next
    case (ledger_works L)
    have "continues (dp_ledger (dw_dispatcher W)) L"
      using ledger_step_continues ledger_works(2) ok by (simp add: dp_ok_def)
    then show ?thesis using ledger_works(1) by (auto intro!: keep simp: dp_safe_def)
  next
    case (restarts L n)
    have "continues (dp_ledger (dw_dispatcher W)) L"
      using ledger_step_continues restarts(2) ok by (simp add: dp_ok_def)
    then show ?thesis using restarts(1) inv restart_keeps_inv by simp
  qed
qed

interpretation dispatch: transition_system "dispatch_step E dg" dispatch_inv for E dg
  by unfold_locales (rule dispatch_step_inv)

text \<open>C2: A request is dispatched at most once in the life of a journal. From an empty dispatcher on a well-formed
  ledger, whatever is sent, drained, processed, acknowledged or recovered, whatever the ledger does in
  between, and however often the process is restarted, the calls of all dispatchers are for pairwise
  different accepted requests of the journal, each with a durable claim.\<close>

theorem dispatched_at_most_once:
  assumes "ledger_ok (dp_ledger (dw_dispatcher W))" and "all_calls W = []"
    and "(dispatch_step E dg)\<^sup>*\<^sup>* W W'"
  shows "distinct (map req_id (all_calls W')) \<and>
    (\<forall>r\<in>set (all_calls W'). claimed (ljnl (dp_ledger (dw_dispatcher W'))) r)"
proof -
  have "dispatch_inv W" using assms(1,2) by (simp add: dispatch_inv_def dp_ok_def)
  from dispatch.run_inv [OF assms(3) this] show ?thesis by (simp add: dispatch_inv_def)
qed

text \<open>C13: A call is made only after its claim and only when every gate is open. Whether a send succeeds or
  raises, it adds at most one call, which is for the given request; the request was an untouched
  intention of an accepted command that had not expired and was of the current configuration, the lease
  was ready, a buy was allowed to enter and a stop sell had a pending obligation, and its claim is
  durable afterwards.\<close>

theorem send_claims_before_calling:
  assumes ok: "ledger_ok (dp_ledger D)" and run: "send E rid session D = (res, D')"
  shows "dp_calls D' = dp_calls D \<or> (\<exists>r. dp_calls D' = dp_calls D @ [r] \<and> req_id r = rid \<and>
    claimed (ljnl (dp_ledger D')) r \<and> untouched (ljnl (dp_ledger D)) r \<and>
    ls_ready (lg_lease (dp_ledger D)) \<and>
    check_freshness (ljnl (dp_ledger D)) (req_command r) (env_clock E (dp_tick D)) = Inr () \<and>
    buy_send_ok (ljnl (dp_ledger D)) (req_command r) = Inr True \<and>
    stop_send_ok (ljnl (dp_ledger D)) r session = Inr True)"
proof -
  have dok: "dp_ok D" using ok by (simp add: dp_ok_def)
  obtain x D1 where cc: "claim_and_call E rid session D = (x, D1)" by (cases "claim_and_call E rid session D")
  define rest where "rest = (\<lambda>(claim :: request option) D1. case claim of None \<Rightarrow> (Inr False, D1)
   | Some r \<Rightarrow> rbind (on_ledger 1 (ingest (env_u5 E) (transport_fact (env_u4 E (dp_tick D1)) rid SENT)) D1)
       (\<lambda>_ D2. (Inr True, D2)))"
  have run': "rbind (x, D1) rest = (res, D')" using run cc by (simp add: send_claim_and_call rest_def)
  have rest_safe: "safe_run (rest c)" for c unfolding rest_def by (intro safe_intros)
  have rest_calls: "dp_calls D2 = dp_calls D1" if "rest c D1 = (res2, D2)" for c res2 D1 D2
    using that by (auto simp: rest_def on_ledger_def rbind_def Let_def split: option.splits sum.splits prod.splits)
  have D1: "dp_ok D1" by (rule dp_safe_ok [OF safe_runD [OF claim_and_call_safe dok cc]])
  have later: "dp_calls D' = dp_calls D1 \<and> continues (dp_ledger D1) (dp_ledger D')"
    using run' D1 rest_calls safe_runD [OF rest_safe D1]
    by (cases x) (auto simp: rbind_def dp_ok_def continues_def dp_safe_def)
  from dok cc show ?thesis
  proof (cases rule: claim_and_call_cases)
    case refused
    then show ?thesis using later by simp
  next
    case (called r)
    then show ?thesis using later send_claim_safe [OF ok called(3)] send_claim_Some [OF ok called(3)]
        claimed_grown by (auto simp: continues_def)
  qed
qed

section \<open>Recovery\<close>

lemma last_transport_append:
  assumes "\<forall>f\<in>set ys. transport_of f \<in> {Some UNKNOWN, Some RECONCILING}"
  shows "last_transport (xs @ ys) \<in>
    (if ys = [] then {last_transport xs} else {T_UNKNOWN, T_RECONCILING})"
  using assms
proof (induction ys rule: rev_induct)
  case (snoc y ys)
  then show ?case by (auto simp: last_transport_snoc simp flip: append_assoc)
qed simp

lemma recovery_facts_set:
  "f \<in> set (recovery_facts u4 j n rs) \<Longrightarrow>
     transport_of f \<in> {Some UNKNOWN, Some RECONCILING} \<and> \<not> is_ack f \<and> \<not> is_effect f \<and>
     \<not> is_effect_rejected f \<and> \<not> is_send_failed f \<and> \<not> is_rejected f"
  by (induction rs arbitrary: n) (auto simp: recovery_state_def transport_fact_def split: if_splits)

lemma recovery_facts_covers:
  "r \<in> set rs \<Longrightarrow> \<exists>f\<in>set (recovery_facts u4 j n rs). fact_request f = Some (req_id r)"
  by (induction rs arbitrary: n) auto

lemma recovery_status:
  fixes j u4 n rs
  defines "j' \<equiv> push_facts (recovery_facts u4 j n rs) j"
  shows "accepted_by j' r = accepted_by j r" and "failed_by j' r = failed_by j r"
    and "rejected_by j' r = rejected_by j r"
    and "last_transport (request_facts j' r) \<in>
      (if filter (\<lambda>f. fact_request f = Some (req_id r)) (recovery_facts u4 j n rs) = []
       then {last_transport (request_facts j r)} else {T_UNKNOWN, T_RECONCILING})"
proof -
  let ?new = "filter (\<lambda>f. fact_request f = Some (req_id r)) (recovery_facts u4 j n rs)"
  have rf: "request_facts j' r = request_facts j r @ ?new" by (simp add: request_facts_def j'_def)
  have new: "\<forall>f\<in>set ?new. transport_of f \<in> {Some UNKNOWN, Some RECONCILING} \<and> \<not> is_ack f \<and> \<not> is_effect f \<and>
     \<not> is_effect_rejected f \<and> \<not> is_send_failed f \<and> \<not> is_rejected f"
    using recovery_facts_set by fastforce
  show "accepted_by j' r = accepted_by j r" "failed_by j' r = failed_by j r"
    "rejected_by j' r = rejected_by j r"
    using new unfolding status_parts rf by auto
  show "last_transport (request_facts j' r) \<in>
      (if ?new = [] then {last_transport (request_facts j r)} else {T_UNKNOWN, T_RECONCILING})"
    unfolding rf by (rule last_transport_append) (use new in simp)
qed

lemma recover_cases:
  assumes "recover E D = (Inr ids, D')"
  obtains u4 n L where "recover_ledger u4 n (dp_ledger D) = Inr (ids, L)" and "dp_ledger D' = L"
    and "dp_calls D' = dp_calls D"
  using assms by (auto simp: recover_def elim!: on_ledger_cases)

text \<open>Recovery records and never resends. It reports exactly the accepted requests whose outcome is
  unresolved, adds no call and no request, and afterwards no accepted request is left in the transport
  states SENDING or SENT: what was in flight is unknown or being reconciled, and what was settled stays
  settled.\<close>

theorem recover_marks_unresolved:
  assumes ok: "ledger_ok (dp_ledger D)" and run: "recover E D = (Inr ids, D')"
  defines "j \<equiv> ljnl (dp_ledger D)" and "j' \<equiv> ljnl (dp_ledger D')"
  shows "ids = map req_id (filter (\<lambda>r. req_decision r = REQ_ACCEPTED \<and> unresolved (status j r)) (requests j)) \<and>
    dp_calls D' = dp_calls D \<and> requests j' = requests j \<and>
    (\<forall>r\<in>set (requests j). req_decision r = REQ_ACCEPTED \<longrightarrow>
       request_state j' r \<notin> {T_SENDING, T_SENT} \<and>
       (\<not> in_flight (request_state j r) \<longrightarrow> request_state j r \<noteq> INTENT_PERSISTED \<longrightarrow>
          request_state j' r = request_state j r))"
proof -
  obtain u4 n L where rec: "recover_ledger u4 n (dp_ledger D) = Inr (ids, L)" and L: "dp_ledger D' = L"
    and calls: "dp_calls D' = dp_calls D" by (rule recover_cases [OF run])
  note r = recover_ledger_Inr [OF ok rec]
  have j': "j' = push_facts (recovery_facts u4 j n (to_recover j)) j" using r(3) by (simp add: j'_def j_def L)
  have state: "request_state j' r \<notin> {T_SENDING, T_SENT} \<and>
      (\<not> in_flight (request_state j r) \<longrightarrow> request_state j r \<noteq> INTENT_PERSISTED \<longrightarrow>
          request_state j' r = request_state j r)"
    if "r \<in> set (requests j)" "req_decision r = REQ_ACCEPTED" for r
  proof -
    note st = recovery_status [of u4 j n "to_recover j" r, folded j']
    have covered: "filter (\<lambda>f. fact_request f = Some (req_id r)) (recovery_facts u4 j n (to_recover j)) \<noteq> []"
      if "in_flight (request_state j r)"
    proof -
      have "r \<in> set (to_recover j)"
        using that \<open>r \<in> set (requests j)\<close> \<open>req_decision r = REQ_ACCEPTED\<close>
        by (simp add: to_recover_def unresolved_def request_state_def)
      from recovery_facts_covers [OF this] show ?thesis by (auto simp: filter_empty_conv)
    qed
    have "last_transport (request_facts j r) \<in> {T_SENDING, T_SENT} \<Longrightarrow>
        in_flight (last_transport (request_facts j r))" by (auto simp: in_flight_def)
    then show ?thesis using st covered last_transport_cases [of "request_facts j r"]
      by (auto simp: request_state_def status_transport split: if_splits)
  qed
  show ?thesis using r(1) calls state by (simp add: j' j_def to_recover_def)
qed

section \<open>Draining a latch\<close>

lemma make_new_market:
  "make_new c = Inr c' \<Longrightarrow> new_price c = None \<Longrightarrow> c' = c"
  by (auto simp: make_new_def result_simps Let_def)

lemma drain_candidate_Some:
  assumes "drain_candidate symb L = Inr (Some (j, l, qty))" and "ledger_ok L"
  shows "j = ljnl L" and "find_latch j symb = Some l"
    and "latched_candidate j symb (lease_ready (lg_pid L) (lg_lease L)) =
      Inr \<lparr>prot_status = CANDIDATE, prot_reason = ''LATCHED_UNRESERVED_SHARES'', unreserved_qty = qty\<rparr>"
    and "\<not> failed_sell j symb"
proof -
  have sn: "snapshot L = Inr (ljnl L)"
    using assms(1) ledger_read [OF assms(2)]
    by (cases "operation (lg_pid L) (lg_lease L)") (simp_all add: drain_candidate_def snapshot_def)
  obtain l' where l': "find_latch (ljnl L) symb = Some l'"
    using assms(1) by (cases "find_latch (ljnl L) symb") (simp_all add: drain_candidate_def sn)
  have "\<exists>d. j = ljnl L \<and> l = l' \<and> \<not> failed_sell j symb \<and> prot_status d = CANDIDATE \<and> unreserved_qty d = qty \<and>
      latched_candidate (ljnl L) symb (lease_ready (lg_pid L) (lg_lease L)) = Inr d"
    using assms(1)
    by (auto simp: drain_candidate_def virtual_latched_stop_candidate_def sn l' result_simps split: if_splits)
  then obtain d where d: "j = ljnl L" "l = l'" "\<not> failed_sell j symb" "prot_status d = CANDIDATE" "unreserved_qty d = qty"
    "latched_candidate (ljnl L) symb (lease_ready (lg_pid L) (lg_lease L)) = Inr d" by blast
  have "prot_reason d = ''LATCHED_UNRESERVED_SHARES''"
    using d(4,6) by (auto simp: latched_candidate_def portfolio_closed result_simps case_Inr_iff blocked_def
        no_candidate_def split: if_splits)
  then have "d = \<lparr>prot_status = CANDIDATE, prot_reason = ''LATCHED_UNRESERVED_SHARES'', unreserved_qty = qty\<rparr>"
    using d(4,5) by (cases d) simp
  then show "j = ljnl L" "find_latch j symb = Some l"
    "latched_candidate j symb (lease_ready (lg_pid L) (lg_lease L)) =
      Inr \<lparr>prot_status = CANDIDATE, prot_reason = ''LATCHED_UNRESERVED_SHARES'', unreserved_qty = qty\<rparr>" "\<not> failed_sell j symb"
    using d l' by simp_all
qed

text \<open>A quiet part of a run adds no request and no call.\<close>

definition quiet :: "dispatcher \<Rightarrow> dispatcher \<Rightarrow> bool" where
  "quiet D D' \<longleftrightarrow> dp_ok D' \<and> requests (ljnl (dp_ledger D')) = requests (ljnl (dp_ledger D)) \<and>
     dp_calls D' = dp_calls D"

lemma ingest_quiet:
  assumes ok: "dp_ok D" and run: "on_ledger n (ingest u5 f) D = (res, D')"
  shows "quiet D D'"
  using run
proof (cases rule: on_ledger_cases)
  case (raised e)
  then show ?thesis using ok by (simp add: quiet_def dp_ok_def)
next
  case (returned b L)
  have L: "ledger_ok (dp_ledger D)" using ok by (simp add: dp_ok_def)
  have "ledger_ok L \<and> requests (ljnl L) = requests (ljnl (dp_ledger D))"
  proof (cases b)
    case True
    then have "ingest u5 f (dp_ledger D) = Inr (True, L)" using returned by simp
    from ingest_new(3,4) [OF L this] show ?thesis by (simp add: push_fact_def split: option.splits)
  next
    case False
    then have "ingest u5 f (dp_ledger D) = Inr (False, L)" using returned by simp
    from ingest_old [OF L this] show ?thesis using L by simp
  qed
  then show ?thesis using returned(3) by (simp add: quiet_def dp_ok_def)
qed

lemma acknowledge_quiet:
  assumes "dp_ok D" and "acknowledge E r D = (res, D')"
  shows "quiet D D'"
  using assms(2) ingest_quiet [OF assms(1)]
  by (auto simp: acknowledge_def elim!: rbind_cases)

text \<open>Sending, with the acknowledgement, adds no request and at most one call, for the given request.\<close>

definition called_at_most :: "uuid \<Rightarrow> dispatcher \<Rightarrow> dispatcher \<Rightarrow> bool" where
  "called_at_most rid D D' \<longleftrightarrow> dp_ok D' \<and> requests (ljnl (dp_ledger D')) = requests (ljnl (dp_ledger D)) \<and>
     (dp_calls D' = dp_calls D \<or> (\<exists>r\<in>set (requests (ljnl (dp_ledger D))). dp_calls D' = dp_calls D @ [r] \<and> req_id r = rid))"

lemma called_quiet: "called_at_most rid a b \<Longrightarrow> quiet b c \<Longrightarrow> called_at_most rid a c"
  by (auto simp: called_at_most_def quiet_def)

lemma claim_and_call_called:
  assumes ok: "dp_ok D" and run: "claim_and_call E rid session D = (res, D')"
  shows "called_at_most rid D D'"
  using ok run
proof (cases rule: claim_and_call_cases)
  case refused
  then show ?thesis using ok by (simp add: called_at_most_def dp_ok_def)
next
  case (called r)
  have L: "ledger_ok (dp_ledger D)" using ok by (simp add: dp_ok_def)
  note c = send_claim_Some [OF L called(3)]
  have "r \<in> set (requests (ljnl (dp_ledger D)))" "req_id r = rid"
    using c(1) by (auto simp: sendable_Some dest: find_SomeD)
  then show ?thesis using called(2) c(6,7) by (auto simp: called_at_most_def dp_ok_def advances_def)
qed

lemma send_called:
  assumes ok: "dp_ok D" and run: "send E rid session D = (res, D')"
  shows "called_at_most rid D D'"
  using run unfolding send_claim_and_call
proof (cases rule: rbind_cases)
  case (raised e)
  then show ?thesis using claim_and_call_called [OF ok] by blast
next
  case (returned claim D1)
  note one = claim_and_call_called [OF ok returned(1)]
  then have D1: "dp_ok D1" by (simp add: called_at_most_def)
  show ?thesis
  proof (cases claim)
    case None
    then show ?thesis using returned(2) one by simp
  next
    case (Some r)
    then have "quiet D1 D'" using returned(2) ingest_quiet [OF D1] by (auto elim!: rbind_cases)
    with one show ?thesis by (rule called_quiet)
  qed
qed

lemma send_and_acknowledge_called:
  assumes ok: "dp_ok D" and run: "send_and_acknowledge E r session D = (res, D')"
  shows "called_at_most (req_id r) D D'"
  using run unfolding send_and_acknowledge_def
proof (cases rule: rbind_cases)
  case (raised e)
  then show ?thesis using send_called [OF ok] by blast
next
  case (returned sent D1)
  note one = send_called [OF ok returned(1)]
  then have D1: "dp_ok D1" by (simp add: called_at_most_def)
  show ?thesis
  proof (cases sent)
    case True
    then have "quiet D1 D'" using returned(2) acknowledge_quiet [OF D1] by simp
    with one show ?thesis by (rule called_quiet)
  qed (use returned(2) one in simp)
qed

text \<open>The state that submitting a stop sell and sending it leaves, and what the call reports.\<close>

lemma submit_stop_sell_effect:
  assumes ok: "dp_ok D" and run: "submit_stop_sell E session c D = (res, D')"
  defines "j \<equiv> ljnl (dp_ledger D)" and "j' \<equiv> ljnl (dp_ledger D')"
  shows "requests j' = requests j \<and> dp_calls D' = dp_calls D \<and> (\<forall>r. res \<noteq> Inr (Some r)) \<or>
    (\<exists>r. req_command r = New c \<and> (requests j' = requests j @ [r] \<or> requests j' = requests j \<and> r \<in> set (requests j)) \<and>
       (dp_calls D' = dp_calls D \<or> (\<exists>x\<in>set (requests j'). dp_calls D' = dp_calls D @ [x] \<and> req_id x = req_id r)) \<and>
       (res = Inr (Some r) \<or> isl res))"
proof -
  have L: "ledger_ok (dp_ledger D)" using ok by (simp add: dp_ok_def)
  obtain x D1 where sub: "submit_run E (New c) D = (x, D1)" by (cases "submit_run E (New c) D")
  from sub [unfolded submit_run_def] show ?thesis
  proof (cases rule: on_ledger_cases)
    case (raised e)
    then show ?thesis using run sub by (auto simp: submit_stop_sell_def j_def j'_def split: if_splits)
  next
    case (returned s L1)
    let ?r = "sub_request s"
    note kept = submit_keeps [OF L returned(1)]
    have reqs: "requests (ljnl L1) = requests j @ [?r] \<or> requests (ljnl L1) = requests j \<and> ?r \<in> set (requests j)"
    proof (cases "sub_created s")
      case True
      then show ?thesis using submit_created(6) [OF L returned(1)]
        by (simp add: j_def push_request_def split: option.splits)
    next
      case False
      then show ?thesis using submit_not_created(1,2) [OF L returned(1)]
        by (auto simp: j_def find_key_def dest: find_SomeD)
    qed
    have D1: "dp_ok D1" "ljnl (dp_ledger D1) = ljnl L1" "dp_calls D1 = dp_calls D"
      using returned(3) kept(1) by (simp_all add: dp_ok_def)
    have "rbind (send_and_acknowledge E ?r (Some session) D1) (\<lambda>_ D2. (Inr (Some ?r), D2)) = (res, D')"
      using run sub returned(2) by (simp add: submit_stop_sell_def)
    then have "called_at_most (req_id ?r) D1 D' \<and> (res = Inr (Some ?r) \<or> isl res)"
      by (cases rule: rbind_cases) (auto dest: send_and_acknowledge_called [OF D1(1)])
    then show ?thesis using reqs kept(5) D1(2,3)
      by (intro disjI2 exI [of _ ?r]) (auto simp: called_at_most_def j'_def)
  qed
qed

text \<open>C17: Draining sells what the latch protects and nothing else. Outside a regular session the call does nothing.
  In one, whatever it returns or raises, either no request and no call is added and no request is returned, or
  there is one request: a market sell of the latched symbol, tagged with the version of the latch,
  for exactly the shares that were managed and not reserved, a positive number, of a symbol that needs no
  reconciliation and has no failed sell. At most this request is added to the journal, the only call that can be added
  carries its identity, and only this request can be returned.\<close>

theorem drain_sells_available:
  assumes ok: "ledger_ok (dp_ledger D)" and run: "drain_virtual_stop E symb session D = (res, D')"
  defines "j \<equiv> ljnl (dp_ledger D)" and "j' \<equiv> ljnl (dp_ledger D')"
  defines "p \<equiv> portfolio_view j symb"
  shows "(session \<noteq> REGULAR \<longrightarrow> res = Inr None \<and> D' = D) \<and>
    (requests j' = requests j \<and> dp_calls D' = dp_calls D \<and> (\<forall>r. res \<noteq> Inr (Some r)) \<or>
     (\<exists>l c r. find_latch j symb = Some l \<and> req_command r = New c \<and> cmd_symbol c = symb \<and> cmd_side c = SELL \<and>
       new_order_type c = MARKET \<and> stop_latch_version c = Some (sl_rule_version l) \<and>
       new_qty c = managed p - reserved p \<and> 0 < new_qty c \<and> \<not> reconciliation_required p \<and> \<not> failed_sell j symb \<and>
       (requests j' = requests j @ [r] \<or> requests j' = requests j \<and> r \<in> set (requests j)) \<and>
       (dp_calls D' = dp_calls D \<or> (\<exists>x\<in>set (requests j'). dp_calls D' = dp_calls D @ [x] \<and> req_id x = req_id r)) \<and>
       (res = Inr (Some r) \<or> isl res)))"
proof (cases "session = REGULAR")
  case False
  then show ?thesis using run by (auto simp: drain_virtual_stop_def j_def j'_def)
next
  case True
  have dok: "dp_ok D" using ok by (simp add: dp_ok_def)
  from run True have "rbind (reading (drain_candidate symb) D) (\<lambda>candidate D1. case candidate of
        None \<Rightarrow> (Inr None, D1)
      | Some (j, l, qty) \<Rightarrow>
          rbind (given (make_new (stop_sell_command j symb l qty)) D1) (submit_stop_sell E REGULAR)) =
      (res, D')" by (simp add: drain_virtual_stop_def)
  then consider (quiet) "D' = D" "\<forall>r. res \<noteq> Inr (Some r)"
    | (acts) i l qty c where "drain_candidate symb (dp_ledger D) = Inr (Some (i, l, qty))"
      "make_new (stop_sell_command i symb l qty) = Inr c" "submit_stop_sell E REGULAR c D = (res, D')"
    by (cases rule: rbind_cases) (auto simp: reading_def given_def elim!: rbind_cases split: option.splits)
  then show ?thesis
  proof cases
    case quiet
    then show ?thesis using True by (simp add: j_def j'_def)
  next
    case (acts i l qty c)
    note d = drain_candidate_Some [OF acts(1) ok]
    have c: "c = stop_sell_command i symb l qty"
      using make_new_market [OF acts(2)] by (simp add: stop_sell_command_def market_sell_def)
    have "0 < qty \<and> qty = managed p - reserved p \<and> \<not> reconciliation_required p"
      using latched_candidate_facts [OF d(3)] d(1) by (simp add: p_def j_def)
    then have shape: "find_latch j symb = Some l" "cmd_symbol c = symb" "cmd_side c = SELL" "new_order_type c = MARKET"
      "stop_latch_version c = Some (sl_rule_version l)" "new_qty c = managed p - reserved p" "0 < new_qty c"
      "\<not> reconciliation_required p" "\<not> failed_sell j symb"
      using d(1,2,4) c by (simp_all add: stop_sell_command_def market_sell_def j_def)
    show ?thesis using submit_stop_sell_effect [OF dok acts(3), folded j_def j'_def] shape True by blast
  qed
qed

end
