(* ===== verification/Demo.thy ===== *)
theory Demo
  imports Dispatcher
begin

text \<open>
  \<open>execution/demo.py\<close>: the self-contained cancellation run on a temporary database, composed of
  the components' own operations: a cancellation that becomes unknown, its early confirmation, the fill
  that arrives late, and the replay after the journal was opened again.
\<close>

record demo_result =
  dr_managed :: int
  dr_reserved :: int
  dr_unknown_reserved :: int
  dr_confirmed_reserved :: int
  dr_lifecycle :: order_lifecycle
  dr_virtual_calls :: nat
  dr_replay_changes :: nat

definition demo_allocation :: allocation where
  "demo_allocation = \<lparr>al_symbol = ''005930'', al_qty = 100\<rparr>"

definition demo_sell :: new_order where
  "demo_sell = market_sell ''demo-sell'' ''005930'' 1 100 None"

definition demo_cancel :: "uuid \<Rightarrow> cancel" where
  "demo_cancel oid = \<lparr>cmd_key = ''demo-cancel'', cmd_symbol = ''005930'', cmd_side = SELL,
     cmd_config_version = 1, cmd_expires_at = None, target = oid, link_version = 1, cancel_qty = 100\<rparr>"

definition demo_cancelled :: "uuid \<Rightarrow> uuid \<Rightarrow> uuid \<Rightarrow> fact" where
  "demo_cancelled u rid oid = Cancelled \<lparr>event_id = u, order_id = oid, evidence_version = 2,
     remaining = 0, cancelled_request_id = rid, cancelled_qty = 70\<rparr>"

definition demo_fill :: "uuid \<Rightarrow> uuid \<Rightarrow> fact" where
  "demo_fill u oid = Fill \<lparr>event_id = u, order_id = oid, evidence_version = 1, remaining = 70,
     fill_qty = 30, fill_price = None, trading_date = None\<rparr>"

definition validated_submit :: "environment_streams \<Rightarrow> order_command \<Rightarrow> dispatcher \<Rightarrow> request run" where
  "validated_submit E c D = rbind (given (make_command True c) D) (\<lambda>c' D1.
     rbind (submit_run E c' D1) (\<lambda>s D2. (Inr (sub_request s), D2)))"

definition validated_ingest :: "environment_streams \<Rightarrow> (uuid \<Rightarrow> fact) \<Rightarrow> dispatcher \<Rightarrow> fact run" where
  "validated_ingest E f D = rbind (given (make_fact (f (env_u4 E (dp_tick D)))) D) (\<lambda>f' D1.
     rbind (on_ledger 1 (ingest (env_u5 E) f') D1) (\<lambda>_ D2. (Inr f', D2)))"

definition reserved_now :: "dispatcher \<Rightarrow> int run" where
  "reserved_now D = rbind (reading (ledger_portfolio ''005930'') D) (\<lambda>p D1. (Inr (reserved p), D1))"

text \<open>\<open>Ledger(path, lease)\<close> on the lease and the file of the dispatcher's ledger.\<close>

definition reopened :: "string \<Rightarrow> dispatcher \<Rightarrow> unit run" where
  "reopened path D = (case open_storage path (lg_pid (dp_ledger D)) (lg_lease (dp_ledger D)) (lg_db (dp_ledger D)) of
     (l, Inl e) \<Rightarrow> (Inl e, D\<lparr>dp_ledger := (dp_ledger D)\<lparr>lg_lease := l\<rparr>\<rparr>)
   | (l, Inr L) \<Rightarrow> (Inr (), D\<lparr>dp_ledger := L\<rparr>))"

definition replayed :: "environment_streams \<Rightarrow> string \<Rightarrow> fact \<Rightarrow> request \<Rightarrow> dispatcher \<Rightarrow> nat run" where
  "replayed E path late sell D =
     rbind (reopened path D) (\<lambda>_ D1.
     rbind (on_ledger 0 (ingest (env_u5 E) late) D1) (\<lambda>again D2.
     rbind (submit_run E (req_command sell) D2) (\<lambda>s D3.
     (Inr (of_bool again + of_bool (sub_created s)), D3))))"

definition demo_orders :: "environment_streams \<Rightarrow> dispatcher \<Rightarrow> (request \<times> request) run" where
  "demo_orders E D =
     rbind (on_ledger 0 (allocate demo_allocation) D) (\<lambda>_ D1.
     rbind (validated_submit E (New demo_sell) D1) (\<lambda>sell D2.
     rbind (send E (req_id sell) None D2) (\<lambda>_ D3.
     rbind (acknowledge E sell D3) (\<lambda>_ D4.
     rbind (validated_submit E (Cancel (demo_cancel (req_order_id sell))) D4) (\<lambda>cancellation D5.
     rbind (send E (req_id cancellation) None D5) (\<lambda>_ D6.
     (Inr (sell, cancellation), D6)))))))"

definition demo_body :: "environment_streams \<Rightarrow> string \<Rightarrow> dispatcher \<Rightarrow> demo_result run" where
  "demo_body E path D =
     rbind (demo_orders E D) (\<lambda>(sell, cancellation) D1.
     rbind (validated_ingest E (\<lambda>u. transport_fact u (req_id cancellation) UNKNOWN) D1) (\<lambda>_ D2.
     rbind (reserved_now D2) (\<lambda>unknown_reserved D3.
     rbind (validated_ingest E (\<lambda>u. demo_cancelled u (req_id cancellation) (req_order_id sell)) D3) (\<lambda>_ D4.
     rbind (reserved_now D4) (\<lambda>confirmed_reserved D5.
     rbind (validated_ingest E (\<lambda>u. demo_fill u (req_order_id sell)) D5) (\<lambda>late D6.
     rbind (replayed E path late sell D6) (\<lambda>changes D7.
     rbind (reading (ledger_portfolio ''005930'') D7) (\<lambda>p D8.
     rbind (reading (ledger_order (req_order_id sell)) D8) (\<lambda>ord D9.
     (Inr \<lparr>dr_managed = managed p, dr_reserved = reserved p, dr_unknown_reserved = unknown_reserved,
           dr_confirmed_reserved = confirmed_reserved, dr_lifecycle = lifecycle ord,
           dr_virtual_calls = length (dp_calls D9), dr_replay_changes = changes\<rparr>, D9))))))))))"

definition demo_run ::
    "environment_streams \<Rightarrow> (namespace \<Rightarrow> string) \<Rightarrow> string \<Rightarrow> int \<Rightarrow> demo_result result" where
  "demo_run E lock directory pid =
     (let sc = \<lparr>sc_account_id = ''VIRTUAL_DEMO'', sc_environment = PAPER, execution_scope = env_u4 E 0\<rparr>;
          path = directory @ ''/demo.sqlite3''
      in ebind (acquire lock (directory @ ''/locks'') pid sc None []) (\<lambda>(lease, locks).
         ebind (snd (open_storage path pid lease empty_db)) (\<lambda>book.
         ebind (approve_virtual_reconciliation 0 book) (\<lambda>(_, book').
         fst (demo_body E path \<lparr>dp_ledger = book', dp_calls = [], dp_tick = 1\<rparr>)))))"

section \<open>Property\<close>

text \<open>Some environment: generated identities are numbered, the clock counts seconds.\<close>

definition demo_environment :: environment_streams where
  "demo_environment = \<lparr>env_u4 = (\<lambda>n. of_nat n + 1),
     env_clock = (\<lambda>n. \<lparr>dt_instant = seconds (int n), dt_offset = Some 0\<rparr>),
     env_sha = (\<lambda>c. oc_key c), env_u5 = (\<lambda>u s. u + 1000)\<rparr>"

text \<open>The demonstration run reports what its test expects. On an empty database the run completes; the unknown
  cancellation keeps all 100 shares reserved, its confirmation of 70 leaves 30 reserved, the late fill of 30
  leaves 70 managed and nothing reserved, the order ends cancelled, exactly two calls were simulated, and
  the replay on the journal opened again changes nothing.\<close>

theorem demo_run_result:
  "demo_run demo_environment fst ''/tmp/demo'' 7 = Inr \<lparr>dr_managed = 70, dr_reserved = 0,
     dr_unknown_reserved = 100, dr_confirmed_reserved = 30, dr_lifecycle = L_CANCELLED,
     dr_virtual_calls = 2, dr_replay_changes = 0\<rparr>"
  by code_simp

end
