(* ===== verification/Scenarios.thy ===== *)
theory Scenarios
  imports ConfigApply LedgerProperties DispatcherProperties Demo
begin

text \<open>
  Worked scenarios on concrete ledgers, dispatchers and inboxes, each evaluated in the kernel: they
  show that the hypotheses of the properties can hold together, with the effects the properties speak of.
\<close>

section \<open>Reading a run\<close>

definition val :: "('a \<times> 's) result \<Rightarrow> 'a" where
  "val m = fst (projr m)"

definition aft :: "('a \<times> 's) result \<Rightarrow> 's" where
  "aft m = snd (projr m)"

lemma ran: "\<not> isl m \<Longrightarrow> m = Inr (val m, aft m)"
  by (cases m) (simp_all add: val_def aft_def)

lemma run_pair: "p = (fst p, snd p)" "\<not> isl (fst p) \<Longrightarrow> p = (Inr (projr (fst p)), snd p)"
  by (simp_all add: prod_eq_iff)

section \<open>A ledger\<close>

definition sc_scope :: scope where
  "sc_scope = \<lparr>sc_account_id = ''VIRTUAL_DEMO'', sc_environment = PAPER, execution_scope = 1\<rparr>"

definition sc_lease :: lease where
  "sc_lease = \<lparr>ls_scope = sc_scope, ls_pid = 7, ls_held = True, ls_ready = True, ls_database = None\<rparr>"

definition sc_ledger :: ledger where
  "sc_ledger = \<lparr>lg_db = empty_db, lg_lease = sc_lease, lg_pid = 7\<rparr>"

definition sc_now :: datetime where
  "sc_now = \<lparr>dt_instant = 1000000000, dt_offset = Some 0\<rparr>"

definition sc_later :: datetime where
  "sc_later = \<lparr>dt_instant = 2000000000, dt_offset = Some 32400\<rparr>"

definition sc_timing :: observe_at where
  "sc_timing = \<lparr>obs_now = sc_now, max_quote_age_seconds = 2\<rparr>"

definition sc_sell :: new_order where
  "sc_sell = market_sell ''sell-1'' ''005930'' 1 40 None"

definition sc_env :: environment_streams where
  "sc_env = demo_environment"

definition sc_dg :: "config_command \<Rightarrow> string" where
  "sc_dg c = replicate 64 (CHR ''a'')"

definition owned_step :: "(unit \<times> ledger) result" where
  "owned_step = allocate demo_allocation sc_ledger"

definition owned :: ledger where "owned = aft owned_step"

definition sold_step :: "(submission \<times> ledger) result" where
  "sold_step = submit oc_key sc_now 11 12 (New sc_sell) owned"

definition sold :: ledger where "sold = aft sold_step"

definition paused_step :: "(unit \<times> ledger) result" where
  "paused_step = put_control 99 \<lparr>ct_symbol = ''000660'', entry_stopped = True, liquidating = False\<rparr> sold"

definition paused :: ledger where "paused = aft paused_step"

lemma owned_ok: "ledger_ok owned" "usable owned" "fresh_ids owned 11 12" by code_simp+
lemma sold_run: "submit oc_key sc_now 11 12 (New sc_sell) owned = Inr (val sold_step, sold)"
proof -
  have "\<not> isl sold_step" by code_simp
  from ran [OF this] show ?thesis by (simp add: sold_def sold_step_def)
qed
lemma sold_created: "sub_created (val sold_step)" by code_simp
lemma sold_ok: "ledger_ok sold" "usable sold" by code_simp+

lemma paused_run: "(ledger_step oc_key dg u5)\<^sup>*\<^sup>* sold paused"
proof -
  have "\<not> isl paused_step" by code_simp
  from ran [OF this] have "put_control 99 \<lparr>ct_symbol = ''000660'', entry_stopped = True, liquidating = False\<rparr> sold =
      Inr (val paused_step, paused)" by (simp add: paused_def paused_step_def)
  then have "ledger_step oc_key dg u5 sold paused" by (rule ledger_step.controlled)
  then show ?thesis by (rule r_into_rtranclp)
qed
lemma paused_ok: "usable paused" by code_simp

section \<open>Submission\<close>

theorem submit_replay_witness:
  "submit oc_key sc_later 21 22 (New sc_sell) paused = Inr ((val sold_step)\<lparr>sub_created := False\<rparr>, paused)"
  by (rule submit_replay [OF owned_ok(1) sold_run paused_run paused_ok])

theorem submit_key_conflict_witness:
  "submit oc_key sc_later 21 22 (New (sc_sell\<lparr>new_qty := 41\<rparr>)) paused =
     Inl (LedgerError ''CONFLICT_IDEMPOTENCY_MISMATCH'')"
  by (rule submit_key_conflict [OF owned_ok(1) sold_run paused_run paused_ok])
    (simp_all add: sc_sell_def market_sell_def)

theorem submit_sell_reserves_witness:
  "available (portfolio_view (ljnl sold) ''005930'') = available (portfolio_view (ljnl owned) ''005930'') - 40 \<and>
     0 \<le> available (portfolio_view (ljnl sold) ''005930'')"
  using submit_sell_reserves [OF owned_ok(1) sold_run sold_created owned_ok(3)]
  by (simp add: sc_sell_def market_sell_def)

theorem submit_frame_witness:
  "portfolio_view (ljnl sold) ''000660'' = portfolio_view (ljnl owned) ''000660''"
  using submit_frame [OF owned_ok(1) sold_run owned_ok(3), where symb = "''000660''" and sc = sc_scope]
  by (simp add: sc_sell_def market_sell_def)

section \<open>Evidence\<close>

definition sc_fact :: fact where
  "sc_fact = Discrepancy \<lparr>event_id = 31, disc_symbol = ''005930'', disc_reason = ''BALANCE''\<rparr>"

definition doubted_step :: "(bool \<times> ledger) result" where
  "doubted_step = ingest (\<lambda>u s. u + 1000) sc_fact owned"

definition doubted :: ledger where "doubted = aft doubted_step"

lemma doubted_run: "ingest (\<lambda>u s. u + 1000) sc_fact owned = Inr (val doubted_step, doubted)"
proof -
  have "\<not> isl doubted_step" by code_simp
  from ran [OF this] show ?thesis by (simp add: doubted_def doubted_step_def)
qed

lemma doubted_usable: "usable doubted" by code_simp

theorem ingest_replay_witness:
  "ingest (\<lambda>u s. u + 1000) sc_fact doubted = Inr (False, doubted)"
  by (rule ingest_replay [OF owned_ok(1) doubted_run rtranclp.rtrancl_refl doubted_usable])

section \<open>Errors\<close>

lemma oversell: "submit oc_key sc_now 11 12 (New (sc_sell\<lparr>new_qty := 101\<rparr>)) owned =
    Inl (LedgerError ''SELL_QUANTITY_UNAVAILABLE'')"
  by code_simp

theorem submit_errors_coded_witness:
  "\<exists>e code. submit oc_key sc_now 11 12 (New (sc_sell\<lparr>new_qty := 101\<rparr>)) owned = Inl e \<and> e = LedgerError code"
  using oversell submit_errors_coded [OF owned_ok(1,3) oversell] by blast

end
