(* ===== verification/StopScenarios.thy ===== *)
theory StopScenarios
  imports Scenarios
begin

text \<open>
  Worked scenarios of the stop rules and the dispatcher: a bought position under a fixed price rule, the
  quote that latches it, and the sell that drains it.
\<close>

section \<open>A position under a stop rule\<close>

definition st_binding :: virtual_stop_binding where
  "st_binding = \<lparr>vb_symbol = ''000660'', vb_version = 2, vb_rule_kind = PRICE_AT_OR_BELOW, vb_threshold = ''900''\<rparr>"

definition st_buy :: new_order where
  "st_buy = \<lparr>cmd_key = ''buy-1'', cmd_symbol = ''000660'', cmd_side = BUY, cmd_config_version = 2,
     cmd_expires_at = None, new_qty = 5, new_order_type = LIMIT, new_price = Some ''1000'', stop_latch_version = None\<rparr>"

definition st_fill :: fact where
  "st_fill = Fill \<lparr>event_id = 41, order_id = 31, evidence_version = 1, remaining = 0, fill_qty = 5,
     fill_price = Some ''1000'', trading_date = Some 20000\<rparr>"

definition st_dispatcher :: "ledger \<Rightarrow> dispatcher" where
  "st_dispatcher L = \<lparr>dp_ledger = L, dp_calls = [], dp_tick = 100\<rparr>"

text \<open>A ledger with a given journal, numbered in order and published.\<close>

definition ledger_with :: "(string \<times> payload) list \<Rightarrow> ledger" where
  "ledger_with kps = (let ps = map snd kps; rows = map2 (\<lambda>n (k, p). \<lparr>row_seq = n, row_scope = sc_scope,
       row_kind = payload_kind p, row_key = k, row_payload = p\<rparr>) [1..int (length kps)] kps
     in sc_ledger\<lparr>lg_db := empty_db\<lparr>db_journal := rows, db_outbox := zip [1..int (length kps)] ps\<rparr>\<rparr>)"

text \<open>The rule was bound, the buy was submitted, claimed, sent and acknowledged, and it was filled.\<close>

definition bought :: "(string \<times> payload) list" where
  "bought = [(str_uuid 30, PConfig \<lparr>ac_symbol = ''000660'', ac_version = 2, ac_command_id = None, ac_command_digest = None\<rparr>),
     (''000660:2'', PStopBinding st_binding),
     (''buy-1'', PRequest \<lparr>req_id = 32, req_order_id = 31, req_command = New st_buy, req_decision = REQ_ACCEPTED,
        req_digest = ''buy-1''\<rparr>)]"

definition buy_evidence :: "(string \<times> payload) list" where
  "buy_evidence = [(str_uuid 50, PFact (transport_fact 50 32 SENDING)), (str_uuid 51, PFact (transport_fact 51 32 SENT)),
     (str_uuid 42, PFact (Ack \<lparr>event_id = 42, ack_request_id = 32, broker_order_no = ''b-1''\<rparr>)),
     (str_uuid 41, PFact st_fill),
     (str_uuid 41, PStopAssignment \<lparr>sa_fill_event_id = 41, sa_symbol = ''000660'', sa_qty = 5, sa_rule_version = 2\<rparr>)]"

definition holding :: ledger where
  "holding = ledger_with (bought @ buy_evidence)"

definition st_quote :: "int \<Rightarrow> int \<Rightarrow> quote" where
  "st_quote price us = \<lparr>quote_symbol = ''000660'', quote_price = dec_of_int price,
     quote_received_at = \<lparr>dt_instant = us, dt_offset = Some 0\<rparr>\<rparr>"

definition st_timing :: "int \<Rightarrow> observe_at" where
  "st_timing us = \<lparr>obs_now = \<lparr>dt_instant = us, dt_offset = Some 0\<rparr>, max_quote_age_seconds = 2\<rparr>"

text \<open>The states are written out, and one evaluation each shows that the run leads there.\<close>

definition cursor_at :: "string \<Rightarrow> int \<Rightarrow> int \<Rightarrow> cursor" where
  "cursor_at price received evaluated = \<lparr>cur_scope = sc_scope, cur_checkpoint = \<lparr>cp_symbol = ''000660'', cp_price = price,
     cp_received_at = \<lparr>dt_instant = received, dt_offset = Some 0\<rparr>, cp_evaluated_at = \<lparr>dt_instant = evaluated, dt_offset = Some 0\<rparr>\<rparr>\<rparr>"

definition with_cursor :: "cursor \<Rightarrow> ledger \<Rightarrow> ledger" where
  "with_cursor c L = L\<lparr>lg_db := (lg_db L)\<lparr>db_cursors := [c]\<rparr>\<rparr>"

definition watched :: ledger where
  "watched = with_cursor (cursor_at ''950'' 1000 2000) holding"

definition watched_result :: virtual_stop_input_result where
  "watched_result = \<lparr>vr_accepted = True, vr_observation = \<lparr>obs_status = NOT_TRIGGERED, obs_reason = ''ABOVE_THRESHOLD'',
     threshold_price = Some \<lparr>dcoeff = 900, dexp = 0\<rparr>\<rparr>, vr_latch = None\<rparr>"

definition st_latch :: stop_latch where
  "st_latch = \<lparr>sl_symbol = ''000660'', sl_rule_version = 2, sl_rule_kind = PRICE_AT_OR_BELOW, sl_quote_price = ''890'',
     sl_quote_received_at = \<lparr>dt_instant = 3000, dt_offset = Some 0\<rparr>\<rparr>"

definition latch_evidence :: "(string \<times> payload) list" where
  "latch_evidence = [(''000660'', PStopLatch st_latch)]"

definition latched :: ledger where
  "latched = with_cursor (cursor_at ''890'' 3000 4000) (ledger_with (bought @ buy_evidence @ latch_evidence))"

definition latched_result :: virtual_stop_input_result where
  "latched_result = \<lparr>vr_accepted = True, vr_observation = \<lparr>obs_status = TRIGGERED, obs_reason = ''PRICE_AT_OR_BELOW_THRESHOLD'',
     threshold_price = Some \<lparr>dcoeff = 900, dexp = 0\<rparr>\<rparr>, vr_latch = Some st_latch\<rparr>"

lemma holding_ok: "ledger_ok holding" "usable holding" by code_simp+
lemma holding_managed: "managed (portfolio_view (ljnl holding) ''000660'') = 5" by code_simp

lemma watched_run: "process_virtual_stop_quote ''000660'' (st_quote 950 1000) (st_timing 2000) holding = Inr (watched_result, watched)"
  by code_simp

lemma latched_run: "process_virtual_stop_quote ''000660'' (st_quote 890 3000) (st_timing 4000) watched = Inr (latched_result, latched)"
  by code_simp

lemma st_latch_of: "latch_of ''000660'' st_binding (st_quote 890 3000) = st_latch" by code_simp
lemma watched_ok: "ledger_ok watched" by code_simp
lemma latched_ok: "ledger_ok latched" "usable latched" by code_simp+

lemma watch_then_latch: "(ledger_step oc_key sc_dg (env_u5 sc_env))\<^sup>*\<^sup>* watched latched"
proof -
  from latched_run have "ledger_step oc_key sc_dg (env_u5 sc_env) watched latched" by (rule ledger_step.quoted)
  then show ?thesis by (rule r_into_rtranclp)
qed

section \<open>Quotes and latches\<close>

theorem quote_cursor_monotone_witness:
  "\<exists>p'. last_quote (ljnl latched) ''000660'' = Some p' \<and>
     (p' = checkpoint_of ''000660'' (st_quote 950 1000) (st_timing 2000) \<or>
      1000 < dt_instant (cp_received_at p') \<and> 2000 \<le> dt_instant (cp_evaluated_at p'))"
proof -
  have "last_quote (ljnl watched) ''000660'' = Some (checkpoint_of ''000660'' (st_quote 950 1000) (st_timing 2000))"
    by code_simp
  from quote_cursor_monotone [OF watched_ok watch_then_latch this] show ?thesis
    by (simp add: checkpoint_of_def st_quote_def st_timing_def)
qed

theorem quote_not_reused_witness:
  "\<not> vr_accepted (val (process_virtual_stop_quote ''000660'' (st_quote 890 1000) (st_timing 5000) latched)) \<and>
     aft (process_virtual_stop_quote ''000660'' (st_quote 890 1000) (st_timing 5000) latched) = latched"
proof -
  have "\<not> isl (process_virtual_stop_quote ''000660'' (st_quote 890 1000) (st_timing 5000) latched)" by code_simp
  from quote_not_reused [OF holding_ok(1) watched_run _ watch_then_latch ran [OF this]]
  show ?thesis by (simp add: st_quote_def watched_result_def)
qed

theorem quote_latch_sound_witness:
  "\<exists>b. latch_of ''000660'' st_binding (st_quote 890 3000) = latch_of ''000660'' b (st_quote 890 3000) \<and>
     stop_reached (ljnl watched) ''000660'' b (st_quote 890 3000) (st_timing 4000)"
  using quote_latch_sound [OF watched_ok latched_run] by (auto simp: latched_result_def st_latch_of)

theorem one_latch_per_symbol_witness:
  "distinct (map sl_symbol (stop_latches (ljnl latched))) \<and> prefix [st_latch] (stop_latches (ljnl latched)) \<and>
     \<not> vr_accepted (val (process_virtual_stop_quote ''000660'' (st_quote 880 5000) (st_timing 6000) latched)) \<and>
     aft (process_virtual_stop_quote ''000660'' (st_quote 880 5000) (st_timing 6000) latched) = latched"
proof -
  have none: "stop_latches (ljnl holding) = []" and one: "stop_latches (ljnl latched) = [st_latch]" by code_simp+
  have "ledger_step oc_key sc_dg (env_u5 sc_env) holding watched" by (rule ledger_step.quoted [OF watched_run])
  then have run: "(ledger_step oc_key sc_dg (env_u5 sc_env))\<^sup>*\<^sup>* holding latched"
    using watch_then_latch by (rule converse_rtranclp_into_rtranclp)
  let ?m = "process_virtual_stop_quote ''000660'' (st_quote 880 5000) (st_timing 6000) latched"
  have "\<not> isl ?m" by code_simp
  from one_latch_per_symbol [OF holding_ok(1) none run rtranclp.rtrancl_refl, of "st_quote 880 5000" "st_timing 6000"
      "val ?m" "aft ?m"] ran [OF this]
  show ?thesis by (simp add: one) (simp add: st_latch_def)
qed

theorem latch_blocks_entry_witness:
  "\<not> sub_created (val (submit oc_key sc_now 61 62 (New st_buy) latched))"
proof -
  have l: "symbol_latched (ljnl latched) ''000660''" by code_simp
  have "\<not> isl (submit oc_key sc_now 61 62 (New st_buy) latched)" by code_simp
  from latch_blocks_entry [OF latched_ok(1) l rtranclp.rtrancl_refl] ran [OF this]
  show ?thesis by (simp add: st_buy_def)
qed

theorem latched_candidate_sound_witness:
  "\<not> reconciliation_required (portfolio_view (ljnl latched) ''000660'') \<and>
     5 = managed (portfolio_view (ljnl latched) ''000660'') - reserved (portfolio_view (ljnl latched) ''000660'')"
proof -
  have "latched_candidate (ljnl latched) ''000660'' True = Inr \<lparr>prot_status = CANDIDATE,
      prot_reason = ''LATCHED_UNRESERVED_SHARES'', unreserved_qty = 5\<rparr>" by code_simp
  from latched_candidate_sound [OF this] show ?thesis by simp
qed

text \<open>The quote text \<open>8E+2\<close>.\<close>

theorem exponent_price_raises_witness:
  "process_virtual_stop_quote ''000660'' ((st_quote 0 3000)\<lparr>quote_price := \<lparr>dcoeff = 8, dexp = 2\<rparr>\<rparr>) (st_timing 4000) watched =
     Inl (ValueError ''CHECKPOINT_INVALID'')"
proof -
  let ?q = "(st_quote 0 3000)\<lparr>quote_price := \<lparr>dcoeff = 8, dexp = 2\<rparr>\<rparr>"
  have q: "quote_rejection_reason (ljnl watched) ''000660'' ?q (st_timing 4000) = None"
    "evaluate_virtual_quote (ljnl watched) ''000660'' ?q (st_timing 4000) = Inr (\<lparr>obs_status = TRIGGERED,
      obs_reason = ''PRICE_AT_OR_BELOW_THRESHOLD'', threshold_price = Some (dec_of_int 900)\<rparr>, Some st_binding)"
    "\<not> is_price (dec_str (quote_price ?q))" by code_simp+
  have "usable watched" "ls_ready (lg_lease watched)" by code_simp+
  from exponent_price_raises [OF watched_ok this q] show ?thesis .
qed

section \<open>The dispatcher\<close>

definition st_sold :: request where
  "st_sold = \<lparr>req_id = 102, req_order_id = 101, req_command = New \<lparr>cmd_key = ''virtual-stop:000660:9'', cmd_symbol = ''000660'',
       cmd_side = SELL, cmd_config_version = 2, cmd_expires_at = None, new_qty = 5, new_order_type = MARKET, new_price = None,
       stop_latch_version = Some 2\<rparr>,
     req_decision = REQ_ACCEPTED, req_digest = ''virtual-stop:000660:9''\<rparr>"

definition sale_evidence :: "(string \<times> payload) list" where
  "sale_evidence = [(''virtual-stop:000660:9'', PRequest st_sold),
     (str_uuid 102, PStopSellObligation \<lparr>so_request_id = 102, so_order_id = 101, so_symbol = ''000660'', so_qty = 5, so_rule_version = 2\<rparr>),
     (str_uuid 103, PFact (transport_fact 103 102 SENDING)), (str_uuid 104, PFact (transport_fact 104 102 SENT)),
     (str_uuid 105, PFact (Ack \<lparr>event_id = 105, ack_request_id = 102, broker_order_no = ''virtual-'' @ str_uuid 102\<rparr>))]"

definition drained :: dispatcher where
  "drained = \<lparr>dp_ledger = with_cursor (cursor_at ''890'' 3000 4000) (ledger_with (bought @ buy_evidence @ latch_evidence @ sale_evidence)),
     dp_calls = [st_sold], dp_tick = 105\<rparr>"

lemma draining_run: "drain_virtual_stop sc_env ''000660'' REGULAR (st_dispatcher latched) = (Inr (Some st_sold), drained)"
  by code_simp

theorem drain_sells_available_witness:
  "(\<exists>c. req_command st_sold = New c \<and> cmd_side c = SELL \<and> stop_latch_version c = Some 2 \<and> new_qty c = 5) \<and>
     (\<exists>x. dp_calls drained = [x] \<and> req_id x = 102) \<and>
     drain_virtual_stop sc_env ''000660'' CLOSED (st_dispatcher latched) = (Inr None, st_dispatcher latched)"
proof -
  have p: "managed (portfolio_view (ljnl latched) ''000660'') = 5" "reserved (portfolio_view (ljnl latched) ''000660'') = 0"
    by code_simp+
  have l: "find_latch (ljnl latched) ''000660'' = Some st_latch" by code_simp
  have ok: "ledger_ok (dp_ledger (st_dispatcher latched))" by (simp add: st_dispatcher_def latched_ok)
  have calls: "dp_calls drained \<noteq> []" "dp_calls (st_dispatcher latched) = []" "req_id st_sold = 102"
    by (simp_all add: drained_def st_dispatcher_def st_sold_def)
  let ?closed = "drain_virtual_stop sc_env ''000660'' CLOSED (st_dispatcher latched)"
  have "?closed = (fst ?closed, snd ?closed)" by simp
  from drain_sells_available [OF ok this] have "fst ?closed = Inr None" "snd ?closed = st_dispatcher latched"
    by (simp_all only: stop_session.distinct simp_thms)
  then have "?closed = (Inr None, st_dispatcher latched)" by (simp add: prod_eq_iff)
  then show ?thesis using drain_sells_available [OF ok draining_run] p l calls
    by (auto simp: st_dispatcher_def st_latch_def)
qed

theorem dispatched_at_most_once_witness:
  "distinct (map req_id (all_calls \<lparr>dw_dispatcher = drained, dw_history = []\<rparr>)) \<and>
     all_calls \<lparr>dw_dispatcher = drained, dw_history = []\<rparr> = [st_sold]"
proof -
  let ?W = "\<lparr>dw_dispatcher = st_dispatcher latched, dw_history = []\<rparr>"
  have "drain_virtual_stop sc_env ''000660'' REGULAR (dw_dispatcher ?W) = (Inr (Some st_sold), drained)"
    by (simp add: draining_run)
  then have "dispatch_step sc_env sc_dg ?W (?W\<lparr>dw_dispatcher := drained\<rparr>)" by (rule dispatch_step.drains)
  then have run: "(dispatch_step sc_env sc_dg)\<^sup>*\<^sup>* ?W \<lparr>dw_dispatcher = drained, dw_history = []\<rparr>" by simp
  have ok: "ledger_ok (dp_ledger (dw_dispatcher ?W))" "all_calls ?W = []"
    by (simp_all add: st_dispatcher_def latched_ok all_calls_def)
  moreover have "dp_calls drained = [st_sold]" by (simp add: drained_def)
  ultimately show ?thesis using dispatched_at_most_once [OF ok run] by (simp add: all_calls_def)
qed

definition buy_order :: ledger where "buy_order = ledger_with bought"

definition in_flight_buy :: ledger where "in_flight_buy = ledger_with (bought @ take 1 buy_evidence)"

theorem send_claims_before_calling_witness:
  "\<exists>(D :: dispatcher) r. dp_calls D = [r] \<and> req_id r = 32 \<and> claimed (ljnl (dp_ledger D)) r \<and> untouched (ljnl buy_order) r"
proof -
  let ?D = "snd (send sc_env 32 None (st_dispatcher buy_order))"
  have ok: "ledger_ok (dp_ledger (st_dispatcher buy_order))" by code_simp
  have "dp_calls ?D \<noteq> []" by code_simp
  then have "\<exists>r. dp_calls ?D = [r] \<and> req_id r = 32 \<and> claimed (ljnl (dp_ledger ?D)) r \<and> untouched (ljnl buy_order) r"
    using send_claims_before_calling [OF ok run_pair(1), of sc_env 32 None]
    by (auto simp: st_dispatcher_def)
  then show ?thesis by blast
qed

theorem recover_marks_unresolved_witness:
  "\<exists>D ids. recover sc_env (st_dispatcher in_flight_buy) = (Inr ids, D) \<and> ids = [32] \<and> dp_calls D = []"
proof -
  let ?R = "recover sc_env (st_dispatcher in_flight_buy)"
  have ok: "ledger_ok (dp_ledger (st_dispatcher in_flight_buy))" and ran: "\<not> isl (fst ?R)" by code_simp+
  have ids: "map req_id (filter (\<lambda>r. req_decision r = REQ_ACCEPTED \<and>
      unresolved (status (ljnl (dp_ledger (st_dispatcher in_flight_buy))) r))
      (requests (ljnl (dp_ledger (st_dispatcher in_flight_buy))))) = [32]" by code_simp
  note recover_marks_unresolved [OF ok run_pair(2) [OF ran]]
  then show ?thesis using ids run_pair(2) [OF ran] by (intro exI) (auto simp: st_dispatcher_def)
qed

end
