(* ===== verification/InboxScenarios.thy ===== *)
theory InboxScenarios
  imports Scenarios
begin

text \<open>
  Worked scenarios of the configuration path: a desired command is received, applied to the ledger and
  acknowledged, with and without a crash in between.
\<close>

section \<open>A command and its inbox\<close>

definition cf_pattern :: pattern where
  "cf_pattern = \<lparr>pattern_id = 80, pattern_version = 1, pattern_name = ''stop'', pattern_side = SELL,
     pattern_stop = \<lparr>rule_kind = PRICE_AT_OR_BELOW, threshold = dec_of_int 900\<rparr>\<rparr>"

definition cf_settings :: settings where
  "cf_settings = \<lparr>set_account_id = ''VIRTUAL_DEMO'', set_environment = PAPER, set_symbol = ''000660'', set_version = 2,
     stop_pattern = cf_pattern, stop_order_type = None, entry_enabled = False, monitoring_enabled = False\<rparr>"

definition cf_command :: config_command where
  "cf_command = \<lparr>command_id = 70, idempotency_key = ''k1'', expected_version = 0, cfg_expires_at = sc_later,
     cfg_settings = cf_settings\<rparr>"

definition cf_actor :: actor where
  "cf_actor = \<lparr>actor_id = ''op'', actor_account_id = ''VIRTUAL_DEMO'', actor_environment = PAPER,
     permissions = {CONFIG_WRITE}\<rparr>"

text \<open>An authenticator that knows one secret.\<close>

definition cf_auth :: "config_command \<Rightarrow> string \<Rightarrow> actor option" where
  "cf_auth c token = (if token = ''secret'' then Some cf_actor else None)"

definition empty_inbox :: inbox where
  "empty_inbox = projr (open_inbox no_inbox)"

definition receive_step :: "(decision \<times> inbox) result" where
  "receive_step = receive sc_dg (Some cf_auth) (Some ''secret'') sc_now cf_command empty_inbox"

definition received_inbox :: inbox where "received_inbox = aft receive_step"

definition begin_step :: "(inbox_application \<times> inbox) result" where
  "begin_step = begin_apply 70 False received_inbox"

definition applying_inbox :: inbox where "applying_inbox = aft begin_step"

lemma empty_inbox_ok: "inbox_ok sc_dg empty_inbox" by code_simp

lemma receive_run: "receive sc_dg (Some cf_auth) (Some ''secret'') sc_now cf_command empty_inbox =
    Inr (val receive_step, received_inbox)"
proof -
  have "\<not> isl receive_step" by code_simp
  from ran [OF this] show ?thesis by (simp add: received_inbox_def receive_step_def)
qed

lemma receive_accepted: "dec_state (val receive_step) = ACCEPTED" by code_simp

lemma begin_run: "begin_apply 70 False received_inbox = Inr (val begin_step, applying_inbox)"
proof -
  have "\<not> isl begin_step" by code_simp
  from ran [OF this] show ?thesis by (simp add: applying_inbox_def begin_step_def)
qed

lemma begin_applying: "ia_state (val begin_step) = APPLYING" "ia_command (val begin_step) = cf_command"
  "ia_digest (val begin_step) = sc_dg cf_command"
  by code_simp+

lemma authenticated: "cf_auth cf_command ''secret'' = Some cf_actor" by (simp add: cf_auth_def)

section \<open>Receiving\<close>

theorem receive_replay_witness:
  "receive sc_dg (Some cf_auth) (Some ''secret'') sc_later cf_command applying_inbox = Inr (val receive_step, applying_inbox)"
proof -
  have "inbox_step sc_dg (Some cf_auth) received_inbox applying_inbox" by (rule inbox_step.begun [OF begin_run])
  then have run: "(inbox_step sc_dg (Some cf_auth))\<^sup>*\<^sup>* received_inbox applying_inbox" by (rule r_into_rtranclp)
  show ?thesis by (rule receive_replay [where auth = cf_auth and c = cf_command and ctx = "''secret''" and ctx' = "''secret''",
        OF empty_inbox_ok receive_run authenticated run authenticated])
qed

theorem receive_accepts_next_version_witness:
  "current_version (ib_rows empty_inbox) cf_settings = 0 \<and> length (ib_rows received_inbox) = 1"
proof -
  have new: "received_inbox \<noteq> empty_inbox" by code_simp
  have "ib_rows empty_inbox = []" by code_simp
  then show ?thesis
    using receive_accepts_next_version [OF empty_inbox_ok receive_run new receive_accepted]
    by (auto simp: cf_command_def)
qed

theorem receive_fails_closed_witness:
  "\<exists>x. receive sc_dg (Some cf_auth) (Some ''guess'') sc_now cf_command empty_inbox = Inr (x, empty_inbox) \<and>
     dec_state x = REJECTED"
proof -
  let ?m = "receive sc_dg (Some cf_auth) (Some ''guess'') sc_now cf_command empty_inbox"
  have "\<not> isl ?m" by code_simp
  note run = ran [OF this]
  have "cf_auth cf_command ''guess'' = None" by (simp add: cf_auth_def)
  then have "dec_state (val ?m) = REJECTED \<and> aft ?m = empty_inbox"
    by (intro receive_fails_closed [OF run]) simp
  with run show ?thesis by metis
qed

text \<open>A table from before the application columns, with one accepted row.\<close>

definition old_row :: inbox_row where
  "old_row = new_row sc_dg cf_command (val receive_step) cf_actor"

definition old_inbox :: inbox where
  "old_inbox = \<lparr>ib_table = True, ib_columns = {}, ib_index = True, ib_rows = [old_row]\<rparr>"

theorem legacy_acceptance_blocked_witness:
  "begin_apply 70 True (projr (open_inbox old_inbox)) =
     Inr (row_application (hd (ib_rows (projr (open_inbox old_inbox)))), projr (open_inbox old_inbox))"
proof -
  let ?d = "projr (open_inbox old_inbox)"
  have "open_inbox old_inbox = Inr ?d" "ib_table old_inbox" "''apply_state'' \<notin> ib_columns old_inbox"
    "hd (ib_rows ?d) \<in> set (ib_rows ?d)" "ir_decision (hd (ib_rows ?d)) = ACCEPTED"
    "find_command 70 ?d = Some (hd (ib_rows ?d))" by code_simp+
  from legacy_acceptance_blocked [OF this] show ?thesis by simp
qed

theorem inbox_row_moves_witness:
  "row_move (ib_rows received_inbox ! 0) (ib_rows applying_inbox ! 0)"
proof -
  have ok: "inbox_ok sc_dg received_inbox" "ids_unique received_inbox" "0 < length (ib_rows received_inbox)" by code_simp+
  have "inbox_step sc_dg (Some cf_auth) received_inbox applying_inbox" by (rule inbox_step.begun [OF begin_run])
  from inbox_row_moves [OF ok(1,2) this ok(3)] show ?thesis by simp
qed

section \<open>Applying\<close>

definition config_step :: "(applied_config \<times> ledger) result" where
  "config_step = apply_inbox_config sc_dg cf_command (sc_dg cf_command) sc_ledger"

definition configured :: ledger where "configured = aft config_step"

definition paused_config_step :: "(unit \<times> ledger) result" where
  "paused_config_step = put_control 99 \<lparr>ct_symbol = ''000660'', entry_stopped = True, liquidating = False\<rparr> configured"

definition paused_config :: ledger where "paused_config = aft paused_config_step"

lemma sc_ledger_ok: "ledger_ok sc_ledger" by code_simp

lemma config_run: "apply_inbox_config sc_dg cf_command (sc_dg cf_command) sc_ledger = Inr (val config_step, configured)"
proof -
  have "\<not> isl config_step" by code_simp
  from ran [OF this] show ?thesis by (simp add: configured_def config_step_def)
qed

lemma paused_config_run: "(ledger_step oc_key sc_dg u5)\<^sup>*\<^sup>* configured paused_config"
proof -
  have "\<not> isl paused_config_step" by code_simp
  from ran [OF this] have "put_control 99 \<lparr>ct_symbol = ''000660'', entry_stopped = True, liquidating = False\<rparr> configured =
      Inr (val paused_config_step, paused_config)" by (simp add: paused_config_def paused_config_step_def)
  then have "ledger_step oc_key sc_dg u5 configured paused_config" by (rule ledger_step.controlled)
  then show ?thesis by (rule r_into_rtranclp)
qed

lemma paused_config_ok: "usable paused_config" "ls_ready (lg_lease paused_config)"
  "lease_ready (lg_pid paused_config) (lg_lease paused_config)" by code_simp+

theorem inbox_config_replay_witness:
  "apply_inbox_config sc_dg cf_command (sc_dg cf_command) paused_config = Inr (val config_step, paused_config)"
  by (rule inbox_config_replay [OF sc_ledger_ok config_run paused_config_run paused_config_ok(1,2)])

text \<open>The crash falls after the start; before the repetition another process pauses the symbol.\<close>

definition paused_step :: "(unit \<times> ledger) result" where
  "paused_step = put_control 99 \<lparr>ct_symbol = ''000660'', entry_stopped = True, liquidating = False\<rparr> sc_ledger"

definition paused_first :: ledger where "paused_first = aft paused_step"

definition late_config_step :: "(applied_config \<times> ledger) result" where
  "late_config_step = apply_inbox_config sc_dg cf_command (sc_dg cf_command) paused_first"

lemma paused_first_run: "(ledger_step oc_key sc_dg u5)\<^sup>*\<^sup>* sc_ledger paused_first"
proof -
  have "\<not> isl paused_step" by code_simp
  from ran [OF this] have "put_control 99 \<lparr>ct_symbol = ''000660'', entry_stopped = True, liquidating = False\<rparr> sc_ledger =
      Inr (val paused_step, paused_first)" by (simp add: paused_first_def paused_step_def)
  then have "ledger_step oc_key sc_dg u5 sc_ledger paused_first" by (rule ledger_step.controlled)
  then show ?thesis by (rule r_into_rtranclp)
qed

lemma late_config_run: "apply_inbox_config sc_dg cf_command (sc_dg cf_command) paused_first =
    Inr (val late_config_step, aft late_config_step)"
proof -
  have "\<not> isl late_config_step" by code_simp
  from ran [OF this] show ?thesis by (simp add: late_config_step_def)
qed

theorem coordinator_resumes_witness:
  "\<exists>res I2. car_state res = APPLIED \<and>
     coordinator_apply sc_dg False 70 (received_inbox, sc_ledger) = (Inr res, (I2, configured)) \<and>
     coordinator_apply sc_dg False 70 (applying_inbox, paused_first) = (Inr res, (I2, aft late_config_step)) \<and>
     coordinator_apply sc_dg False 70 (applying_inbox, paused_config) = (Inr res, (I2, paused_config))"
proof -
  have l: "lease_ready (lg_pid sc_ledger) (lg_lease sc_ledger)"
    "execution_scope_ok (ia_command (val begin_step)) (lg_scope sc_ledger)" by code_simp+
  have inbox: "inbox_ok sc_dg received_inbox" by code_simp
  have paused: "lease_ready (lg_pid paused_first) (lg_lease paused_first)" by code_simp
  from coordinator_resumes [OF sc_ledger_ok inbox begin_run begin_applying(1) l, unfolded begin_applying,
      OF config_run paused_first_run paused paused_config_run paused_config_ok(3)]
  show ?thesis by (simp add: late_config_run) blast
qed

theorem coordinator_applied_in_ledger_witness:
  "\<exists>(r :: inbox_row) (x :: applied_config). inbox_applied (ljnl (snd (snd (coordinator_apply sc_dg False 70 (received_inbox, sc_ledger)))))
     (ir_payload r) (ir_digest r) x \<and> ac_version x = 2"
proof -
  let ?R = "coordinator_apply sc_dg False 70 (received_inbox, sc_ledger)"
  have ran: "\<not> isl (fst ?R)" and applied: "car_state (projr (fst ?R)) = APPLIED"
    "car_applied_version (projr (fst ?R)) = Some 2"
    and pending: "map_option ir_apply_state (find_command 70 received_inbox) = Some NOT_APPLIED" by code_simp+
  have run: "?R = (Inr (projr (fst ?R)), (fst (snd ?R), snd (snd ?R)))" using run_pair(2) [OF ran] by simp
  have "ir_apply_state r \<noteq> APPLIED" if "find_command 70 received_inbox = Some r" for r using pending that by simp
  from coordinator_applied_in_ledger [OF sc_ledger_ok run applied(1) this] show ?thesis using applied(2) by auto
qed

section \<open>Two scopes with one command id\<close>

text \<open>A second account sends a command with the same id, for version 5 of its own settings, to the same inbox.\<close>

definition other_command :: config_command where
  "other_command = cf_command\<lparr>expected_version := 4,
     cfg_settings := cf_settings\<lparr>set_account_id := ''OTHER_DEMO'', set_version := 5\<rparr>\<rparr>"

definition other_auth :: "config_command \<Rightarrow> string \<Rightarrow> actor option" where
  "other_auth c token = Some (cf_actor\<lparr>actor_account_id := ''OTHER_DEMO''\<rparr>)"

definition two_scopes :: inbox where
  "two_scopes = aft (receive sc_dg (Some other_auth) (Some ''x'') sc_now other_command received_inbox)"

theorem apply_marks_other_scope_witness:
  "\<exists>app d1 done d2. begin_apply 70 False two_scopes = Inr (app, d1) \<and>
     mark_applied 70 (sc_dg cf_command) 2 d1 = Inr (done, d2) \<and> ia_command done = cf_command \<and>
     ir_account_id (ib_rows two_scopes ! 1) = ''OTHER_DEMO'' \<and> ir_apply_state (ib_rows d2 ! 1) = APPLIED \<and>
     ir_applied_version (ib_rows d2 ! 1) = Some 2"
proof -
  have ok: "inbox_ok sc_dg two_scopes" by code_simp
  have first: "find_command 70 two_scopes = Some (ib_rows two_scopes ! 0)"
    "ir_decision (ib_rows two_scopes ! 0) = ACCEPTED" "ir_apply_state (ib_rows two_scopes ! 0) = NOT_APPLIED"
    and row: "ir_payload (ib_rows two_scopes ! 0) = cf_command" "ir_digest (ib_rows two_scopes ! 0) = sc_dg cf_command"
    by code_simp+
  have other: "1 < length (ib_rows two_scopes)" "ir_command_id (ib_rows two_scopes ! 1) = 70"
    "ib_rows two_scopes ! 1 \<noteq> ib_rows two_scopes ! 0" by code_simp+
  have "ir_account_id (ib_rows two_scopes ! 1) = ''OTHER_DEMO''" by code_simp
  moreover have "set_version (cfg_settings cf_command) = 2" by (simp add: cf_command_def cf_settings_def)
  ultimately show ?thesis
    using apply_marks_other_scope [OF ok first other, of False, unfolded row] by fastforce
qed

end
