(* ===== verification/TradeEvaluation.thy ===== *)
theory TradeEvaluation
  imports StopEvaluation
begin

text \<open>
  \<open>contracts/buy_evaluation.py\<close> and \<open>contracts/sell_evaluation.py\<close>: the virtual buy
  decision, the profit-target observation and the manual sell proposal. All are pure.
\<close>

section \<open>Virtual buy\<close>

datatype buy_status = BUY_CANDIDATE | BUY_BLOCKED

record buy_decision =
  buy_status :: buy_status
  buy_reason :: string
  buy_qty :: int

definition max_buy_target_price :: decimal where
  "max_buy_target_price = dec_of_int 100000"

definition buy_qty_fixed :: int where
  "buy_qty_fixed = 1"

definition target_block_reason :: "string \<Rightarrow> string option" where
  "target_block_reason text =
     (case parse_decimal text of
       None \<Rightarrow> Some ''TARGET_PRICE_INVALID''
     | Some (Finite d) \<Rightarrow>
         if dcoeff d \<le> 0 then Some ''TARGET_PRICE_INVALID''
         else if dec_lt max_buy_target_price d then Some ''TARGET_OVER_BUDGET''
         else None
     | Some _ \<Rightarrow> Some ''TARGET_PRICE_INVALID'')"

definition expiry_block_reason ::
    "datetime option \<Rightarrow> observe_at \<Rightarrow> datetime \<Rightarrow> string option" where
  "expiry_block_reason expires timing session_end =
     (case expires of
       None \<Rightarrow> Some ''EXPIRY_REQUIRED''
     | Some e \<Rightarrow>
         if \<not> aware e then Some ''EXPIRY_REQUIRED''
         else if \<not> aware session_end then Some ''EXPIRY_REQUIRED''
         else if dt_le e (obs_now timing) then Some ''COMMAND_EXPIRED''
         else if dt_lt session_end e then Some ''EXPIRY_BEYOND_SESSION''
         else None)"

definition standing_block_reason :: "int \<Rightarrow> int option \<Rightarrow> string option" where
  "standing_block_reason held filled_today =
     (if held > 0 then Some ''HOLDING_BLOCKS_BUY''
      else case filled_today of
        None \<Rightarrow> Some ''BUY_DAY_EVIDENCE_INCOMPLETE''
      | Some n \<Rightarrow> if n > 0 then Some ''DAY_REENTRY_BLOCKED'' else None)"

definition market_block_reason :: "quote \<Rightarrow> observe_at \<Rightarrow> decimal \<Rightarrow> string option" where
  "market_block_reason q timing target =
     (if \<not> quote_fresh q timing then Some ''QUOTE_NOT_FRESH''
      else if dec_lt target (quote_price q) then Some ''PRICE_ABOVE_TARGET''
      else None)"

definition buy_blocked :: "string \<Rightarrow> buy_decision" where
  "buy_blocked r = \<lparr>buy_status = BUY_BLOCKED, buy_reason = r, buy_qty = 0\<rparr>"

text \<open>The second reading of \<open>Decimal(target_price)\<close> happens after the target check, so the
  text denotes a finite decimal there.\<close>

definition target_decimal :: "string \<Rightarrow> decimal" where
  "target_decimal text = (case parse_decimal text of Some (Finite d) \<Rightarrow> d | _ \<Rightarrow> dec_of_int 0)"

definition evaluate_virtual_buy ::
    "string \<Rightarrow> string \<Rightarrow> quote option \<Rightarrow> observe_at \<Rightarrow> int \<Rightarrow> int option \<Rightarrow>
     datetime option \<Rightarrow> datetime \<Rightarrow> buy_decision" where
  "evaluate_virtual_buy symb target quote timing held filled_today expires session_end =
     block_or (target_block_reason target) buy_blocked
    (block_or (expiry_block_reason expires timing session_end) buy_blocked
    (block_or (standing_block_reason held filled_today) buy_blocked
    (case quote of
       None \<Rightarrow> buy_blocked ''QUOTE_MISSING_OR_WRONG_SYMBOL''
     | Some q \<Rightarrow>
         if quote_symbol q \<noteq> symb then buy_blocked ''QUOTE_MISSING_OR_WRONG_SYMBOL''
         else block_or (market_block_reason q timing (target_decimal target)) buy_blocked
           \<lparr>buy_status = BUY_CANDIDATE, buy_reason = ''TARGET_AND_FRESHNESS_OK'',
            buy_qty = buy_qty_fixed\<rparr>)))"

section \<open>Profit targets\<close>

datatype profit_milestone = PLUS_5_PERCENT | PLUS_10_PERCENT

datatype profit_status = TARGET_REACHED | BELOW_TARGET | PROFIT_UNAVAILABLE

record profit_target_observation =
  pto_status :: profit_status
  pto_reason :: string
  price_return_percent :: "decimal option"
  reached :: "profit_milestone list"

definition fresh_quote_reason :: "string \<Rightarrow> quote option \<Rightarrow> observe_at \<Rightarrow> string option" where
  "fresh_quote_reason symb quote timing =
     (case quote of
       None \<Rightarrow> Some ''QUOTE_MISSING_OR_WRONG_SYMBOL''
     | Some q \<Rightarrow> if quote_symbol q \<noteq> symb then Some ''QUOTE_MISSING_OR_WRONG_SYMBOL''
               else if \<not> quote_fresh q timing then Some ''QUOTE_NOT_FRESH'' else None)"

definition profit_unavailable :: "string \<Rightarrow> profit_target_observation" where
  "profit_unavailable r = \<lparr>pto_status = PROFIT_UNAVAILABLE, pto_reason = r,
     price_return_percent = None, reached = []\<rparr>"

definition price_return :: "decimal \<Rightarrow> decimal \<Rightarrow> decimal" where
  "price_return price cost =
     dec_mul (dec_sub (dec_div price cost) (dec_of_int 1)) (dec_of_int 100)"

definition profit_thresholds :: "(profit_milestone \<times> decimal) list" where
  "profit_thresholds = [(PLUS_5_PERCENT, dec_of_int 5), (PLUS_10_PERCENT, dec_of_int 10)]"

definition observe_profit_targets ::
    "managed_position \<Rightarrow> quote option \<Rightarrow> observe_at \<Rightarrow> profit_target_observation" where
  "observe_profit_targets p quote timing =
     (if confirmed_qty p = 0 then profit_unavailable ''NO_MANAGED_POSITION''
      else case average_cost p of
        None \<Rightarrow> profit_unavailable ''AVERAGE_COST_MISSING''
      | Some cost \<Rightarrow> block_or (fresh_quote_reason (mp_symbol p) quote timing) profit_unavailable
          (case quote of
             None \<Rightarrow> profit_unavailable ''QUOTE_UNAVAILABLE''
           | Some q \<Rightarrow>
               let ret = price_return (quote_price q) cost;
                   hit = map fst (filter (\<lambda>(_, t). dec_le t ret) profit_thresholds)
               in \<lparr>pto_status = (if hit = [] then BELOW_TARGET else TARGET_REACHED),
                   pto_reason = (if hit = [] then ''BELOW_FIRST_TARGET''
                                 else ''PRICE_TARGET_REACHED''),
                   price_return_percent = Some ret, reached = hit\<rparr>))"

section \<open>Manual sell proposal\<close>

text \<open>Mode and order kind are untyped strings at this boundary: the code checks them itself.\<close>

datatype proposal_status = READY | PROPOSAL_BLOCKED

record manual_sell_proposal =
  msp_status :: proposal_status
  msp_reason :: string
  msp_qty :: int
  msp_order_kind :: "string option"
  msp_limit_price :: "decimal option"
  msp_expires_at :: "datetime option"

definition msp_blocked :: "string \<Rightarrow> manual_sell_proposal" where
  "msp_blocked r = \<lparr>msp_status = PROPOSAL_BLOCKED, msp_reason = r, msp_qty = 0,
     msp_order_kind = None, msp_limit_price = None, msp_expires_at = None\<rparr>"

text \<open>\<open>date()\<close> is the calendar day at the value's own offset; \<open>astimezone\<close> moves the
  clock to the session's offset first.\<close>

definition day_at :: "datetime \<Rightarrow> int option \<Rightarrow> date" where
  "day_at d off = local_day d (case off of None \<Rightarrow> 0 | Some s \<Rightarrow> s)"

definition position_block_reason ::
    "managed_position \<Rightarrow> protection_exposure \<Rightarrow> string option" where
  "position_block_reason p ex =
     (if confirmed_qty p \<le> 0 then Some ''NO_MANAGED_POSITION''
      else if managed_qty ex \<noteq> confirmed_qty p then Some ''POSITION_EVIDENCE_MISMATCH''
      else if reserved_sell_qty ex > managed_qty ex then Some ''SELL_RESERVATION_EXCEEDS_HOLDING''
      else if exp_reconciliation_required ex \<or> exp_sell_uncertain ex
        then Some ''SELL_EVIDENCE_UNRESOLVED''
      else if reserved_sell_qty ex \<noteq> 0 then Some ''SELL_ALREADY_RESERVED''
      else None)"

definition session_block_reason :: "observe_at \<Rightarrow> datetime \<Rightarrow> datetime \<Rightarrow> string option" where
  "session_block_reason timing s_start s_end =
     (if \<not> aware s_start \<or> \<not> aware s_end then Some ''SESSION_TIMEZONE_REQUIRED''
      else let local_today = day_at (obs_now timing) (dt_offset s_start)
      in if day_at s_start (dt_offset s_start) \<noteq> day_at s_end (dt_offset s_end) \<or>
            day_at s_start (dt_offset s_start) \<noteq> local_today
         then Some ''SAME_DAY_SESSION_REQUIRED''
      else if dt_le s_end s_start then Some ''INVALID_SESSION_RANGE''
      else if dt_lt (obs_now timing) s_start then Some ''SESSION_NOT_STARTED''
      else if dt_le s_end (obs_now timing) then Some ''SESSION_EXPIRED''
      else None)"

definition propose_manual_general_sell ::
    "managed_position \<Rightarrow> protection_exposure \<Rightarrow> quote option \<Rightarrow> observe_at \<Rightarrow> datetime \<Rightarrow> datetime \<Rightarrow>
     bool \<Rightarrow> string \<Rightarrow> string \<Rightarrow> bool \<Rightarrow> bool \<Rightarrow> manual_sell_proposal" where
  "propose_manual_general_sell p ex quote timing s_start s_end by_user mode kind confirmed stop_due =
     (if \<not> by_user then msp_blocked ''MANUAL_SUBMISSION_REQUIRED''
      else if mode \<noteq> ''FULL'' \<and> mode \<noteq> ''HALF'' then msp_blocked ''QUANTITY_MODE_UNSUPPORTED''
      else if kind \<noteq> ''LIMIT'' \<and> kind \<noteq> ''MARKET'' then msp_blocked ''ORDER_KIND_UNSUPPORTED''
      else if stop_due then msp_blocked ''STOP_HAS_PRIORITY''
      else block_or (position_block_reason p ex) msp_blocked
     (block_or (session_block_reason timing s_start s_end) msp_blocked
     (if kind = ''MARKET'' \<and> \<not> confirmed then msp_blocked ''MARKET_CONFIRMATION_REQUIRED''
      else block_or (fresh_quote_reason (mp_symbol p) quote timing) msp_blocked
     (case quote of
        None \<Rightarrow> msp_blocked ''QUOTE_UNAVAILABLE''
      | Some q \<Rightarrow>
          if mode \<noteq> ''FULL'' \<and> confirmed_qty p mod 2 \<noteq> 0 then msp_blocked ''HALF_QTY_NOT_WHOLE''
          else \<lparr>msp_status = READY, msp_reason = ''EXPLICIT_MANUAL_SELL_VALIDATED'',
                msp_qty = (if mode = ''FULL'' then confirmed_qty p else confirmed_qty p div 2),
                msp_order_kind = Some kind,
                msp_limit_price = (if kind = ''LIMIT'' then Some (quote_price q) else None),
                msp_expires_at = Some s_end\<rparr>))))"

section \<open>Facts\<close>

lemma market_block_reason_None:
  "market_block_reason q timing target = None \<longleftrightarrow>
     quote_fresh q timing \<and> dec_val (quote_price q) \<le> dec_val target"
  by (auto simp: market_block_reason_def dec_lt_val)

lemma standing_block_reason_None:
  "standing_block_reason held filled = None \<longleftrightarrow>
     held \<le> 0 \<and> (\<exists>n. filled = Some n \<and> n \<le> 0)"
  by (auto simp: standing_block_reason_def split: option.splits)

lemma expiry_block_reason_None:
  "expiry_block_reason expires timing s_end = None \<longleftrightarrow>
     (\<exists>e. expires = Some e \<and> aware e \<and> aware s_end \<and> dt_lt (obs_now timing) e \<and> dt_le e s_end)"
  by (auto simp: expiry_block_reason_def split: option.splits)

lemma target_block_reason_None:
  "target_block_reason text = None \<longleftrightarrow>
     (\<exists>d. parse_decimal text = Some (Finite d) \<and> target_decimal text = d \<and> 0 < dcoeff d \<and>
        dec_val d \<le> 100000)"
  by (auto simp: target_block_reason_def target_decimal_def max_buy_target_price_def dec_lt_val
      split: option.splits dec_literal.splits)

lemmas buy_gate_simps = market_block_reason_None standing_block_reason_None
  expiry_block_reason_None target_block_reason_None

lemma fresh_quote_reason_None:
  "fresh_quote_reason symb quote timing = None \<longleftrightarrow>
     (\<exists>q. quote = Some q \<and> quote_symbol q = symb \<and> quote_fresh q timing)"
  by (auto simp: fresh_quote_reason_def split: option.splits)

lemma position_block_reason_None:
  "position_block_reason p ex = None \<longleftrightarrow>
     0 < confirmed_qty p \<and> managed_qty ex = confirmed_qty p \<and> reserved_sell_qty ex = 0 \<and>
     \<not> exp_reconciliation_required ex \<and> \<not> exp_sell_uncertain ex"
  by (auto simp: position_block_reason_def)

lemma session_block_reason_None:
  "session_block_reason timing s_start s_end = None \<Longrightarrow>
     dt_le s_start (obs_now timing) \<and> dt_lt (obs_now timing) s_end"
  by (auto simp: session_block_reason_def Let_def split: if_splits)

end
