(* ===== verification/Polling.thy ===== *)
theory Polling
  imports Prelude
begin

text \<open>
  \<open>sync/polling.py\<close>: the timing and response policy of the polling schedule. An outcome is one of the
  three literals or an HTTP status.
\<close>

datatype poll_status = NORMAL | RETRY_WAIT | OPERATOR_REVIEW

datatype poll_outcome = POLL_SUCCESS | NETWORK_ERROR | POLL_TIMEOUT | HTTP int

record polling_state =
  ps_status :: poll_status
  ps_failures :: int
  ps_next_attempt_at :: "datetime option"
  ps_last_success_at :: "datetime option"
  ps_operator_reason :: "string option"

definition polling0 :: polling_state where
  "polling0 = \<lparr>ps_status = NORMAL, ps_failures = 0, ps_next_attempt_at = None, ps_last_success_at = None,
     ps_operator_reason = None\<rparr>"

definition poll_interval_seconds :: int where "poll_interval_seconds = 5"

definition initial_backoff_seconds :: int where "initial_backoff_seconds = 5"

definition max_backoff_seconds :: int where "max_backoff_seconds = 5 * 60"

definition require_aware :: "datetime \<Rightarrow> unit result" where
  "require_aware d = raise_if (\<not> aware d) (ValueError ''POLL_CLOCK_TIMEZONE_REQUIRED'')"

definition retry_delay_seconds :: "int \<Rightarrow> int result" where
  "retry_delay_seconds n =
     (if n < 1 then Inl (ValueError ''POLL_FAILURE_COUNT_MUST_BE_POSITIVE'')
      else if n \<ge> 7 then Inr max_backoff_seconds
      else Inr (initial_backoff_seconds * 2 ^ nat (n - 1)))"

definition poll_succeeded :: "poll_outcome \<Rightarrow> bool" where
  "poll_succeeded x \<longleftrightarrow> (case x of POLL_SUCCESS \<Rightarrow> True | HTTP n \<Rightarrow> 200 \<le> n \<and> n < 300 | _ \<Rightarrow> False)"

definition poll_refused :: "poll_outcome \<Rightarrow> int option" where
  "poll_refused x = (case x of HTTP n \<Rightarrow> if 400 \<le> n \<and> n < 500 then Some n else None | _ \<Rightarrow> None)"

definition poll_retryable :: "poll_outcome \<Rightarrow> bool" where
  "poll_retryable x \<longleftrightarrow> (case x of NETWORK_ERROR \<Rightarrow> True | POLL_TIMEOUT \<Rightarrow> True
     | HTTP n \<Rightarrow> 500 \<le> n \<and> n < 600 | POLL_SUCCESS \<Rightarrow> False)"

definition poll_review :: "polling_state \<Rightarrow> string \<Rightarrow> polling_state" where
  "poll_review s reason = \<lparr>ps_status = OPERATOR_REVIEW, ps_failures = ps_failures s, ps_next_attempt_at = None,
     ps_last_success_at = ps_last_success_at s, ps_operator_reason = Some reason\<rparr>"

definition record_poll_outcome ::
    "polling_state \<Rightarrow> poll_outcome \<Rightarrow> datetime \<Rightarrow> bool \<Rightarrow> polling_state result" where
  "record_poll_outcome s x now resolved =
     ebind (require_aware now) (\<lambda>_.
     if ps_status s = OPERATOR_REVIEW \<and> \<not> resolved then Inr s
     else if poll_succeeded x
     then Inr \<lparr>ps_status = NORMAL, ps_failures = 0,
       ps_next_attempt_at = Some (dt_plus now (seconds poll_interval_seconds)),
       ps_last_success_at = Some now, ps_operator_reason = None\<rparr>
     else case poll_refused x of
       Some n \<Rightarrow> Inr (poll_review s (''HTTP_'' @ str_int n))
     | None \<Rightarrow>
         if poll_retryable x
         then ebind (retry_delay_seconds (ps_failures s + 1)) (\<lambda>delay.
           Inr \<lparr>ps_status = RETRY_WAIT, ps_failures = ps_failures s + 1,
             ps_next_attempt_at = Some (dt_plus now (seconds delay)),
             ps_last_success_at = ps_last_success_at s, ps_operator_reason = None\<rparr>)
         else Inr (poll_review s ''UNEXPECTED_RESPONSE''))"

text \<open>A caller that records one outcome after the other, without resolving a review.\<close>

definition poll_step :: "poll_outcome \<times> datetime \<Rightarrow> polling_state \<Rightarrow> polling_state result" where
  "poll_step xt s = record_poll_outcome s (fst xt) (snd xt) False"

definition poll_run :: "(poll_outcome \<times> datetime) list \<Rightarrow> polling_state \<Rightarrow> polling_state result" where
  "poll_run = efold poll_step"

section \<open>Lemmas\<close>

lemma retry_delay_min:
  assumes "1 \<le> n"
  shows "retry_delay_seconds n = Inr (min 300 (5 * 2 ^ nat (n - 1)))"
proof (cases "n \<ge> 7")
  case True
  then have "(2::int) ^ 6 \<le> 2 ^ nat (n - 1)" by (intro power_increasing) auto
  then have "min 300 (5 * 2 ^ nat (n - 1)) = (300::int)" by simp
  then show ?thesis using True assms by (simp only: retry_delay_seconds_def max_backoff_seconds_def) simp
next
  case False
  then have "n \<in> {1, 2, 3, 4, 5, 6}" using assms by auto
  then show ?thesis by (auto simp: retry_delay_seconds_def initial_backoff_seconds_def)
qed

lemma poll_step_retry:
  assumes "poll_retryable (fst xt)" and "aware (snd xt)" and "ps_status s \<noteq> OPERATOR_REVIEW" and "0 \<le> ps_failures s"
  shows "poll_step xt s = Inr \<lparr>ps_status = RETRY_WAIT, ps_failures = ps_failures s + 1,
    ps_next_attempt_at = Some (dt_plus (snd xt) (seconds (min 300 (5 * 2 ^ nat (ps_failures s))))),
    ps_last_success_at = ps_last_success_at s, ps_operator_reason = None\<rparr>"
  using assms retry_delay_min [of "ps_failures s + 1"]
  by (auto simp: poll_step_def record_poll_outcome_def require_aware_def poll_retryable_def poll_succeeded_def
      poll_refused_def split: poll_outcome.splits)

lemma poll_run_review:
  assumes "ps_status s = OPERATOR_REVIEW" and "\<forall>xt\<in>set xts. aware (snd xt)"
  shows "poll_run xts s = Inr s"
  using assms(2)
proof (induction xts)
  case (Cons xt xts)
  have "poll_step xt s = Inr s"
    using assms(1) Cons.prems by (simp add: poll_step_def record_poll_outcome_def require_aware_def)
  then show ?case using Cons by (simp add: poll_run_def)
qed (simp add: poll_run_def)

lemma poll_run_retries:
  assumes "\<forall>xt\<in>set (xts @ [last_xt]). poll_retryable (fst xt) \<and> aware (snd xt)"
    and "ps_status s \<noteq> OPERATOR_REVIEW" and "0 \<le> ps_failures s"
  shows "poll_run (xts @ [last_xt]) s = Inr \<lparr>ps_status = RETRY_WAIT, ps_failures = ps_failures s + int (length xts) + 1,
    ps_next_attempt_at = Some (dt_plus (snd last_xt) (seconds (min 300 (5 * 2 ^ nat (ps_failures s + int (length xts)))))),
    ps_last_success_at = ps_last_success_at s, ps_operator_reason = None\<rparr>"
  using assms
proof (induction xts arbitrary: s)
  case Nil
  then show ?case using poll_step_retry [of last_xt s] by (simp add: poll_run_def)
next
  case (Cons xt xts)
  let ?s = "\<lparr>ps_status = RETRY_WAIT, ps_failures = ps_failures s + 1,
    ps_next_attempt_at = Some (dt_plus (snd xt) (seconds (min 300 (5 * 2 ^ nat (ps_failures s))))),
    ps_last_success_at = ps_last_success_at s, ps_operator_reason = None\<rparr>"
  have step: "poll_step xt s = Inr ?s" using Cons.prems by (intro poll_step_retry) auto
  have "poll_run (xts @ [last_xt]) ?s = Inr \<lparr>ps_status = RETRY_WAIT, ps_failures = ps_failures s + 1 + int (length xts) + 1,
    ps_next_attempt_at = Some (dt_plus (snd last_xt)
      (seconds (min 300 (5 * 2 ^ nat (ps_failures s + 1 + int (length xts)))))),
    ps_last_success_at = ps_last_success_at s, ps_operator_reason = None\<rparr>"
    using Cons.IH [of ?s] Cons.prems by simp
  then show ?case using step by (simp add: poll_run_def algebra_simps)
qed

section \<open>Properties\<close>

text \<open>Retries back off exponentially and stay bounded. After any run of retryable failures, from any state not
  under review, the schedule waits, counts every failure, keeps the last success, and the next attempt
  is the last failure plus the smaller of five minutes and five seconds doubled per earlier failure.\<close>

theorem poll_backoff_schedule:
  assumes "\<forall>xt\<in>set (xts @ [(x, now)]). poll_retryable (fst xt) \<and> aware (snd xt)"
    and "ps_status s \<noteq> OPERATOR_REVIEW" and "0 \<le> ps_failures s"
  shows "\<exists>s'. poll_run (xts @ [(x, now)]) s = Inr s' \<and> ps_status s' = RETRY_WAIT \<and>
    ps_failures s' = ps_failures s + int (length xts) + 1 \<and> ps_last_success_at s' = ps_last_success_at s \<and>
    ps_next_attempt_at s' = Some (dt_plus now
      (seconds (min 300 (5 * 2 ^ nat (ps_failures s + int (length xts))))))"
  using poll_run_retries [OF assms] by simp

theorem poll_backoff_schedule_witness:
  "\<exists>s'. poll_run [(POLL_TIMEOUT, \<lparr>dt_instant = 0, dt_offset = Some 0\<rparr>), (HTTP 503, \<lparr>dt_instant = 7, dt_offset = Some 0\<rparr>)] polling0 =
     Inr s' \<and> ps_failures s' = 2 \<and> ps_next_attempt_at s' = Some \<lparr>dt_instant = 10000007, dt_offset = Some 0\<rparr>"
  using poll_backoff_schedule [of "[(POLL_TIMEOUT, \<lparr>dt_instant = 0, dt_offset = Some 0\<rparr>)]" "HTTP 503"
      "\<lparr>dt_instant = 7, dt_offset = Some 0\<rparr>" polling0]
  by (auto simp: polling0_def poll_retryable_def aware_def dt_plus_def seconds_def)

text \<open>A review ends only by the operator. Once a client error or an unexpected response was recorded, no further
  outcome, a success included, changes the state until an operator resolves the review; and no attempt
  is scheduled in it.\<close>

theorem poll_review_sticky:
  assumes "record_poll_outcome s x now resolved = Inr s'" and "\<not> poll_succeeded x" and "\<not> poll_retryable x"
    and "ps_status s \<noteq> OPERATOR_REVIEW \<or> resolved" and "\<forall>xt\<in>set xts. aware (snd xt)"
  shows "ps_status s' = OPERATOR_REVIEW \<and> ps_next_attempt_at s' = None \<and> ps_operator_reason s' \<noteq> None \<and>
    poll_run xts s' = Inr s'"
proof -
  have "ps_status s' = OPERATOR_REVIEW \<and> ps_next_attempt_at s' = None \<and> ps_operator_reason s' \<noteq> None"
    using assms(1-4) by (auto simp: record_poll_outcome_def require_aware_def poll_review_def result_simps
        split: option.splits)
  then show ?thesis using poll_run_review [OF _ assms(5)] by simp
qed

theorem poll_review_sticky_witness:
  "poll_run [(POLL_SUCCESS, \<lparr>dt_instant = 9, dt_offset = Some 0\<rparr>)] (poll_review polling0 ''HTTP_401'') =
     Inr (poll_review polling0 ''HTTP_401'')"
proof -
  have "record_poll_outcome polling0 (HTTP 401) \<lparr>dt_instant = 0, dt_offset = Some 0\<rparr> False =
      Inr (poll_review polling0 ''HTTP_401'')" by code_simp
  from poll_review_sticky [OF this, of "[(POLL_SUCCESS, \<lparr>dt_instant = 9, dt_offset = Some 0\<rparr>)]"] show ?thesis
    by (simp add: poll_succeeded_def poll_retryable_def polling0_def aware_def)
qed

end
