(* ===== verification/PyValues.thy ===== *)
theory PyValues
  imports Decimals
begin

text \<open>
  Untrusted values as \<open>json.loads\<close> yields them, for the boundaries that check types at runtime. An object
  keeps its distinct keys in order. Python's \<open>==\<close> identifies \<open>True\<close> with 1, so a success code is
  accepted by its type first.
\<close>

datatype pyval =
    PyNone
  | PyBool bool
  | PyInt int
  | PyFloat decimal
  | PyStr string
  | PyList "pyval list"
  | PyDict "(string \<times> pyval) list"

text \<open>\<open>d.get(k)\<close>: absent keys read as \<open>None\<close>.\<close>

definition py_get :: "(string \<times> pyval) list \<Rightarrow> string \<Rightarrow> pyval" where
  "py_get d k = (case map_of d k of None \<Rightarrow> PyNone | Some v \<Rightarrow> v)"

fun is_dict :: "pyval \<Rightarrow> bool" where
  "is_dict (PyDict _) = True"
| "is_dict _ = False"

text \<open>\<open>type(code) in (int, str) and code in (0, "0")\<close>.\<close>

definition success_code :: "pyval \<Rightarrow> bool" where
  "success_code v \<longleftrightarrow> v = PyInt 0 \<or> v = PyStr ''0''"

text \<open>Characters of \<open>re\<close> classes and of the tests on text.\<close>

definition is_ascii :: "string \<Rightarrow> bool" where
  "is_ascii s \<longleftrightarrow> (\<forall>c\<in>set s. (of_char c :: int) < 128)"

definition is_upper :: "char \<Rightarrow> bool" where
  "is_upper c \<longleftrightarrow> 65 \<le> (of_char c :: int) \<and> (of_char c :: int) \<le> 90"

definition is_lower :: "char \<Rightarrow> bool" where
  "is_lower c \<longleftrightarrow> 97 \<le> (of_char c :: int) \<and> (of_char c :: int) \<le> 122"

definition has_line_break :: "string \<Rightarrow> bool" where
  "has_line_break s \<longleftrightarrow> CHR 0x0D \<in> set s \<or> CHR 0x0A \<in> set s"

definition six_digits :: "string \<Rightarrow> bool" where
  "six_digits s \<longleftrightarrow> length s = 6 \<and> (\<forall>c\<in>set s. is_digit c)"

lemma success_code_types: "success_code v \<Longrightarrow> v \<noteq> PyNone \<and> v \<noteq> PyBool b"
  by (auto simp: success_code_def)

end
