(* ===== verification/Floats.thy ===== *)
theory Floats
  imports Prelude "HOL-Library.Log_Nat"
begin

text \<open>
  Python floats, as far as the program relies on them: a finite double is the rational number it denotes, and each
  operation is the exact one, rounded to the nearest double with ties to even. The range is not bounded: overflow,
  subnormal numbers, infinities, NaN and the sign of zero are not modelled. An integer operand is converted first.
\<close>

section \<open>Rounding\<close>

type_synonym double = rat

definition nearest_even :: "rat \<Rightarrow> int" where
  "nearest_even x =
     (let f = \<lfloor>x\<rfloor>; r = x - of_int f
      in if r < 1 / 2 then f else if r > 1 / 2 then f + 1 else if even f then f else f + 1)"

definition pow2 :: "int \<Rightarrow> rat" where
  "pow2 e = (if 0 \<le> e then 2 ^ nat e else 1 / 2 ^ nat (- e))"

definition binary_exponent :: "rat \<Rightarrow> int" where
  "binary_exponent x =
     (let (a, b) = quotient_of x;
          e = int (floorlog 2 (nat a)) - int (floorlog 2 (nat b))
      in if pow2 e \<le> x then e else e - 1)"

definition to_double :: "rat \<Rightarrow> double" where
  "to_double x =
     (if x = 0 then 0
      else let u = pow2 (binary_exponent \<bar>x\<bar> - 52)
           in if 0 < x then of_int (nearest_even (x / u)) * u
              else - (of_int (nearest_even (\<bar>x\<bar> / u)) * u))"

text \<open>For evaluation: the binary digits of an integer, counted without natural numbers.\<close>

function bit_count :: "int \<Rightarrow> int" where
  "bit_count a = (if a \<le> 0 then 0 else bit_count (a div 2) + 1)"
  by pat_completeness auto
termination
  by (relation "measure nat") auto

declare bit_count.simps [simp del]

lemma bit_count_floorlog: "int (floorlog 2 (nat a)) = bit_count a"
proof (induction a rule: bit_count.induct)
  case (1 a)
  show ?case
  proof (cases "a \<le> 0")
    case False
    then have "floorlog 2 (nat a) = floorlog 2 (nat (a div 2)) + 1"
      using compute_floorlog [of 2 "nat a"] by (simp add: nat_div_distrib)
    with 1 [OF False] False show ?thesis by (simp add: bit_count.simps [of a])
  qed (simp add: bit_count.simps [of a] floorlog_def)
qed

lemma binary_exponent_code [code]:
  "binary_exponent x =
     (let (a, b) = quotient_of x; e = bit_count a - bit_count b in if pow2 e \<le> x then e else e - 1)"
  unfolding binary_exponent_def bit_count_floorlog ..

section \<open>Operations\<close>

definition fint :: "int \<Rightarrow> double" where
  "fint n = to_double (of_int n)"

definition fadd :: "double \<Rightarrow> double \<Rightarrow> double" where
  "fadd x y = to_double (x + y)"

definition fsub :: "double \<Rightarrow> double \<Rightarrow> double" where
  "fsub x y = to_double (x - y)"

definition fmul :: "double \<Rightarrow> double \<Rightarrow> double" where
  "fmul x y = to_double (x * y)"

definition fdiv :: "double \<Rightarrow> double \<Rightarrow> double" where
  "fdiv x y = to_double (x / y)"

section \<open>Lemmas\<close>

lemma pow2_pos [simp]: "0 < pow2 e"
  by (simp add: pow2_def)

lemma pow2_nonzero [simp]: "pow2 e \<noteq> 0"
  using pow2_pos [of e] by linarith

lemma pow2_Suc: "pow2 (e + 1) = 2 * pow2 e"
proof (cases "0 \<le> e")
  case True
  then show ?thesis by (simp add: pow2_def nat_add_distrib)
next
  case False
  then have "nat (- e) = Suc (nat (- (e + 1)))" by linarith
  then show ?thesis using False by (cases "e = - 1") (simp_all add: pow2_def)
qed

lemma pow2_add_nat: "pow2 (e + int n) = 2 ^ n * pow2 e"
proof (induction n)
  case (Suc n)
  have "pow2 (e + int (Suc n)) = pow2 (e + int n + 1)" by (simp add: algebra_simps)
  then show ?case using Suc by (simp add: pow2_Suc)
qed simp

lemma pow2_mono: "e \<le> e' \<Longrightarrow> pow2 e \<le> pow2 e'"
proof -
  assume "e \<le> e'"
  then have "pow2 e' = 2 ^ nat (e' - e) * pow2 e" using pow2_add_nat [of e "nat (e' - e)"] by simp
  moreover have "1 \<le> (2 :: rat) ^ nat (e' - e)" by simp
  ultimately show ?thesis using mult_right_mono [of 1 "2 ^ nat (e' - e)" "pow2 e"] by simp
qed

lemma pow2_nat: "pow2 (int n) = 2 ^ n"
  by (simp add: pow2_def)

lemma floorlog_bounds:
  assumes "0 < (a :: int)"
  shows "pow2 (int (floorlog 2 (nat a)) - 1) \<le> of_int a \<and> of_int a < pow2 (int (floorlog 2 (nat a)))"
proof -
  have "2 ^ (floorlog 2 (nat a) - 1) \<le> nat a" "nat a < 2 ^ floorlog 2 (nat a)" and pos: "0 < floorlog 2 (nat a)"
    using floorlog_bounds [of "nat a" 2] assms floorlog_eq_zero_iff [of 2 "nat a"] by auto
  then have "(of_nat (2 ^ (floorlog 2 (nat a) - 1)) :: rat) \<le> of_nat (nat a)"
    "(of_nat (nat a) :: rat) < of_nat (2 ^ floorlog 2 (nat a))" by (simp_all only: of_nat_le_iff of_nat_less_iff)
  moreover have "pow2 (int (floorlog 2 (nat a)) - 1) = 2 ^ (floorlog 2 (nat a) - 1)"
    using pos pow2_nat [of "floorlog 2 (nat a) - 1"] by (simp add: of_nat_diff)
  ultimately show ?thesis using assms by (simp add: pow2_nat)
qed

lemma binary_exponent_bounds:
  assumes "0 < x"
  shows "pow2 (binary_exponent x) \<le> x \<and> x < pow2 (binary_exponent x + 1)"
proof -
  obtain a b where q: "quotient_of x = (a, b)" by (cases "quotient_of x")
  have b: "0 < b" and x: "x = of_int a / of_int b"
    using quotient_of_denom_pos [OF q] quotient_of_div [OF q] by auto
  have a: "0 < a" using assms b unfolding x by (simp add: zero_less_divide_iff)
  let ?m = "int (floorlog 2 (nat a))" and ?n = "int (floorlog 2 (nat b))"
  have split: "pow2 (i - j) * pow2 j = pow2 i" for i j
  proof (cases "0 \<le> i - j")
    case True
    then show ?thesis using pow2_add_nat [of j "nat (i - j)"] by (simp add: pow2_def)
  next
    case False
    then have "pow2 j = 2 ^ nat (j - i) * pow2 i" using pow2_add_nat [of i "nat (j - i)"] by simp
    then show ?thesis using False by (simp add: pow2_def)
  qed
  have pb: "(0 :: rat) < of_int b" using b by simp
  note fa = floorlog_bounds [OF a] and fb = floorlog_bounds [OF b]
  have upper: "x < pow2 (?m - ?n + 1)"
  proof -
    have "of_int a < pow2 ?m" using fa by simp
    also have "pow2 ?m = pow2 (?m - ?n + 1) * pow2 (?n - 1)" using split [of ?m "?n - 1"] by (simp add: algebra_simps)
    also have "\<dots> \<le> pow2 (?m - ?n + 1) * of_int b" using fb by (simp add: mult_left_mono)
    finally show ?thesis unfolding x using pb by (simp add: pos_divide_less_eq)
  qed
  have lower: "pow2 (?m - ?n - 1) \<le> x"
  proof -
    have "pow2 (?m - ?n - 1) * of_int b \<le> pow2 (?m - ?n - 1) * pow2 ?n" using fb by (simp add: mult_left_mono)
    also have "\<dots> = pow2 (?m - 1)" using split [of "?m - 1" ?n] by (simp add: algebra_simps)
    also have "\<dots> \<le> of_int a" using fa by simp
    finally show ?thesis unfolding x using pb by (simp add: pos_le_divide_eq)
  qed
  show ?thesis using upper lower
    by (cases "pow2 (?m - ?n) \<le> x") (simp_all add: binary_exponent_def q Let_def)
qed

lemma nearest_even_int [simp]: "nearest_even (of_int n) = n"
  by (simp add: nearest_even_def)

lemma nearest_even_mono:
  assumes "x \<le> y"
  shows "nearest_even x \<le> nearest_even y"
proof (cases "\<lfloor>x\<rfloor> = \<lfloor>y\<rfloor>")
  case True
  then show ?thesis using assms by (auto simp: nearest_even_def Let_def)
next
  case False
  then have "\<lfloor>x\<rfloor> + 1 \<le> \<lfloor>y\<rfloor>" using floor_mono [OF assms] by simp
  moreover have "nearest_even x \<le> \<lfloor>x\<rfloor> + 1" "\<lfloor>y\<rfloor> \<le> nearest_even y" by (simp_all add: nearest_even_def Let_def)
  ultimately show ?thesis by simp
qed

text \<open>The rounding of a positive number stays between the powers of two around it.\<close>

lemma to_double_between:
  assumes "0 < x"
  shows "pow2 (binary_exponent x) \<le> to_double x \<and> to_double x \<le> pow2 (binary_exponent x + 1)"
proof -
  let ?e = "binary_exponent x"
  let ?u = "pow2 (?e - 52)"
  have lo: "pow2 ?e = of_int (2 ^ 52) * ?u" using pow2_add_nat [of "?e - 52" 52] by simp
  have hi: "pow2 (?e + 1) = of_int (2 ^ 53) * ?u" using lo pow2_Suc [of ?e] by simp
  have u: "0 < ?u" by simp
  have "of_int (2 ^ 52) \<le> x / ?u" "x / ?u \<le> of_int (2 ^ 53)"
    using binary_exponent_bounds [OF assms] lo hi u by (simp_all only: pos_le_divide_eq pos_divide_le_eq) auto
  then have "2 ^ 52 \<le> nearest_even (x / ?u)" "nearest_even (x / ?u) \<le> 2 ^ 53"
    by (simp_all only: nearest_even_mono [where x = "of_int _", unfolded nearest_even_int]
        nearest_even_mono [where y = "of_int _", unfolded nearest_even_int])
  then have "(of_int (2 ^ 52) :: rat) \<le> of_int (nearest_even (x / ?u))" "(of_int (nearest_even (x / ?u)) :: rat) \<le> of_int (2 ^ 53)"
    by (simp_all only: of_int_le_iff)
  then show ?thesis unfolding lo hi using assms u
    by (simp add: to_double_def Let_def mult_right_mono del: of_int_power)
qed

lemma to_double_pos: "0 < x \<Longrightarrow> 0 < to_double x"
  using to_double_between [of x] pow2_pos [of "binary_exponent x"] by linarith

lemma to_double_zero [simp]: "to_double 0 = 0"
  by (simp add: to_double_def)

lemma to_double_minus: "to_double (- x) = - to_double x"
  by (simp add: to_double_def Let_def)

lemma to_double_mono_pos:
  assumes "0 < x" and "x \<le> y"
  shows "to_double x \<le> to_double y"
proof -
  let ?e = binary_exponent
  have y: "0 < y" using assms by simp
  have "?e x \<le> ?e y"
  proof (rule ccontr)
    assume "\<not> ?e x \<le> ?e y"
    then have "pow2 (?e y + 1) \<le> pow2 (?e x)" by (intro pow2_mono) simp
    then show False using binary_exponent_bounds [OF assms(1)] binary_exponent_bounds [OF y] assms(2) by linarith
  qed
  then consider "?e x = ?e y" | "?e x + 1 \<le> ?e y" by linarith
  then show ?thesis
  proof cases
    case 1
    have "nearest_even (x / pow2 (?e y - 52)) \<le> nearest_even (y / pow2 (?e y - 52))"
      using assms(2) by (intro nearest_even_mono divide_right_mono) (simp_all add: less_imp_le)
    then show ?thesis using assms(1) y 1 by (simp add: to_double_def Let_def mult_right_mono)
  next
    case 2
    then have "pow2 (?e x + 1) \<le> pow2 (?e y)" by (rule pow2_mono)
    then show ?thesis using to_double_between [OF assms(1)] to_double_between [OF y] by linarith
  qed
qed

lemma to_double_mono:
  assumes "x \<le> y"
  shows "to_double x \<le> to_double y"
proof -
  consider "0 < x" | "x \<le> 0" "0 \<le> y" | "y < 0" by linarith
  then show ?thesis
  proof cases
    case 1
    then show ?thesis using assms by (rule to_double_mono_pos)
  next
    case 2
    have "to_double x \<le> 0" using to_double_pos [of "- x"] 2(1) to_double_minus [of x] by (cases "x = 0") auto
    moreover have "0 \<le> to_double y" using to_double_pos [of y] 2(2) by (cases "y = 0") auto
    ultimately show ?thesis by simp
  next
    case 3
    then show ?thesis using to_double_mono_pos [of "- y" "- x"] assms by (simp add: to_double_minus)
  qed
qed

lemma to_double_nonneg: "0 \<le> x \<Longrightarrow> 0 \<le> to_double x"
  using to_double_mono [of 0 x] by simp

text \<open>Integers of up to 53 bits are doubles.\<close>

lemma to_double_int:
  assumes "\<bar>n\<bar> \<le> 2 ^ 53"
  shows "to_double (of_int n) = of_int n"
proof -
  have pos: "to_double (of_int m) = of_int m" if m: "0 < m" "m \<le> 2 ^ 53" for m :: int
  proof -
    let ?x = "of_int m :: rat"
    let ?e = "binary_exponent ?x"
    have b: "pow2 ?e \<le> ?x" "?x < pow2 (?e + 1)" using binary_exponent_bounds [of ?x] m by auto
    have "\<exists>k. ?x / pow2 (?e - 52) = of_int k"
    proof (cases "?e \<le> 52")
      case True
      then have "pow2 0 = 2 ^ nat (52 - ?e) * pow2 (?e - 52)" using pow2_add_nat [of "?e - 52" "nat (52 - ?e)"] by simp
      then have one: "1 = 2 ^ nat (52 - ?e) * pow2 (?e - 52)" by (simp add: pow2_def)
      have "?x = of_int (m * 2 ^ nat (52 - ?e)) * pow2 (?e - 52)" using arg_cong [OF one, of "\<lambda>z. ?x * z"] by simp
      then show ?thesis by (metis nonzero_mult_div_cancel_right pow2_nonzero)
    next
      case False
      then have "pow2 53 \<le> pow2 ?e" by (intro pow2_mono) simp
      then have "?x = 2 ^ 53" using b(1) m(2) by (simp add: pow2_def)
      moreover have "?e = 53"
      proof (rule ccontr)
        assume "?e \<noteq> 53"
        then have "pow2 54 \<le> pow2 ?e" using False by (intro pow2_mono) simp
        then show False using b(1) \<open>?x = 2 ^ 53\<close> by (simp add: pow2_def)
      qed
      ultimately show ?thesis by (intro exI [of _ "2 ^ 52"]) (simp add: pow2_def)
    qed
    then obtain k where k: "?x / pow2 (?e - 52) = of_int k" by blast
    have "to_double ?x = of_int k * pow2 (?e - 52)" using m(1) k by (simp add: to_double_def Let_def)
    also have "\<dots> = ?x" unfolding k [symmetric] by simp
    finally show ?thesis .
  qed
  consider "n = 0" | "0 < n" | "n < 0" by linarith
  then show ?thesis
    using pos [of n] pos [of "- n"] assms to_double_minus [of "of_int n"] by cases auto
qed

text \<open>Whole numbers: values that are integers of at most 53 bits, on which the operations are exact.\<close>

lemma whole_ops:
  "\<bar>a + b\<bar> \<le> 2 ^ 53 \<Longrightarrow> fadd (of_int a) (of_int b) = of_int (a + b)"
  "\<bar>a - b\<bar> \<le> 2 ^ 53 \<Longrightarrow> fsub (of_int a) (of_int b) = of_int (a - b)"
  "\<bar>a * b\<bar> \<le> 2 ^ 53 \<Longrightarrow> fmul (of_int a) (of_int b) = of_int (a * b)"
  "\<bar>a\<bar> \<le> 2 ^ 53 \<Longrightarrow> fint a = of_int a"
  by (simp_all only: fadd_def fsub_def fmul_def fint_def of_int_add [symmetric] of_int_diff [symmetric]
      of_int_mult [symmetric] to_double_int)

lemma fsub_nonneg: "y \<le> x \<Longrightarrow> 0 \<le> fsub x y"
  by (simp add: fsub_def to_double_nonneg)

end
