(* ===== verification/RestStream.thy ===== *)
theory RestStream
  imports PyValues Floats
begin

text \<open>
  \<open>adapters/kiwoom_rest_stream.py\<close>: the state of one read-only quote stream. The object is a record, each
  method a state transformer. \<open>last_quotes\<close> is a map from symbols, a frame an untrusted value. The
  last sections state where a usable quote comes from, over whole histories of a stream.
\<close>

section \<open>Float seconds\<close>

text \<open>\<open>total_seconds()\<close> divides microseconds by a million and rounds to the nearest double, ties to even.\<close>

definition total_seconds :: "int \<Rightarrow> rat" where
  "total_seconds us = to_double (of_int us / 1000000)"

section \<open>Observations\<close>

record quote_observation =
  qo_symbol :: string
  qo_price :: int
  qo_exchange_clock :: string
  qo_received_at :: datetime
  qo_generation :: nat

text \<open>\<open>re.fullmatch(r"[+-]?[0-9]+", s)\<close> and \<open>int(s)\<close>, which refuses more than 4300 digits.\<close>

definition unsigned_part :: "string \<Rightarrow> string" where
  "unsigned_part s = (case s of c # r \<Rightarrow> if c = CHR ''+'' \<or> c = CHR ''-'' then r else s | [] \<Rightarrow> [])"

definition is_signed_int :: "string \<Rightarrow> bool" where
  "is_signed_int s \<longleftrightarrow> all_digits (unsigned_part s)"

definition int_max_str_digits :: nat where "int_max_str_digits = 4300"

definition abs_int_of :: "string \<Rightarrow> int option" where
  "abs_int_of s = (if length (unsigned_part s) > int_max_str_digits then None
     else Some \<bar>int_of_digits (unsigned_part s)\<bar>)"

text \<open>\<open>strptime(s, "%H%M%S").time()\<close> on six digits: a time of day, with no leap second.\<close>

definition clock_ok :: "string \<Rightarrow> bool" where
  "clock_ok s \<longleftrightarrow> six_digits s \<and> int_of_digits (take 2 s) < 24 \<and>
     int_of_digits (take 2 (drop 2 s)) < 60 \<and> int_of_digits (drop 4 s) < 60"

definition quote_fields ::
    "(string \<times> pyval) list \<Rightarrow> string \<Rightarrow> datetime \<Rightarrow> nat \<Rightarrow> quote_observation option" where
  "quote_fields fids symb received_at generation =
     (case (py_get fids ''10'', py_get fids ''20'') of
       (PyStr price, PyStr clock) \<Rightarrow>
         if \<not> is_signed_int price \<or> \<not> clock_ok clock then None
         else (case abs_int_of price of
             None \<Rightarrow> None
           | Some n \<Rightarrow> if n = 0 then None
               else Some \<lparr>qo_symbol = symb, qo_price = n, qo_exchange_clock = clock,
                 qo_received_at = received_at, qo_generation = generation\<rparr>)
     | _ \<Rightarrow> None)"

definition parse_quote ::
    "pyval \<Rightarrow> string list \<Rightarrow> datetime \<Rightarrow> nat \<Rightarrow> quote_observation option" where
  "parse_quote item symbols received_at generation =
     (case item of
       PyDict row \<Rightarrow>
         (case (py_get row ''item'', py_get row ''values'') of
           (PyStr symb, PyDict fids) \<Rightarrow>
             if py_get row ''type'' \<noteq> PyStr ''0B'' \<or> symb \<notin> set symbols then None
             else quote_fields fids symb received_at generation
         | _ \<Rightarrow> None)
     | _ \<Rightarrow> None)"

section \<open>The stream\<close>

record stream_state =
  st_symbols :: "string list"
  st_generation :: nat
  st_connected :: bool
  st_logged_in :: bool
  st_registered :: bool
  st_last_quotes :: "string \<rightharpoonup> quote_observation"
  st_reason :: string
  st_last_frame_at :: "datetime option"

definition make_stream :: "string list \<Rightarrow> stream_state result" where
  "make_stream symbols =
     ebind (raise_if (symbols = [] \<or> length symbols > 10 \<or> \<not> distinct symbols \<or>
              (\<exists>s\<in>set symbols. \<not> six_digits s)) (ValueError ''SYMBOLS_INVALID'')) (\<lambda>_.
     Inr \<lparr>st_symbols = symbols, st_generation = 0, st_connected = False, st_logged_in = False,
       st_registered = False, st_last_quotes = Map.empty, st_reason = ''DISCONNECTED'',
       st_last_frame_at = None\<rparr>)"

definition stream_begin :: "stream_state \<Rightarrow> stream_state" where
  "stream_begin S = S\<lparr>st_generation := st_generation S + 1, st_connected := True, st_logged_in := False,
     st_registered := False, st_last_quotes := Map.empty, st_last_frame_at := None,
     st_reason := ''LOGIN_PENDING''\<rparr>"

definition stream_disconnect :: "stream_state \<Rightarrow> stream_state" where
  "stream_disconnect S = S\<lparr>st_connected := False, st_logged_in := False, st_registered := False,
     st_last_quotes := Map.empty, st_reason := ''DISCONNECTED''\<rparr>"

definition registration :: "stream_state \<Rightarrow> pyval result" where
  "registration S =
     ebind (raise_if (\<not> st_connected S \<or> \<not> st_logged_in S) (ValueError ''LOGIN_UNCONFIRMED'')) (\<lambda>_.
     Inr (PyDict [(''trnm'', PyStr ''REG''), (''grp_no'', PyStr ''1''), (''refresh'', PyStr ''1''),
       (''data'', PyList [PyDict [(''item'', PyList (map PyStr (st_symbols S))),
                                  (''type'', PyList [PyStr ''0B''])]])]))"

definition stream_ack :: "(string \<times> pyval) list \<Rightarrow> stream_state \<Rightarrow> stream_state" where
  "stream_ack frame S =
     (let success = success_code (py_get frame ''return_code'')
      in if py_get frame ''trnm'' = PyStr ''LOGIN''
         then S\<lparr>st_logged_in := success, st_registered := False, st_last_quotes := Map.empty,
                st_reason := (if success then ''REGISTRATION_PENDING'' else ''LOGIN_REJECTED'')\<rparr>
         else (let registered = st_logged_in S \<and> success
               in S\<lparr>st_registered := registered, st_last_quotes := Map.empty,
                    st_reason := (if registered then ''NO_QUOTE'' else ''REGISTRATION_REJECTED'')\<rparr>))"

definition consume_quotes ::
    "pyval \<Rightarrow> datetime \<Rightarrow> stream_state \<Rightarrow> quote_observation list \<times> stream_state" where
  "consume_quotes data received_at S =
     (case data of
       PyList (item # items) \<Rightarrow>
         let observations = List.map_filter
               (\<lambda>x. parse_quote x (st_symbols S) received_at (st_generation S)) (item # items)
         in (observations, S\<lparr>st_last_quotes :=
                foldl (\<lambda>m q. m(qo_symbol q \<mapsto> q)) (st_last_quotes S) observations,
              st_reason := (if observations \<noteq> [] then ''QUOTE_OBSERVED'' else ''REAL_DATA_INVALID'')\<rparr>)
     | _ \<Rightarrow> ([], S\<lparr>st_reason := ''REAL_DATA_INVALID''\<rparr>))"

definition consume_message ::
    "(string \<times> pyval) list \<Rightarrow> string \<Rightarrow> datetime \<Rightarrow> stream_state \<Rightarrow> quote_observation list \<times> stream_state" where
  "consume_message message kind received_at S =
     (if kind = ''PING'' then ([], S)
      else if kind = ''LOGIN'' \<or> kind = ''REG'' then ([], stream_ack message S)
      else if kind \<noteq> ''REAL'' \<or> \<not> st_logged_in S \<or> \<not> st_registered S
      then ([], S\<lparr>st_reason := ''STREAM_UNCONFIRMED''\<rparr>)
      else consume_quotes (py_get message ''data'') received_at S)"

definition frame_kind :: "pyval \<Rightarrow> ((string \<times> pyval) list \<times> string) option" where
  "frame_kind frame =
     (case frame of
       PyDict message \<Rightarrow> (case py_get message ''trnm'' of PyStr kind \<Rightarrow> Some (message, kind) | _ \<Rightarrow> None)
     | _ \<Rightarrow> None)"

definition clock_uncertain :: "datetime \<Rightarrow> stream_state \<Rightarrow> bool" where
  "clock_uncertain received_at S \<longleftrightarrow> \<not> aware received_at \<or>
     (case st_last_frame_at S of None \<Rightarrow> False | Some t \<Rightarrow> dt_lt received_at t)"

definition consume :: "pyval \<Rightarrow> datetime \<Rightarrow> stream_state \<Rightarrow> quote_observation list \<times> stream_state" where
  "consume frame received_at S =
     (if \<not> st_connected S then ([], S\<lparr>st_reason := ''DISCONNECTED''\<rparr>)
      else if clock_uncertain received_at S
      then ([], S\<lparr>st_last_quotes := Map.empty, st_reason := ''CLOCK_UNCERTAIN''\<rparr>)
      else let S1 = S\<lparr>st_last_frame_at := Some received_at\<rparr>
           in case frame_kind frame of
                None \<Rightarrow> ([], S1\<lparr>st_reason := ''FRAME_INVALID''\<rparr>)
              | Some (message, kind) \<Rightarrow> consume_message message kind received_at S1)"

text \<open>The age limit is a float: a finite value is \<open>Some\<close> rational, infinities and NaN are \<open>None\<close>.\<close>

definition usable_quote :: "string \<Rightarrow> datetime \<Rightarrow> rat option \<Rightarrow> stream_state \<Rightarrow> bool" where
  "usable_quote symb now max_age S \<longleftrightarrow>
     (case (st_last_quotes S symb, max_age) of
       (Some q, Some limit) \<Rightarrow>
         st_connected S \<and> st_registered S \<and> aware now \<and> 0 < limit \<and>
         0 \<le> total_seconds (dt_minus now (qo_received_at q)) \<and>
         total_seconds (dt_minus now (qo_received_at q)) \<le> limit
     | _ \<Rightarrow> False)"

section \<open>Histories\<close>

datatype stream_event = Begin | Disconnect | Frame pyval datetime

fun stream_step :: "stream_event \<Rightarrow> stream_state \<Rightarrow> stream_state" where
  "stream_step Begin S = stream_begin S"
| "stream_step Disconnect S = stream_disconnect S"
| "stream_step (Frame f t) S = snd (consume f t S)"

definition stream_run :: "stream_event list \<Rightarrow> stream_state \<Rightarrow> stream_state" where
  "stream_run evs S = foldl (\<lambda>S e. stream_step e S) S evs"

lemma stream_run_simps [simp]:
  "stream_run [] S = S"
  "stream_run (evs @ [e]) S = stream_step e (stream_run evs S)"
  by (simp_all add: stream_run_def)


lemma stream_begin_simps [simp]:
  "st_symbols (stream_begin S) = st_symbols S" "st_generation (stream_begin S) = st_generation S + 1"
  "st_connected (stream_begin S)" "\<not> st_logged_in (stream_begin S)" "\<not> st_registered (stream_begin S)"
  "st_last_quotes (stream_begin S) = Map.empty" "st_last_frame_at (stream_begin S) = None"
  by (simp_all add: stream_begin_def)

lemma stream_disconnect_simps [simp]:
  "st_symbols (stream_disconnect S) = st_symbols S" "st_generation (stream_disconnect S) = st_generation S"
  "\<not> st_connected (stream_disconnect S)" "\<not> st_logged_in (stream_disconnect S)"
  "\<not> st_registered (stream_disconnect S)" "st_last_quotes (stream_disconnect S) = Map.empty"
  by (simp_all add: stream_disconnect_def)

lemma parse_quote_Some:
  "parse_quote item symbols t g = Some q \<Longrightarrow>
     qo_symbol q \<in> set symbols \<and> 0 < qo_price q \<and> qo_received_at q = t \<and> qo_generation q = g"
  by (auto simp: parse_quote_def quote_fields_def abs_int_of_def split: pyval.splits if_splits)

text \<open>The quotes a frame brings, and the four ways a frame is consumed.\<close>

definition brings :: "string list \<Rightarrow> nat \<Rightarrow> datetime \<Rightarrow> pyval \<Rightarrow> quote_observation \<Rightarrow> bool" where
  "brings symbols g t data q \<longleftrightarrow>
     (case data of PyList items \<Rightarrow> \<exists>item\<in>set items. parse_quote item symbols t g = Some q | _ \<Rightarrow> False)"

lemma foldl_quotes:
  "foldl (\<lambda>m q. m(qo_symbol q \<mapsto> q)) m qs symb = Some q \<Longrightarrow>
     m symb = Some q \<or> (q \<in> set qs \<and> qo_symbol q = symb)"
proof (induction qs arbitrary: m)
  case (Cons a qs)
  from Cons.IH [of "m(qo_symbol a \<mapsto> a)"] Cons.prems show ?case by (auto split: if_splits)
qed simp

lemma consume_quotes_simps [simp]:
  "st_symbols (snd (consume_quotes data t S)) = st_symbols S"
  "st_generation (snd (consume_quotes data t S)) = st_generation S"
  "st_connected (snd (consume_quotes data t S)) = st_connected S"
  "st_logged_in (snd (consume_quotes data t S)) = st_logged_in S"
  "st_registered (snd (consume_quotes data t S)) = st_registered S"
  "st_last_frame_at (snd (consume_quotes data t S)) = st_last_frame_at S"
  by (auto simp: consume_quotes_def Let_def split: pyval.splits list.splits)

lemma consume_quotes_quotes:
  assumes "st_last_quotes (snd (consume_quotes data t S)) symb = Some q"
  shows "st_last_quotes S symb = Some q \<or>
    brings (st_symbols S) (st_generation S) t data q \<and> qo_symbol q = symb"
proof (cases "\<exists>item items. data = PyList (item # items)")
  case True
  then obtain item items where "data = PyList (item # items)" by blast
  then show ?thesis
    using assms foldl_quotes
    by (fastforce simp: consume_quotes_def brings_def Let_def List.map_filter_def split: if_splits)
next
  case False
  then show ?thesis using assms by (auto simp: consume_quotes_def split: pyval.splits list.splits)
qed

lemma consume_cases [consumes 0, case_names unconnected uncertain unread ping ack unconfirmed quotes]:
  obtains "\<not> st_connected S" "snd (consume f t S) = S\<lparr>st_reason := ''DISCONNECTED''\<rparr>"
  | "st_connected S" "snd (consume f t S) = S\<lparr>st_last_quotes := Map.empty, st_reason := ''CLOCK_UNCERTAIN''\<rparr>"
  | "st_connected S" "\<not> clock_uncertain t S" "frame_kind f = None"
      "snd (consume f t S) = S\<lparr>st_last_frame_at := Some t, st_reason := ''FRAME_INVALID''\<rparr>"
  | m where "st_connected S" "\<not> clock_uncertain t S" "frame_kind f = Some (m, ''PING'')"
      "snd (consume f t S) = S\<lparr>st_last_frame_at := Some t\<rparr>"
  | m k where "st_connected S" "\<not> clock_uncertain t S" "frame_kind f = Some (m, k)" "k = ''LOGIN'' \<or> k = ''REG''"
      "snd (consume f t S) = stream_ack m (S\<lparr>st_last_frame_at := Some t\<rparr>)"
  | m k where "st_connected S" "\<not> clock_uncertain t S" "frame_kind f = Some (m, k)"
      "snd (consume f t S) = S\<lparr>st_last_frame_at := Some t, st_reason := ''STREAM_UNCONFIRMED''\<rparr>"
  | m where "st_connected S" "\<not> clock_uncertain t S" "frame_kind f = Some (m, ''REAL'')"
      "st_logged_in S" "st_registered S"
      "snd (consume f t S) = snd (consume_quotes (py_get m ''data'') t (S\<lparr>st_last_frame_at := Some t\<rparr>))"
proof -
  consider "\<not> st_connected S" | "st_connected S" "clock_uncertain t S"
    | "st_connected S" "\<not> clock_uncertain t S" "frame_kind f = None"
    | m k where "st_connected S" "\<not> clock_uncertain t S" "frame_kind f = Some (m, k)" by fastforce
  then show ?thesis
  proof cases
    case 1 then show ?thesis by (intro that(1)) (simp_all add: consume_def)
  next
    case 2 then show ?thesis by (intro that(2)) (simp_all add: consume_def)
  next
    case 3 then show ?thesis by (intro that(3)) (simp_all add: consume_def)
  next
    case k: (4 m k)
    have c: "consume f t S = consume_message m k t (S\<lparr>st_last_frame_at := Some t\<rparr>)"
      using k by (simp add: consume_def)
    consider "k = ''PING''" | "k = ''LOGIN'' \<or> k = ''REG''"
      | "k \<notin> {''PING'', ''LOGIN'', ''REG''}" "k \<noteq> ''REAL'' \<or> \<not> st_logged_in S \<or> \<not> st_registered S"
      | "k = ''REAL''" "st_logged_in S" "st_registered S" by auto
    then show ?thesis
    proof cases
      case 1 with k c show ?thesis by (intro that(4) [of m]) (simp_all add: consume_message_def)
    next
      case 2 with k c show ?thesis by (intro that(5) [of m k]) (auto simp: consume_message_def)
    next
      case 3 with k c show ?thesis by (intro that(6) [of m k]) (simp_all add: consume_message_def)
    next
      case 4 with k c show ?thesis by (intro that(7) [of m]) (simp_all add: consume_message_def)
    qed
  qed
qed

lemma stream_ack_simps [simp]:
  "st_symbols (stream_ack m S) = st_symbols S" "st_generation (stream_ack m S) = st_generation S"
  "st_connected (stream_ack m S) = st_connected S" "st_last_frame_at (stream_ack m S) = st_last_frame_at S"
  "st_last_quotes (stream_ack m S) = Map.empty"
  "st_logged_in (stream_ack m S) \<longleftrightarrow> (if py_get m ''trnm'' = PyStr ''LOGIN''
     then success_code (py_get m ''return_code'') else st_logged_in S)"
  "st_registered (stream_ack m S) \<longleftrightarrow> py_get m ''trnm'' \<noteq> PyStr ''LOGIN'' \<and> st_logged_in S \<and>
     success_code (py_get m ''return_code'')"
  by (simp_all add: stream_ack_def Let_def)

section \<open>What a stream keeps\<close>

definition stream_ok :: "stream_state \<Rightarrow> bool" where
  "stream_ok S \<longleftrightarrow> (st_registered S \<longrightarrow> st_logged_in S) \<and> (st_logged_in S \<longrightarrow> st_connected S) \<and>
     (\<forall>symb q. st_last_quotes S symb = Some q \<longrightarrow>
        st_registered S \<and> qo_symbol q = symb \<and> symb \<in> set (st_symbols S) \<and> 0 < qo_price q \<and>
        qo_generation q = st_generation S \<and> aware (qo_received_at q) \<and>
        (\<exists>t. st_last_frame_at S = Some t \<and> dt_le (qo_received_at q) t))"

lemma clock_certain:
  "\<not> clock_uncertain t S \<Longrightarrow> aware t \<and> (st_last_frame_at S = Some t' \<longrightarrow> dt_le t' t)"
  by (auto simp: clock_uncertain_def)

lemma brings_quote:
  "brings symbols g t data q \<Longrightarrow>
     qo_symbol q \<in> set symbols \<and> 0 < qo_price q \<and> qo_received_at q = t \<and> qo_generation q = g"
  by (auto simp: brings_def parse_quote_Some split: pyval.splits)

lemma stream_step_ok:
  assumes "stream_ok S"
  shows "stream_ok (stream_step e S)"
proof (cases e)
  case (Frame f t)
  show ?thesis
  proof (cases rule: consume_cases [of S f t])
    case (quotes m)
    have "stream_ok (snd (consume_quotes (py_get m ''data'') t (S\<lparr>st_last_frame_at := Some t\<rparr>)))"
      using assms quotes(2,4,5) clock_certain [OF quotes(2)]
      by (force simp: stream_ok_def dest!: consume_quotes_quotes dest: brings_quote intro: order_trans)
    with quotes Frame show ?thesis by simp
  next
    case (ack m k)
    then have "py_get m ''trnm'' = PyStr k" by (auto simp: frame_kind_def split: pyval.splits)
    with ack Frame assms show ?thesis by (auto simp: stream_ok_def)
  qed (use assms Frame clock_certain in \<open>force simp: stream_ok_def intro: order_trans\<close>)+
qed (use assms in \<open>simp_all add: stream_ok_def\<close>)

lemma make_stream_ok:
  assumes "make_stream symbols = Inr S"
  shows "stream_ok S" and "st_symbols S = symbols" and "st_generation S = 0"
    and "\<not> st_connected S" and "st_last_quotes S = Map.empty"
  using assms by (auto simp: make_stream_def stream_ok_def result_simps)

lemma stream_run_ok: "stream_ok S \<Longrightarrow> stream_ok (stream_run evs S)"
  by (induction evs rule: rev_induct) (simp_all add: stream_step_ok)

lemma stream_step_symbols [simp]: "st_symbols (stream_step e S) = st_symbols S"
proof (cases e)
  case (Frame f t)
  then show ?thesis by (cases rule: consume_cases [of S f t]) simp_all
qed simp_all

lemma stream_run_symbols [simp]: "st_symbols (stream_run evs S) = st_symbols S"
  by (induction evs rule: rev_induct) simp_all

section \<open>Where a quote comes from\<close>

text \<open>Something happened in a history, and only frames were received since.\<close>

definition since :: "(stream_event list \<Rightarrow> stream_event \<Rightarrow> bool) \<Rightarrow> stream_event list \<Rightarrow> bool" where
  "since P evs \<longleftrightarrow> (\<exists>before e after. evs = before @ e # after \<and> P before e \<and>
     (\<forall>x\<in>set after. \<exists>f t. x = Frame f t))"

definition acked :: "string \<Rightarrow> stream_event \<Rightarrow> bool" where
  "acked kind e \<longleftrightarrow> (\<exists>f t m. e = Frame f t \<and> frame_kind f = Some (m, kind) \<and>
     success_code (py_get m ''return_code''))"

definition connected_since :: "stream_event list \<Rightarrow> bool" where
  "connected_since = since (\<lambda>before e. e = Begin)"

definition logged_in_since :: "stream_event list \<Rightarrow> bool" where
  "logged_in_since = since (\<lambda>before e. acked ''LOGIN'' e \<and> connected_since before)"

definition registered_since :: "stream_event list \<Rightarrow> bool" where
  "registered_since = since (\<lambda>before e. acked ''REG'' e \<and> logged_in_since before)"

definition quoted_since :: "string list \<Rightarrow> quote_observation \<Rightarrow> stream_event list \<Rightarrow> bool" where
  "quoted_since symbols q = since (\<lambda>before e. \<exists>f t m. e = Frame f t \<and> frame_kind f = Some (m, ''REAL'') \<and>
     brings symbols (qo_generation q) t (py_get m ''data'') q \<and> registered_since before)"

lemma since_snoc: "since P (evs @ [x]) \<longleftrightarrow> P evs x \<or> since P evs \<and> (\<exists>f t. x = Frame f t)"
proof
  assume "since P (evs @ [x])"
  then obtain before e after where b: "evs @ [x] = before @ e # after" "P before e"
    "\<forall>x\<in>set after. \<exists>f t. x = Frame f t" unfolding since_def by blast
  show "P evs x \<or> since P evs \<and> (\<exists>f t. x = Frame f t)"
  proof (cases after rule: rev_cases)
    case Nil
    with b show ?thesis by simp
  next
    case (snoc ys y)
    with b show ?thesis unfolding since_def by auto
  qed
next
  assume "P evs x \<or> since P evs \<and> (\<exists>f t. x = Frame f t)"
  then show "since P (evs @ [x])"
  proof
    assume "P evs x"
    then show ?thesis unfolding since_def by (intro exI [of _ evs] exI [of _ x] exI [of _ "[]"]) simp
  next
    assume "since P evs \<and> (\<exists>f t. x = Frame f t)"
    then obtain before e after where "evs = before @ e # after" "P before e"
      "\<forall>y\<in>set (after @ [x]). \<exists>f t. y = Frame f t" unfolding since_def by auto
    then show ?thesis unfolding since_def
      by (intro exI [of _ before] exI [of _ e] exI [of _ "after @ [x]"]) simp
  qed
qed

lemma connected_since_snoc:
  "connected_since (evs @ [x]) \<longleftrightarrow> x = Begin \<or> connected_since evs \<and> (\<exists>f t. x = Frame f t)"
  by (simp add: connected_since_def since_snoc)

lemma logged_in_since_snoc:
  "logged_in_since (evs @ [x]) \<longleftrightarrow> acked ''LOGIN'' x \<and> connected_since evs \<or>
     logged_in_since evs \<and> (\<exists>f t. x = Frame f t)"
  by (simp add: logged_in_since_def since_snoc)

lemma registered_since_snoc:
  "registered_since (evs @ [x]) \<longleftrightarrow> acked ''REG'' x \<and> logged_in_since evs \<or>
     registered_since evs \<and> (\<exists>f t. x = Frame f t)"
  by (simp add: registered_since_def since_snoc)

lemma quoted_since_snoc:
  "quoted_since symbols q (evs @ [x]) \<longleftrightarrow>
     (\<exists>f t m. x = Frame f t \<and> frame_kind f = Some (m, ''REAL'') \<and>
       brings symbols (qo_generation q) t (py_get m ''data'') q) \<and> registered_since evs \<or>
     quoted_since symbols q evs \<and> (\<exists>f t. x = Frame f t)"
  by (auto simp: quoted_since_def since_snoc)

lemmas since_snocs = connected_since_snoc logged_in_since_snoc registered_since_snoc quoted_since_snoc

definition explained :: "stream_event list \<Rightarrow> stream_state \<Rightarrow> bool" where
  "explained evs S \<longleftrightarrow> (st_connected S \<longrightarrow> connected_since evs) \<and> (st_logged_in S \<longrightarrow> logged_in_since evs) \<and>
     (st_registered S \<longrightarrow> registered_since evs) \<and>
     (\<forall>symb q. st_last_quotes S symb = Some q \<longrightarrow> quoted_since (st_symbols S) q evs)"

lemma explained_same:
  assumes "explained evs S" and "st_connected T \<longrightarrow> st_connected S" and "st_logged_in T \<longrightarrow> st_logged_in S"
    and "st_registered T \<longrightarrow> st_registered S" and "st_symbols T = st_symbols S"
    and "\<forall>symb q. st_last_quotes T symb = Some q \<longrightarrow> st_last_quotes S symb = Some q"
  shows "explained (evs @ [Frame f t]) T"
  using assms unfolding explained_def since_snocs by (metis (no_types, lifting))

lemma stream_step_explained:
  assumes ok: "stream_ok S" and ex: "explained evs S"
  shows "explained (evs @ [e]) (stream_step e S)"
proof (cases e)
  case (Frame f t)
  show ?thesis
  proof (cases rule: consume_cases [of S f t])
    case (quotes m)
    let ?T = "snd (consume_quotes (py_get m ''data'') t (S\<lparr>st_last_frame_at := Some t\<rparr>))"
    have "quoted_since (st_symbols S) q (evs @ [Frame f t])" if "st_last_quotes ?T symb = Some q" for symb q
      using consume_quotes_quotes [OF that] quotes ex brings_quote
      by (fastforce simp: explained_def since_snocs)
    then have "explained (evs @ [Frame f t]) ?T"
      using explained_same [OF ex, of S f t] by (simp add: explained_def)
    with quotes Frame show ?thesis by simp
  next
    case (ack m k)
    then have k: "py_get m ''trnm'' = PyStr k" by (auto simp: frame_kind_def split: pyval.splits)
    have "explained (evs @ [Frame f t]) (stream_ack m (S\<lparr>st_last_frame_at := Some t\<rparr>))"
      using ack k ex by (auto simp: explained_def since_snocs acked_def)
    with ack Frame show ?thesis by simp
  qed (use explained_same [OF ex] Frame in simp_all)
qed (use ex in \<open>simp_all add: explained_def since_snocs\<close>)

lemma stream_run_explained:
  "make_stream symbols = Inr S \<Longrightarrow> explained evs (stream_run evs S)"
proof (induction evs rule: rev_induct)
  case Nil
  then show ?case by (auto simp: make_stream_def explained_def result_simps)
next
  case (snoc e evs)
  then show ?case by (simp add: stream_step_explained stream_run_ok make_stream_ok)
qed

section \<open>Properties\<close>

text \<open>C18: A stream never shows an old price. Whatever happens to a stream after its construction, it is
  registered only while logged in and logged in only while connected, its generation counts the
  connections, and every quote it holds is of an enrolled symbol, positive, of the present
  connection, and was received at an aware time no later than the last frame.\<close>

theorem stream_keeps_current:
  assumes "make_stream symbols = Inr S"
  shows "stream_ok (stream_run evs S) \<and> st_generation (stream_run evs S) = length (filter (\<lambda>e. e = Begin) evs)"
proof
  show "stream_ok (stream_run evs S)" using assms by (simp add: stream_run_ok make_stream_ok)
  show "st_generation (stream_run evs S) = length (filter (\<lambda>e. e = Begin) evs)"
  proof (induction evs rule: rev_induct)
    case Nil
    then show ?case using assms by (simp add: make_stream_ok)
  next
    case (snoc e evs)
    have "st_generation (stream_step e T) = st_generation T + (if e = Begin then 1 else 0)" for T
    proof (cases e)
      case (Frame f t)
      then show ?thesis by (cases rule: consume_cases [of T f t]) simp_all
    qed simp_all
    then show ?case using snoc by simp
  qed
qed

text \<open>C10: A price is usable only after a whole handshake on the present connection. If a quote of a symbol is
  usable at some time, the stream was connected, then acknowledged the login, then the registration,
  and then sent a frame with that quote, with neither a disconnect nor a new connection since; the
  quote is enrolled and positive, and its age is not negative and within the limit.\<close>

theorem usable_quote_observed:
  assumes "make_stream symbols = Inr S" and "usable_quote symb now (Some limit) (stream_run evs S)"
  shows "symb \<in> set symbols \<and>
    (\<exists>q. quoted_since symbols q evs \<and> qo_symbol q = symb \<and> 0 < qo_price q \<and>
       0 \<le> total_seconds (dt_minus now (qo_received_at q)) \<and>
       total_seconds (dt_minus now (qo_received_at q)) \<le> limit)"
proof -
  from assms(2) obtain q where q: "st_last_quotes (stream_run evs S) symb = Some q"
    "0 \<le> total_seconds (dt_minus now (qo_received_at q))"
    "total_seconds (dt_minus now (qo_received_at q)) \<le> limit"
    by (auto simp: usable_quote_def split: option.splits)
  have "quoted_since symbols q evs"
    using stream_run_explained [OF assms(1), of evs] q(1) make_stream_ok(2) [OF assms(1)]
    by (simp add: explained_def)
  moreover have "qo_symbol q = symb \<and> symb \<in> set symbols \<and> 0 < qo_price q"
    using stream_run_ok [OF make_stream_ok(1) [OF assms(1)], of evs] q(1) make_stream_ok(2) [OF assms(1)]
    by (simp add: stream_ok_def)
  ultimately show ?thesis using q by blast
qed

definition example_frames :: "stream_event list" where
  "example_frames =
     (let tick = (\<lambda>n. \<lparr>dt_instant = seconds n, dt_offset = Some 0\<rparr>);
          reply = (\<lambda>kind. PyDict [(''trnm'', PyStr kind), (''return_code'', PyInt 0)])
      in [Begin, Frame (reply ''LOGIN'') (tick 1), Frame (reply ''REG'') (tick 2),
          Frame (PyDict [(''trnm'', PyStr ''REAL''), (''data'', PyList [PyDict [(''type'', PyStr ''0B''),
            (''item'', PyStr ''005930''),
            (''values'', PyDict [(''10'', PyStr ''-71500''), (''20'', PyStr ''093000'')])]])]) (tick 3)])"

definition example_stream :: stream_state where
  "example_stream = projr (make_stream [''005930''])"

lemma example_stream_made: "make_stream [''005930''] = Inr example_stream"
proof -
  have "\<not> isl (make_stream [''005930''])" by code_simp
  then show ?thesis by (simp add: example_stream_def sum.exhaust_sel)
qed

theorem stream_keeps_current_witness:
  "stream_ok (stream_run example_frames example_stream) \<and>
     st_generation (stream_run example_frames example_stream) = 1"
  using stream_keeps_current [OF example_stream_made, of example_frames]
  by (simp add: example_frames_def Let_def)

lemma example_usable:
  "usable_quote ''005930'' \<lparr>dt_instant = seconds 5, dt_offset = Some 0\<rparr> (Some 3)
     (stream_run example_frames example_stream)"
  by code_simp

theorem usable_quote_observed_witness:
  "\<exists>q. quoted_since [''005930''] q example_frames \<and> 0 < qo_price q"
  using usable_quote_observed [OF example_stream_made example_usable] by blast

end
