(* ===== verification/RestReadonly.thy ===== *)
theory RestReadonly
  imports PyValues
begin

text \<open>
  \<open>adapters/kiwoom_rest_readonly.py\<close> and \<open>adapters/kiwoom_rest_history_spec.py\<close>: the whitelisted
  account queries, the checks on a page, and the bounded pagination. The transport is injected and not
  part of the source: it is the parameter \<open>fetch\<close>, a state transformer whose answer is a page, something
  that is no page, or an exception.
\<close>

section \<open>Queries\<close>

datatype rest_query = POSITIONS | UNFILLED | ORDER_DETAIL | ORDER_STATUS | FILLS

fun query_value :: "rest_query \<Rightarrow> string" where
  "query_value POSITIONS = ''kt00018''"
| "query_value UNFILLED = ''ka10075''"
| "query_value ORDER_DETAIL = ''kt00007''"
| "query_value ORDER_STATUS = ''kt00009''"
| "query_value FILLS = ''ka10076''"

fun row_key :: "rest_query \<Rightarrow> string" where
  "row_key POSITIONS = ''acnt_evlt_remn_indv_tot''"
| "row_key UNFILLED = ''oso''"
| "row_key ORDER_DETAIL = ''acnt_ord_cntr_prps_dtl''"
| "row_key ORDER_STATUS = ''acnt_ord_cntr_prst_array''"
| "row_key FILLS = ''cntr''"

fun required_input_keys :: "rest_query \<Rightarrow> string set" where
  "required_input_keys POSITIONS = {''qry_tp'', ''dmst_stex_tp''}"
| "required_input_keys UNFILLED = {''all_stk_tp'', ''trde_tp'', ''stex_tp''}"
| "required_input_keys ORDER_DETAIL = {''qry_tp'', ''stk_bond_tp'', ''sell_tp'', ''dmst_stex_tp''}"
| "required_input_keys ORDER_STATUS = {''stk_bond_tp'', ''mrkt_tp'', ''sell_tp'', ''qry_tp'', ''dmst_stex_tp''}"
| "required_input_keys FILLS = {''qry_tp'', ''sell_tp'', ''stex_tp''}"

fun optional_input_keys :: "rest_query \<Rightarrow> string set" where
  "optional_input_keys POSITIONS = {}"
| "optional_input_keys UNFILLED = {''stk_cd''}"
| "optional_input_keys ORDER_DETAIL = {''ord_dt'', ''stk_cd'', ''fr_ord_no''}"
| "optional_input_keys ORDER_STATUS = {''ord_dt'', ''stk_cd'', ''fr_ord_no''}"
| "optional_input_keys FILLS = {''stk_cd'', ''ord_no''}"

section \<open>Pages\<close>

record rest_page =
  rp_payload :: pyval
  rp_cont_yn :: pyval
  rp_next_key :: pyval

record rest_capture =
  rc_query :: rest_query
  rc_pages :: "rest_page list"
  rc_complete :: bool
  rc_reason :: string

definition rows_valid :: "pyval \<Rightarrow> bool" where
  "rows_valid v \<longleftrightarrow> (case v of PyList rows \<Rightarrow> \<forall>r\<in>set rows. is_dict r | _ \<Rightarrow> False)"

definition page_error :: "rest_query \<Rightarrow> rest_page \<Rightarrow> string option" where
  "page_error q p =
     (case (rp_payload p, rp_next_key p) of
       (PyDict d, PyStr key) \<Rightarrow>
         if \<not> success_code (py_get d ''return_code'') then Some ''API_SUCCESS_UNCONFIRMED''
         else if \<not> rows_valid (py_get d (row_key q)) then Some ''ROWS_INVALID''
         else if rp_cont_yn p \<notin> {PyStr ''Y'', PyStr ''N''} then Some ''CONTINUATION_UNCONFIRMED''
         else if rp_cont_yn p = PyStr ''Y'' \<and> key = [] then Some ''CURSOR_MISSING''
         else None
     | _ \<Rightarrow> Some ''RESPONSE_INVALID'')"

definition page_cursor :: "rest_page \<Rightarrow> string" where
  "page_cursor p = (case rp_next_key p of PyStr key \<Rightarrow> key | _ \<Rightarrow> [])"

text \<open>A body is a dictionary of text; the caller's dictionary has distinct keys.\<close>

definition validate_query :: "rest_query \<Rightarrow> (string \<times> string) list \<Rightarrow> int \<Rightarrow> unit result" where
  "validate_query q body max_pages =
     ebind (raise_if (max_pages \<le> 0) (ValueError ''PAGE_LIMIT_INVALID'')) (\<lambda>_.
     ebind (raise_if (\<not> (required_input_keys q \<subseteq> fst ` set body \<and>
              fst ` set body \<subseteq> required_input_keys q \<union> optional_input_keys q))
              (ValueError ''QUERY_INPUT_INVALID'')) (\<lambda>_.
     raise_if (\<exists>(k, v)\<in>set body. v = []) (ValueError ''QUERY_INPUT_INVALID'')))"

section \<open>Capturing a query\<close>

datatype fetched = Page rest_page | Not_a_page | Fetch_raised

type_synonym 's page_fetcher =
  "rest_query \<Rightarrow> (string \<times> string) list \<Rightarrow> string \<Rightarrow> string \<Rightarrow> 's \<Rightarrow> fetched \<times> 's"

definition captured :: "rest_query \<Rightarrow> rest_page list \<Rightarrow> bool \<Rightarrow> string \<Rightarrow> rest_capture" where
  "captured q pages finished reason =
     \<lparr>rc_query = q, rc_pages = pages, rc_complete = finished, rc_reason = reason\<rparr>"

text \<open>The loop: the number of turns left, the pages and cursors so far, the marker and cursor to send.\<close>

fun capture_pages ::
    "'s page_fetcher \<Rightarrow> rest_query \<Rightarrow> (string \<times> string) list \<Rightarrow> nat \<Rightarrow> rest_page list \<Rightarrow> string list \<Rightarrow>
     string \<Rightarrow> string \<Rightarrow> 's \<Rightarrow> rest_capture \<times> 's" where
  "capture_pages fetch q body 0 pages cursors marker cursor s =
     (captured q pages False ''PAGE_LIMIT_REACHED'', s)"
| "capture_pages fetch q body (Suc n) pages cursors marker cursor s =
     (case fetch q body marker cursor s of
       (Fetch_raised, s1) \<Rightarrow> (captured q pages False ''TRANSPORT_UNCONFIRMED'', s1)
     | (Not_a_page, s1) \<Rightarrow> (captured q pages False ''RESPONSE_INVALID'', s1)
     | (Page p, s1) \<Rightarrow>
         let pages1 = pages @ [p] in
         (case page_error q p of
           Some reason \<Rightarrow> (captured q pages1 False reason, s1)
         | None \<Rightarrow>
             if rp_cont_yn p = PyStr ''N'' then (captured q pages1 True ''QUERY_COMPLETE_ONLY'', s1)
             else if page_cursor p \<in> set cursors then (captured q pages1 False ''CURSOR_REPEATED'', s1)
             else capture_pages fetch q body n pages1 (cursors @ [page_cursor p]) ''Y'' (page_cursor p) s1))"

definition capture_query ::
    "'s page_fetcher \<Rightarrow> rest_query \<Rightarrow> (string \<times> string) list \<Rightarrow> int \<Rightarrow> 's \<Rightarrow> (rest_capture \<times> 's) result" where
  "capture_query fetch q body max_pages s =
     ebind (validate_query q body max_pages) (\<lambda>_.
     Inr (capture_pages fetch q body (nat max_pages) [] [] ''N'' [] s))"

section \<open>The documented history queries\<close>

record history_query_spec =
  hq_api_id :: string
  hq_section :: string
  hq_required_inputs :: "string set"
  hq_optional_inputs :: "string set"
  hq_row_key :: string
  hq_identity_columns :: "string list"
  hq_identity_confirmed :: bool

definition history_queries :: "history_query_spec list" where
  "history_queries =
     [\<lparr>hq_api_id = ''kt00007'', hq_section = ''orders'',
       hq_required_inputs = {''qry_tp'', ''stk_bond_tp'', ''sell_tp'', ''dmst_stex_tp''},
       hq_optional_inputs = {''ord_dt'', ''stk_cd'', ''fr_ord_no''}, hq_row_key = ''acnt_ord_cntr_prps_dtl'',
       hq_identity_columns = [''ord_no'', ''ori_ord'', ''ord_tm'', ''cntr_qty'', ''ord_remnq'', ''mdfy_cncl''],
       hq_identity_confirmed = False\<rparr>,
      \<lparr>hq_api_id = ''kt00009'', hq_section = ''orders'',
       hq_required_inputs = {''stk_bond_tp'', ''mrkt_tp'', ''sell_tp'', ''qry_tp'', ''dmst_stex_tp''},
       hq_optional_inputs = {''ord_dt'', ''stk_cd'', ''fr_ord_no''}, hq_row_key = ''acnt_ord_cntr_prst_array'',
       hq_identity_columns = [''ord_no'', ''orig_ord_no'', ''cntr_no'', ''cntr_tm'', ''cntr_qty''],
       hq_identity_confirmed = False\<rparr>,
      \<lparr>hq_api_id = ''ka10076'', hq_section = ''fills'',
       hq_required_inputs = {''qry_tp'', ''sell_tp'', ''stex_tp''},
       hq_optional_inputs = {''stk_cd'', ''ord_no''}, hq_row_key = ''cntr'',
       hq_identity_columns = [''ord_no'', ''orig_ord_no'', ''ord_tm'', ''cntr_pric'', ''cntr_qty'', ''oso_qty''],
       hq_identity_confirmed = False\<rparr>]"

definition history_api_ids :: "string set" where
  "history_api_ids = set (map hq_api_id history_queries)"

definition is_history_query :: "pyval \<Rightarrow> bool" where
  "is_history_query v \<longleftrightarrow> (case v of PyStr s \<Rightarrow> s \<in> history_api_ids | _ \<Rightarrow> False)"

definition history_sections :: "string set" where
  "history_sections = set (map hq_section history_queries)"

section \<open>Chains of pages\<close>

text \<open>
  The pages a transport serves when each is asked for with the cursor of the one before it, and the
  chains a capture may call complete: every page is valid, all but the last continue, with distinct
  cursors, and the last says there is no more.
\<close>

fun served ::
    "'s page_fetcher \<Rightarrow> rest_query \<Rightarrow> (string \<times> string) list \<Rightarrow> string \<Rightarrow> string \<Rightarrow> 's \<Rightarrow> rest_page list \<Rightarrow>
     's option" where
  "served fetch q body marker cursor s [] = Some s"
| "served fetch q body marker cursor s (p # ps) =
     (case fetch q body marker cursor s of
       (Page p1, s1) \<Rightarrow> if p1 = p then served fetch q body ''Y'' (page_cursor p) s1 ps else None
     | _ \<Rightarrow> None)"

fun chain_from :: "rest_query \<Rightarrow> string set \<Rightarrow> rest_page list \<Rightarrow> bool" where
  "chain_from q seen [] = False"
| "chain_from q seen (p # ps) =
     (page_error q p = None \<and>
      (if rp_cont_yn p = PyStr ''N'' then ps = []
       else page_cursor p \<notin> seen \<and> chain_from q (insert (page_cursor p) seen) ps))"

definition complete_chain :: "rest_query \<Rightarrow> rest_page list \<Rightarrow> bool" where
  "complete_chain q ps \<longleftrightarrow> ps \<noteq> [] \<and> (\<forall>p\<in>set ps. page_error q p = None) \<and>
     rp_cont_yn (last ps) = PyStr ''N'' \<and> (\<forall>p\<in>set (butlast ps). rp_cont_yn p = PyStr ''Y'') \<and>
     distinct (map page_cursor (butlast ps))"

lemma page_error_cont: "page_error q p = None \<Longrightarrow> rp_cont_yn p = PyStr ''Y'' \<or> rp_cont_yn p = PyStr ''N''"
  by (auto simp: page_error_def split: pyval.splits if_splits)

lemma page_error_cursor: "page_error q p = None \<Longrightarrow> rp_cont_yn p = PyStr ''Y'' \<Longrightarrow> page_cursor p \<noteq> []"
  by (auto simp: page_error_def page_cursor_def split: pyval.splits if_splits)

lemma page_error_rows:
  assumes "page_error q p = None"
  obtains d rows where "rp_payload p = PyDict d" and "success_code (py_get d ''return_code'')"
    and "py_get d (row_key q) = PyList rows" and "\<forall>r\<in>set rows. is_dict r"
  using assms by (auto simp: page_error_def rows_valid_def split: pyval.splits if_splits)

lemma chain_from_iff:
  "chain_from q seen ps \<longleftrightarrow> complete_chain q ps \<and> page_cursor ` set (butlast ps) \<inter> seen = {}"
proof (induction ps arbitrary: seen)
  case Nil
  show ?case by (simp add: complete_chain_def)
next
  case (Cons p ps)
  show ?case
  proof (cases ps)
    case Nil
    then show ?thesis by (auto simp: complete_chain_def)
  next
    case (Cons p2 ps2)
    then have "ps \<noteq> []" by simp
    then have "complete_chain q (p # ps) \<longleftrightarrow> page_error q p = None \<and> rp_cont_yn p = PyStr ''Y'' \<and>
        complete_chain q ps \<and> page_cursor p \<notin> page_cursor ` set (butlast ps)"
      by (auto simp: complete_chain_def)
    with Cons.IH [of "insert (page_cursor p) seen"] \<open>ps \<noteq> []\<close> show ?thesis
      by (auto dest: page_error_cont)
  qed
qed

text \<open>The loop is complete exactly on the chains the transport serves within the turns left.\<close>

lemma capture_pages_sound:
  "capture_pages fetch q body n pages cursors marker cursor s = (c, s') \<Longrightarrow> rc_complete c \<Longrightarrow>
   \<exists>ps. c = captured q (pages @ ps) True ''QUERY_COMPLETE_ONLY'' \<and> length ps \<le> n \<and>
     served fetch q body marker cursor s ps = Some s' \<and> chain_from q (set cursors) ps"
proof (induction n arbitrary: pages cursors marker cursor s)
  case 0
  then show ?case by (auto simp: captured_def)
next
  case (Suc n)
  obtain f s1 where f: "fetch q body marker cursor s = (f, s1)" by (cases "fetch q body marker cursor s")
  show ?case
  proof (cases f)
    case (Page p)
    have ok: "page_error q p = None"
      using Suc.prems f Page by (auto simp: captured_def Let_def split: option.splits if_splits)
    show ?thesis
    proof (cases "rp_cont_yn p = PyStr ''N''")
      case True
      then show ?thesis
        using Suc.prems f Page ok by (intro exI [of _ "[p]"]) (auto simp: captured_def Let_def)
    next
      case False
      then have "page_cursor p \<notin> set cursors"
        and "capture_pages fetch q body n (pages @ [p]) (cursors @ [page_cursor p]) ''Y'' (page_cursor p) s1 = (c, s')"
        using Suc.prems f Page ok by (auto simp: captured_def Let_def split: if_splits)
      from Suc.IH [OF this(2) Suc.prems(2)] this(1) False ok f Page
      obtain ps where "c = captured q (pages @ p # ps) True ''QUERY_COMPLETE_ONLY'' \<and> length ps \<le> n \<and>
          served fetch q body marker cursor s (p # ps) = Some s' \<and> chain_from q (set cursors) (p # ps)"
        by auto
      then show ?thesis by (intro exI [of _ "p # ps"]) simp
    qed
  qed (use Suc.prems f in \<open>auto simp: captured_def\<close>)
qed

lemma capture_pages_complete:
  "served fetch q body marker cursor s ps = Some s' \<Longrightarrow> chain_from q (set cursors) ps \<Longrightarrow> length ps \<le> n \<Longrightarrow>
   capture_pages fetch q body n pages cursors marker cursor s =
     (captured q (pages @ ps) True ''QUERY_COMPLETE_ONLY'', s')"
proof (induction ps arbitrary: n pages cursors marker cursor s)
  case (Cons p ps)
  then obtain m where n: "n = Suc m" by (cases n) auto
  from Cons.prems(1) obtain s1 where f: "fetch q body marker cursor s = (Page p, s1)"
    and rest: "served fetch q body ''Y'' (page_cursor p) s1 ps = Some s'"
    by (auto split: prod.splits fetched.splits if_splits)
  show ?case
  proof (cases "rp_cont_yn p = PyStr ''N''")
    case True
    then show ?thesis using Cons.prems f rest n by (simp add: Let_def)
  next
    case False
    then show ?thesis
      using Cons.IH [OF rest, of "cursors @ [page_cursor p]" m "pages @ [p]"] Cons.prems f n
      by (simp add: Let_def)
  qed
qed simp

lemma capture_pages_exact:
  "capture_pages fetch q body n [] [] marker cursor s = (captured q ps True ''QUERY_COMPLETE_ONLY'', s') \<longleftrightarrow>
     served fetch q body marker cursor s ps = Some s' \<and> complete_chain q ps \<and> length ps \<le> n"
  using capture_pages_sound [of fetch q body n "[]" "[]" marker cursor s "captured q ps True ''QUERY_COMPLETE_ONLY''" s']
    capture_pages_complete [of fetch q body marker cursor s ps s' "[]" n "[]"]
  by (auto simp: captured_def chain_from_iff)

lemma capture_pages_bound:
  "capture_pages fetch q body n pages cursors marker cursor s = (c, s') \<Longrightarrow>
   rc_query c = q \<and> length (rc_pages c) \<le> length pages + n \<and>
   (\<exists>ps. rc_pages c = pages @ ps)"
proof (induction n arbitrary: pages cursors marker cursor s)
  case (Suc n)
  obtain f s1 where f: "fetch q body marker cursor s = (f, s1)" by (cases "fetch q body marker cursor s")
  show ?case
  proof (cases "\<exists>p. f = Page p \<and> page_error q p = None \<and> rp_cont_yn p \<noteq> PyStr ''N'' \<and> page_cursor p \<notin> set cursors")
    case True
    then obtain p where "f = Page p"
      and "capture_pages fetch q body n (pages @ [p]) (cursors @ [page_cursor p]) ''Y'' (page_cursor p) s1 = (c, s')"
      using Suc.prems f by (auto simp: Let_def)
    from Suc.IH [OF this(2)] show ?thesis by auto
  next
    case False
    then show ?thesis
      using Suc.prems f
      by (auto simp: captured_def Let_def split: fetched.splits option.splits if_splits)
  qed
qed (auto simp: captured_def)

lemma capture_query_Inr_iff:
  "capture_query fetch q body max_pages s = Inr r \<longleftrightarrow>
     validate_query q body max_pages = Inr () \<and> r = capture_pages fetch q body (nat max_pages) [] [] ''N'' [] s"
  by (auto simp: capture_query_def result_simps)

section \<open>Properties\<close>

text \<open>
  C12: A capture is complete exactly when the transport served, within the page limit and with each
  page requested by the cursor of the page before it, a chain of valid pages with distinct cursors
  whose last page alone says that nothing follows; the capture is then that chain. Whatever the
  answers are, a capture never holds more pages than the limit.
\<close>

theorem capture_complete_iff:
  assumes "validate_query q body max_pages = Inr ()"
  shows "(capture_query fetch q body max_pages s = Inr (captured q ps True ''QUERY_COMPLETE_ONLY'', s') \<longleftrightarrow>
      served fetch q body ''N'' [] s ps = Some s' \<and> complete_chain q ps \<and> int (length ps) \<le> max_pages) \<and>
    (\<exists>c t. capture_query fetch q body max_pages s = Inr (c, t) \<and> int (length (rc_pages c)) \<le> max_pages \<and>
      (rc_complete c \<longrightarrow> c = captured q (rc_pages c) True ''QUERY_COMPLETE_ONLY''))"
proof -
  have pos: "0 < max_pages" using assms by (auto simp: validate_query_def result_simps)
  obtain c t where run: "capture_pages fetch q body (nat max_pages) [] [] ''N'' [] s = (c, t)"
    by (cases "capture_pages fetch q body (nat max_pages) [] [] ''N'' [] s")
  then have returns: "capture_query fetch q body max_pages s = Inr (c, t)"
    using assms by (simp add: capture_query_Inr_iff)
  have bound: "int (length (rc_pages c)) \<le> max_pages"
    using capture_pages_bound [OF run] pos by auto
  have "c = captured q (rc_pages c) True ''QUERY_COMPLETE_ONLY''" if "rc_complete c"
    using capture_pages_sound [OF run that] by (auto simp: captured_def)
  with returns bound have some: "\<exists>c t. capture_query fetch q body max_pages s = Inr (c, t) \<and>
      int (length (rc_pages c)) \<le> max_pages \<and>
      (rc_complete c \<longrightarrow> c = captured q (rc_pages c) True ''QUERY_COMPLETE_ONLY'')"
    by blast
  have "capture_query fetch q body max_pages s = Inr (captured q ps True ''QUERY_COMPLETE_ONLY'', s') \<longleftrightarrow>
      capture_pages fetch q body (nat max_pages) [] [] ''N'' [] s = (captured q ps True ''QUERY_COMPLETE_ONLY'', s')"
    using assms by (simp add: capture_query_Inr_iff eq_commute)
  also have "\<dots> \<longleftrightarrow> served fetch q body ''N'' [] s ps = Some s' \<and> complete_chain q ps \<and>
      int (length ps) \<le> max_pages"
    using pos by (simp add: capture_pages_exact le_nat_iff)
  finally show ?thesis using some by blast
qed

definition page_ending :: "string \<Rightarrow> string \<Rightarrow> rest_page" where
  "page_ending cont key =
     \<lparr>rp_payload = PyDict [(''return_code'', PyInt 0), (''cntr'', PyList [PyDict []])],
      rp_cont_yn = PyStr cont, rp_next_key = PyStr key\<rparr>"

definition two_pages :: "nat page_fetcher" where
  "two_pages q body marker cursor n =
     (Page (if n = 0 then page_ending ''Y'' ''k1'' else page_ending ''N'' []), n + 1)"

definition fills_body :: "(string \<times> string) list" where
  "fills_body = [(''qry_tp'', ''0''), (''sell_tp'', ''0''), (''stex_tp'', ''0'')]"

lemma capture_complete_iff_witness:
  "capture_query two_pages FILLS fills_body 5 0 =
     Inr (captured FILLS [page_ending ''Y'' ''k1'', page_ending ''N'' []] True ''QUERY_COMPLETE_ONLY'', 2)"
proof -
  have "validate_query FILLS fills_body 5 = Inr ()"
    by (simp add: validate_query_def fills_body_def)
  then show ?thesis
    by (rule capture_complete_iff [THEN conjunct1, THEN iffD2])
      (simp add: two_pages_def complete_chain_def page_error_def page_ending_def success_code_def py_get_def
        rows_valid_def page_cursor_def)
qed

lemma history_query_of:
  assumes "h \<in> set history_queries"
  shows "\<exists>q. query_value q = hq_api_id h \<and> required_input_keys q = hq_required_inputs h \<and>
    optional_input_keys q = hq_optional_inputs h \<and> row_key q = hq_row_key h \<and> \<not> hq_identity_confirmed h"
proof -
  have "set history_queries = {history_queries ! 0, history_queries ! 1, history_queries ! 2}"
    unfolding history_queries_def by simp
  with assms consider "h = history_queries ! 0" | "h = history_queries ! 1" | "h = history_queries ! 2"
    by blast
  then show ?thesis
  proof cases
    case 1
    then show ?thesis by (intro exI [of _ ORDER_DETAIL]) (simp add: history_queries_def)
  next
    case 2
    then show ?thesis by (intro exI [of _ ORDER_STATUS]) (simp add: history_queries_def)
  next
    case 3
    then show ?thesis by (intro exI [of _ FILLS]) (simp add: history_queries_def)
  qed
qed

text \<open>
  The documented history queries are a part of the whitelist: each names an allowed query with
  its required and optional inputs and its row table, so a body built from the specification passes
  the input check, and none claims a confirmed identity.
\<close>

theorem history_queries_whitelisted:
  assumes "h \<in> set history_queries"
  shows "\<exists>q. query_value q = hq_api_id h \<and> required_input_keys q = hq_required_inputs h \<and>
      optional_input_keys q = hq_optional_inputs h \<and> row_key q = hq_row_key h \<and> \<not> hq_identity_confirmed h \<and>
      (\<forall>body limit. 0 < limit \<longrightarrow> (\<forall>(k, v)\<in>set body. v \<noteq> []) \<longrightarrow>
        (validate_query q body limit = Inr () \<longleftrightarrow>
          hq_required_inputs h \<subseteq> fst ` set body \<and>
          fst ` set body \<subseteq> hq_required_inputs h \<union> hq_optional_inputs h))"
proof -
  obtain q where q: "query_value q = hq_api_id h" and keys: "required_input_keys q = hq_required_inputs h \<and>
      optional_input_keys q = hq_optional_inputs h \<and> row_key q = hq_row_key h \<and> \<not> hq_identity_confirmed h"
    using history_query_of [OF assms] by blast
  from keys have "\<forall>body limit. 0 < limit \<longrightarrow> (\<forall>(k, v)\<in>set body. v \<noteq> []) \<longrightarrow>
        (validate_query q body limit = Inr () \<longleftrightarrow>
          hq_required_inputs h \<subseteq> fst ` set body \<and>
          fst ` set body \<subseteq> hq_required_inputs h \<union> hq_optional_inputs h)"
    by (auto simp: validate_query_def result_simps)
  with q keys show ?thesis by blast
qed

lemma history_queries_whitelisted_witness:
  "\<exists>q. query_value q = hq_api_id (history_queries ! 2) \<and> row_key q = ''cntr''"
proof -
  have "history_queries ! 2 \<in> set history_queries" by (simp add: history_queries_def)
  from history_queries_whitelisted [OF this] show ?thesis by (auto simp: history_queries_def)
qed

end
