(* ===== verification/RestAuth.thy ===== *)
theory RestAuth
  imports RestReadonly
begin

text \<open>
  \<open>adapters/kiwoom_rest_auth.py\<close> and \<open>adapters/kiwoom_rest_transport.py\<close>: the pacing of requests, the
  credentials, the token cache, and the transport that turns one page request into one POST. Clocks, the
  sleep, the network, \<open>json.loads\<close> and the issuer are injected or are the world outside: they are
  state transformers on an outside state. Seconds of the monotonic clock are exact rationals; the rounding
  of float sums is not modelled. Every exception of this module is a \<open>ValueError\<close> with its code.
\<close>

section \<open>Pacing\<close>

record request_pacer =
  pc_interval :: rat
  pc_next :: rat

text \<open>A finite float is \<open>Some\<close> rational.\<close>

definition make_pacer :: "rat option \<Rightarrow> request_pacer result" where
  "make_pacer interval =
     (case interval of
       Some i \<Rightarrow> if i < 1 then Inl (ValueError ''INTERVAL_INVALID'') else Inr \<lparr>pc_interval = i, pc_next = 0\<rparr>
     | None \<Rightarrow> Inl (ValueError ''INTERVAL_INVALID''))"

text \<open>The last reading of the clock is returned beside the pacer: it is the time of the request.\<close>

definition acquire_slot ::
    "('s \<Rightarrow> rat \<times> 's) \<Rightarrow> (rat \<Rightarrow> 's \<Rightarrow> 's) \<Rightarrow> request_pacer \<Rightarrow> 's \<Rightarrow> rat \<times> request_pacer \<times> 's" where
  "acquire_slot clock wait p s =
     (let (t1, s1) = clock s;
          (t2, s2) = (if t1 < pc_next p then clock (wait (pc_next p - t1) s1) else (t1, s1))
      in (t2, p\<lparr>pc_next := max t2 (pc_next p) + pc_interval p\<rparr>, s2))"

section \<open>Credentials\<close>

record paper_credentials =
  pk_app_key :: string
  pk_app_secret :: string

definition credential_ok :: "string \<Rightarrow> bool" where
  "credential_ok v \<longleftrightarrow> strip v \<noteq> [] \<and> \<not> has_line_break v"

definition make_paper_credentials :: "string \<Rightarrow> string \<Rightarrow> paper_credentials result" where
  "make_paper_credentials key secret =
     ebind (raise_if (\<not> credential_ok key \<or> \<not> credential_ok secret) (ValueError ''CREDENTIALS_INVALID'')) (\<lambda>_.
     Inr \<lparr>pk_app_key = key, pk_app_secret = secret\<rparr>)"

text \<open>\<open>os.environ.get(a) or os.environ.get(b, "")\<close>.\<close>

definition env_or :: "(string \<rightharpoonup> string) \<Rightarrow> string \<Rightarrow> string \<Rightarrow> string" where
  "env_or env a b =
     (case env a of Some (c # cs) \<Rightarrow> c # cs | _ \<Rightarrow> (case env b of Some v \<Rightarrow> v | None \<Rightarrow> []))"

definition paper_credentials_from_env :: "(string \<rightharpoonup> string) \<Rightarrow> paper_credentials result" where
  "paper_credentials_from_env env =
     make_paper_credentials (env_or env ''CHERRYPULSE_PAPER_APP_KEY'' ''KIWOOM_APP_KEY'')
       (env_or env ''CHERRYPULSE_PAPER_APP_SECRET'' ''KIWOOM_APP_SECRET'')"

section \<open>Issuing a token\<close>

definition max_response_bytes :: int where "max_response_bytes = 1024 * 1024"

definition timeout_ok :: "rat option \<Rightarrow> bool" where
  "timeout_ok timeout \<longleftrightarrow> (case timeout of Some t \<Rightarrow> 0 < t \<and> t \<le> 30 | None \<Rightarrow> False)"

text \<open>A POST answers with its raw body, read to one byte past the limit, or raises.\<close>

type_synonym 's poster = "string \<Rightarrow> (string \<times> string) list \<Rightarrow> (string \<times> string) list \<Rightarrow> 's \<Rightarrow>
  (string \<times> (string \<times> string) list) option \<times> 's"

definition token_url :: string where
  "token_url = ''https://mockapi.kiwoom.com/oauth2/token''"

definition issue_token ::
    "('s \<Rightarrow> rat \<times> 's) \<Rightarrow> (rat \<Rightarrow> 's \<Rightarrow> 's) \<Rightarrow> 's poster \<Rightarrow> (string \<Rightarrow> pyval option) \<Rightarrow> paper_credentials \<Rightarrow>
     request_pacer \<Rightarrow> 's \<Rightarrow> (string \<times> pyval) list result \<times> request_pacer \<times> 's" where
  "issue_token clock wait post loads c p s =
     (let (_, p1, s1) = acquire_slot clock wait p s;
          (answer, s2) = post token_url
            [(''Content-Type'', ''application/json;charset=UTF-8'')]
            [(''grant_type'', ''client_credentials''), (''appkey'', pk_app_key c), (''secretkey'', pk_app_secret c)] s1
      in (case answer of
            None \<Rightarrow> Inl (ValueError ''AUTH_UNCONFIRMED'')
          | Some (raw, _) \<Rightarrow>
              if int (length raw) > max_response_bytes then Inl (ValueError ''AUTH_RESPONSE_TOO_LARGE'')
              else (case loads raw of
                  Some (PyDict d) \<Rightarrow> Inr d
                | _ \<Rightarrow> Inl (ValueError ''AUTH_RESPONSE_INVALID'')), p1, s2))"

section \<open>Expiry times\<close>

text \<open>The proleptic Gregorian calendar; instants count from 1970-01-01 UTC.\<close>

definition leap_year :: "int \<Rightarrow> bool" where
  "leap_year y \<longleftrightarrow> y mod 4 = 0 \<and> (y mod 100 \<noteq> 0 \<or> y mod 400 = 0)"

definition days_in_month :: "int \<Rightarrow> int \<Rightarrow> int" where
  "days_in_month y m = (if m = 2 then if leap_year y then 29 else 28 else if m \<in> {4, 6, 9, 11} then 30 else 31)"

definition days_before_month :: "int \<Rightarrow> int \<Rightarrow> int" where
  "days_before_month y m = sum_list (map (days_in_month y) [1..m - 1])"

definition day_number :: "int \<Rightarrow> int \<Rightarrow> int \<Rightarrow> int" where
  "day_number y m d = (y - 1) * 365 + (y - 1) div 4 - (y - 1) div 100 + (y - 1) div 400 +
     days_before_month y m + d - 719163"

text \<open>\<open>datetime.strptime(s, "%Y%m%d%H%M%S").replace(tzinfo=KST)\<close> on fourteen ASCII digits.\<close>

definition parse_kst :: "string \<Rightarrow> datetime option" where
  "parse_kst s =
     (let y = int_of_digits (take 4 s); m = int_of_digits (take 2 (drop 4 s)); d = int_of_digits (take 2 (drop 6 s));
          h = int_of_digits (take 2 (drop 8 s)); mi = int_of_digits (take 2 (drop 10 s));
          sec = int_of_digits (drop 12 s)
      in if 1 \<le> y \<and> 1 \<le> m \<and> m \<le> 12 \<and> 1 \<le> d \<and> d \<le> days_in_month y m \<and> h < 24 \<and> mi < 60 \<and> sec < 60
         then Some \<lparr>dt_instant = seconds (day_number y m d * 86400 + h * 3600 + mi * 60 + sec - 32400),
                dt_offset = Some 32400\<rparr>
         else None)"

definition fourteen_digits :: "string \<Rightarrow> bool" where
  "fourteen_digits s \<longleftrightarrow> length s = 14 \<and> (\<forall>c\<in>set s. is_digit c)"

definition token_fields :: "(string \<times> pyval) list \<Rightarrow> (string \<times> string) option" where
  "token_fields payload =
     (case (py_get payload ''token_type'', py_get payload ''token'', py_get payload ''expires_dt'') of
       (PyStr kind, PyStr token, PyStr expires) \<Rightarrow>
         if map lower kind = ''bearer'' \<and> token \<noteq> [] \<and> \<not> has_line_break token \<and> fourteen_digits expires
         then Some (token, expires) else None
     | _ \<Rightarrow> None)"

definition parse_token :: "(string \<times> pyval) list \<Rightarrow> datetime \<Rightarrow> (string \<times> datetime) result" where
  "parse_token payload now =
     (if \<not> success_code (py_get payload ''return_code'') then Inl (ValueError ''AUTH_SUCCESS_UNCONFIRMED'')
      else case token_fields payload of
        None \<Rightarrow> Inl (ValueError ''TOKEN_INVALID'')
      | Some (token, expires) \<Rightarrow>
          if \<not> aware now then Inl (ValueError ''TOKEN_INVALID'')
          else (case parse_kst expires of
              None \<Rightarrow> Inl (ValueError ''TIME_INVALID'')
            | Some expiry \<Rightarrow>
                if dt_le expiry (dt_plus now (seconds 60)) then Inl (ValueError ''TOKEN_EXPIRED'')
                else Inr (token, expiry)))"

section \<open>The token cache\<close>

record token_cache =
  tc_token :: "string option"
  tc_expires :: "datetime option"
  tc_last_now :: "datetime option"

definition new_token_cache :: token_cache where
  "new_token_cache = \<lparr>tc_token = None, tc_expires = None, tc_last_now = None\<rparr>"

definition cached_token :: "datetime \<Rightarrow> token_cache \<Rightarrow> string option" where
  "cached_token now C =
     (case (tc_token C, tc_expires C) of
       (Some token, Some expires) \<Rightarrow> if dt_lt (dt_plus now (seconds 60)) expires then Some token else None
     | _ \<Rightarrow> None)"

definition renew_token ::
    "('s \<Rightarrow> datetime \<times> 's) \<Rightarrow> ('s \<Rightarrow> (string \<times> pyval) list result \<times> 's) \<Rightarrow> datetime \<Rightarrow> token_cache \<Rightarrow> 's \<Rightarrow>
     string result \<times> token_cache \<times> 's" where
  "renew_token clock issue now C s =
     (let failed = \<lambda>s. (Inl (ValueError ''AUTH_UNCONFIRMED''), C\<lparr>tc_token := None\<rparr>, s)
      in case issue s of
        (Inl _, s1) \<Rightarrow> failed s1
      | (Inr payload, s1) \<Rightarrow>
          let (later, s2) = clock s1
          in (case parse_token payload later of
              Inl _ \<Rightarrow> failed s2
            | Inr (token, expiry) \<Rightarrow>
                if dt_lt later now then failed s2
                else (Inr token, \<lparr>tc_token = Some token, tc_expires = Some expiry, tc_last_now = Some later\<rparr>, s2)))"

definition get_token ::
    "('s \<Rightarrow> datetime \<times> 's) \<Rightarrow> ('s \<Rightarrow> (string \<times> pyval) list result \<times> 's) \<Rightarrow> token_cache \<Rightarrow> 's \<Rightarrow>
     string result \<times> token_cache \<times> 's" where
  "get_token clock issue C s =
     (let (now, s1) = clock s
      in if \<not> aware now \<or> (case tc_last_now C of None \<Rightarrow> False | Some t \<Rightarrow> dt_lt now t)
         then (Inl (ValueError ''AUTH_CLOCK_UNCERTAIN''), C\<lparr>tc_token := None\<rparr>, s1)
         else let C1 = C\<lparr>tc_last_now := Some now\<rparr>
              in case cached_token now C1 of
                Some token \<Rightarrow> (Inr token, C1, s1)
              | None \<Rightarrow> renew_token clock issue now C1 s1)"

section \<open>The transport\<close>

definition account_url :: string where
  "account_url = ''https://mockapi.kiwoom.com/api/dostk/acnt''"

definition token_ok :: "string \<Rightarrow> bool" where
  "token_ok t \<longleftrightarrow> t \<noteq> [] \<and> \<not> has_line_break t"

definition header_or_empty :: "(string \<times> string) list \<Rightarrow> string \<Rightarrow> pyval" where
  "header_or_empty hs k = PyStr (case map_of hs k of Some v \<Rightarrow> v | None \<Rightarrow> [])"

definition page_headers :: "rest_query \<Rightarrow> string \<Rightarrow> string \<Rightarrow> string \<Rightarrow> (string \<times> string) list" where
  "page_headers q token cont_yn next_key =
     [(''Content-Type'', ''application/json;charset=UTF-8''), (''api-id'', query_value q),
      (''authorization'', ''Bearer '' @ token), (''cont-yn'', cont_yn), (''next-key'', next_key)]"

text \<open>The provider of tokens may share the pacer of the transport, as it does in the tools.\<close>

definition fetch_page ::
    "('s \<Rightarrow> rat \<times> 's) \<Rightarrow> (rat \<Rightarrow> 's \<Rightarrow> 's) \<Rightarrow> 's poster \<Rightarrow> (string \<Rightarrow> pyval option) \<Rightarrow>
     (request_pacer \<times> 's \<Rightarrow> string result \<times> request_pacer \<times> 's) \<Rightarrow> (request_pacer \<times> 's) page_fetcher" where
  "fetch_page clock wait post loads token_provider q body cont_yn next_key S =
     (case validate_query q body 1 of
       Inl _ \<Rightarrow> (Fetch_raised, S)
     | Inr _ \<Rightarrow>
         (case token_provider S of
           (Inl _, S1) \<Rightarrow> (Fetch_raised, S1)
         | (Inr token, p1, s1) \<Rightarrow>
             if \<not> token_ok token then (Fetch_raised, p1, s1)
             else (let (_, p2, s2) = acquire_slot clock wait p1 s1;
                       (answer, s3) = post account_url (page_headers q token cont_yn next_key) body s2
                   in (case answer of
                        None \<Rightarrow> Fetch_raised
                      | Some (raw, hs) \<Rightarrow>
                          if int (length raw) > max_response_bytes then Fetch_raised
                          else (case loads raw of
                              Some (PyDict d) \<Rightarrow> Page \<lparr>rp_payload = PyDict d,
                                rp_cont_yn = header_or_empty hs ''cont-yn'', rp_next_key = header_or_empty hs ''next-key''\<rparr>
                            | _ \<Rightarrow> Fetch_raised), p2, s3))))"

section \<open>Lemmas\<close>

text \<open>
  What is assumed of the monotonic clock and the sleep: there is a time of the outside state that a
  reading of the clock lies between, and that a sleep moves by at least its length.
\<close>

definition steady_clock :: "('s \<Rightarrow> rat \<times> 's) \<Rightarrow> (rat \<Rightarrow> 's \<Rightarrow> 's) \<Rightarrow> ('s \<Rightarrow> rat) \<Rightarrow> bool" where
  "steady_clock clock wait time \<longleftrightarrow>
     (\<forall>s. time s \<le> fst (clock s) \<and> fst (clock s) \<le> time (snd (clock s))) \<and>
     (\<forall>s d. 0 < d \<longrightarrow> time s + d \<le> time (wait d s))"

lemma acquire_slot_times:
  assumes "steady_clock clock wait time" and "acquire_slot clock wait p s = (t, p', s')"
  shows "pc_next p \<le> t \<and> time s \<le> t \<and> t \<le> time s' \<and> pc_next p' = t + pc_interval p \<and>
    pc_interval p' = pc_interval p"
proof -
  obtain t1 s1 where c: "clock s = (t1, s1)" by (cases "clock s")
  have t1: "time s \<le> t1" "t1 \<le> time s1" using assms(1) c by (auto simp: steady_clock_def dest: spec [of _ s])
  show ?thesis
  proof (cases "t1 < pc_next p")
    case True
    let ?w = "wait (pc_next p - t1) s1"
    have "time s1 + (pc_next p - t1) \<le> time ?w" using assms(1) True by (simp add: steady_clock_def)
    moreover have "time ?w \<le> fst (clock ?w)" "fst (clock ?w) \<le> time (snd (clock ?w))"
      using assms(1) by (auto simp: steady_clock_def)
    ultimately have "pc_next p \<le> fst (clock ?w)" "time s \<le> fst (clock ?w)" "fst (clock ?w) \<le> time (snd (clock ?w))"
      using t1 True by linarith+
    then show ?thesis
      using assms(2) c True by (auto simp: acquire_slot_def max_def split: prod.splits)
  next
    case False
    then show ?thesis using assms(2) c t1 by (auto simp: acquire_slot_def max_def)
  qed
qed

text \<open>Requests of one session: before each one, the outside state changes in some way.\<close>

fun paced_times ::
    "('s \<Rightarrow> rat \<times> 's) \<Rightarrow> (rat \<Rightarrow> 's \<Rightarrow> 's) \<Rightarrow> ('s \<Rightarrow> 's) list \<Rightarrow> request_pacer \<Rightarrow> 's \<Rightarrow> rat list" where
  "paced_times clock wait [] p s = []"
| "paced_times clock wait (work # works) p s =
     (case acquire_slot clock wait p (work s) of
       (t, p', s') \<Rightarrow> t # paced_times clock wait works p' s')"

lemma paced_times_spaced:
  assumes "steady_clock clock wait time"
  shows "successively (\<lambda>a b. a + pc_interval p \<le> b) (paced_times clock wait works p s) \<and>
    (\<forall>t ts. paced_times clock wait works p s = t # ts \<longrightarrow> pc_next p \<le> t)"
proof (induction works arbitrary: p s)
  case (Cons work works)
  obtain t p' s' where a: "acquire_slot clock wait p (work s) = (t, p', s')"
    by (cases "acquire_slot clock wait p (work s)")
  note f = acquire_slot_times [OF assms a]
  from Cons.IH [of p' s'] f show ?case
    by (cases "paced_times clock wait works p' s'") (simp_all add: a)
qed simp

section \<open>Properties\<close>

text \<open>C24: Requests of one session are at least an interval apart. With a clock that does not run backwards and a
  sleep that lasts as long as asked, whatever happens between the requests, each waits until at least
  the interval of the pacer, which is at least one second, after the one before it.\<close>

theorem requests_paced:
  assumes "make_pacer interval = Inr p" and "steady_clock clock wait time"
  shows "successively (\<lambda>a b. a + pc_interval p \<le> b) (paced_times clock wait works p s) \<and> 1 \<le> pc_interval p"
  using paced_times_spaced [OF assms(2)] assms(1) by (auto simp: make_pacer_def split: option.splits if_splits)

theorem requests_paced_witness:
  "successively (\<lambda>a b. a + 11 / 10 \<le> b)
     (paced_times (\<lambda>s. (s, s + 1 / 100)) (\<lambda>d s. s + d) [id, id, \<lambda>s. s + 5, id] \<lparr>pc_interval = 11 / 10, pc_next = 0\<rparr> 0)"
proof -
  have "make_pacer (Some (11 / 10)) = Inr \<lparr>pc_interval = 11 / 10, pc_next = 0\<rparr>" by (simp add: make_pacer_def)
  moreover have "steady_clock (\<lambda>s. (s, s + 1 / 100)) (\<lambda>d s. s + d) (id :: rat \<Rightarrow> rat)"
    by (simp add: steady_clock_def)
  ultimately show ?thesis
    using requests_paced [of "Some (11 / 10)" "\<lparr>pc_interval = 11 / 10, pc_next = 0\<rparr>"
        "\<lambda>s. (s, s + 1 / 100)" "\<lambda>d s. s + d" id "[id, id, \<lambda>s. s + 5, id]" 0]
    by (simp del: paced_times.simps)
qed

text \<open>The token cache fails closed. A call that returns a token leaves it cached with an expiry more than a
  minute after the latest clock reading, which is aware and no earlier than any reading before; the token
  is the cached one, with nothing issued, or was parsed from a fresh answer. A call that raises leaves
  no token in the cache and has one of two codes.\<close>

theorem get_token_fails_closed:
  assumes "get_token clock issue C s = (r, C', s')"
  shows "(\<forall>token. r = Inr token \<longrightarrow> tc_token C' = Some token \<and>
      (\<exists>n e. tc_last_now C' = Some n \<and> aware n \<and> tc_expires C' = Some e \<and> dt_lt (dt_plus n (seconds 60)) e \<and>
        (\<forall>t. tc_last_now C = Some t \<longrightarrow> dt_le t n) \<and>
        (tc_token C = Some token \<and> tc_expires C = Some e \<and> s' = snd (clock s) \<or>
         (\<exists>payload. parse_token payload n = Inr (token, e) \<and> fst (issue (snd (clock s))) = Inr payload)))) \<and>
    (\<forall>err. r = Inl err \<longrightarrow> tc_token C' = None \<and>
      err \<in> {ValueError ''AUTH_CLOCK_UNCERTAIN'', ValueError ''AUTH_UNCONFIRMED''})"
proof -
  obtain now s1 where c: "clock s = (now, s1)" by (cases "clock s")
  let ?uncertain = "\<not> aware now \<or> (case tc_last_now C of None \<Rightarrow> False | Some t \<Rightarrow> dt_lt now t)"
  let ?C1 = "C\<lparr>tc_last_now := Some now\<rparr>"
  show ?thesis
  proof (cases "?uncertain \<or> cached_token now ?C1 \<noteq> None")
    case True
    then show ?thesis
      using assms c by (auto simp: get_token_def cached_token_def split: option.splits if_splits)
  next
    case False
    then have renew: "renew_token clock issue now ?C1 s1 = (r, C', s')"
      and now: "aware now" "\<forall>t. tc_last_now C = Some t \<longrightarrow> dt_le t now"
      using assms c by (auto simp: get_token_def split: option.splits)
    show ?thesis
    proof (cases r)
      case (Inl err)
      then show ?thesis using renew
        by (auto simp: renew_token_def Let_def split: prod.splits sum.splits if_splits)
    next
      case (Inr token)
      then obtain payload later expiry where p: "fst (issue s1) = Inr payload" "\<not> dt_lt later now"
        "parse_token payload later = Inr (token, expiry)"
        "C' = \<lparr>tc_token = Some token, tc_expires = Some expiry, tc_last_now = Some later\<rparr>"
        using renew by (auto simp: renew_token_def Let_def split: prod.splits sum.splits if_splits)
      then have "aware later" "dt_lt (dt_plus later (seconds 60)) expiry"
        by (auto simp: parse_token_def split: option.splits if_splits prod.splits)
      with p now Inr c show ?thesis by fastforce
    qed
  qed
qed

definition example_payload :: "(string \<times> pyval) list" where
  "example_payload = [(''return_code'', PyInt 0), (''token_type'', PyStr ''Bearer''), (''token'', PyStr ''t1''),
     (''expires_dt'', PyStr ''20261001120000'')]"

definition example_clock :: "int \<Rightarrow> datetime \<times> int" where
  "example_clock n = (\<lparr>dt_instant = seconds (1790000000 + n), dt_offset = Some 0\<rparr>, n + 1)"

theorem get_token_fails_closed_witness:
  "tc_token (fst (snd (get_token example_clock (\<lambda>s. (Inr example_payload, s)) new_token_cache 0))) = Some ''t1''"
proof -
  have "fst (get_token example_clock (\<lambda>s. (Inr example_payload, s)) new_token_cache 0) = Inr ''t1''" by code_simp
  then show ?thesis
    using get_token_fails_closed [of example_clock "\<lambda>s. (Inr example_payload, s)" new_token_cache 0]
    by (metis prod.collapse)
qed

end
