(* ===== verification/RestWs.thy ===== *)
theory RestWs
  imports RestStream RestAuth
begin

text \<open>
  \<open>adapters/kiwoom_rest_ws.py\<close>: the bounded capture of a quote stream, with its reconnects. Everything
  injected (clocks, token, pacing, socket, sink) and \<open>json.loads\<close> is the environment, whose operations
  are state transformers that may raise. A step keeps what it changed before it raised. The receive
  loop ends by the clock alone, so it carries fuel; a section below shows when some fuel is enough.
\<close>

section \<open>Failures\<close>

datatype ws_error = TimeoutError | ModuleNotFoundError | OsError | WsValueError | RuntimeError | OtherError

fun safe_failure_kind :: "ws_error \<Rightarrow> string" where
  "safe_failure_kind TimeoutError = ''TIMEOUT''"
| "safe_failure_kind ModuleNotFoundError = ''DEPENDENCY_ERROR''"
| "safe_failure_kind OsError = ''OS_ERROR''"
| "safe_failure_kind WsValueError = ''VALUE_ERROR''"
| "safe_failure_kind RuntimeError = ''RUNTIME_ERROR''"
| "safe_failure_kind OtherError = ''OTHER''"

section \<open>The environment and the state\<close>

datatype raw_frame = Raw_text string | Raw_bytes string

datatype packet = Plain string | Json pyval

record 's ws_env =
  we_clock :: "'s \<Rightarrow> rat \<times> 's"
  we_now :: "'s \<Rightarrow> datetime \<times> 's"
  we_token :: "'s \<Rightarrow> (ws_error + string) \<times> 's"
  we_acquire :: "'s \<Rightarrow> (ws_error + unit) \<times> 's"
  we_connect :: "rat \<Rightarrow> 's \<Rightarrow> (ws_error + unit) \<times> 's"
  we_send :: "packet \<Rightarrow> 's \<Rightarrow> (ws_error + unit) \<times> 's"
  we_recv :: "rat \<Rightarrow> 's \<Rightarrow> (ws_error + raw_frame) \<times> 's"
  we_close :: "'s \<Rightarrow> (ws_error + unit) \<times> 's"
  we_sink :: "(quote_observation \<Rightarrow> 's \<Rightarrow> (ws_error + unit) \<times> 's) option"
  we_decode_utf8 :: "string \<Rightarrow> string option"
  we_loads :: "string \<Rightarrow> pyval option"

record 's ws_state =
  ws_stream :: stream_state
  ws_quotes :: nat
  ws_malformed :: nat
  ws_world :: 's

type_synonym ('s, 'a) ws_step = "'s ws_state \<Rightarrow> (ws_error + 'a) \<times> 's ws_state"

definition wreturn :: "'a \<Rightarrow> ('s, 'a) ws_step" where
  "wreturn x w = (Inr x, w)"

definition wbind :: "('s, 'a) ws_step \<Rightarrow> ('a \<Rightarrow> ('s, 'b) ws_step) \<Rightarrow> ('s, 'b) ws_step" where
  "wbind m f w = (case m w of (Inl e, w1) \<Rightarrow> (Inl e, w1) | (Inr x, w1) \<Rightarrow> f x w1)"

definition outside :: "('s \<Rightarrow> (ws_error + 'a) \<times> 's) \<Rightarrow> ('s, 'a) ws_step" where
  "outside f w = (case f (ws_world w) of (r, s) \<Rightarrow> (r, w\<lparr>ws_world := s\<rparr>))"

definition observed :: "('s \<Rightarrow> 'a \<times> 's) \<Rightarrow> ('s, 'a) ws_step" where
  "observed f w = (case f (ws_world w) of (x, s) \<Rightarrow> (Inr x, w\<lparr>ws_world := s\<rparr>))"

section \<open>One frame\<close>

definition decode_frame :: "'s ws_env \<Rightarrow> raw_frame \<Rightarrow> pyval option" where
  "decode_frame E raw =
     (let text = (case raw of Raw_text t \<Rightarrow> Some t | Raw_bytes b \<Rightarrow> we_decode_utf8 E b);
          size = (case raw of Raw_text t \<Rightarrow> length t | Raw_bytes b \<Rightarrow> length b)
      in if int size > max_response_bytes then None
         else case text of
           None \<Rightarrow> None
         | Some t \<Rightarrow> if strip t = ''PING'' then Some (PyStr ''PING'') else we_loads E t)"

fun emit_all :: "(quote_observation \<Rightarrow> 's \<Rightarrow> (ws_error + unit) \<times> 's) \<Rightarrow> quote_observation list \<Rightarrow> ('s, unit) ws_step" where
  "emit_all sink [] = wreturn ()"
| "emit_all sink (q # qs) = wbind (outside (sink q)) (\<lambda>_. emit_all sink qs)"

definition emit :: "'s ws_env \<Rightarrow> quote_observation list \<Rightarrow> ('s, unit) ws_step" where
  "emit E qs = (case we_sink E of None \<Rightarrow> wreturn () | Some sink \<Rightarrow> emit_all sink qs)"

definition ping_message :: "pyval \<Rightarrow> bool" where
  "ping_message frame \<longleftrightarrow> (case frame of PyDict m \<Rightarrow> py_get m ''trnm'' = PyStr ''PING'' | _ \<Rightarrow> False)"

definition consume_frame :: "pyval \<Rightarrow> datetime \<Rightarrow> ('s, quote_observation list) ws_step" where
  "consume_frame frame t w =
     (case consume frame t (ws_stream w) of
       (qs, S) \<Rightarrow> (Inr qs, w\<lparr>ws_stream := S, ws_quotes := ws_quotes w + length qs\<rparr>))"

definition send_registration :: "'s ws_env \<Rightarrow> ('s, unit) ws_step" where
  "send_registration E w =
     (case registration (ws_stream w) of
       Inl _ \<Rightarrow> (Inl WsValueError, w)
     | Inr message \<Rightarrow> outside (we_send E (Json message)) w)"

text \<open>A frame that is no ping: the result is the new deadline of the handshake, and whether to stop.\<close>

definition handle_frame :: "'s ws_env \<Rightarrow> rat \<Rightarrow> rat \<Rightarrow> pyval \<Rightarrow> ('s, rat \<times> bool) ws_step" where
  "handle_frame E deadline phase frame w =
     (let was_logged_in = st_logged_in (ws_stream w);
          rejected = \<lambda>w. st_reason (ws_stream w) \<in> {''LOGIN_REJECTED'', ''REGISTRATION_REJECTED''}
      in wbind (observed (we_now E)) (\<lambda>t.
         wbind (consume_frame frame t) (\<lambda>qs.
         wbind (emit E qs) (\<lambda>_ w1.
         if \<not> was_logged_in \<and> st_logged_in (ws_stream w1)
         then wbind (send_registration E) (\<lambda>_.
              wbind (observed (we_clock E)) (\<lambda>c w2. (Inr (min deadline (c + 10), rejected w2), w2))) w1
         else (Inr (phase, rejected w1), w1)))) w)"

definition pump_frame :: "'s ws_env \<Rightarrow> rat \<Rightarrow> rat \<Rightarrow> raw_frame \<Rightarrow> ('s, rat \<times> bool) ws_step" where
  "pump_frame E deadline phase raw w =
     (case decode_frame E raw of
       None \<Rightarrow> (Inr (phase, False), w\<lparr>ws_malformed := ws_malformed w + 1\<rparr>)
     | Some frame \<Rightarrow>
         if frame = PyStr ''PING''
         then wbind (outside (we_send E (Plain ''PING''))) (\<lambda>_. wreturn (phase, False)) w
         else if ping_message frame
         then wbind (outside (we_send E (Json frame))) (\<lambda>_. wreturn (phase, False)) w
         else handle_frame E deadline phase frame w)"

section \<open>The receive loop\<close>

definition handshake_check :: "'s ws_env \<Rightarrow> rat \<Rightarrow> ('s, unit) ws_step" where
  "handshake_check E phase w =
     (if st_registered (ws_stream w) then (Inr (), w)
      else wbind (observed (we_clock E)) (\<lambda>c w1. if c \<ge> phase then (Inl TimeoutError, w1) else (Inr (), w1)) w)"

text \<open>One turn after the test of the clock: a receive that times out only goes on.\<close>

definition pump_turn :: "'s ws_env \<Rightarrow> rat \<Rightarrow> rat \<Rightarrow> ('s, rat \<times> bool) ws_step" where
  "pump_turn E deadline phase =
     wbind (handshake_check E phase) (\<lambda>_.
     wbind (observed (we_clock E)) (\<lambda>c w.
     case outside (we_recv E (min 1 (deadline - c))) w of
       (Inl TimeoutError, w1) \<Rightarrow> (Inr (phase, False), w1)
     | (Inl e, w1) \<Rightarrow> (Inl e, w1)
     | (Inr raw, w1) \<Rightarrow> pump_frame E deadline phase raw w1))"

fun pump_loop :: "'s ws_env \<Rightarrow> rat \<Rightarrow> nat \<Rightarrow> rat \<Rightarrow> 's ws_state \<Rightarrow> ((ws_error + unit) \<times> 's ws_state) option" where
  "pump_loop E deadline 0 phase w = None"
| "pump_loop E deadline (Suc n) phase w =
     (case we_clock E (ws_world w) of
       (c, s) \<Rightarrow>
         if \<not> c < deadline then Some (Inr (), w\<lparr>ws_world := s\<rparr>)
         else (case pump_turn E deadline phase (w\<lparr>ws_world := s\<rparr>) of
             (Inl e, w1) \<Rightarrow> Some (Inl e, w1)
           | (Inr (phase1, stop), w1) \<Rightarrow> if stop then Some (Inr (), w1) else pump_loop E deadline n phase1 w1))"

definition pump :: "'s ws_env \<Rightarrow> nat \<Rightarrow> rat \<Rightarrow> 's ws_state \<Rightarrow> ((ws_error + unit) \<times> 's ws_state) option" where
  "pump E fuel deadline w =
     (case we_clock E (ws_world w) of
       (c, s) \<Rightarrow> pump_loop E deadline fuel (min deadline (c + 10)) (w\<lparr>ws_world := s\<rparr>))"

section \<open>The capture\<close>

record stream_capture =
  sp_connections :: nat
  sp_quotes_observed :: nat
  sp_reason :: string
  sp_fresh_before_close :: bool
  sp_malformed_frames :: nat
  sp_orders_enabled :: bool
  sp_account_reconciled :: bool
  sp_failure_stage :: "string option"
  sp_failure_kind :: "string option"

text \<open>The local variables of the capture that survive an attempt.\<close>

record capture_vars =
  cv_connections :: nat
  cv_reason :: string
  cv_fresh :: bool
  cv_stage :: "string option"
  cv_kind :: "string option"

fun any_usable :: "'s ws_env \<Rightarrow> string list \<Rightarrow> 's ws_state \<Rightarrow> bool \<times> 's ws_state" where
  "any_usable E [] w = (False, w)"
| "any_usable E (symb # symbs) w =
     (case we_now E (ws_world w) of
       (t, s) \<Rightarrow> if usable_quote symb t (Some 3) (ws_stream w) then (True, w\<lparr>ws_world := s\<rparr>)
                  else any_usable E symbs (w\<lparr>ws_world := s\<rparr>))"

text \<open>\<open>finally\<close>: close the socket, if there is one, and leave the stream disconnected.\<close>

definition finish_attempt :: "'s ws_env \<Rightarrow> bool \<Rightarrow> capture_vars \<Rightarrow> 's ws_state \<Rightarrow> capture_vars \<times> 's ws_state" where
  "finish_attempt E has_socket v w =
     (let (closed, w1) = (if has_socket then (case outside (we_close E) w of (r, w1) \<Rightarrow> (\<not> isl r, w1)) else (True, w));
          v1 = (if closed then v else v\<lparr>cv_reason := ''CLOSE_UNCONFIRMED'', cv_fresh := False,
                  cv_stage := Some ''CLOSE'', cv_kind := Some ''CLOSE_ERROR''\<rparr>)
      in (v1, w1\<lparr>ws_stream := stream_disconnect (ws_stream w1)\<rparr>))"

definition attempt_failed :: "string \<Rightarrow> ws_error \<Rightarrow> capture_vars \<Rightarrow> capture_vars" where
  "attempt_failed stage e v = v\<lparr>cv_reason := ''STREAM_UNCONFIRMED'', cv_fresh := False,
     cv_stage := Some stage, cv_kind := Some (safe_failure_kind e)\<rparr>"

text \<open>The protocol of one connection, after the connect: log in, pump, look for a fresh quote.\<close>

definition run_protocol ::
    "'s ws_env \<Rightarrow> nat \<Rightarrow> rat \<Rightarrow> string \<Rightarrow> string list \<Rightarrow> capture_vars \<Rightarrow> 's ws_state \<Rightarrow> (bool \<times> capture_vars \<times> 's ws_state) option" where
  "run_protocol E fuel deadline token symbols v w =
     (case outside (we_send E (Json (PyDict [(''trnm'', PyStr ''LOGIN''), (''token'', PyStr token)]))) w of
       (Inl e, w1) \<Rightarrow> Some (False, attempt_failed ''PROTOCOL'' e v, w1)
     | (Inr _, w1) \<Rightarrow>
         (case pump E fuel deadline w1 of
           None \<Rightarrow> None
         | Some (Inl e, w2) \<Rightarrow> Some (False, attempt_failed ''PROTOCOL'' e v, w2)
         | Some (Inr _, w2) \<Rightarrow>
             (case any_usable E symbols w2 of
               (fresh, w3) \<Rightarrow> Some (True, v\<lparr>cv_reason := st_reason (ws_stream w2), cv_fresh := fresh\<rparr>, w3))))"

text \<open>One attempt: whether the loop ends, the variables, and the state.\<close>

definition connect_attempt ::
    "'s ws_env \<Rightarrow> nat \<Rightarrow> rat \<Rightarrow> string \<Rightarrow> string list \<Rightarrow> capture_vars \<Rightarrow> 's ws_state \<Rightarrow> (bool \<times> capture_vars \<times> 's ws_state) option" where
  "connect_attempt E fuel deadline token symbols v w =
     (case wbind (outside (we_acquire E)) (\<lambda>_. observed (we_clock E)) w of
       (Inl e, w1) \<Rightarrow> (case finish_attempt E False (attempt_failed ''PACING'' e v) w1 of (v1, w2) \<Rightarrow> Some (False, v1, w2))
     | (Inr c, w1) \<Rightarrow>
         if deadline - c \<le> 0 then (case finish_attempt E False v w1 of (v1, w2) \<Rightarrow> Some (True, v1, w2))
         else (case outside (we_connect E (min 10 (deadline - c))) w1 of
             (Inl e, w2) \<Rightarrow> (case finish_attempt E False (attempt_failed ''CONNECT'' e v) w2 of (v1, w3) \<Rightarrow> Some (False, v1, w3))
           | (Inr _, w2) \<Rightarrow>
               (case run_protocol E fuel deadline token symbols (v\<lparr>cv_connections := cv_connections v + 1\<rparr>)
                       (w2\<lparr>ws_stream := stream_begin (ws_stream w2)\<rparr>) of
                 None \<Rightarrow> None
               | Some (stop, v1, w3) \<Rightarrow> (case finish_attempt E True v1 w3 of (v2, w4) \<Rightarrow> Some (stop, v2, w4)))))"

definition stream_attempt ::
    "'s ws_env \<Rightarrow> nat \<Rightarrow> rat \<Rightarrow> string list \<Rightarrow> capture_vars \<Rightarrow> 's ws_state \<Rightarrow> (bool \<times> capture_vars \<times> 's ws_state) option" where
  "stream_attempt E fuel deadline symbols v w =
     (let v0 = v\<lparr>cv_stage := None, cv_kind := None\<rparr>;
          failed = \<lambda>e w1. (case finish_attempt E False (attempt_failed ''TOKEN'' e v0) w1 of (v1, w2) \<Rightarrow> Some (True, v1, w2))
      in case outside (we_token E) w of
        (Inl e, w1) \<Rightarrow> failed e w1
      | (Inr token, w1) \<Rightarrow>
          if \<not> token_ok token then failed WsValueError w1
          else connect_attempt E fuel deadline token symbols v0 w1)"

fun stream_attempts ::
    "'s ws_env \<Rightarrow> nat \<Rightarrow> rat \<Rightarrow> string list \<Rightarrow> nat \<Rightarrow> capture_vars \<Rightarrow> 's ws_state \<Rightarrow> (capture_vars \<times> 's ws_state) option" where
  "stream_attempts E fuel deadline symbols 0 v w = Some (v, w)"
| "stream_attempts E fuel deadline symbols (Suc n) v w =
     (case stream_attempt E fuel deadline symbols v w of
       None \<Rightarrow> None
     | Some (True, v1, w1) \<Rightarrow> Some (v1, w1)
     | Some (False, v1, w1) \<Rightarrow> stream_attempts E fuel deadline symbols n v1 w1)"

definition capture_stream ::
    "'s ws_env \<Rightarrow> nat \<Rightarrow> string list \<Rightarrow> rat option \<Rightarrow> int \<Rightarrow> 's \<Rightarrow> (stream_capture \<times> 's ws_state) result option" where
  "capture_stream E fuel symbols secs reconnects s =
     (if \<not> (case secs of Some x \<Rightarrow> 0 < x \<and> x \<le> 120 | None \<Rightarrow> False) then Some (Inl (ValueError ''DURATION_INVALID''))
      else if \<not> (0 \<le> reconnects \<and> reconnects \<le> 3) then Some (Inl (ValueError ''RECONNECT_LIMIT_INVALID''))
      else case make_stream symbols of
        Inl e \<Rightarrow> Some (Inl e)
      | Inr S \<Rightarrow>
          (case we_clock E s of
            (c, s1) \<Rightarrow>
              (case stream_attempts E fuel (c + the secs) symbols (nat (reconnects + 1))
                      \<lparr>cv_connections = 0, cv_reason = ''NO_QUOTE'', cv_fresh = False, cv_stage = None, cv_kind = None\<rparr>
                      \<lparr>ws_stream = S, ws_quotes = 0, ws_malformed = 0, ws_world = s1\<rparr> of
                None \<Rightarrow> None
              | Some (v, w) \<Rightarrow> Some (Inr (\<lparr>sp_connections = cv_connections v, sp_quotes_observed = ws_quotes w,
                  sp_reason = cv_reason v, sp_fresh_before_close = cv_fresh v, sp_malformed_frames = ws_malformed w,
                  sp_orders_enabled = False, sp_account_reconciled = False,
                  sp_failure_stage = cv_stage v, sp_failure_kind = cv_kind v\<rparr>, w)))))"

section \<open>What every step preserves\<close>

definition preserves :: "('s ws_state \<Rightarrow> bool) \<Rightarrow> ('s, 'a) ws_step \<Rightarrow> bool" where
  "preserves P m \<longleftrightarrow> (\<forall>w. P w \<longrightarrow> P (snd (m w)))"

lemma preservesD: "preserves P m \<Longrightarrow> P w \<Longrightarrow> m w = (r, w1) \<Longrightarrow> P w1"
  by (metis preserves_def snd_conv)

lemma preserves_return: "preserves P (wreturn x)"
  by (simp add: preserves_def wreturn_def)

lemma preserves_bind: "preserves P m \<Longrightarrow> (\<And>x. preserves P (f x)) \<Longrightarrow> preserves P (wbind m f)"
  by (auto simp: preserves_def wbind_def split: prod.splits sum.splits)

lemma preserves_pure: "preserves P m \<Longrightarrow> (\<And>x w. P w \<Longrightarrow> P (snd (f x w))) \<Longrightarrow> preserves P (wbind m f)"
  by (rule preserves_bind) (simp_all add: preserves_def)

text \<open>An invariant of the turns: each operation of the environment keeps it, and so do the two counters.\<close>

definition turn_safe :: "'s ws_env \<Rightarrow> ('s ws_state \<Rightarrow> bool) \<Rightarrow> bool" where
  "turn_safe E P \<longleftrightarrow> preserves P (observed (we_clock E)) \<and> preserves P (observed (we_now E)) \<and>
     (\<forall>p. preserves P (outside (we_send E p))) \<and> (\<forall>d. preserves P (outside (we_recv E d))) \<and>
     (\<forall>sink q. we_sink E = Some sink \<longrightarrow> preserves P (outside (sink q))) \<and>
     (\<forall>frame t. preserves P (consume_frame frame t)) \<and>
     (\<forall>w n. P w \<longrightarrow> P (w\<lparr>ws_malformed := n\<rparr>))"

lemma turn_safe_parts:
  assumes "turn_safe E P"
  shows "preserves P (observed (we_clock E))" and "preserves P (observed (we_now E))"
    and "preserves P (outside (we_send E p))" and "preserves P (outside (we_recv E d))"
    and "we_sink E = Some sink \<Longrightarrow> preserves P (outside (sink q))"
    and "preserves P (consume_frame frame t)" and "P w \<Longrightarrow> P (w\<lparr>ws_malformed := n\<rparr>)"
  using assms by (simp_all add: turn_safe_def)

lemma emit_preserves: "turn_safe E P \<Longrightarrow> preserves P (emit E qs)"
proof -
  assume safe: "turn_safe E P"
  have "preserves P (emit_all sink qs)" if "we_sink E = Some sink" for sink
    by (induction qs) (simp_all add: preserves_return preserves_bind turn_safe_parts(5) [OF safe that])
  then show ?thesis by (simp add: emit_def preserves_return split: option.splits)
qed

lemma send_registration_preserves: "turn_safe E P \<Longrightarrow> preserves P (send_registration E)"
  using turn_safe_parts(3) by (fastforce simp: preserves_def send_registration_def split: sum.splits)

lemma handle_frame_preserves:
  assumes safe: "turn_safe E P"
  shows "preserves P (handle_frame E deadline phase frame)"
proof -
  have tail: "preserves P (wbind (send_registration E) (\<lambda>_. wbind (observed (we_clock E))
      (\<lambda>c w2. (Inr (min deadline (c + 10), rejected w2), w2))))" for rejected
    by (intro preserves_bind preserves_pure send_registration_preserves turn_safe_parts(1) safe) simp
  have all: "preserves P (wbind (observed (we_now E)) (\<lambda>t. wbind (consume_frame frame t) (\<lambda>qs. wbind (emit E qs) (\<lambda>_ w1.
      if \<not> was \<and> st_logged_in (ws_stream w1)
      then wbind (send_registration E) (\<lambda>_. wbind (observed (we_clock E))
        (\<lambda>c w2. (Inr (min deadline (c + 10), rejected w2), w2))) w1
      else (Inr (phase, rejected w1), w1)))))" for was rejected
    by (intro preserves_bind preserves_pure emit_preserves [OF safe] turn_safe_parts(2) [OF safe]
        turn_safe_parts(6) [OF safe]) (use tail in \<open>auto simp: preserves_def\<close>)
  show ?thesis unfolding preserves_def
  proof (intro allI impI)
    fix w
    assume "P w"
    with all [of "st_logged_in (ws_stream w)"
        "\<lambda>w. st_reason (ws_stream w) \<in> {''LOGIN_REJECTED'', ''REGISTRATION_REJECTED''}"]
    show "P (snd (handle_frame E deadline phase frame w))"
      by (simp only: preserves_def handle_frame_def Let_def)
  qed
qed

lemma pump_frame_preserves:
  assumes "turn_safe E P"
  shows "preserves P (pump_frame E deadline phase raw)"
proof -
  have "preserves P (wbind (outside (we_send E p)) (\<lambda>_. wreturn (phase, False)))" for p
    by (intro preserves_bind preserves_return turn_safe_parts(3) assms)
  with handle_frame_preserves [OF assms] turn_safe_parts(7) [OF assms] show ?thesis
    by (auto simp: preserves_def pump_frame_def split: option.splits)
qed

lemma pump_turn_preserves:
  assumes "turn_safe E P"
  shows "preserves P (pump_turn E deadline phase)"
proof -
  have "preserves P (wbind (observed (we_clock E))
      (\<lambda>c w1. if c \<ge> phase then (Inl TimeoutError, w1) else (Inr (), w1)))"
    by (intro preserves_pure turn_safe_parts(1) assms) simp
  then have "preserves P (handshake_check E phase)"
    by (simp add: preserves_def handshake_check_def)
  moreover have "P (snd (case outside (we_recv E d) w of
       (Inl TimeoutError, w1) \<Rightarrow> (Inr (phase, False), w1)
     | (Inl e, w1) \<Rightarrow> (Inl e, w1)
     | (Inr raw, w1) \<Rightarrow> pump_frame E deadline phase raw w1))" if "P w" for d w
    using preservesD [OF turn_safe_parts(4) [OF assms] that] pump_frame_preserves [OF assms]
    by (auto simp: preserves_def split: prod.splits sum.splits ws_error.splits)
  ultimately show ?thesis
    unfolding pump_turn_def by (intro preserves_bind preserves_pure turn_safe_parts(1) assms)
qed

lemma pump_loop_preserves:
  assumes "turn_safe E P"
  shows "P w \<Longrightarrow> pump_loop E deadline n phase w = Some (r, w') \<Longrightarrow> P w'"
proof (induction n arbitrary: phase w)
  case (Suc n)
  obtain c s where c: "we_clock E (ws_world w) = (c, s)" by (cases "we_clock E (ws_world w)")
  have now: "P (w\<lparr>ws_world := s\<rparr>)"
    using preservesD [OF turn_safe_parts(1) [OF assms] Suc.prems(1)] c by (simp add: observed_def)
  obtain x w1 where t: "pump_turn E deadline phase (w\<lparr>ws_world := s\<rparr>) = (x, w1)"
    by (cases "pump_turn E deadline phase (w\<lparr>ws_world := s\<rparr>)")
  have "P w1" by (rule preservesD [OF pump_turn_preserves [OF assms] now t])
  with Suc now c t show ?case by (auto split: if_splits sum.splits)
qed simp

lemma pump_preserves:
  assumes "turn_safe E P" and "P w" and "pump E fuel deadline w = Some (r, w')"
  shows "P w'"
proof -
  obtain c s where c: "we_clock E (ws_world w) = (c, s)" by (cases "we_clock E (ws_world w)")
  have "P (w\<lparr>ws_world := s\<rparr>)"
    using preservesD [OF turn_safe_parts(1) [OF assms(1)] assms(2)] c by (simp add: observed_def)
  then show ?thesis
    by (rule pump_loop_preserves [OF assms(1)]) (use assms(3) c in \<open>simp add: pump_def\<close>)
qed

section \<open>The invariant of a capture\<close>

definition ws_ok :: "'s ws_state \<Rightarrow> bool" where
  "ws_ok w \<longleftrightarrow> stream_ok (ws_stream w) \<and> (st_last_quotes (ws_stream w) \<noteq> Map.empty \<longrightarrow> 1 \<le> ws_quotes w)"

lemma consume_silent:
  assumes "fst (consume f t S) = []" and "st_last_quotes (snd (consume f t S)) \<noteq> Map.empty"
  shows "st_last_quotes S \<noteq> Map.empty"
proof (cases rule: consume_cases [of S f t])
  case (quotes m)
  then have "consume f t S = consume_quotes (py_get m ''data'') t (S\<lparr>st_last_frame_at := Some t\<rparr>)"
    by (simp add: consume_def consume_message_def)
  then show ?thesis using assms
    by (auto simp: consume_quotes_def Let_def split: pyval.splits list.splits)
qed (use assms in simp_all)

lemma ws_ok_world [simp]: "ws_ok (w\<lparr>ws_world := s\<rparr>) = ws_ok w"
  by (simp add: ws_ok_def)

lemma preserves_outside_ok: "preserves ws_ok (outside f)" "preserves ws_ok (observed g)"
  by (simp_all add: preserves_def outside_def observed_def split: prod.splits)

lemma consume_frame_ok: "preserves ws_ok (consume_frame frame t)"
  unfolding preserves_def
proof (intro allI impI)
  fix w :: "'s ws_state"
  assume w: "ws_ok w"
  obtain qs S where c: "consume frame t (ws_stream w) = (qs, S)" by (cases "consume frame t (ws_stream w)")
  have "stream_ok S"
    using stream_step_ok [of "ws_stream w" "Frame frame t"] w c by (simp add: ws_ok_def)
  moreover have "1 \<le> ws_quotes w + length qs" if "st_last_quotes S \<noteq> Map.empty"
  proof (cases qs)
    case Nil
    then have "st_last_quotes (ws_stream w) \<noteq> Map.empty"
      using consume_silent [of frame t "ws_stream w"] that c by simp
    then show ?thesis using w by (simp add: ws_ok_def)
  qed simp
  ultimately show "ws_ok (snd (consume_frame frame t w))"
    by (simp add: ws_ok_def consume_frame_def c)
qed

lemma turn_safe_ok: "turn_safe E ws_ok"
  by (simp add: turn_safe_def preserves_outside_ok consume_frame_ok ws_ok_def)

lemma any_usable_ok:
  "any_usable E symbs w = (fresh, w') \<Longrightarrow> ws_stream w' = ws_stream w \<and> ws_quotes w' = ws_quotes w \<and>
     ws_malformed w' = ws_malformed w \<and> (fresh \<longrightarrow> st_last_quotes (ws_stream w) \<noteq> Map.empty)"
proof (induction symbs arbitrary: w)
  case (Cons symb symbs)
  obtain t s where n: "we_now E (ws_world w) = (t, s)" by (cases "we_now E (ws_world w)")
  show ?case
  proof (cases "usable_quote symb t (Some 3) (ws_stream w)")
    case True
    then show ?thesis using Cons.prems n by (auto simp: usable_quote_def split: option.splits)
  next
    case False
    then show ?thesis using Cons.IH [of "w\<lparr>ws_world := s\<rparr>"] Cons.prems n by auto
  qed
qed simp

definition failure_kinds :: "string option set" where
  "failure_kinds = {None, Some ''TIMEOUT'', Some ''DEPENDENCY_ERROR'', Some ''OS_ERROR'', Some ''VALUE_ERROR'',
     Some ''RUNTIME_ERROR'', Some ''OTHER'', Some ''CLOSE_ERROR''}"

definition vars_ok :: "nat \<Rightarrow> capture_vars \<Rightarrow> 's ws_state \<Rightarrow> bool" where
  "vars_ok n v w \<longleftrightarrow> ws_ok w \<and> cv_connections v \<le> n \<and> cv_kind v \<in> failure_kinds \<and>
     (cv_fresh v \<longrightarrow> 1 \<le> ws_quotes w \<and> cv_stage v = None) \<and>
     (cv_connections v = 0 \<longrightarrow> ws_quotes w = 0 \<and> ws_malformed w = 0)"

lemma safe_failure_kind_listed: "Some (safe_failure_kind e) \<in> failure_kinds"
  by (cases e) (simp_all add: failure_kinds_def)

lemma vars_ok_failed: "vars_ok n v w \<Longrightarrow> vars_ok n (attempt_failed stage e v) w"
  by (simp add: vars_ok_def attempt_failed_def safe_failure_kind_listed)

lemma outside_same: "outside f w = (r, w') \<Longrightarrow> \<exists>s. w' = w\<lparr>ws_world := s\<rparr>"
  by (auto simp: outside_def split: prod.splits)

lemma vars_ok_world [simp]: "vars_ok n v (w\<lparr>ws_world := s\<rparr>) = vars_ok n v w"
  by (simp add: vars_ok_def)

lemma vars_ok_outside: "outside f w = (r, w') \<Longrightarrow> vars_ok n v w' = vars_ok n v w"
  using outside_same by force

lemma finish_attempt_ok:
  assumes "vars_ok n v w" and "finish_attempt E b v w = (v', w')"
  shows "vars_ok n v' w' \<and> \<not> st_connected (ws_stream w') \<and> st_last_quotes (ws_stream w') = Map.empty"
proof -
  have keep: "vars_ok n u (x\<lparr>ws_stream := stream_disconnect (ws_stream x)\<rparr>)" if "vars_ok n u x"
    for u and x :: "'a ws_state"
    using that stream_step_ok [of "ws_stream x" Disconnect] by (simp add: vars_ok_def ws_ok_def)
  show ?thesis
  proof (cases b)
    case True
    obtain r w1 where c: "outside (we_close E) w = (r, w1)" by (cases "outside (we_close E) w")
    have "vars_ok n v w1" using assms(1) vars_ok_outside [OF c] by simp
    then have "vars_ok n (if \<not> isl r then v else v\<lparr>cv_reason := ''CLOSE_UNCONFIRMED'', cv_fresh := False,
        cv_stage := Some ''CLOSE'', cv_kind := Some ''CLOSE_ERROR''\<rparr>) w1"
      by (simp add: vars_ok_def failure_kinds_def)
    moreover have "v' = (if \<not> isl r then v else v\<lparr>cv_reason := ''CLOSE_UNCONFIRMED'', cv_fresh := False,
        cv_stage := Some ''CLOSE'', cv_kind := Some ''CLOSE_ERROR''\<rparr>)"
      and w': "w' = w1\<lparr>ws_stream := stream_disconnect (ws_stream w1)\<rparr>"
      using assms(2) c True by (simp_all add: finish_attempt_def Let_def)
    ultimately show ?thesis unfolding w' using keep by simp
  next
    case False
    then show ?thesis using assms keep by (auto simp: finish_attempt_def Let_def)
  qed
qed

lemma run_protocol_ok:
  assumes "vars_ok n v w" and "1 \<le> cv_connections v" and "cv_stage v = None"
    and "run_protocol E fuel deadline token symbols v w = Some (stop, v', w')"
  shows "vars_ok n v' w'"
proof -
  let ?login = "Json (PyDict [(''trnm'', PyStr ''LOGIN''), (''token'', PyStr token)])"
  obtain x w1 where o: "outside (we_send E ?login) w = (x, w1)" by (cases "outside (we_send E ?login) w")
  have w1: "vars_ok n v w1" using assms(1) vars_ok_outside [OF o] by simp
  show ?thesis
  proof (cases x)
    case (Inl e)
    then show ?thesis using assms(4) o w1 by (auto simp: run_protocol_def vars_ok_failed)
  next
    case (Inr u)
    then obtain r w2 where p: "pump E fuel deadline w1 = Some (r, w2)"
      using assms(4) o by (auto simp: run_protocol_def split: option.splits)
    have "ws_ok w2" using pump_preserves [OF turn_safe_ok _ p] w1 by (simp add: vars_ok_def)
    then have w2: "vars_ok n (v\<lparr>cv_fresh := False\<rparr>) w2" using w1 assms(2) by (simp add: vars_ok_def)
    show ?thesis
    proof (cases r)
      case (Inl e)
      then have "v' = attempt_failed ''PROTOCOL'' e (v\<lparr>cv_fresh := False\<rparr>)" "w' = w2"
        using assms(4) o p Inr by (simp_all add: run_protocol_def attempt_failed_def)
      then show ?thesis using vars_ok_failed [OF w2] by simp
    next
      case r: (Inr u')
      obtain fresh w3 where a: "any_usable E symbols w2 = (fresh, w3)" by (cases "any_usable E symbols w2")
      with assms(4) o p Inr r have "v' = v\<lparr>cv_reason := st_reason (ws_stream w2), cv_fresh := fresh\<rparr>" "w' = w3"
        by (simp_all add: run_protocol_def)
      then show ?thesis using any_usable_ok [OF a] w2 assms(2,3) by (auto simp: vars_ok_def ws_ok_def)
    qed
  qed
qed

definition attempt_done :: "nat \<Rightarrow> capture_vars \<Rightarrow> 's ws_state \<Rightarrow> bool" where
  "attempt_done n v w \<longleftrightarrow> vars_ok n v w \<and> \<not> st_connected (ws_stream w) \<and> st_last_quotes (ws_stream w) = Map.empty"

lemma finish_done:
  "vars_ok n v w \<Longrightarrow> finish_attempt E b v w = (v', w') \<Longrightarrow> attempt_done n v' w'"
  unfolding attempt_done_def by (rule finish_attempt_ok)

lemma failed_done:
  "vars_ok n v w \<Longrightarrow> finish_attempt E b (attempt_failed stage e v) w = (v', w') \<Longrightarrow> attempt_done n v' w'"
  using finish_done vars_ok_failed by blast

lemma connect_attempt_ok:
  assumes "vars_ok n v w" and "cv_stage v = None"
    and "connect_attempt E fuel deadline token symbols v w = Some (stop, v', w')"
  shows "attempt_done (Suc n) v' w'"
proof -
  let ?gate = "wbind (outside (we_acquire E)) (\<lambda>_. observed (we_clock E))"
  have suc: "vars_ok (Suc n) v x" if "vars_ok n v x" for x using that by (simp add: vars_ok_def)
  obtain x w1 where g: "?gate w = (x, w1)" by (cases "?gate w")
  then have "\<exists>s. w1 = w\<lparr>ws_world := s\<rparr>"
    by (auto simp: wbind_def observed_def outside_def split: prod.splits sum.splits)
  then have w1: "vars_ok (Suc n) v w1" using assms(1) suc by force
  show ?thesis
  proof (cases "\<exists>c. x = Inr c \<and> 0 < deadline - c")
    case False
    then show ?thesis
      using assms(3) g finish_done [OF w1] failed_done [OF w1]
      by (auto simp: connect_attempt_def split: sum.splits if_splits prod.splits)
  next
    case True
    then obtain c where c: "x = Inr c" "0 < deadline - c" by blast
    obtain y w2 where o: "outside (we_connect E (min 10 (deadline - c))) w1 = (y, w2)"
      by (cases "outside (we_connect E (min 10 (deadline - c))) w1")
    have w2: "vars_ok (Suc n) v w2" using w1 vars_ok_outside [OF o] by simp
    show ?thesis
    proof (cases y)
      case (Inl e)
      then show ?thesis
        using assms(3) g c o failed_done [OF w2] by (auto simp: connect_attempt_def split: prod.splits)
    next
      case (Inr u)
      let ?v = "v\<lparr>cv_connections := cv_connections v + 1\<rparr>"
      let ?w = "w2\<lparr>ws_stream := stream_begin (ws_stream w2)\<rparr>"
      have "vars_ok (Suc n) ?v ?w"
        using assms(1) w2 stream_step_ok [of "ws_stream w2" Begin] by (simp add: vars_ok_def ws_ok_def)
      moreover obtain stop1 v1 w3 where r: "run_protocol E fuel deadline token symbols ?v ?w = Some (stop1, v1, w3)"
        using assms(3) g c o Inr by (auto simp: connect_attempt_def split: option.splits)
      ultimately have "vars_ok (Suc n) v1 w3" using run_protocol_ok assms(2) by fastforce
      then show ?thesis using assms(3) g c o Inr r finish_done by (auto simp: connect_attempt_def split: prod.splits)
    qed
  qed
qed

lemma stream_attempt_ok:
  assumes "vars_ok n v w" and "stream_attempt E fuel deadline symbols v w = Some (stop, v', w')"
  shows "attempt_done (Suc n) v' w'"
proof -
  let ?v = "v\<lparr>cv_stage := None, cv_kind := None\<rparr>"
  obtain x w1 where o: "outside (we_token E) w = (x, w1)" by (cases "outside (we_token E) w")
  have v: "vars_ok n ?v w1"
    using assms(1) vars_ok_outside [OF o, of n v] by (simp add: vars_ok_def failure_kinds_def)
  then have suc: "vars_ok (Suc n) ?v w1" by (simp add: vars_ok_def)
  show ?thesis
  proof (cases x)
    case (Inl e)
    then show ?thesis
      using assms(2) o failed_done [OF suc] by (auto simp: stream_attempt_def Let_def split: prod.splits)
  next
    case (Inr token)
    then show ?thesis
      using assms(2) o failed_done [OF suc] connect_attempt_ok [OF v]
      by (auto simp: stream_attempt_def Let_def split: if_splits prod.splits)
  qed
qed

lemma stream_attempts_ok:
  "vars_ok m v w \<Longrightarrow> stream_attempts E fuel deadline symbols n v w = Some (v', w') \<Longrightarrow> 0 < n \<Longrightarrow>
     attempt_done (m + n) v' w'"
proof (induction n arbitrary: m v w)
  case (Suc n)
  then obtain stop v1 w1 where a: "stream_attempt E fuel deadline symbols v w = Some (stop, v1, w1)"
    by (auto split: option.splits)
  have d: "attempt_done (Suc m) v1 w1" by (rule stream_attempt_ok [OF Suc.prems(1) a])
  have mono: "attempt_done k v1 w1" if "Suc m \<le> k" for k
    using d that by (auto simp: attempt_done_def vars_ok_def)
  show ?case
  proof (cases "stop \<or> n = 0")
    case True
    then show ?thesis using Suc.prems(2) a mono [of "m + Suc n"] by (cases stop) auto
  next
    case False
    then show ?thesis using Suc.IH [of "Suc m" v1 w1] Suc.prems(2) a d by (simp add: attempt_done_def)
  qed
qed simp

section \<open>Enough fuel\<close>

text \<open>
  When captures end. There is a time of the outside state that the monotonic clock reads and that nothing moves
  back; a receive that times out has waited for its timeout; and only finitely many frames arrive before a given
  moment: each receive that returns a frame before it uses up one of the frames still to come, which may all be queued
  already.
\<close>

definition onward :: "('s \<Rightarrow> rat) \<Rightarrow> ('s \<Rightarrow> nat) \<Rightarrow> 's \<Rightarrow> 's \<Rightarrow> bool" where
  "onward time left s s' \<longleftrightarrow> time s \<le> time s' \<and> left s' \<le> left s"

definition waits :: "'s ws_env \<Rightarrow> ('s \<Rightarrow> rat) \<Rightarrow> ('s \<Rightarrow> nat) \<Rightarrow> rat \<Rightarrow> bool" where
  "waits E time left horizon \<longleftrightarrow>
     (\<forall>s. time s \<le> fst (we_clock E s) \<and> fst (we_clock E s) \<le> time (snd (we_clock E s))) \<and>
     (\<forall>s. onward time left s (snd (we_clock E s)) \<and> onward time left s (snd (we_now E s)) \<and>
       onward time left s (snd (we_token E s)) \<and> onward time left s (snd (we_acquire E s)) \<and>
       onward time left s (snd (we_close E s))) \<and>
     (\<forall>d s. onward time left s (snd (we_connect E d s))) \<and> (\<forall>p s. onward time left s (snd (we_send E p s))) \<and>
     (\<forall>sink q s. we_sink E = Some sink \<longrightarrow> onward time left s (snd (sink q s))) \<and>
     (\<forall>d s. onward time left s (snd (we_recv E d s))) \<and>
     (\<forall>d s s'. we_recv E d s = (Inl TimeoutError, s') \<longrightarrow> time s + d \<le> time s') \<and>
     (\<forall>d s frame s'. we_recv E d s = (Inr frame, s') \<longrightarrow> time s < horizon \<longrightarrow> left s' < left s)"

definition not_before :: "('s \<Rightarrow> rat) \<Rightarrow> ('s \<Rightarrow> nat) \<Rightarrow> rat \<Rightarrow> nat \<Rightarrow> 's ws_state \<Rightarrow> bool" where
  "not_before time left t k w \<longleftrightarrow> t \<le> time (ws_world w) \<and> left (ws_world w) \<le> k"

lemma onward_not_before:
  "onward time left (ws_world w) (ws_world w') \<Longrightarrow> not_before time left t k w \<Longrightarrow> not_before time left t k w'"
  by (auto simp: onward_def not_before_def)

lemma outside_not_before:
  assumes "\<And>s. onward time left s (snd (f s))"
  shows "preserves (not_before time left t k) (outside f)"
  unfolding preserves_def
proof (intro allI impI)
  fix w :: "'a ws_state"
  assume "not_before time left t k w"
  with assms [of "ws_world w"] show "not_before time left t k (snd (outside f w))"
    by (cases "f (ws_world w)") (simp add: not_before_def outside_def onward_def)
qed

lemma observed_not_before:
  assumes "\<And>s. onward time left s (snd (f s))"
  shows "preserves (not_before time left t k) (observed f)"
  unfolding preserves_def
proof (intro allI impI)
  fix w :: "'a ws_state"
  assume "not_before time left t k w"
  with assms [of "ws_world w"] show "not_before time left t k (snd (observed f w))"
    by (cases "f (ws_world w)") (simp add: not_before_def observed_def onward_def)
qed

lemma waits_clock: "waits E time left deadline \<Longrightarrow> onward time left s (snd (we_clock E s))"
  by (simp add: waits_def)

lemma waits_recv: "waits E time left deadline \<Longrightarrow> onward time left s (snd (we_recv E d s))"
  by (simp add: waits_def)

lemma consume_frame_world: "ws_world (snd (consume_frame frame t w)) = ws_world w"
  by (simp add: consume_frame_def split: prod.splits)

lemma turn_safe_not_before:
  assumes "waits E time left deadline"
  shows "turn_safe E (not_before time left t k)"
  unfolding turn_safe_def
proof (intro conjI allI impI)
  show "preserves (not_before time left t k) (observed (we_clock E))"
    by (intro observed_not_before waits_clock [OF assms])
  show "preserves (not_before time left t k) (outside (we_recv E d))" for d
    by (intro outside_not_before waits_recv [OF assms])
  show "preserves (not_before time left t k) (consume_frame frame u)" for frame u
    by (simp add: preserves_def not_before_def consume_frame_world)
qed (use assms in \<open>auto simp: waits_def not_before_def intro!: outside_not_before observed_not_before\<close>)

lemma handshake_check_not_before:
  assumes "waits E time left deadline"
  shows "preserves (not_before time left t k) (handshake_check E phase)"
proof -
  have "preserves (not_before time left t k) (wbind (observed (we_clock E))
      (\<lambda>c w1. if c \<ge> phase then (Inl TimeoutError, w1) else (Inr (), w1)))"
    by (intro preserves_pure observed_not_before waits_clock [OF assms]) simp
  then show ?thesis by (simp add: preserves_def handshake_check_def)
qed

text \<open>A turn that goes on leaves a frame less to come, waits a second, or reaches the deadline.\<close>

lemma pump_turn_advances:
  assumes tick: "waits E time left deadline" and turn: "pump_turn E deadline phase w = (Inr r, w')"
  shows "onward time left (ws_world w) (ws_world w')"
    and "deadline \<le> time (ws_world w') \<or> time (ws_world w) + 1 \<le> time (ws_world w') \<or>
      left (ws_world w') < left (ws_world w)"
proof -
  let ?t = "time (ws_world w)" let ?k = "left (ws_world w)"
  obtain w0 where h: "handshake_check E phase w = (Inr (), w0)"
    using turn by (auto simp: pump_turn_def wbind_def split: prod.splits sum.splits)
  have w0: "not_before time left ?t ?k w0"
    by (rule preservesD [OF handshake_check_not_before [OF tick] _ h]) (simp add: not_before_def)
  obtain c s1 where c: "we_clock E (ws_world w0) = (c, s1)" by (cases "we_clock E (ws_world w0)")
  have "time (ws_world w0) \<le> c \<and> c \<le> time s1 \<and> onward time left (ws_world w0) s1"
    using tick c unfolding waits_def by (metis fst_conv snd_conv)
  then have s1: "?t \<le> c" "c \<le> time s1" "left s1 \<le> ?k" using w0 by (auto simp: not_before_def onward_def)
  let ?w1 = "w0\<lparr>ws_world := s1\<rparr>"
  obtain x s where rc: "we_recv E (min 1 (deadline - c)) s1 = (x, s)"
    by (cases "we_recv E (min 1 (deadline - c)) s1")
  have s: "time s1 \<le> time s" "left s \<le> left s1"
    using waits_recv [OF tick, of s1 "min 1 (deadline - c)"] rc by (simp_all add: onward_def)
  have rest: "(case outside (we_recv E (min 1 (deadline - c))) ?w1 of
       (Inl TimeoutError, w1) \<Rightarrow> (Inr (phase, False), w1)
     | (Inl e, w1) \<Rightarrow> (Inl e, w1)
     | (Inr raw, w1) \<Rightarrow> pump_frame E deadline phase raw w1) = (Inr r, w')"
    using turn h c by (simp add: pump_turn_def wbind_def observed_def)
  have "?t \<le> time (ws_world w') \<and> left (ws_world w') \<le> ?k \<and> (deadline \<le> time (ws_world w') \<or>
      ?t + 1 \<le> time (ws_world w') \<or> left (ws_world w') < ?k)"
  proof (cases x)
    case (Inl e)
    then have w': "w' = ?w1\<lparr>ws_world := s\<rparr>" and "e = TimeoutError"
      using rest rc by (cases e; simp add: outside_def)+
    then have "time s1 + min 1 (deadline - c) \<le> time s" using tick rc Inl unfolding waits_def by blast
    then show ?thesis using s s1 by (simp add: w' min_def split: if_splits)
  next
    case (Inr raw)
    then have pump: "pump_frame E deadline phase raw (?w1\<lparr>ws_world := s\<rparr>) = (Inr r, w')"
      using rest rc by (simp add: outside_def)
    from preservesD [OF pump_frame_preserves [OF turn_safe_not_before [OF tick]] _ pump, of "time s" "left s"]
    have w': "time s \<le> time (ws_world w')" "left (ws_world w') \<le> left s" by (simp_all add: not_before_def)
    have "time s1 < deadline \<longrightarrow> left s < left s1" using tick rc Inr unfolding waits_def by blast
    then show ?thesis using s s1 w' by (cases "time s1 < deadline") auto
  qed
  then show "onward time left (ws_world w) (ws_world w')"
    "deadline \<le> time (ws_world w') \<or> time (ws_world w) + 1 \<le> time (ws_world w') \<or>
      left (ws_world w') < left (ws_world w)" by (simp_all add: onward_def)
qed

lemma pump_loop_returns:
  assumes "waits E time left deadline"
  shows "deadline - time (ws_world w) \<le> of_nat m \<Longrightarrow> left (ws_world w) \<le> k \<Longrightarrow> m + k \<le> n \<Longrightarrow>
    pump_loop E deadline (Suc n) phase w \<noteq> None"
proof (induction n arbitrary: phase w m k)
  case 0
  obtain c s where c: "we_clock E (ws_world w) = (c, s)" by (cases "we_clock E (ws_world w)")
  have "time (ws_world w) \<le> c" using assms c unfolding waits_def by (metis fst_conv)
  with 0 c show ?case by simp
next
  case (Suc n)
  obtain c s where c: "we_clock E (ws_world w) = (c, s)" by (cases "we_clock E (ws_world w)")
  have le: "time (ws_world w) \<le> c" using assms c unfolding waits_def by (metis fst_conv)
  have s: "time (ws_world w) \<le> time s" "left s \<le> left (ws_world w)"
    using waits_clock [OF assms, of "ws_world w"] c by (simp_all add: onward_def)
  have "pump_loop E deadline (Suc n) phase1 w1 \<noteq> None"
    if early: "c < deadline" and turn: "pump_turn E deadline phase (w\<lparr>ws_world := s\<rparr>) = (Inr (phase1, stop), w1)" for phase1 stop w1
  proof -
    have "m \<noteq> 0" using early le Suc.prems(1) by (intro notI) simp
    then obtain m1 where m1: "m = Suc m1" by (cases m) simp_all
    note adv = pump_turn_advances [OF assms turn, simplified, unfolded onward_def]
    from adv(2) consider "deadline \<le> time (ws_world w1)" | "time s + 1 \<le> time (ws_world w1)" | "left (ws_world w1) < left s"
      by blast
    then show ?thesis
    proof cases
      case 1
      then show ?thesis using Suc.IH [of w1 0 k] Suc.prems adv(1) s m1 by simp
    next
      case 2
      then show ?thesis using Suc.IH [of w1 m1 k] Suc.prems adv(1) s m1 by simp
    next
      case 3
      then show ?thesis using Suc.IH [of w1 m "k - 1"] Suc.prems adv(1) s by simp
    qed
  qed
  then show ?case using c by (auto simp del: pump_loop.simps simp: pump_loop.simps(2) [of _ _ "Suc n"] split: prod.splits sum.splits)
qed

lemma pump_returns:
  assumes tick: "waits E time left deadline" and w: "not_before time left t k w" and "deadline - t \<le> of_nat m" and "m + k \<le> n"
  shows "pump E (Suc n) deadline w \<noteq> None"
proof -
  obtain c s where c: "we_clock E (ws_world w) = (c, s)" by (cases "we_clock E (ws_world w)")
  have "t \<le> time s \<and> left s \<le> k"
    using waits_clock [OF tick, of "ws_world w"] c w by (auto simp: onward_def not_before_def)
  then show ?thesis
    using pump_loop_returns [OF tick, of "w\<lparr>ws_world := s\<rparr>" m k n] assms(3,4) c
    by (simp add: pump_def del: pump_loop.simps)
qed

lemma finish_attempt_not_before:
  assumes "waits E time left deadline" and "not_before time left t k w" and "finish_attempt E b v w = (v', w')"
  shows "not_before time left t k w'"
proof -
  have "preserves (not_before time left t k) (outside (we_close E))"
    using assms(1) by (intro outside_not_before) (simp add: waits_def)
  from preservesD [OF this assms(2)] assms(2,3) show ?thesis
    by (auto simp: finish_attempt_def Let_def not_before_def split: if_splits prod.splits)
qed

text \<open>An attempt that starts late enough returns, and does not end earlier.\<close>

lemma connect_attempt_returns:
  assumes tick: "waits E time left deadline" and "not_before time left t k w" and "deadline - t \<le> of_nat m" and "m + k \<le> n"
  shows "connect_attempt E (Suc n) deadline token symbols v w \<noteq> None"
proof -
  let ?login = "Json (PyDict [(''trnm'', PyStr ''LOGIN''), (''token'', PyStr token)])"
  let ?gate = "wbind (outside (we_acquire E)) (\<lambda>_. observed (we_clock E))"
  have gate: "preserves (not_before time left t k) ?gate"
    using tick by (intro preserves_bind outside_not_before observed_not_before waits_clock [OF tick])
      (simp add: waits_def)
  have conn: "preserves (not_before time left t k) (outside (we_connect E d))" for d
    using tick by (intro outside_not_before) (simp add: waits_def)
  have send: "preserves (not_before time left t k) (outside (we_send E p))" for p
    using tick by (intro outside_not_before) (simp add: waits_def)
  have protocol: "run_protocol E (Suc n) deadline token symbols v1 x \<noteq> None" if x: "not_before time left t k x" for v1 x
  proof -
    have "pump E (Suc n) deadline x1 \<noteq> None" if "not_before time left t k x1" for x1
      by (rule pump_returns [OF tick that assms(3,4)])
    moreover obtain y x1 where o: "outside (we_send E ?login) x = (y, x1)" by (cases "outside (we_send E ?login) x")
    moreover have "not_before time left t k x1" by (rule preservesD [OF send x o])
    ultimately obtain r x2 where "pump E (Suc n) deadline x1 = Some (r, x2)" by fastforce
    then show ?thesis using o by (auto simp: run_protocol_def split: sum.splits prod.splits)
  qed
  obtain y w1 where g: "?gate w = (y, w1)" by (cases "?gate w")
  have w1: "not_before time left t k w1" by (rule preservesD [OF gate assms(2) g])
  show ?thesis
  proof (cases "\<exists>c. y = Inr c \<and> 0 < deadline - c")
    case False
    then show ?thesis using g by (auto simp: connect_attempt_def split: sum.splits prod.splits)
  next
    case True
    then obtain c where c: "y = Inr c" "0 < deadline - c" by blast
    obtain z w2 where o: "outside (we_connect E (min 10 (deadline - c))) w1 = (z, w2)"
      by (cases "outside (we_connect E (min 10 (deadline - c))) w1")
    have "not_before time left t k w2" by (rule preservesD [OF conn w1 o])
    then have "not_before time left t k (w2\<lparr>ws_stream := stream_begin (ws_stream w2)\<rparr>)" by (simp add: not_before_def)
    note protocol [OF this, of "v\<lparr>cv_connections := cv_connections v + 1\<rparr>"]
    with g c o show ?thesis
      by (auto simp: connect_attempt_def split: sum.splits prod.splits option.splits)
  qed
qed

lemma any_usable_not_before:
  assumes "waits E time left deadline"
  shows "any_usable E symbs w = (fresh, w') \<Longrightarrow> not_before time left t k w \<Longrightarrow> not_before time left t k w'"
proof (induction symbs arbitrary: w)
  case (Cons symb symbs)
  obtain d s where n: "we_now E (ws_world w) = (d, s)" by (cases "we_now E (ws_world w)")
  then have "onward time left (ws_world w) s" using assms unfolding waits_def by (metis snd_conv)
  then show ?case
    using Cons n by (auto simp: not_before_def onward_def split: if_splits)
qed simp

lemma run_protocol_not_before:
  assumes tick: "waits E time left deadline" and w: "not_before time left t k w"
    and run: "run_protocol E n deadline token symbols v w = Some (stop, v', w')"
  shows "not_before time left t k w'"
proof -
  let ?login = "Json (PyDict [(''trnm'', PyStr ''LOGIN''), (''token'', PyStr token)])"
  obtain x w1 where o: "outside (we_send E ?login) w = (x, w1)" by (cases "outside (we_send E ?login) w")
  have "preserves (not_before time left t k) (outside (we_send E ?login))"
    using tick by (intro outside_not_before) (simp add: waits_def)
  from preservesD [OF this w o] have w1: "not_before time left t k w1" .
  show ?thesis
  proof (cases x)
    case (Inl e)
    then show ?thesis using run o w1 by (simp add: run_protocol_def)
  next
    case (Inr u)
    then obtain r w2 where p: "pump E n deadline w1 = Some (r, w2)"
      using run o by (auto simp: run_protocol_def split: option.splits)
    note w2 = pump_preserves [OF turn_safe_not_before [OF tick] w1 p]
    show ?thesis
      using run o Inr p w2 any_usable_not_before [OF tick _ w2]
      by (auto simp: run_protocol_def split: sum.splits prod.splits)
  qed
qed

lemma connect_attempt_not_before:
  assumes tick: "waits E time left deadline" and w: "not_before time left t k w"
    and run: "connect_attempt E n deadline token symbols v w = Some (stop, v', w')"
  shows "not_before time left t k w'"
proof -
  let ?gate = "wbind (outside (we_acquire E)) (\<lambda>_. observed (we_clock E))"
  obtain x w1 where g: "?gate w = (x, w1)" by (cases "?gate w")
  have "preserves (not_before time left t k) ?gate"
    using tick by (intro preserves_bind outside_not_before observed_not_before waits_clock [OF tick])
      (simp add: waits_def)
  from preservesD [OF this w g] have w1: "not_before time left t k w1" .
  have conn: "preserves (not_before time left t k) (outside (we_connect E d))" for d
    using tick by (intro outside_not_before) (simp add: waits_def)
  show ?thesis
  proof (cases "\<exists>c. x = Inr c \<and> 0 < deadline - c")
    case False
    then show ?thesis
      using run g finish_attempt_not_before [OF tick w1]
      by (auto simp: connect_attempt_def split: sum.splits if_splits prod.splits)
  next
    case True
    then obtain c where c: "x = Inr c" "0 < deadline - c" by blast
    obtain z w2 where o: "outside (we_connect E (min 10 (deadline - c))) w1 = (z, w2)"
      by (cases "outside (we_connect E (min 10 (deadline - c))) w1")
    have w2: "not_before time left t k w2" by (rule preservesD [OF conn w1 o])
    then have "not_before time left t k (w2\<lparr>ws_stream := stream_begin (ws_stream w2)\<rparr>)" by (simp add: not_before_def)
    note after = run_protocol_not_before [OF tick this]
    show ?thesis
    proof (cases z)
      case (Inl e)
      then show ?thesis using run g c o finish_attempt_not_before [OF tick w2]
        by (auto simp: connect_attempt_def split: prod.splits)
    next
      case (Inr u)
      let ?v = "v\<lparr>cv_connections := cv_connections v + 1\<rparr>"
      obtain stop1 v1 w3 where r: "run_protocol E n deadline token symbols ?v
          (w2\<lparr>ws_stream := stream_begin (ws_stream w2)\<rparr>) = Some (stop1, v1, w3)"
        using run g c o Inr by (auto simp: connect_attempt_def split: option.splits)
      then show ?thesis using run g c o Inr finish_attempt_not_before [OF tick after [OF r]]
        by (auto simp: connect_attempt_def split: prod.splits)
    qed
  qed
qed

lemma stream_attempt_returns:
  assumes tick: "waits E time left deadline" and w: "not_before time left t k w" and "deadline - t \<le> of_nat m" and "m + k \<le> n"
  shows "\<exists>stop v' w'. stream_attempt E (Suc n) deadline symbols v w = Some (stop, v', w') \<and> not_before time left t k w'"
proof -
  obtain x w1 where o: "outside (we_token E) w = (x, w1)" by (cases "outside (we_token E) w")
  have "preserves (not_before time left t k) (outside (we_token E))"
    using tick by (intro outside_not_before) (simp add: waits_def)
  from preservesD [OF this w o] have w1: "not_before time left t k w1" .
  have failed: "\<exists>stop v' w'. (case finish_attempt E False u w1 of (v1, w2) \<Rightarrow> Some (True, v1, w2)) = Some (stop, v', w') \<and>
      not_before time left t k w'" for u
    using finish_attempt_not_before [OF tick w1] by (cases "finish_attempt E False u w1") auto
  show ?thesis
  proof (cases "\<exists>token. x = Inr token \<and> token_ok token")
    case False
    then show ?thesis using o failed by (auto simp: stream_attempt_def Let_def split: sum.splits)
  next
    case True
    then obtain token where token: "x = Inr token" "token_ok token" by blast
    then have "stream_attempt E (Suc n) deadline symbols v w =
        connect_attempt E (Suc n) deadline token symbols (v\<lparr>cv_stage := None, cv_kind := None\<rparr>) w1"
      using o by (simp add: stream_attempt_def)
    then show ?thesis
      using connect_attempt_returns [OF tick w1 assms(3,4)] connect_attempt_not_before [OF tick w1] by fastforce
  qed
qed

lemma stream_attempts_return:
  assumes tick: "waits E time left deadline" and "deadline - t \<le> of_nat m" and "m + k \<le> n"
  shows "not_before time left t k w \<Longrightarrow> stream_attempts E (Suc n) deadline symbols a v w \<noteq> None"
proof (induction a arbitrary: v w)
  case (Suc a)
  from stream_attempt_returns [OF tick Suc.prems assms(2,3), of symbols v] obtain stop v' w' where
    "stream_attempt E (Suc n) deadline symbols v w = Some (stop, v', w')" "not_before time left t k w'" by blast
  then show ?case using Suc.IH by (cases stop) simp_all
qed simp

section \<open>Properties\<close>

lemma capture_verdict:
  assumes "capture_stream E fuel symbols secs reconnects s = Some (Inr (c, w))"
  shows "\<not> sp_orders_enabled c \<and> \<not> sp_account_reconciled c \<and> int (sp_connections c) \<le> reconnects + 1 \<and>
    \<not> st_connected (ws_stream w) \<and> st_last_quotes (ws_stream w) = Map.empty \<and>
    (sp_fresh_before_close c \<longrightarrow> 1 \<le> sp_quotes_observed c \<and> sp_failure_stage c = None) \<and>
    (sp_connections c = 0 \<longrightarrow> sp_quotes_observed c = 0 \<and> sp_malformed_frames c = 0) \<and>
    sp_failure_kind c \<in> failure_kinds"
proof -
  from assms obtain S where S: "make_stream symbols = Inr S" and r: "0 \<le> reconnects"
    by (auto simp: capture_stream_def split: if_splits sum.splits)
  let ?v = "\<lparr>cv_connections = 0, cv_reason = ''NO_QUOTE'', cv_fresh = False, cv_stage = None, cv_kind = None\<rparr>"
  obtain t s1 where t: "we_clock E s = (t, s1)" by (cases "we_clock E s")
  let ?w = "\<lparr>ws_stream = S, ws_quotes = 0, ws_malformed = 0, ws_world = s1\<rparr>"
  have init: "vars_ok 0 ?v ?w"
    using make_stream_ok [OF S] by (simp add: vars_ok_def ws_ok_def failure_kinds_def)
  from assms S t r obtain v where
    a: "stream_attempts E fuel (t + the secs) symbols (nat (reconnects + 1)) ?v ?w = Some (v, w)"
    and c: "c = \<lparr>sp_connections = cv_connections v, sp_quotes_observed = ws_quotes w,
                  sp_reason = cv_reason v, sp_fresh_before_close = cv_fresh v, sp_malformed_frames = ws_malformed w,
                  sp_orders_enabled = False, sp_account_reconciled = False,
                  sp_failure_stage = cv_stage v, sp_failure_kind = cv_kind v\<rparr>"
    by (auto simp: capture_stream_def split: if_splits option.splits)
  from stream_attempts_ok [OF init a] r have "attempt_done (nat (reconnects + 1)) v w" by simp
  then show ?thesis using r by (auto simp: c attempt_done_def vars_ok_def)
qed

text \<open>C11: A capture never leaves anything live. Whatever the socket, the clocks, the token and the sink do, a capture
  that returns enables no orders and reconciles nothing, made at most one connection more than the
  reconnects, and leaves the stream disconnected and without quotes; it reports freshness only without a
  failure and after some quote was observed, counts nothing without a connection, and describes a failure
  only in the fixed vocabulary.\<close>

theorem capture_fails_closed:
  assumes "capture_stream E fuel symbols secs reconnects s = Some (Inr (c, w))"
  shows "\<not> sp_orders_enabled c \<and> \<not> sp_account_reconciled c \<and> int (sp_connections c) \<le> reconnects + 1 \<and>
    \<not> st_connected (ws_stream w) \<and> st_last_quotes (ws_stream w) = Map.empty \<and>
    (sp_fresh_before_close c \<longrightarrow> 1 \<le> sp_quotes_observed c \<and> sp_failure_stage c = None) \<and>
    (sp_connections c = 0 \<longrightarrow> sp_quotes_observed c = 0 \<and> sp_malformed_frames c = 0) \<and>
    sp_failure_kind c \<in> failure_kinds"
  using assms by (rule capture_verdict)

text \<open>C20: A capture ends. When nothing moves the clock back, a receive that times out has waited for its
  timeout, and at most a given number of frames arrive before the end of the capture, queued or not, a capture
  with valid arguments returns, with one unit of fuel for each started second, one for each frame, and one more, whatever
  else the socket, the token, the pacing and the sink do.\<close>

theorem capture_returns:
  assumes "waits E time left (fst (we_clock E s) + len)" and "left s \<le> k"
    and "0 < len" and "len \<le> 120" and "len \<le> of_nat m" and "m + k \<le> n"
    and "0 \<le> reconnects" and "reconnects \<le> 3" and "make_stream symbols = Inr S"
  shows "\<exists>c w. capture_stream E (Suc n) symbols (Some len) reconnects s = Some (Inr (c, w))"
proof -
  obtain t s1 where t: "we_clock E s = (t, s1)" by (cases "we_clock E s")
  have wait: "waits E time left (t + len)" using assms(1) t by simp
  have s1: "t \<le> time s1" "left s1 \<le> k"
    using wait t assms(2) unfolding waits_def onward_def by (metis fst_conv snd_conv, metis order_trans snd_conv)
  have "stream_attempts E (Suc n) (t + len) symbols a v
      \<lparr>ws_stream = S, ws_quotes = 0, ws_malformed = 0, ws_world = s1\<rparr> \<noteq> None" for a v
    by (rule stream_attempts_return [OF wait, of t m k]) (use assms(5,6) s1 in \<open>simp_all add: not_before_def\<close>)
  from this [of "nat (reconnects + 1)"
      "\<lparr>cv_connections = 0, cv_reason = ''NO_QUOTE'', cv_fresh = False, cv_stage = None, cv_kind = None\<rparr>"]
  show ?thesis using assms(3,4,7,8,9) t by (auto simp: capture_stream_def)
qed

text \<open>A socket that has some frames queued, which it hands out at once, and then stays silent: each receive waits for its
  timeout.\<close>

definition queue_env :: "(rat \<times> nat) ws_env" where
  "queue_env = \<lparr>we_clock = (\<lambda>s. (fst s, s)), we_now = (\<lambda>s. (\<lparr>dt_instant = 0, dt_offset = Some 0\<rparr>, s)),
     we_token = (\<lambda>s. (Inr ''t'', s)), we_acquire = (\<lambda>s. (Inr (), s)), we_connect = (\<lambda>d s. (Inr (), s)),
     we_send = (\<lambda>p s. (Inr (), s)),
     we_recv = (\<lambda>d (t, k). case k of 0 \<Rightarrow> (Inl TimeoutError, (t + max 0 d, 0)) | Suc k \<Rightarrow> (Inr (Raw_text ''PING''), (t, k))),
     we_close = (\<lambda>s. (Inr (), s)), we_sink = None, we_decode_utf8 = Some, we_loads = (\<lambda>_. None)\<rparr>"

lemma queue_waits: "waits queue_env fst snd h"
  by (auto simp: waits_def onward_def queue_env_def split: nat.splits)

theorem capture_returns_witness:
  "\<exists>c w. capture_stream queue_env (Suc 15) [''005930''] (Some 12) 2 (0, 3) = Some (Inr (c, w))"
  by (rule capture_returns [OF queue_waits, where k = 3 and m = 12 and S = example_stream]) (simp_all add: example_stream_made)

text \<open>A socket that stays silent.\<close>

definition silent_env :: "rat ws_env" where
  "silent_env = \<lparr>we_clock = (\<lambda>s. (s, s)), we_now = (\<lambda>s. (\<lparr>dt_instant = 0, dt_offset = Some 0\<rparr>, s)),
     we_token = (\<lambda>s. (Inr ''t'', s)), we_acquire = (\<lambda>s. (Inr (), s)), we_connect = (\<lambda>d s. (Inr (), s)),
     we_send = (\<lambda>p s. (Inr (), s)), we_recv = (\<lambda>d s. (Inl TimeoutError, s + max 0 d)), we_close = (\<lambda>s. (Inr (), s)),
     we_sink = None, we_decode_utf8 = Some, we_loads = (\<lambda>_. None)\<rparr>"

lemma silent_capture:
  "\<exists>w. capture_stream silent_env 5 [''005930''] (Some 2) 0 0 = Some (Inr (\<lparr>sp_connections = 1, sp_quotes_observed = 0,
     sp_reason = ''LOGIN_PENDING'', sp_fresh_before_close = False, sp_malformed_frames = 0, sp_orders_enabled = False,
     sp_account_reconciled = False, sp_failure_stage = None, sp_failure_kind = None\<rparr>, w))"
proof -
  let ?run = "capture_stream silent_env 5 [''005930''] (Some 2) 0 0"
  let ?c = "\<lparr>sp_connections = 1, sp_quotes_observed = 0,
     sp_reason = ''LOGIN_PENDING'', sp_fresh_before_close = False, sp_malformed_frames = 0, sp_orders_enabled = False,
     sp_account_reconciled = False, sp_failure_stage = None, sp_failure_kind = None\<rparr>"
  have "case ?run of Some (Inr (c, w)) \<Rightarrow> c = ?c | _ \<Rightarrow> False" by code_simp
  then show ?thesis by (auto split: option.splits sum.splits)
qed

theorem capture_fails_closed_witness:
  "\<exists>c w. capture_stream silent_env 5 [''005930''] (Some 2) 0 0 = Some (Inr (c, w)) \<and> sp_connections c = 1 \<and>
     \<not> st_connected (ws_stream w)"
proof -
  from silent_capture obtain c w where run: "capture_stream silent_env 5 [''005930''] (Some 2) 0 0 = Some (Inr (c, w))"
    and "sp_connections c = 1" by force
  with capture_fails_closed [OF run] show ?thesis by blast
qed

end
