(* ===== verification/RestEvidence.thy ===== *)
theory RestEvidence
  imports RestReadonly
begin

text \<open>
  \<open>adapters/kiwoom_rest_evidence.py\<close> and \<open>adapters/kiwoom_rest_scope.py\<close>: a query observed between two
  readings of the clock and of the event revision, a batch of them with its review reason, and the gates
  in front of a named scope. The clock, the revision and the transport are injected: they are state
  transformers on one outside state.
\<close>

section \<open>Scopes\<close>

record paper_read_scope =
  pr_account_alias :: string
  pr_app_alias :: string

definition alias_char :: "char \<Rightarrow> bool" where
  "alias_char c \<longleftrightarrow> is_upper c \<or> is_lower c \<or> is_digit c \<or> c \<in> {CHR ''_'', CHR ''.'', CHR ''-''}"

definition is_alias :: "string \<Rightarrow> bool" where
  "is_alias s \<longleftrightarrow> 1 \<le> length s \<and> length s \<le> 64 \<and> (\<forall>c\<in>set s. alias_char c)"

definition make_paper_read_scope :: "string \<Rightarrow> string \<Rightarrow> paper_read_scope result" where
  "make_paper_read_scope account app =
     ebind (raise_if (\<not> is_alias account \<or> \<not> is_alias app) (ValueError ''READ_SCOPE_INVALID'')) (\<lambda>_.
     Inr \<lparr>pr_account_alias = account, pr_app_alias = app\<rparr>)"

section \<open>Observed queries\<close>

record observed_query =
  oq_scope :: paper_read_scope
  oq_capture :: rest_capture
  oq_started_at :: datetime
  oq_finished_at :: datetime
  oq_revision_at_start :: pyval
  oq_revision_at_finish :: pyval

text \<open>A revision is an integer by its type; a bool is none.\<close>

definition valid_revision :: "pyval \<Rightarrow> bool" where
  "valid_revision v \<longleftrightarrow> (case v of PyInt n \<Rightarrow> 0 \<le> n | _ \<Rightarrow> False)"

definition query_consistent :: "observed_query \<Rightarrow> bool" where
  "query_consistent q \<longleftrightarrow> rc_complete (oq_capture q) \<and> aware (oq_started_at q) \<and> aware (oq_finished_at q) \<and>
     dt_le (oq_started_at q) (oq_finished_at q) \<and> valid_revision (oq_revision_at_start q) \<and>
     valid_revision (oq_revision_at_finish q) \<and> oq_revision_at_start q = oq_revision_at_finish q"

definition observe_query ::
    "'s page_fetcher \<Rightarrow> paper_read_scope \<Rightarrow> rest_query \<Rightarrow> (string \<times> string) list \<Rightarrow> int \<Rightarrow>
     ('s \<Rightarrow> pyval \<times> 's) \<Rightarrow> ('s \<Rightarrow> datetime \<times> 's) \<Rightarrow> 's \<Rightarrow> (observed_query \<times> 's) result" where
  "observe_query fetch sc q body max_pages revision now s =
     (let (first_revision, s1) = revision s; (started, s2) = now s1
      in ebind (raise_if (\<not> valid_revision first_revision \<or> \<not> aware started)
                (ValueError ''OBSERVATION_BOUNDARY_INVALID'')) (\<lambda>_.
         ebind (capture_query fetch q body max_pages s2) (\<lambda>(capture, s3).
         let (ended, s4) = now s3; (last_revision, s5) = revision s4
         in Inr (\<lparr>oq_scope = sc, oq_capture = capture, oq_started_at = started, oq_finished_at = ended,
                  oq_revision_at_start = first_revision, oq_revision_at_finish = last_revision\<rparr>, s5))))"

section \<open>Batches\<close>

record rest_read_batch =
  rb_scope :: paper_read_scope
  rb_queries :: "observed_query list"

definition required_sections :: "string set" where
  "required_sections = {''orders'', ''fills'', ''open_orders'', ''balances''}"

fun query_section :: "rest_query \<Rightarrow> string" where
  "query_section POSITIONS = ''balances''"
| "query_section UNFILLED = ''open_orders''"
| "query_section ORDER_DETAIL = ''orders''"
| "query_section ORDER_STATUS = ''orders''"
| "query_section FILLS = ''fills''"

definition missing_sections :: "rest_read_batch \<Rightarrow> string set" where
  "missing_sections b = required_sections - (\<lambda>q. query_section (rc_query (oq_capture q))) ` set (rb_queries b)"

fun intervals_overlap :: "observed_query list \<Rightarrow> bool" where
  "intervals_overlap (l # r # qs) \<longleftrightarrow>
     dt_lt (oq_started_at r) (oq_finished_at l) \<or> intervals_overlap (r # qs)"
| "intervals_overlap _ \<longleftrightarrow> False"

definition interval_reason :: "rest_read_batch \<Rightarrow> string" where
  "interval_reason b =
     (let ordered = sort_key (\<lambda>q. dt_instant (oq_started_at q)) (rb_queries b)
      in if intervals_overlap ordered then ''QUERY_INTERVAL_OVERLAP''
         else if card (oq_revision_at_start ` set (rb_queries b)) \<noteq> 1 then ''EVENT_REVISION_CHANGED''
         else if missing_sections b \<noteq> {} then ''MISSING_QUERY_SECTIONS''
         else ''BROKER_IDENTITY_MAPPING_UNVERIFIED'')"

definition batch_review_reason :: "rest_read_batch \<Rightarrow> string" where
  "batch_review_reason b =
     (if rb_queries b = [] then ''NO_QUERY_EVIDENCE''
      else if \<exists>q\<in>set (rb_queries b). oq_scope q \<noteq> rb_scope b then ''SCOPE_MISMATCH''
      else if card ((\<lambda>q. rc_query (oq_capture q)) ` set (rb_queries b)) \<noteq> length (rb_queries b)
      then ''DUPLICATE_QUERY_SECTION''
      else if \<not> (\<forall>q\<in>set (rb_queries b). query_consistent q) then ''QUERY_INTERVAL_UNCONFIRMED''
      else interval_reason b)"

definition can_reconcile :: "rest_read_batch \<Rightarrow> bool" where
  "can_reconcile b = False"

section \<open>Activation gates\<close>

record identity_gates =
  q01_order_identity :: bool
  q02_fill_identity :: bool
  q08_pre_ack_linkage :: bool
  live_paper_evidence :: bool

definition gates_satisfied :: "identity_gates \<Rightarrow> bool" where
  "gates_satisfied g \<longleftrightarrow> q01_order_identity g \<and> q02_fill_identity g \<and> q08_pre_ack_linkage g \<and>
     live_paper_evidence g"

record operator_approval =
  approved_by :: string
  approved_at :: datetime

definition make_operator_approval :: "string \<Rightarrow> datetime \<Rightarrow> operator_approval result" where
  "make_operator_approval by_name at_time =
     ebind (raise_if (strip by_name = []) (ValueError ''APPROVAL_ANONYMOUS'')) (\<lambda>_.
     ebind (raise_if (\<not> aware at_time) (ValueError ''APPROVAL_TIME_NAIVE'')) (\<lambda>_.
     Inr \<lparr>approved_by = by_name, approved_at = at_time\<rparr>))"

record rest_scope_proposal =
  rp_scope :: paper_read_scope
  rp_gates :: identity_gates
  rp_approval :: "operator_approval option"

definition proposal_review_reason :: "rest_scope_proposal \<Rightarrow> string" where
  "proposal_review_reason p =
     (if \<not> q01_order_identity (rp_gates p) then ''Q01_ORDER_IDENTITY_UNCONFIRMED''
      else if \<not> q02_fill_identity (rp_gates p) then ''Q02_FILL_IDENTITY_UNCONFIRMED''
      else if \<not> q08_pre_ack_linkage (rp_gates p) then ''Q08_PRE_ACK_LINKAGE_UNCONFIRMED''
      else if \<not> live_paper_evidence (rp_gates p) then ''LIVE_PAPER_EVIDENCE_MISSING''
      else if rp_approval p = None then ''OPERATOR_APPROVAL_MISSING''
      else ''READY_FOR_MANUAL_ACTIVATION'')"

definition can_activate :: "rest_scope_proposal \<Rightarrow> bool" where
  "can_activate p \<longleftrightarrow> gates_satisfied (rp_gates p) \<and> rp_approval p \<noteq> None"

section \<open>Lemmas\<close>

text \<open>Neighbours that do not overlap in a list of proper intervals suffice for all pairs.\<close>

lemma no_overlap_iff:
  assumes "\<forall>q\<in>set qs. dt_le (oq_started_at q) (oq_finished_at q)"
  shows "\<not> intervals_overlap qs \<longleftrightarrow> sorted_wrt (\<lambda>l r. dt_le (oq_finished_at l) (oq_started_at r)) qs"
  using assms
proof (induction qs rule: intervals_overlap.induct)
  case (1 l r qs)
  then show ?case by (auto simp: not_less intro: order_trans)
qed simp_all

lemma sorted_wrt_pairs:
  assumes "sorted_wrt R xs" and "x \<in> set xs" and "y \<in> set xs"
  shows "x = y \<or> R x y \<or> R y x"
proof -
  obtain i j where ij: "i < length xs" "x = xs ! i" "j < length xs" "y = xs ! j"
    using assms(2,3) by (metis in_set_conv_nth)
  show ?thesis
  proof (cases i j rule: linorder_cases)
    case less
    then show ?thesis using ij sorted_wrt_nth_less [OF assms(1)] by blast
  next
    case greater
    then show ?thesis using ij sorted_wrt_nth_less [OF assms(1)] by blast
  qed (use ij in simp)
qed

lemma sort_key_strict:
  assumes "distinct (map f xs)"
  shows "sorted_wrt (\<lambda>x y. f x < f y) (sort_key f xs)"
proof -
  have "distinct (map f (sort_key f xs))"
    using assms by (metis distinct_map distinct_sort inj_on_cong set_sort)
  then have "sorted_wrt (<) (map f (sort_key f xs))"
    by (simp add: strict_sorted_iff)
  then show ?thesis by (simp add: sorted_wrt_map)
qed

lemma observe_query_Inr:
  assumes "observe_query fetch sc q body max_pages revision now s = Inr (ob, s')"
  shows "oq_scope ob = sc \<and> rc_query (oq_capture ob) = q \<and>
    (query_consistent ob \<longrightarrow> complete_chain q (rc_pages (oq_capture ob)))"
proof -
  from assms obtain c t t' where run: "capture_pages fetch q body (nat max_pages) [] [] ''N'' [] t = (c, t')"
    and ob: "oq_capture ob = c" "oq_scope ob = sc"
    by (fastforce simp: observe_query_def capture_query_Inr_iff result_simps split: prod.splits)
  have "complete_chain q (rc_pages c)" if "rc_complete c"
    using capture_pages_sound [OF run that] by (auto simp: captured_def chain_from_iff)
  then show ?thesis using ob capture_pages_bound [OF run] by (simp add: query_consistent_def)
qed

text \<open>The abstract contract of a batch, with no order among its queries.\<close>

definition separate :: "observed_query \<Rightarrow> observed_query \<Rightarrow> bool" where
  "separate l r \<longleftrightarrow> dt_le (oq_finished_at l) (oq_started_at r) \<or> dt_le (oq_finished_at r) (oq_started_at l)"

definition batch_sound :: "rest_read_batch \<Rightarrow> bool" where
  "batch_sound b \<longleftrightarrow>
     (\<forall>sec\<in>required_sections. \<exists>q\<in>set (rb_queries b). query_section (rc_query (oq_capture q)) = sec) \<and>
     (\<forall>q\<in>set (rb_queries b). query_consistent q \<and> oq_scope q = rb_scope b) \<and>
     distinct (map (\<lambda>q. rc_query (oq_capture q)) (rb_queries b)) \<and>
     (\<exists>r. \<forall>q\<in>set (rb_queries b). oq_revision_at_start q = r) \<and>
     (\<forall>l\<in>set (rb_queries b). \<forall>r\<in>set (rb_queries b). l = r \<or> separate l r)"

lemma missing_sections_iff:
  "missing_sections b = {} \<longleftrightarrow>
     (\<forall>sec\<in>required_sections. \<exists>q\<in>set (rb_queries b). query_section (rc_query (oq_capture q)) = sec)"
  by (auto simp: missing_sections_def)

lemma card_image_one: "xs \<noteq> [] \<Longrightarrow> card (f ` set xs) = 1 \<longleftrightarrow> (\<exists>r. \<forall>x\<in>set xs. f x = r)"
proof
  assume "xs \<noteq> []" and "\<exists>r. \<forall>x\<in>set xs. f x = r"
  then obtain r where "\<forall>x\<in>set xs. f x = r" by blast
  with \<open>xs \<noteq> []\<close> have "f ` set xs = {r}" by (cases xs) auto
  then show "card (f ` set xs) = 1" by simp
qed (auto simp: card_1_singleton_iff)

lemma best_verdict_iff:
  "batch_review_reason b = ''BROKER_IDENTITY_MAPPING_UNVERIFIED'' \<longleftrightarrow>
     rb_queries b \<noteq> [] \<and> (\<forall>q\<in>set (rb_queries b). query_consistent q \<and> oq_scope q = rb_scope b) \<and>
     distinct (map (\<lambda>q. rc_query (oq_capture q)) (rb_queries b)) \<and>
     (\<exists>r. \<forall>q\<in>set (rb_queries b). oq_revision_at_start q = r) \<and> missing_sections b = {} \<and>
     sorted_wrt (\<lambda>l r. dt_le (oq_finished_at l) (oq_started_at r))
       (sort_key (\<lambda>q. dt_instant (oq_started_at q)) (rb_queries b))"
proof (cases "rb_queries b = [] \<or> \<not> (\<forall>q\<in>set (rb_queries b). query_consistent q)")
  case True
  then show ?thesis by (auto simp: batch_review_reason_def)
next
  case False
  then have "\<forall>q\<in>set (sort_key (\<lambda>q. dt_instant (oq_started_at q)) (rb_queries b)).
      dt_le (oq_started_at q) (oq_finished_at q)"
    by (simp add: query_consistent_def)
  note order = no_overlap_iff [OF this, symmetric]
  have "distinct (map (\<lambda>q. rc_query (oq_capture q)) (rb_queries b)) \<longleftrightarrow>
      card ((\<lambda>q. rc_query (oq_capture q)) ` set (rb_queries b)) = length (rb_queries b)"
    by (metis card_distinct distinct_card length_map set_map)
  then show ?thesis
    using False by (auto simp: batch_review_reason_def interval_reason_def Let_def order card_image_one [unfolded One_nat_def])
qed

section \<open>Properties\<close>

text \<open>The best verdict on a batch means what it says. A batch whose review stops only at the identity
  mapping has, for each of the four required sections, a complete consistent query; all its queries are
  of the scope of the batch, of pairwise different kinds, at one event revision, and no two of their
  intervals overlap. Conversely a batch with all of this, whose queries start at different times, gets
  that verdict; and no verdict allows a reconciliation.\<close>

theorem batch_verdict:
  "(batch_review_reason b = ''BROKER_IDENTITY_MAPPING_UNVERIFIED'' \<longrightarrow> batch_sound b) \<and>
   (batch_sound b \<and> distinct (map (\<lambda>q. dt_instant (oq_started_at q)) (rb_queries b)) \<longrightarrow>
      batch_review_reason b = ''BROKER_IDENTITY_MAPPING_UNVERIFIED'') \<and> \<not> can_reconcile b"
proof (intro conjI impI)
  assume "batch_review_reason b = ''BROKER_IDENTITY_MAPPING_UNVERIFIED''"
  then show "batch_sound b"
    using sorted_wrt_pairs by (fastforce simp: best_verdict_iff batch_sound_def missing_sections_iff separate_def)
next
  let ?qs = "sort_key (\<lambda>q. dt_instant (oq_started_at q)) (rb_queries b)"
  assume *: "batch_sound b \<and> distinct (map (\<lambda>q. dt_instant (oq_started_at q)) (rb_queries b))"
  then have "sorted_wrt (\<lambda>l r. dt_lt (oq_started_at l) (oq_started_at r)) ?qs"
    by (intro sort_key_strict) simp
  then have "sorted_wrt (\<lambda>l r. dt_le (oq_finished_at l) (oq_started_at r)) ?qs"
  proof (rule sorted_wrt_mono_rel [rotated])
    fix l r
    assume "l \<in> set ?qs" "r \<in> set ?qs" "dt_lt (oq_started_at l) (oq_started_at r)"
    moreover from this have "separate l r" and "query_consistent r"
      using * by (auto simp: batch_sound_def)
    ultimately show "dt_le (oq_finished_at l) (oq_started_at r)"
      by (auto simp: separate_def query_consistent_def)
  qed
  moreover have "rb_queries b \<noteq> []"
    using * by (auto simp: batch_sound_def required_sections_def)
  ultimately show "batch_review_reason b = ''BROKER_IDENTITY_MAPPING_UNVERIFIED''"
    using * by (simp add: best_verdict_iff batch_sound_def missing_sections_iff)
qed (simp add: can_reconcile_def)

definition example_query :: "rest_query \<Rightarrow> int \<Rightarrow> observed_query" where
  "example_query q n = \<lparr>oq_scope = \<lparr>pr_account_alias = ''paper'', pr_app_alias = ''app''\<rparr>,
     oq_capture = captured q [] True ''QUERY_COMPLETE_ONLY'',
     oq_started_at = \<lparr>dt_instant = seconds n, dt_offset = Some 0\<rparr>,
     oq_finished_at = \<lparr>dt_instant = seconds (n + 1), dt_offset = Some 0\<rparr>,
     oq_revision_at_start = PyInt 4, oq_revision_at_finish = PyInt 4\<rparr>"

definition example_batch :: rest_read_batch where
  "example_batch = \<lparr>rb_scope = \<lparr>pr_account_alias = ''paper'', pr_app_alias = ''app''\<rparr>,
     rb_queries = [example_query FILLS 5, example_query POSITIONS 1, example_query UNFILLED 3,
       example_query ORDER_STATUS 7]\<rparr>"

theorem batch_verdict_witness: "batch_sound example_batch"
proof -
  have "batch_review_reason example_batch = ''BROKER_IDENTITY_MAPPING_UNVERIFIED''" by code_simp
  with batch_verdict [of example_batch] show ?thesis by blast
qed

text \<open>A named scope is ready exactly when it can be activated. The review reason names the first missing
  precondition, in the order of the gates, and is the readiness verdict exactly when all four gates and
  an approval are there; an approval that could be recorded names its approver and an aware time.\<close>

lemma proposal_ready_iff:
  "(proposal_review_reason p = ''READY_FOR_MANUAL_ACTIVATION'' \<longleftrightarrow> can_activate p) \<and>
   (make_operator_approval name at_time = Inr a \<longrightarrow> strip (approved_by a) \<noteq> [] \<and> aware (approved_at a))"
  by (auto simp: proposal_review_reason_def can_activate_def gates_satisfied_def make_operator_approval_def
      result_simps)

end
