(* ===== verification/Unicode.thy ===== *)
theory Unicode
  imports Prelude
begin

text \<open>
  Python text beyond ASCII as a list of code points, with the text functions the broker tools use; \<open>u\<close> embeds
  ASCII literals.
\<close>

section \<open>Text\<close>

type_synonym utext = "int list"

definition u :: "string \<Rightarrow> utext" where
  "u s = map of_char s"

definition u_blank :: "int \<Rightarrow> bool" where
  "u_blank c \<longleftrightarrow> (9 \<le> c \<and> c \<le> 13) \<or> (28 \<le> c \<and> c \<le> 32) \<or> c \<in> {133, 160, 5760, 8232, 8233, 8239, 8287, 12288} \<or>
     (8192 \<le> c \<and> c \<le> 8202)"

definition u_strip :: "utext \<Rightarrow> utext" where
  "u_strip s = rev (dropWhile u_blank (rev (dropWhile u_blank s)))"

definition u_ascii :: "utext \<Rightarrow> bool" where
  "u_ascii s \<longleftrightarrow> (\<forall>c\<in>set s. c < 128)"

text \<open>\<open>casefold()\<close> as far as it can meet an ASCII request code.\<close>

definition u_casefold :: "utext \<Rightarrow> utext" where
  "u_casefold s = map (\<lambda>c. if 65 \<le> c \<and> c \<le> 90 then c + 32 else c) s"

end
