(* ===== verification/KiwoomReadonly.thy ===== *)
theory KiwoomReadonly
  imports PyValues Unicode "HOL-Library.Sublist"
begin

text \<open>
  \<open>adapters/kiwoom_readonly.py\<close>: captures of the read-only OpenAPI+ queries. Broker text is Korean, so
  text is the \<open>utext\<close> of \<open>Unicode\<close> here. A field whose type the code checks
  at run time is \<open>Val\<close> of that type or \<open>Other\<close>. The control is injected: a state transformer that may raise.
\<close>

section \<open>Fields\<close>

datatype 'a field = Val 'a | Other

fun is_val :: "'a field \<Rightarrow> bool" where
  "is_val (Val _) = True"
| "is_val Other = False"

fun from_val :: "'a \<Rightarrow> 'a field \<Rightarrow> 'a" where
  "from_val d (Val x) = x"
| "from_val d Other = d"

section \<open>Queries\<close>

datatype query_status = COMPLETE | QUERY_UNKNOWN | QUARANTINED

definition read_only_trs :: "utext set" where
  "read_only_trs = {u ''opw00018'', u ''opt10075''}"

text \<open>Account number, password, and password medium.\<close>

definition sensitive_input_names :: "utext set" where
  "sensitive_input_names = {[44228, 51340, 48264, 54840], [48708, 48128, 48264, 54840],
     [48708, 48128, 48264, 54840, 51077, 47141, 47588, 52404, 44396, 48516]}"

record query_spec =
  qs_tr_code :: utext
  qs_rq_name :: utext
  qs_input_values :: "(utext \<times> utext) list"
  qs_fields :: "utext list"

definition make_query_spec :: "utext \<Rightarrow> utext \<Rightarrow> (utext \<times> utext) list \<Rightarrow> utext list \<Rightarrow> query_spec result" where
  "make_query_spec tr rq inputs flds =
     ebind (raise_if (tr \<notin> read_only_trs) (ValueError ''TR_NOT_READ_ONLY'')) (\<lambda>_.
     ebind (raise_if (\<exists>(k, v)\<in>set inputs. k = [] \<or> v = []) (ValueError ''QUERY_INPUT_INVALID'')) (\<lambda>_.
     Inr \<lparr>qs_tr_code = tr, qs_rq_name = rq, qs_input_values = inputs, qs_fields = flds\<rparr>))"

section \<open>Captures\<close>

type_synonym raw_row = "(utext field \<times> utext field) list"

record query_page =
  qg_page_number :: "int field"
  qg_prev_next :: "utext field"
  qg_received_at :: "datetime field"
  qg_raw_rows :: "raw_row field list field"
  qg_raw_payload :: "utext field"
  qg_finished :: "bool field"
  qg_error_code :: "utext field option"

record query_capture =
  qc_capture_id :: uuid
  qc_account_alias :: utext
  qc_environment :: utext
  qc_spec :: query_spec
  qc_started_at :: "datetime field"
  qc_finished_at :: "datetime field option"
  qc_pages :: "query_page field list"

definition pagination_complete :: "utext list \<Rightarrow> bool" where
  "pagination_complete ms \<longleftrightarrow> ms \<noteq> [] \<and> (\<forall>m\<in>set (butlast ms). m = u ''2'') \<and> last ms \<in> {[], u ''0''}"

definition raw_row_ok :: "raw_row field \<Rightarrow> bool" where
  "raw_row_ok r \<longleftrightarrow> (case r of Val kvs \<Rightarrow> \<forall>(k, v)\<in>set kvs. is_val k \<and> is_val v | Other \<Rightarrow> False)"

definition page_well_formed :: "query_page field \<Rightarrow> bool" where
  "page_well_formed p \<longleftrightarrow>
     (case p of
       Other \<Rightarrow> False
     | Val g \<Rightarrow> is_val (qg_page_number g) \<and> 1 \<le> from_val 0 (qg_page_number g) \<and> is_val (qg_prev_next g) \<and>
         is_val (qg_finished g) \<and> (case qg_error_code g of None \<Rightarrow> True | Some e \<Rightarrow> is_val e) \<and>
         is_val (qg_raw_payload g) \<and>
         (case qg_raw_rows g of Val rows \<Rightarrow> \<forall>r\<in>set rows. raw_row_ok r | Other \<Rightarrow> False))"

definition no_page :: query_page where
  "no_page = \<lparr>qg_page_number = Other, qg_prev_next = Other, qg_received_at = Other, qg_raw_rows = Other,
     qg_raw_payload = Other, qg_finished = Other, qg_error_code = None\<rparr>"

definition page_of :: "query_page field \<Rightarrow> query_page" where
  "page_of = from_val no_page"

definition capture_pages_are_well_formed :: "query_capture \<Rightarrow> bool" where
  "capture_pages_are_well_formed c \<longleftrightarrow> (\<forall>p\<in>set (qc_pages c). page_well_formed p)"

definition aware_field :: "datetime field \<Rightarrow> bool" where
  "aware_field t \<longleftrightarrow> (case t of Val d \<Rightarrow> aware d | Other \<Rightarrow> False)"

definition instant :: "datetime field \<Rightarrow> int" where
  "instant t = (case t of Val d \<Rightarrow> dt_instant d | Other \<Rightarrow> 0)"

text \<open>The loop over the pages: each was received no earlier than the one before, and within the capture.\<close>

fun times_ordered :: "int \<Rightarrow> int \<Rightarrow> query_page list \<Rightarrow> bool" where
  "times_ordered previous ended [] = True"
| "times_ordered previous ended (g # gs) =
     (if instant (qg_received_at g) < previous \<or> instant (qg_received_at g) > ended then False
      else times_ordered (instant (qg_received_at g)) ended gs)"

definition capture_times_are_consistent :: "query_capture \<Rightarrow> bool" where
  "capture_times_are_consistent c \<longleftrightarrow>
     (case qc_finished_at c of
       None \<Rightarrow> False
     | Some ended \<Rightarrow>
         (\<forall>t\<in>set (qc_started_at c # ended # map (qg_received_at \<circ> page_of) (qc_pages c)). aware_field t) \<and>
         instant (qc_started_at c) \<le> instant ended \<and>
         times_ordered (instant (qc_started_at c)) (instant ended) (map page_of (qc_pages c)))"

definition page_number :: "query_page \<Rightarrow> int" where
  "page_number g = from_val 0 (qg_page_number g)"

definition page_failed :: "query_page \<Rightarrow> bool" where
  "page_failed g \<longleftrightarrow> (case qg_error_code g of Some (Val e) \<Rightarrow> e \<noteq> [] | _ \<Rightarrow> False) \<or> qg_finished g \<noteq> Val True"

definition capture_status :: "query_capture \<Rightarrow> query_status" where
  "capture_status c =
     (let gs = map page_of (qc_pages c); numbers = map page_number gs
      in if qc_pages c = [] \<or> qc_finished_at c = None then QUERY_UNKNOWN
         else if \<not> capture_pages_are_well_formed c \<or> \<not> capture_times_are_consistent c then QUARANTINED
         else if numbers \<noteq> [1..Max (set numbers)] \<or> (\<exists>g\<in>set gs. page_failed g) then QUARANTINED
         else if \<not> pagination_complete (map (from_val [] \<circ> qg_prev_next) gs) then QUARANTINED
         else COMPLETE)"

record read_only_snapshot =
  ro_capture_id :: uuid
  ro_status :: query_status
  ro_rows :: "(utext \<times> utext) list list"
  ro_reason :: string

definition normalize_rows :: "(utext \<times> utext) list list \<Rightarrow> (utext \<times> utext) list list" where
  "normalize_rows rows = map (map (\<lambda>(k, v). (k, u_strip v))) rows"

definition plain_rows :: "query_page \<Rightarrow> (utext \<times> utext) list list" where
  "plain_rows g = (case qg_raw_rows g of
     Val rows \<Rightarrow> map (\<lambda>r. map (\<lambda>(k, v). (from_val [] k, from_val [] v)) (from_val [] r)) rows
   | Other \<Rightarrow> [])"

definition normalize_capture :: "query_capture \<Rightarrow> read_only_snapshot" where
  "normalize_capture c =
     (if capture_status c \<noteq> COMPLETE
      then \<lparr>ro_capture_id = qc_capture_id c, ro_status = capture_status c, ro_rows = [],
             ro_reason = ''READ_ONLY_QUERY_EVIDENCE_INCOMPLETE''\<rparr>
      else \<lparr>ro_capture_id = qc_capture_id c, ro_status = COMPLETE,
             ro_rows = normalize_rows (concat (map (plain_rows \<circ> page_of) (qc_pages c))),
             ro_reason = ''READ_ONLY_QUERY_COMPLETE_NOT_MANAGED''\<rparr>)"

definition redact :: "(utext \<times> utext) list \<Rightarrow> (utext \<times> utext) list" where
  "redact inputs = map (\<lambda>(name, value). (name, if name \<in> sensitive_input_names then u ''<redacted>'' else value)) inputs"

text \<open>The identity and the default time of the capture are supplied: \<open>uuid4()\<close> and \<open>utc_now()\<close>.\<close>

definition new_capture :: "uuid \<Rightarrow> datetime \<Rightarrow> query_spec \<Rightarrow> utext \<Rightarrow> utext \<Rightarrow> datetime option \<Rightarrow> query_capture result" where
  "new_capture fresh clock spec alias env started_at =
     ebind (raise_if (alias = [] \<or> \<not> u_ascii alias) (ValueError ''ACCOUNT_ALIAS_REQUIRED'')) (\<lambda>_.
     ebind (make_query_spec (qs_tr_code spec) (qs_rq_name spec) (redact (qs_input_values spec)) (qs_fields spec)) (\<lambda>safe.
     Inr \<lparr>qc_capture_id = fresh, qc_account_alias = alias, qc_environment = env, qc_spec = safe,
       qc_started_at = Val (case started_at of Some t \<Rightarrow> t | None \<Rightarrow> clock), qc_finished_at = None, qc_pages = []\<rparr>))"

definition event_matches_request :: "utext list \<Rightarrow> utext \<Rightarrow> utext \<Rightarrow> utext \<Rightarrow> bool" where
  "event_matches_request args screen rq_name tr_code \<longleftrightarrow>
     3 \<le> length args \<and> u_strip (args ! 0) = screen \<and> u_strip (args ! 1) = rq_name \<and>
     u_casefold (u_strip (args ! 2)) = u_casefold tr_code"

section \<open>The adapter\<close>

datatype call_arg = Text utext | Number int

type_synonym 's qax_control = "string \<Rightarrow> call_arg list \<Rightarrow> 's \<Rightarrow> int result \<times> 's"

definition login_state :: "'s qax_control \<Rightarrow> datetime \<Rightarrow> 's \<Rightarrow> (bool \<times> datetime \<times> int) result \<times> 's" where
  "login_state call observed_at s =
     (case call ''GetConnectState()'' [] s of
       (Inl e, s1) \<Rightarrow> (Inl e, s1)
     | (Inr state, s1) \<Rightarrow> (Inr (state = 1, observed_at, state), s1))"

fun set_inputs :: "'s qax_control \<Rightarrow> (utext \<times> utext) list \<Rightarrow> 's \<Rightarrow> unit result \<times> 's" where
  "set_inputs call [] s = (Inr (), s)"
| "set_inputs call ((name, value) # inputs) s =
     (case call ''SetInputValue(QString, QString)'' [Text name, Text value] s of
       (Inl e, s1) \<Rightarrow> (Inl e, s1)
     | (Inr _, s1) \<Rightarrow> set_inputs call inputs s1)"

definition request_query :: "'s qax_control \<Rightarrow> query_spec \<Rightarrow> utext \<Rightarrow> 's \<Rightarrow> int result \<times> 's" where
  "request_query call spec prev_next s =
     (if prev_next \<notin> {u ''0'', u ''2''} then (Inl (ValueError ''PREV_NEXT_INVALID''), s)
      else case set_inputs call (qs_input_values spec) s of
        (Inl e, s1) \<Rightarrow> (Inl e, s1)
      | (Inr _, s1) \<Rightarrow> call ''CommRqData(QString, QString, int, QString)''
          [Text (qs_rq_name spec), Text (qs_tr_code spec), Number (if prev_next = u ''0'' then 0 else 2),
           Text (u ''readonly'')] s1)"

section \<open>Lemmas\<close>

text \<open>What a complete capture holds, with no loop.\<close>

definition page_due :: "query_capture \<Rightarrow> nat \<Rightarrow> query_page \<Rightarrow> bool" where
  "page_due c i g \<longleftrightarrow> qg_page_number g = Val (int i + 1) \<and> qg_finished g = Val True \<and>
     qg_error_code g \<in> {None, Some (Val [])} \<and>
     (if Suc i = length (qc_pages c) then qg_prev_next g \<in> {Val [], Val (u ''0'')} else qg_prev_next g = Val (u ''2''))"

definition capture_intact :: "query_capture \<Rightarrow> bool" where
  "capture_intact c \<longleftrightarrow> qc_pages c \<noteq> [] \<and> (\<forall>p\<in>set (qc_pages c). page_well_formed p) \<and>
     (\<forall>i<length (qc_pages c). page_due c i (page_of (qc_pages c ! i))) \<and>
     (\<exists>started ended times. qc_started_at c = Val started \<and> qc_finished_at c = Some (Val ended) \<and>
        map (qg_received_at \<circ> page_of) (qc_pages c) = map Val times \<and>
        (\<forall>t\<in>set (started # ended # times). aware t) \<and>
        sorted (map dt_instant (started # times @ [ended])))"

lemma times_ordered_iff:
  "previous \<le> ended \<Longrightarrow> times_ordered previous ended gs \<longleftrightarrow>
     sorted (previous # map (instant \<circ> qg_received_at) gs @ [ended])"
proof (induction gs arbitrary: previous)
  case (Cons g gs)
  show ?case
  proof (cases "instant (qg_received_at g) < previous \<or> instant (qg_received_at g) > ended")
    case True
    then show ?thesis by auto
  next
    case False
    with Cons.IH [of "instant (qg_received_at g)"] show ?thesis
      by (simp add: not_less sorted2 del: sorted_wrt.simps)
  qed
qed simp

lemma numbered_iff:
  assumes "xs \<noteq> []"
  shows "xs = [1..Max (set xs)] \<longleftrightarrow> (\<forall>i<length xs. xs ! i = int i + 1)"
proof
  assume xs: "xs = [1..Max (set xs)]"
  show "\<forall>i<length xs. xs ! i = int i + 1"
  proof (intro allI impI)
    fix i
    assume "i < length xs"
    then have "i < length [1..Max (set xs)]" using xs by simp
    then have "[1..Max (set xs)] ! i = 1 + int i" by (intro nth_upto) simp
    then show "xs ! i = int i + 1" using xs by simp
  qed
next
  assume *: "\<forall>i<length xs. xs ! i = int i + 1"
  have xs: "xs = [1..int (length xs)]" by (rule nth_equalityI) (use * in \<open>simp_all add: nth_upto\<close>)
  then have "set xs = {1..int (length xs)}" by (metis set_upto)
  with assms have "Max (set xs) = int (length xs)" by (intro Max_eqI) (auto simp: Suc_leI)
  with xs show "xs = [1..Max (set xs)]" by simp
qed

lemma pagination_iff:
  assumes "ms \<noteq> []"
  shows "pagination_complete ms \<longleftrightarrow>
    (\<forall>i<length ms. if Suc i = length ms then ms ! i \<in> {[], u ''0''} else ms ! i = u ''2'')"
proof -
  have "(\<forall>m\<in>set (butlast ms). m = u ''2'') \<longleftrightarrow> (\<forall>i<length ms - 1. ms ! i = u ''2'')"
    by (metis in_set_conv_nth length_butlast nth_butlast)
  moreover have "last ms = ms ! (length ms - 1)" using assms by (rule last_conv_nth)
  moreover have "Suc i = length ms \<longleftrightarrow> i = length ms - 1" for i using assms by (cases ms) auto
  ultimately show ?thesis
    using assms by (auto simp: pagination_complete_def)
qed

lemma well_formed_fields:
  assumes "page_well_formed p"
  obtains n m f where "qg_page_number (page_of p) = Val n" and "qg_prev_next (page_of p) = Val m"
    and "qg_finished (page_of p) = Val f" and "\<forall>e. qg_error_code (page_of p) = Some e \<longrightarrow> is_val e"
  using assms
  by (cases p) (auto simp: page_well_formed_def page_of_def elim!: is_val.elims(2) split: option.splits)

lemma aware_fields:
  "(\<forall>t\<in>set ts. aware_field t) \<longleftrightarrow> (\<exists>ds. ts = map Val ds \<and> (\<forall>d\<in>set ds. aware d))"
proof (induction ts)
  case (Cons t ts)
  show ?case
  proof
    assume "\<forall>t\<in>set (t # ts). aware_field t"
    moreover from this Cons obtain ds where "ts = map Val ds" "\<forall>d\<in>set ds. aware d" by auto
    ultimately obtain d where "t # ts = map Val (d # ds)" "\<forall>x\<in>set (d # ds). aware x"
      by (cases t) (auto simp: aware_field_def)
    then show "\<exists>ds. t # ts = map Val ds \<and> (\<forall>d\<in>set ds. aware d)" by (intro exI [of _ "d # ds"]) simp
  next
    assume "\<exists>ds. t # ts = map Val ds \<and> (\<forall>d\<in>set ds. aware d)"
    then show "\<forall>t\<in>set (t # ts). aware_field t" by (auto simp: aware_field_def)
  qed
qed simp

lemma aware_field_iff: "aware_field t \<longleftrightarrow> (\<exists>d. t = Val d \<and> aware d)"
  by (simp add: aware_field_def split: field.splits)

lemma instant_Val [simp]: "instant (Val d) = dt_instant d"
  by (simp add: instant_def)

lemma capture_times_iff:
  "capture_times_are_consistent c \<longleftrightarrow>
     (\<exists>started ended times. qc_started_at c = Val started \<and> qc_finished_at c = Some (Val ended) \<and>
        map (qg_received_at \<circ> page_of) (qc_pages c) = map Val times \<and>
        (\<forall>t\<in>set (started # ended # times). aware t) \<and>
        sorted (map dt_instant (started # times @ [ended])))"
proof (cases "qc_finished_at c")
  case None
  then show ?thesis by (simp add: capture_times_are_consistent_def)
next
  case (Some fin)
  let ?recv = "map (qg_received_at \<circ> page_of) (qc_pages c)"
  have "(\<forall>t\<in>set (qc_started_at c # fin # ?recv). aware_field t) \<longleftrightarrow>
      (\<exists>started ended times. qc_started_at c = Val started \<and> fin = Val ended \<and> ?recv = map Val times \<and>
        (\<forall>t\<in>set (started # ended # times). aware t))"
    using aware_fields [of ?recv] by (simp add: aware_field_iff) blast
  moreover have "instant (qc_started_at c) \<le> instant fin \<and>
      times_ordered (instant (qc_started_at c)) (instant fin) (map page_of (qc_pages c)) \<longleftrightarrow>
      sorted (map dt_instant (started # times @ [ended]))"
    if "qc_started_at c = Val started" "fin = Val ended" "?recv = map Val times" for started ended times
  proof -
    have "map (instant \<circ> qg_received_at) (map page_of (qc_pages c)) = map instant ?recv" by simp
    also have "\<dots> = map dt_instant times" using that by simp
    finally show ?thesis
      using that times_ordered_iff [of "dt_instant started" "dt_instant ended" "map page_of (qc_pages c)"] by auto
  qed
  ultimately show ?thesis using Some unfolding capture_times_are_consistent_def by (auto; metis)
qed

text \<open>A capture counts as complete only when nothing is missing. Its status is complete exactly when it has
  pages, each well formed, finished, without an error and numbered by its place from 1, each but the last
  announcing a continuation and the last announcing none, and all its times are aware and in order: the
  start, the receipts of the pages, the end. Display rows exist only then.\<close>

theorem capture_complete_iff_intact:
  "(capture_status c = COMPLETE \<longleftrightarrow> capture_intact c) \<and>
   (ro_rows (normalize_capture c) \<noteq> [] \<longrightarrow> capture_intact c)"
proof -
  have "capture_status c = COMPLETE \<longleftrightarrow> capture_intact c"
  proof (cases "qc_pages c \<noteq> [] \<and> (\<forall>p\<in>set (qc_pages c). page_well_formed p) \<and> capture_times_are_consistent c")
    case False
    then have "capture_status c \<noteq> COMPLETE"
      by (auto simp: capture_status_def capture_pages_are_well_formed_def Let_def)
    moreover have "\<not> capture_intact c"
      using False capture_times_iff [of c] unfolding capture_intact_def by blast
    ultimately show ?thesis by simp
  next
    case True
    let ?gs = "map page_of (qc_pages c)"
    have fin: "qc_finished_at c \<noteq> None"
      using True by (cases "qc_finished_at c") (simp_all add: capture_times_are_consistent_def)
    have due: "page_due c i (?gs ! i) \<longleftrightarrow> page_number (?gs ! i) = int i + 1 \<and> \<not> page_failed (?gs ! i) \<and>
        (if Suc i = length ?gs then from_val [] (qg_prev_next (?gs ! i)) \<in> {[], u ''0''}
         else from_val [] (qg_prev_next (?gs ! i)) = u ''2'')" if "i < length (qc_pages c)" for i
    proof -
      have g: "?gs ! i = page_of (qc_pages c ! i)" and "page_well_formed (qc_pages c ! i)"
        using True that by simp_all
      then obtain n m f where "qg_page_number (?gs ! i) = Val n" "qg_prev_next (?gs ! i) = Val m"
        "qg_finished (?gs ! i) = Val f" "\<forall>e. qg_error_code (?gs ! i) = Some e \<longrightarrow> is_val e"
        unfolding g by (elim well_formed_fields)
      then show ?thesis
        using that by (auto simp: page_due_def page_number_def page_failed_def split: option.splits field.splits)
    qed
    have numbers: "map page_number ?gs = [1..Max (set (map page_number ?gs))] \<longleftrightarrow>
        (\<forall>i<length (qc_pages c). page_number (?gs ! i) = int i + 1)"
      using True numbered_iff [of "map page_number ?gs"] by simp
    have failed: "(\<forall>g\<in>set ?gs. \<not> page_failed g) \<longleftrightarrow> (\<forall>i<length (qc_pages c). \<not> page_failed (?gs ! i))"
      by (simp only: all_set_conv_all_nth length_map)
    have markers: "pagination_complete (map (from_val [] \<circ> qg_prev_next) ?gs) \<longleftrightarrow>
        (\<forall>i<length (qc_pages c). if Suc i = length ?gs then from_val [] (qg_prev_next (?gs ! i)) \<in> {[], u ''0''}
         else from_val [] (qg_prev_next (?gs ! i)) = u ''2'')"
      using True pagination_iff [of "map (from_val [] \<circ> qg_prev_next) ?gs"] by simp
    have "capture_status c = COMPLETE \<longleftrightarrow>
        map page_number ?gs = [1..Max (set (map page_number ?gs))] \<and> (\<forall>g\<in>set ?gs. \<not> page_failed g) \<and>
        pagination_complete (map (from_val [] \<circ> qg_prev_next) ?gs)"
      using True fin by (simp add: capture_status_def capture_pages_are_well_formed_def Let_def)
    also have "\<dots> \<longleftrightarrow> (\<forall>i<length (qc_pages c). page_due c i (?gs ! i))"
      unfolding numbers failed markers using due by auto
    also have "\<dots> \<longleftrightarrow> capture_intact c"
      using True by (simp add: capture_intact_def capture_times_iff)
    finally show ?thesis .
  qed
  then show ?thesis by (auto simp: normalize_capture_def)
qed

definition example_page :: "int \<Rightarrow> string \<Rightarrow> query_page field" where
  "example_page n marker = Val \<lparr>qg_page_number = Val n, qg_prev_next = Val (u marker),
     qg_received_at = Val \<lparr>dt_instant = seconds n, dt_offset = Some 0\<rparr>,
     qg_raw_rows = Val [Val [(Val (u ''k''), Val (u '' v ''))]], qg_raw_payload = Val [], qg_finished = Val True,
     qg_error_code = None\<rparr>"

definition example_capture :: query_capture where
  "example_capture = \<lparr>qc_capture_id = 5, qc_account_alias = u ''paper'', qc_environment = u ''PAPER'',
     qc_spec = \<lparr>qs_tr_code = u ''opw00018'', qs_rq_name = u ''r'', qs_input_values = [], qs_fields = []\<rparr>,
     qc_started_at = Val \<lparr>dt_instant = 0, dt_offset = Some 0\<rparr>,
     qc_finished_at = Some (Val \<lparr>dt_instant = seconds 9, dt_offset = Some 0\<rparr>),
     qc_pages = [example_page 1 ''2'', example_page 2 ''0'']\<rparr>"

theorem capture_complete_iff_intact_witness: "capture_intact example_capture"
proof -
  have "ro_rows (normalize_capture example_capture) \<noteq> []" by code_simp
  with capture_complete_iff_intact [of example_capture] show ?thesis by blast
qed

text \<open>A new capture keeps no secret. When a capture is started, its query is one of the whitelisted ones,
  every sensitive input reads as redacted, every other input is unchanged, in order, its alias is
  not empty and is ASCII, and its status is unknown.\<close>

theorem new_capture_redacts:
  assumes "new_capture fresh clock spec alias env started_at = Inr c"
  shows "qs_tr_code (qc_spec c) \<in> read_only_trs \<and> alias \<noteq> [] \<and> u_ascii alias \<and> capture_status c = QUERY_UNKNOWN \<and>
    map fst (qs_input_values (qc_spec c)) = map fst (qs_input_values spec) \<and>
    (\<forall>i<length (qs_input_values spec). snd (qs_input_values (qc_spec c) ! i) =
       (if fst (qs_input_values spec ! i) \<in> sensitive_input_names then u ''<redacted>''
        else snd (qs_input_values spec ! i)))"
proof -
  from assms have c: "qc_spec c = \<lparr>qs_tr_code = qs_tr_code spec, qs_rq_name = qs_rq_name spec,
      qs_input_values = redact (qs_input_values spec), qs_fields = qs_fields spec\<rparr>"
    and "qs_tr_code spec \<in> read_only_trs" "alias \<noteq> []" "u_ascii alias" "qc_pages c = []"
    by (auto simp: new_capture_def make_query_spec_def result_simps)
  then show ?thesis
    by (simp add: capture_status_def Let_def redact_def split_beta comp_def)
qed

definition example_spec :: query_spec where
  "example_spec = \<lparr>qs_tr_code = u ''opt10075'', qs_rq_name = u ''open'',
     qs_input_values = [([44228, 51340, 48264, 54840], u ''12345678''), (u ''kind'', u ''0'')], qs_fields = []\<rparr>"

theorem new_capture_redacts_witness:
  "\<exists>c. new_capture 9 \<lparr>dt_instant = 0, dt_offset = Some 0\<rparr> example_spec (u ''paper'') (u ''PAPER'') None = Inr c \<and>
     snd (qs_input_values (qc_spec c) ! 0) = u ''<redacted>'' \<and> snd (qs_input_values (qc_spec c) ! 1) = u ''0''"
proof -
  let ?run = "new_capture 9 \<lparr>dt_instant = 0, dt_offset = Some 0\<rparr> example_spec (u ''paper'') (u ''PAPER'') None"
  have "\<not> isl ?run" by code_simp
  then obtain c where run: "?run = Inr c" by (cases ?run) auto
  from new_capture_redacts [OF run] have "\<forall>i<2. snd (qs_input_values (qc_spec c) ! i) =
      (if fst (qs_input_values example_spec ! i) \<in> sensitive_input_names then u ''<redacted>''
       else snd (qs_input_values example_spec ! i))"
    by (simp add: example_spec_def)
  then have "snd (qs_input_values (qc_spec c) ! 0) = u ''<redacted>''"
    "snd (qs_input_values (qc_spec c) ! 1) = u ''0''"
    by (auto simp: example_spec_def sensitive_input_names_def u_def)
  with run show ?thesis by blast
qed

section \<open>What the adapter calls\<close>

type_synonym call_log = "(string \<times> call_arg list) list"

definition logged_control :: "'s qax_control \<Rightarrow> ('s \<times> call_log) qax_control" where
  "logged_control call signature args = (\<lambda>(s, l). case call signature args s of (r, s') \<Rightarrow> (r, s', l @ [(signature, args)]))"

lemma logged_control_apply:
  "logged_control call signature args (s, l) = (fst (call signature args s), snd (call signature args s), l @ [(signature, args)])"
  by (simp add: logged_control_def split: prod.splits)

definition input_calls :: "(utext \<times> utext) list \<Rightarrow> call_log" where
  "input_calls inputs = map (\<lambda>(n, v). (''SetInputValue(QString, QString)'', [Text n, Text v])) inputs"

definition planned_calls :: "query_spec \<Rightarrow> utext \<Rightarrow> call_log" where
  "planned_calls spec prev_next = input_calls (qs_input_values spec) @
     [(''CommRqData(QString, QString, int, QString)'', [Text (qs_rq_name spec), Text (qs_tr_code spec),
       Number (if prev_next = u ''0'' then 0 else 2), Text (u ''readonly'')])]"

lemma set_inputs_calls:
  "set_inputs (logged_control call) inputs (s, l) = (r, s', l') \<Longrightarrow>
     \<exists>made. l' = l @ made \<and> prefix made (input_calls inputs) \<and> (\<not> isl r \<longrightarrow> made = input_calls inputs)"
proof (induction inputs arbitrary: s l)
  case (Cons nv inputs)
  obtain n v where nv: "nv = (n, v)" by (cases nv)
  let ?one = "(''SetInputValue(QString, QString)'', [Text n, Text v])"
  obtain x s1 where c: "call ''SetInputValue(QString, QString)'' [Text n, Text v] s = (x, s1)"
    by (cases "call ''SetInputValue(QString, QString)'' [Text n, Text v] s")
  show ?case
  proof (cases x)
    case (Inl e)
    then have "l' = l @ [?one]" "isl r" using Cons.prems c nv by (auto simp: logged_control_apply)
    then show ?thesis by (intro exI [of _ "[?one]"]) (simp add: input_calls_def nv)
  next
    case (Inr y)
    then have "set_inputs (logged_control call) inputs (s1, l @ [?one]) = (r, s', l')"
      using Cons.prems c nv by (simp add: logged_control_apply)
    from Cons.IH [OF this] obtain made where "l' = l @ ?one # made"
      "prefix made (input_calls inputs)" "\<not> isl r \<longrightarrow> made = input_calls inputs" by auto
    then show ?thesis by (intro exI [of _ "?one # made"]) (simp add: input_calls_def nv)
  qed
qed (simp add: input_calls_def)

text \<open>The adapter only reads. A request for a valid query makes at most the planned calls, in order: one input
  call per input and then one request for the whitelisted transaction; it stops at the first call that
  raises, makes all of them when it returns, and makes none when its continuation marker is refused.\<close>

theorem request_only_reads:
  assumes "make_query_spec tr rq inputs flds = Inr spec"
    and "request_query (logged_control call) spec prev_next (s, []) = (r, s', calls)"
  shows "prefix calls (planned_calls spec prev_next) \<and> (\<not> isl r \<longrightarrow> calls = planned_calls spec prev_next) \<and>
    (prev_next \<notin> {u ''0'', u ''2''} \<longrightarrow> calls = []) \<and> qs_tr_code spec \<in> read_only_trs"
proof -
  have tr: "qs_tr_code spec \<in> read_only_trs" using assms(1) by (auto simp: make_query_spec_def result_simps)
  show ?thesis
  proof (cases "prev_next \<in> {u ''0'', u ''2''}")
    case False
    then show ?thesis using assms(2) tr by (auto simp: request_query_def)
  next
    case True
    let ?inputs = "qs_input_values spec"
    obtain x s1 l1 where si: "set_inputs (logged_control call) ?inputs (s, []) = (x, s1, l1)"
      by (cases "set_inputs (logged_control call) ?inputs (s, [])") auto
    from set_inputs_calls [OF si] have "prefix l1 (planned_calls spec prev_next)"
      "\<not> isl x \<longrightarrow> l1 = butlast (planned_calls spec prev_next)"
      by (auto simp: planned_calls_def butlast_append intro: prefix_order.trans)
    moreover have "calls = (if isl x then l1 else l1 @ [last (planned_calls spec prev_next)])" "isl x \<longrightarrow> isl r"
      using assms(2) True si
      by (auto simp: request_query_def planned_calls_def logged_control_apply split: sum.splits prod.splits)
    moreover have "butlast (planned_calls spec prev_next) @ [last (planned_calls spec prev_next)] = planned_calls spec prev_next"
      by (simp add: planned_calls_def)
    ultimately show ?thesis using tr True by auto
  qed
qed

theorem request_only_reads_witness:
  "snd (snd (request_query (logged_control (\<lambda>_ _ s. (Inr 0, s))) example_spec (u ''0'') ((), []))) =
     planned_calls example_spec (u ''0'')"
proof -
  let ?run = "request_query (logged_control (\<lambda>_ _ s. (Inr 0, s))) example_spec (u ''0'') ((), [])"
  have "make_query_spec (u ''opt10075'') (u ''open'') (qs_input_values example_spec) [] = Inr example_spec" by code_simp
  moreover have "\<not> isl (fst ?run)" by code_simp
  ultimately show ?thesis using request_only_reads by (metis prod.collapse)
qed

end
