(* ===== verification/Telegram.thy ===== *)
theory Telegram
  imports PyValues
begin

text \<open>
  \<open>notifications/telegram.py\<close>: one outgoing message. A delivery error is its code and the HTTP status, if
  any. The opener is injected as a state transformer; what it can do is one of the outcomes that the
  handler distinguishes, or an exception it lets through.
\<close>

datatype opener_outcome =
    Http_error int
  | Network_failure
  | Undecodable
  | Unhandled
  | Replied int pyval

datatype telegram_error =
    Delivery_error string "int option"
  | Timeout_must_be_positive
  | Unhandled_error

record telegram_notifier =
  tn_token :: string
  tn_chat_id :: string
  tn_timeout_seconds :: rat

definition make_notifier :: "string \<Rightarrow> string \<Rightarrow> rat \<Rightarrow> telegram_error + telegram_notifier" where
  "make_notifier token chat timeout =
     (if strip token = [] \<or> strip chat = [] then Inl (Delivery_error ''TELEGRAM_CONFIGURATION_MISSING'' None)
      else if timeout \<le> 0 then Inl Timeout_must_be_positive
      else Inr \<lparr>tn_token = token, tn_chat_id = chat, tn_timeout_seconds = timeout\<rparr>)"

definition notifier_from_environment :: "(string \<rightharpoonup> string) \<Rightarrow> rat \<Rightarrow> telegram_error + telegram_notifier" where
  "notifier_from_environment env timeout =
     make_notifier (case env ''TELEGRAM_BOT_TOKEN'' of Some v \<Rightarrow> v | None \<Rightarrow> [])
       (case env ''TELEGRAM_CHAT_ID'' of Some v \<Rightarrow> v | None \<Rightarrow> []) timeout"

definition max_message_length :: int where "max_message_length = 4096"

definition classify_http_error :: "int \<Rightarrow> telegram_error" where
  "classify_http_error status =
     (if 400 \<le> status \<and> status < 500 then Delivery_error ''TELEGRAM_HTTP_4XX'' (Some status)
      else if 500 \<le> status then Delivery_error ''TELEGRAM_HTTP_5XX'' (Some status)
      else Delivery_error ''TELEGRAM_HTTP_UNEXPECTED'' (Some status))"

definition reply_message_id :: "(string \<times> pyval) list \<Rightarrow> pyval" where
  "reply_message_id payload = (case py_get payload ''result'' of PyDict r \<Rightarrow> py_get r ''message_id'' | _ \<Rightarrow> PyNone)"

definition read_reply :: "int \<Rightarrow> pyval \<Rightarrow> telegram_error + int" where
  "read_reply status payload =
     (case payload of
       PyDict d \<Rightarrow>
         if \<not> (200 \<le> status \<and> status < 300) then Inl (Delivery_error ''TELEGRAM_RESPONSE_INVALID'' (Some status))
         else if py_get d ''ok'' \<noteq> PyBool True then Inl (Delivery_error ''TELEGRAM_API_REJECTED'' (Some status))
         else (case reply_message_id d of
             PyInt n \<Rightarrow> Inr n
           | _ \<Rightarrow> Inl (Delivery_error ''TELEGRAM_RESPONSE_INVALID'' (Some status)))
     | _ \<Rightarrow> Inl (Delivery_error ''TELEGRAM_RESPONSE_INVALID'' (Some status)))"

text \<open>The opener is given the endpoint and the fields of the body.\<close>

definition telegram_endpoint :: "string \<Rightarrow> string" where
  "telegram_endpoint token = ''https://api.telegram.org/bot'' @ token @ ''/sendMessage''"

definition telegram_send ::
    "(string \<Rightarrow> (string \<times> string) list \<Rightarrow> rat \<Rightarrow> 's \<Rightarrow> opener_outcome \<times> 's) \<Rightarrow> telegram_notifier \<Rightarrow> string \<Rightarrow> 's \<Rightarrow>
     (telegram_error + int) \<times> 's" where
  "telegram_send open_url N text s =
     (if strip text = [] \<or> int (length text) > max_message_length
      then (Inl (Delivery_error ''TELEGRAM_MESSAGE_INVALID'' None), s)
      else case open_url (telegram_endpoint (tn_token N)) [(''chat_id'', tn_chat_id N), (''text'', text)]
             (tn_timeout_seconds N) s of
        (Http_error status, s1) \<Rightarrow> (Inl (classify_http_error status), s1)
      | (Network_failure, s1) \<Rightarrow> (Inl (Delivery_error ''TELEGRAM_NETWORK_ERROR'' None), s1)
      | (Undecodable, s1) \<Rightarrow> (Inl (Delivery_error ''TELEGRAM_RESPONSE_INVALID'' None), s1)
      | (Unhandled, s1) \<Rightarrow> (Inl Unhandled_error, s1)
      | (Replied status payload, s1) \<Rightarrow> (read_reply status payload, s1))"

definition delivery_codes :: "string set" where
  "delivery_codes = {''TELEGRAM_MESSAGE_INVALID'', ''TELEGRAM_HTTP_4XX'', ''TELEGRAM_HTTP_5XX'',
     ''TELEGRAM_HTTP_UNEXPECTED'', ''TELEGRAM_NETWORK_ERROR'', ''TELEGRAM_RESPONSE_INVALID'', ''TELEGRAM_API_REJECTED''}"

section \<open>Property\<close>

text \<open>A sent message is accepted, refused or classified, without its secrets. A receipt is returned exactly when
  the text is neither blank nor too long and the one request was answered with a success status, an explicit
  ok and an integral message id; every delivery error carries a code of the fixed vocabulary, and at most
  one request is made, to the endpoint of the notifier.\<close>

theorem telegram_send_classified:
  "(fst (telegram_send open_url N text s) = Inr n \<longleftrightarrow>
      strip text \<noteq> [] \<and> length text \<le> 4096 \<and>
      (\<exists>status d. fst (open_url (telegram_endpoint (tn_token N)) [(''chat_id'', tn_chat_id N), (''text'', text)]
            (tn_timeout_seconds N) s) = Replied status (PyDict d) \<and>
         200 \<le> status \<and> status < 300 \<and> py_get d ''ok'' = PyBool True \<and> reply_message_id d = PyInt n)) \<and>
   fst (telegram_send open_url N text s) \<in> Inr ` UNIV \<union> {Inl Unhandled_error} \<union>
      {Inl (Delivery_error code status) | code status. code \<in> delivery_codes} \<and>
   snd (telegram_send open_url N text s) \<in> {s, snd (open_url (telegram_endpoint (tn_token N))
      [(''chat_id'', tn_chat_id N), (''text'', text)] (tn_timeout_seconds N) s)}"
proof -
  obtain x s1 where o: "open_url (telegram_endpoint (tn_token N)) [(''chat_id'', tn_chat_id N), (''text'', text)]
      (tn_timeout_seconds N) s = (x, s1)"
    by (cases "open_url (telegram_endpoint (tn_token N)) [(''chat_id'', tn_chat_id N), (''text'', text)]
      (tn_timeout_seconds N) s")
  have reply: "(read_reply status payload = Inr n \<longleftrightarrow>
      (\<exists>d. payload = PyDict d \<and> 200 \<le> status \<and> status < 300 \<and> py_get d ''ok'' = PyBool True \<and>
        reply_message_id d = PyInt n)) \<and>
     (\<forall>e. read_reply status payload = Inl e \<longrightarrow> (\<exists>code st. e = Delivery_error code st \<and> code \<in> delivery_codes))"
    for status payload
    by (auto simp: read_reply_def delivery_codes_def split: pyval.splits if_splits)
  show ?thesis
  proof (cases "strip text = [] \<or> int (length text) > max_message_length")
    case True
    then show ?thesis by (auto simp: telegram_send_def delivery_codes_def max_message_length_def)
  next
    case False
    then have len: "length text \<le> 4096" "strip text \<noteq> []" by (simp_all add: max_message_length_def)
    show ?thesis
    proof (cases x)
      case (Replied status payload)
      then have t: "telegram_send open_url N text s = (read_reply status payload, s1)"
        using False o by (simp add: telegram_send_def)
      show ?thesis
      proof (cases "read_reply status payload")
        case (Inl e)
        then show ?thesis using t o len Replied reply [of status payload] by auto
      next
        case (Inr m)
        then show ?thesis using t o len Replied reply [of status payload] by auto
      qed
    qed (use False o len in \<open>auto simp: telegram_send_def classify_http_error_def delivery_codes_def\<close>)
  qed
qed

end
