(* ===== verification/DigitText.thy ===== *)
theory DigitText
  imports Decimals
begin

text \<open>
  Lemmas on decimal digit strings: their value, the digits that \<open>str\<close> prints, and the canonical digit
  strings, which are determined by their value.
\<close>

section \<open>The value of a digit string\<close>

lemma int_of_digits_append: "int_of_digits (xs @ ys) = int_of_digits xs * 10 ^ length ys + int_of_digits ys"
  by (induction ys rule: rev_induct) (simp_all add: int_of_digits_def algebra_simps)

lemma digit_val_bounds: "is_digit c \<Longrightarrow> 0 \<le> digit_val c \<and> digit_val c \<le> 9"
  by (simp add: is_digit_def digit_val_def)

lemma int_of_digits_bounds:
  "\<forall>c\<in>set ds. is_digit c \<Longrightarrow> 0 \<le> int_of_digits ds \<and> int_of_digits ds < 10 ^ length ds"
proof (induction ds rule: rev_induct)
  case (snoc d ds)
  then have "0 \<le> int_of_digits ds" "int_of_digits ds + 1 \<le> 10 ^ length ds" "0 \<le> digit_val d" "digit_val d \<le> 9"
    using digit_val_bounds by force+
  then show ?case using int_of_digits_append [of ds "[d]"] by (simp add: int_of_digits_def)
qed (simp add: int_of_digits_def)

lemma dropWhile_absent: "d \<notin> set p \<Longrightarrow> dropWhile (\<lambda>c. c \<noteq> d) p = []"
  by (induction p) auto

lemma price_fraction_digits:
  assumes "is_price p"
  shows "\<forall>c\<in>set (after_dot p). is_digit c"
proof (cases "CHR ''.'' \<in> set p")
  case True
  then show ?thesis using assms by (simp add: is_price_def all_digits_def)
next
  case False
  from dropWhile_absent [OF this] have "after_dot p = []" by (simp only: after_dot_def drop_Nil)
  then show ?thesis by simp
qed

lemma digit_val_inj: "digit_val a = digit_val b \<Longrightarrow> a = b"
  by (simp add: digit_val_def)

lemma digit_val_digit_char [simp]: "0 \<le> n \<Longrightarrow> n < 10 \<Longrightarrow> digit_val (digit_char n) = n"
  by (simp add: digit_val_def digit_char_value)

lemma is_digit_digit_char [simp]: "0 \<le> n \<Longrightarrow> n < 10 \<Longrightarrow> is_digit (digit_char n)"
  by (simp add: is_digit_def digit_char_value)

lemma int_of_digits_simps [simp]: "int_of_digits [] = 0" "int_of_digits [c] = digit_val c"
  by (simp_all add: int_of_digits_def)

text \<open>Strings of equal length are equal when their values are.\<close>

lemma int_of_digits_inj:
  assumes "length xs = length ys" and "\<forall>c\<in>set xs. is_digit c" and "\<forall>c\<in>set ys. is_digit c"
    and "int_of_digits xs = int_of_digits ys"
  shows "xs = ys"
  using assms
proof (induction xs ys rule: rev_induct2)
  case (4 x xs y ys)
  have d: "0 \<le> digit_val x" "digit_val x < 10" "0 \<le> digit_val y" "digit_val y < 10"
    using digit_val_bounds [of x] digit_val_bounds [of y] 4 by auto
  have eq: "10 * int_of_digits xs + digit_val x = 10 * int_of_digits ys + digit_val y"
    using 4 by (simp add: int_of_digits_append)
  have "digit_val x = digit_val y" using arg_cong [OF eq, of "\<lambda>n. n mod 10"] d by simp
  moreover from this eq have "int_of_digits xs = int_of_digits ys" by simp
  ultimately show ?case using 4 digit_val_inj by simp
qed simp_all

section \<open>Printed integers\<close>

lemma digits10_digits: "0 \<le> n \<Longrightarrow> \<forall>c\<in>set (digits10 n). is_digit c"
  by (induction n rule: digits10.induct) (subst digits10.simps, auto)

lemma digits10_ne [simp]: "digits10 n \<noteq> []"
  by (subst digits10.simps) simp

lemma int_of_digits10 [simp]: "0 \<le> n \<Longrightarrow> int_of_digits (digits10 n) = n"
  by (induction n rule: digits10.induct) (subst digits10.simps, auto simp: int_of_digits_append)

text \<open>No leading zero, except for zero itself.\<close>

definition no_lead :: "string \<Rightarrow> bool" where
  "no_lead s \<longleftrightarrow> s = ''0'' \<or> s \<noteq> [] \<and> hd s \<noteq> CHR ''0''"

lemma digits10_no_lead: "0 \<le> n \<Longrightarrow> no_lead (digits10 n)"
proof (induction n rule: digits10.induct)
  case (1 n)
  show ?case
  proof (cases "n < 10")
    case True
    have "digit_val (CHR ''0'') = 0" by (simp add: digit_val_def)
    then have "n \<noteq> 0 \<longrightarrow> digit_char n \<noteq> CHR ''0''"
      using 1(2) True digit_val_digit_char [of n] by metis
    moreover have "digit_char 0 = CHR ''0''" by (rule digit_val_inj) (simp add: digit_val_def digit_char_def)
    ultimately show ?thesis using True by (cases "n = 0") (auto simp: no_lead_def digits10.simps [of n] digits10.simps [of 0])
  next
    case False
    then have "no_lead (digits10 (n div 10))" using 1 by simp
    moreover have "digits10 (n div 10) \<noteq> ''0''"
    proof
      assume "digits10 (n div 10) = ''0''"
      then have "int_of_digits (digits10 (n div 10)) = 0" by (simp add: digit_val_def)
      then show False using False by simp
    qed
    ultimately show ?thesis using False by (subst digits10.simps) (auto simp: no_lead_def)
  qed
qed

lemma no_lead_lower:
  assumes "no_lead s" and "s \<noteq> ''0''" and "\<forall>c\<in>set s. is_digit c"
  shows "10 ^ (length s - 1) \<le> int_of_digits s"
proof -
  obtain c t where s: "s = c # t" "c \<noteq> CHR ''0''" using assms by (cases s) (auto simp: no_lead_def)
  have "digit_val c \<noteq> 0" using s(2) digit_val_inj [of c "CHR ''0''"] by (auto simp: digit_val_def)
  then have "1 \<le> digit_val c" using digit_val_bounds [of c] assms(3) s by simp
  moreover have "0 \<le> int_of_digits t" using int_of_digits_bounds [of t] assms(3) s by simp
  moreover have "int_of_digits s = digit_val c * 10 ^ length t + int_of_digits t"
    using int_of_digits_append [of "[c]" t] s by simp
  moreover have "1 * 10 ^ length t \<le> digit_val c * 10 ^ length t"
    using calculation(1) by (intro mult_right_mono) simp_all
  ultimately have "10 ^ length t \<le> int_of_digits s" by linarith
  then show ?thesis using s by simp
qed

lemma no_lead_inj:
  assumes "no_lead s" and "no_lead t" and "\<forall>c\<in>set s. is_digit c" and "\<forall>c\<in>set t. is_digit c"
    and "int_of_digits s = int_of_digits t"
  shows "s = t"
proof -
  have len: "length x \<le> length y" if "no_lead x" "no_lead y" "\<forall>c\<in>set x. is_digit c"
    "\<forall>c\<in>set y. is_digit c" "int_of_digits x = int_of_digits y" for x y
  proof (cases "x = ''0''")
    case True
    have "y \<noteq> []" using that by (auto simp: no_lead_def)
    then show ?thesis using True by (cases y) auto
  next
    case False
    have "(10::int) ^ (length x - 1) < 10 ^ length y"
      using no_lead_lower [OF that(1) False that(3)] int_of_digits_bounds [OF that(4)] that(5) by linarith
    then have "length x - 1 < length y" by simp
    then show ?thesis by simp
  qed
  have "length s = length t" using len [of s t] len [of t s] assms by simp
  then show ?thesis using int_of_digits_inj assms by simp
qed

end
