(* ===== verification/PriceText.thy ===== *)
theory PriceText
  imports Models DigitText
begin

text \<open>
  The text of a price. \<^const>\<open>canonical_price\<close> is a normal form: it keeps the value, and two
  prices have the same canonical text exactly when they have the same value. The idempotency comparison of a
  command and the bound stop rules rest on it.
\<close>

section \<open>Texts with a point\<close>

text \<open>A price text is its digits before the point and those after it.\<close>

definition price_text :: "string \<Rightarrow> string \<Rightarrow> string" where
  "price_text i f = (if f = [] then i else i @ ''.'' @ f)"

lemma point_no_digit: "\<not> is_digit (CHR ''.'')"
  by (simp add: is_digit_def)

lemma price_text_parts:
  assumes "\<forall>c\<in>set i. is_digit c"
  shows "before_dot (i @ ''.'' @ f) = i" and "after_dot (i @ ''.'' @ f) = f"
    and "before_dot i = i" and "after_dot i = []"
proof -
  have n: "\<forall>c\<in>set i. c \<noteq> CHR ''.''" using assms point_no_digit by auto
  have t: "takeWhile (\<lambda>c. c \<noteq> CHR ''.'') i = i" "dropWhile (\<lambda>c. c \<noteq> CHR ''.'') i = []"
    using n by (simp_all only: takeWhile_eq_all_conv dropWhile_eq_Nil_conv)
  then show "before_dot i = i" "after_dot i = []" by (simp_all only: before_dot_def after_dot_def drop_Nil)
  show "before_dot (i @ ''.'' @ f) = i" "after_dot (i @ ''.'' @ f) = f"
    using n by (simp_all add: before_dot_def after_dot_def takeWhile_append2 dropWhile_append2)
qed

lemma price_text_simps [simp]:
  assumes "\<forall>c\<in>set i. is_digit c"
  shows "before_dot (price_text i f) = i" and "after_dot (price_text i f) = f"
  using price_text_parts [OF assms] by (simp_all add: price_text_def)

lemma price_text_is_price:
  assumes "i \<noteq> []" and "\<forall>c\<in>set i. is_digit c" and "\<forall>c\<in>set f. is_digit c"
  shows "is_price (price_text i f)"
proof (cases "f = []")
  case True
  then have "CHR ''.'' \<notin> set (price_text i f)" using assms(2) point_no_digit by (auto simp: price_text_def)
  then show ?thesis using assms by (simp add: is_price_def all_digits_def)
next
  case False
  then have "before_dot (price_text i f) = i" "after_dot (price_text i f) = f" using assms by simp_all
  then show ?thesis using assms False by (simp add: is_price_def all_digits_def)
qed

section \<open>Canonical texts\<close>

definition canonical_parts :: "string \<Rightarrow> string \<Rightarrow> bool" where
  "canonical_parts i f \<longleftrightarrow> no_lead i \<and> (\<forall>c\<in>set i. is_digit c) \<and> (\<forall>c\<in>set f. is_digit c) \<and>
     (f = [] \<or> last f \<noteq> CHR ''0'')"

lemma dec_val_eq_shift:
  assumes "m \<le> n"
  shows "dec_val \<lparr>dcoeff = c, dexp = - int m\<rparr> = dec_val \<lparr>dcoeff = d, dexp = - int n\<rparr> \<longleftrightarrow>
    c * 10 ^ (n - m) = d"
proof -
  have "(10::real) ^ n = 10 ^ (n - m) * 10 ^ m" using assms by (simp flip: power_add)
  then have "dec_val \<lparr>dcoeff = c, dexp = - int m\<rparr> = dec_val \<lparr>dcoeff = d, dexp = - int n\<rparr> \<longleftrightarrow>
      (of_int c :: real) * 10 ^ (n - m) = of_int d"
    by (simp add: dec_val_def power_int_minus field_simps)
  also have "\<dots> \<longleftrightarrow> (of_int (c * 10 ^ (n - m)) :: real) = of_int d" by simp
  finally show ?thesis by (simp only: of_int_eq_iff)
qed

lemma int_of_zeros [simp]: "int_of_digits (replicate n (CHR ''0'')) = 0"
  by (induction n) (simp_all add: int_of_digits_def digit_val_def)

lemma canonical_parts_inj_le:
  assumes "canonical_parts i f" and "canonical_parts i' f'" and le: "length f \<le> length f'"
    and eq: "int_of_digits (i @ f) * 10 ^ (length f' - length f) = int_of_digits (i' @ f')"
  shows "i = i' \<and> f = f'"
proof -
  let ?z = "replicate (length f' - length f) (CHR ''0'')"
  let ?g = "f @ ?z"
  have digs: "\<forall>c\<in>set ?g. is_digit c" "\<forall>c\<in>set f'. is_digit c"
    using assms(1,2) by (auto simp: canonical_parts_def is_digit_def)
  have len: "length ?g = length f'" using le by simp
  have e: "int_of_digits i * 10 ^ length f' + int_of_digits ?g = int_of_digits i' * 10 ^ length f' + int_of_digits f'"
    using eq le by (simp add: int_of_digits_append algebra_simps flip: power_add)
  note b = int_of_digits_bounds [OF digs(1)] int_of_digits_bounds [OF digs(2)]
  have "int_of_digits i = int_of_digits i'"
    using arg_cong [OF e, of "\<lambda>n. n div 10 ^ length f'"] b len by simp
  then have i: "i = i'" using assms(1,2) by (intro no_lead_inj) (simp_all add: canonical_parts_def)
  then have "int_of_digits ?g = int_of_digits f'" using e by simp
  then have g: "?g = f'" by (intro int_of_digits_inj [OF len digs])
  have "length f' = length f"
  proof (rule ccontr)
    assume "length f' \<noteq> length f"
    then have "length f' - length f \<noteq> 0" using le by simp
    then have "last ?g = CHR ''0''" and "?g \<noteq> []" by (simp_all add: last_append last_replicate)
    then have "f' \<noteq> []" and "last f' = CHR ''0''" unfolding g by simp_all
    then show False using assms(2) by (simp add: canonical_parts_def)
  qed
  then show ?thesis using i g by simp
qed

lemma canonical_parts_inj:
  assumes c: "canonical_parts i f" "canonical_parts i' f'"
    and eq: "dec_val (dec_of_price (price_text i f)) = dec_val (dec_of_price (price_text i' f'))"
  shows "i = i' \<and> f = f'"
proof -
  have d: "\<forall>c\<in>set i. is_digit c" "\<forall>c\<in>set i'. is_digit c" using c by (simp_all add: canonical_parts_def)
  show ?thesis
  proof (cases "length f \<le> length f'")
    case True
    then have "int_of_digits (i @ f) * 10 ^ (length f' - length f) = int_of_digits (i' @ f')"
      using eq d by (simp add: dec_val_eq_shift dec_of_price_def)
    then show ?thesis by (rule canonical_parts_inj_le [OF c True])
  next
    case False
    then have le: "length f' \<le> length f" by simp
    have "int_of_digits (i' @ f') * 10 ^ (length f - length f') = int_of_digits (i @ f)"
      using eq [symmetric] d le by (simp add: dec_val_eq_shift dec_of_price_def)
    from canonical_parts_inj_le [OF c(2,1) le this] show ?thesis by simp
  qed
qed

section \<open>The printed decimal\<close>

lemma zeros_digits [simp]: "c \<in> set (zeros n) \<Longrightarrow> is_digit c"
  by (auto simp: zeros_def is_digit_def split: if_splits)

lemma int_of_digits_zeros [simp]: "int_of_digits (zeros n @ s) = int_of_digits s"
  by (simp add: int_of_digits_append zeros_def)

lemma format_f_parts:
  assumes "0 \<le> c" and "0 < n"
  shows "\<exists>i f. format_f \<lparr>dcoeff = c, dexp = - int n\<rparr> = i @ ''.'' @ f \<and> no_lead i \<and>
    (\<forall>x\<in>set i. is_digit x) \<and> (\<forall>x\<in>set f. is_digit x) \<and> length f = n \<and> int_of_digits (i @ f) = c"
proof -
  let ?ds = "digits10 c" and ?d = "\<lparr>dcoeff = c, dexp = - int n\<rparr>"
  have zero: "no_lead ''0''" "\<forall>x\<in>set ''0''. is_digit x" by (simp_all add: no_lead_def is_digit_def)
  have z: "int_of_digits (CHR ''0'' # s) = int_of_digits s" for s
    using int_of_digits_zeros [of 1 s] by (simp add: zeros_def)
  note ds = digits10_digits [OF assms(1)]
  let ?dot = "int (length ?ds) - int n"
  have form: "format_f ?d = (if ?dot < 0 then ''0.'' @ zeros (- ?dot) @ ?ds
      else (if ?dot = 0 then ''0'' else take (nat ?dot) ?ds) @ ''.'' @ drop (nat ?dot) ?ds)"
    using assms by (simp add: format_f_def Let_def sign_text_def dec_digits_def)
  have nat: "nat ?dot = length ?ds - n" by (simp only: nat_minus_as_int)
  consider "length ?ds < n" | "length ?ds = n" | "n < length ?ds" by linarith
  then show ?thesis
  proof cases
    case 1
    show ?thesis
      by (rule exI [of _ "''0''"], rule exI [of _ "zeros (- ?dot) @ ?ds"])
         (use 1 zero ds assms form in \<open>simp_all add: z ball_Un\<close>, simp add: zeros_def)
  next
    case 2
    show ?thesis
      by (rule exI [of _ "''0''"], rule exI [of _ ?ds]) (use 2 zero ds assms form in \<open>simp_all add: z\<close>)
  next
    case 3
    let ?k = "length ?ds - n"
    have "?ds \<noteq> ''0''" using 3 assms(2) by auto
    then have "hd ?ds \<noteq> CHR ''0''" using digits10_no_lead [OF assms(1)] by (auto simp: no_lead_def)
    then have "no_lead (take ?k ?ds)" using 3 by (simp add: no_lead_def)
    moreover have "\<forall>x\<in>set (take ?k ?ds). is_digit x" "\<forall>x\<in>set (drop ?k ?ds). is_digit x"
      using ds by (auto dest: in_set_takeD in_set_dropD)
    moreover have "int_of_digits (take ?k ?ds @ drop ?k ?ds) = c" using assms by simp
    ultimately show ?thesis
      by (intro exI [of _ "take ?k ?ds"] exI [of _ "drop ?k ?ds"]) (use 3 form nat in simp)
  qed
qed

text \<open>\<open>format(d, "f")\<close>, the text of a bound stop threshold, is a price of the same value.\<close>

lemma format_f_value:
  assumes "0 \<le> dcoeff d" and "dexp d \<le> 0"
  shows "is_price (format_f d) \<and> dec_val (dec_of_price (format_f d)) = dec_val d"
proof (cases "dexp d = 0")
  case True
  note ds = digits10_digits [OF assms(1)]
  have "format_f d = price_text (digits10 (dcoeff d)) []"
    using True assms(1) by (simp add: format_f_def Let_def sign_text_def dec_digits_def price_text_def)
  then show ?thesis
    using price_text_is_price [OF digits10_ne ds, of "[]"] price_text_simps [OF ds, of "[]"] True assms(1)
    by (simp add: dec_of_price_def dec_val_def)
next
  case False
  then have n: "0 < nat (- dexp d)" and d: "d = \<lparr>dcoeff = dcoeff d, dexp = - int (nat (- dexp d))\<rparr>"
    using assms by simp_all
  obtain i f where t: "format_f d = i @ ''.'' @ f" "no_lead i" "\<forall>x\<in>set i. is_digit x" "\<forall>x\<in>set f. is_digit x"
    "length f = nat (- dexp d)" "int_of_digits (i @ f) = dcoeff d"
    using format_f_parts [OF assms(1) n] d by metis
  have f: "f \<noteq> []" "i \<noteq> []" using t(2,5) n by (auto simp: no_lead_def)
  then have p: "format_f d = price_text i f" using t(1) by (simp add: price_text_def)
  then show ?thesis
    using price_text_is_price [OF f(2) t(3,4)] price_text_simps [OF t(3), of f] t(5,6) assms(2)
    by (simp add: dec_of_price_def dec_val_def)
qed

section \<open>Stripping\<close>

lemma rstrip_snoc: "rstrip c (xs @ [x]) = (if x = c then rstrip c xs else xs @ [x])"
  by (simp add: rstrip_def)

lemma rstrip_append: "rstrip c (xs @ ys) = (if rstrip c ys = [] then rstrip c xs else xs @ rstrip c ys)"
  by (induction ys rule: rev_induct)
     (auto simp: rstrip_snoc simp flip: append_assoc, simp add: rstrip_def)

lemma rstrip_keep: "xs \<noteq> [] \<Longrightarrow> last xs \<noteq> c \<Longrightarrow> rstrip c xs = xs"
  by (cases xs rule: rev_cases) (simp_all add: rstrip_snoc)

lemma rstrip_split: "\<exists>k. s = rstrip c s @ replicate k c"
proof (induction s rule: rev_induct)
  case (snoc x s)
  then obtain k where "s = rstrip c s @ replicate k c" ..
  then have "s @ [c] = rstrip c s @ replicate (Suc k) c" by (metis append_assoc replicate_Suc replicate_append_same)
  then have "\<exists>k. s @ [c] = rstrip c (s @ [c]) @ replicate k c" unfolding rstrip_snoc if_P [OF refl] by blast
  moreover have "s @ [x] = rstrip c (s @ [x]) @ replicate 0 c" if "x \<noteq> c" using that by (simp add: rstrip_snoc)
  ultimately show ?case by blast
qed (simp add: rstrip_def)

lemma rstrip_last: "rstrip c s \<noteq> [] \<Longrightarrow> last (rstrip c s) \<noteq> c"
  by (induction s rule: rev_induct) (auto simp: rstrip_snoc, simp add: rstrip_def)

lemma lstrip_split: "\<exists>k. s = replicate k c @ lstrip c s"
proof -
  have "takeWhile (\<lambda>x. x = c) s = replicate (length (takeWhile (\<lambda>x. x = c) s)) c"
    by (rule replicate_eqI [symmetric, THEN sym]) (auto dest: set_takeWhileD)
  then have "s = replicate (length (takeWhile (\<lambda>x. x = c) s)) c @ lstrip c s"
    unfolding lstrip_def by (metis takeWhile_dropWhile_id)
  then show ?thesis ..
qed

section \<open>The normal form\<close>

lemma canonical_whole:
  assumes "is_price v" and "CHR ''.'' \<notin> set v"
  shows "\<exists>i. canonical_price v = i \<and> canonical_parts i [] \<and> int_of_digits i = int_of_digits v"
proof -
  have "before_dot v = v" using assms(2) by (auto simp: before_dot_def takeWhile_eq_all_conv)
  then have digs: "\<forall>c\<in>set v. is_digit c" and ne: "v \<noteq> []"
    using assms by (auto simp: is_price_def all_digits_def)
  obtain k where v: "v = replicate k (CHR ''0'') @ lstrip (CHR ''0'') v" using lstrip_split by metis
  let ?s = "lstrip (CHR ''0'') v"
  have "\<forall>c\<in>set ?s. is_digit c" using digs by (auto simp: lstrip_def dest: set_dropWhileD)
  moreover have "?s \<noteq> [] \<Longrightarrow> no_lead ?s"
    using hd_dropWhile [of "\<lambda>x. x = CHR ''0''" v] by (auto simp: no_lead_def lstrip_def)
  moreover have "int_of_digits v = int_of_digits ?s"
    by (subst v) (simp add: int_of_digits_append)
  ultimately show ?thesis
    using assms(2) by (auto simp: canonical_price_def canonical_parts_def no_lead_def is_digit_def digit_val_def)
qed

lemma canonical_fraction:
  assumes "is_price v" and "CHR ''.'' \<in> set v"
  shows "\<exists>i f k. canonical_price v = price_text i f \<and> canonical_parts i f \<and>
    length (after_dot v) = length f + k \<and>
    int_of_digits (before_dot v @ after_dot v) = int_of_digits (i @ f) * 10 ^ k"
proof -
  let ?c = "int_of_digits (before_dot v @ after_dot v)" and ?n = "length (after_dot v)"
  have "\<forall>c\<in>set (before_dot v @ after_dot v). is_digit c" and n: "0 < ?n"
    using assms by (auto simp: is_price_def all_digits_def)
  then have c: "0 \<le> ?c" using int_of_digits_bounds by blast
  obtain i g where g: "format_f (dec_of_price v) = i @ ''.'' @ g" "no_lead i" "\<forall>x\<in>set i. is_digit x"
    "\<forall>x\<in>set g. is_digit x" "length g = ?n" "int_of_digits (i @ g) = ?c"
    using format_f_parts [OF c n] unfolding dec_of_price_def by metis
  let ?f = "rstrip (CHR ''0'') g"
  obtain k where k: "g = ?f @ replicate k (CHR ''0'')" using rstrip_split by metis
  have f: "\<forall>x\<in>set ?f. is_digit x" using g(4) by (subst (asm) k) simp
  have i: "i \<noteq> []" using g(2) by (auto simp: no_lead_def)
  then have li: "last i \<noteq> CHR ''.''" using g(3) point_no_digit last_in_set [of i] by metis
  have "rstrip (CHR ''0'') (i @ ''.'' @ g) = i @ ''.'' @ ?f"
    using rstrip_append [of "CHR ''0''" "i @ ''.''" g] by (simp add: rstrip_snoc)
  moreover have "rstrip (CHR ''.'') (i @ ''.'' @ ?f) = price_text i ?f"
  proof (cases "?f = []")
    case True
    then show ?thesis using i li by (simp add: price_text_def rstrip_snoc rstrip_keep)
  next
    case False
    then have "last (i @ ''.'' @ ?f) = last ?f" by simp
    then have "last (i @ ''.'' @ ?f) \<noteq> CHR ''.''" using f point_no_digit last_in_set [OF False] by metis
    then show ?thesis using False by (simp add: price_text_def rstrip_keep)
  qed
  ultimately have "canonical_price v = price_text i ?f" using assms(2) g(1) by (simp add: canonical_price_def)
  moreover have "canonical_parts i ?f" using g(2,3) f rstrip_last by (auto simp: canonical_parts_def)
  moreover have "length (after_dot v) = length ?f + k" using g(5) by (subst (asm) k) simp
  moreover have "?c = int_of_digits (i @ ?f) * 10 ^ k"
    using g(6) by (subst (asm) k) (simp add: int_of_digits_append algebra_simps power_add)
  ultimately show ?thesis by blast
qed

lemma canonical_price_parts:
  assumes "is_price v"
  obtains i f where "canonical_price v = price_text i f" and "canonical_parts i f"
    and "dec_val (dec_of_price (price_text i f)) = dec_val (dec_of_price v)"
proof (cases "CHR ''.'' \<in> set v")
  case True
  from canonical_fraction [OF assms True] obtain i f k where c: "canonical_price v = price_text i f"
    "canonical_parts i f" "length (after_dot v) = length f + k"
    "int_of_digits (before_dot v @ after_dot v) = int_of_digits (i @ f) * 10 ^ k" by blast
  have "\<forall>x\<in>set i. is_digit x" using c(2) by (simp add: canonical_parts_def)
  from price_text_simps [OF this, of f] have
    "dec_val (dec_of_price (price_text i f)) = dec_val (dec_of_price v)"
    using c(3,4) dec_val_eq_shift [of "length f" "length f + k"] by (simp add: dec_of_price_def)
  then show ?thesis using that c(1,2) by blast
next
  case False
  from canonical_whole [OF assms False] obtain i where c: "canonical_price v = i" "canonical_parts i []"
    "int_of_digits i = int_of_digits v" by blast
  have d: "\<forall>x\<in>set i. is_digit x" using c(2) by (simp add: canonical_parts_def)
  from dropWhile_absent [OF False] have "after_dot v = []" by (simp only: after_dot_def drop_Nil)
  moreover have "before_dot v = v" using False by (auto simp: before_dot_def takeWhile_eq_all_conv)
  ultimately have "dec_val (dec_of_price (price_text i [])) = dec_val (dec_of_price v)"
    using price_text_simps [OF d, of "[]"] c(3) by (simp add: dec_of_price_def)
  then show ?thesis using that [of i "[]"] c by (simp add: price_text_def)
qed

lemma canonical_price_price:
  assumes "is_price v"
  shows "is_price (canonical_price v)"
    and "dec_val (dec_of_price (canonical_price v)) = dec_val (dec_of_price v)"
proof -
  obtain i f where c: "canonical_price v = price_text i f" "canonical_parts i f"
    "dec_val (dec_of_price (price_text i f)) = dec_val (dec_of_price v)"
    by (rule canonical_price_parts [OF assms])
  show "dec_val (dec_of_price (canonical_price v)) = dec_val (dec_of_price v)" using c by simp
  have "i \<noteq> []" using c(2) by (auto simp: canonical_parts_def no_lead_def)
  then show "is_price (canonical_price v)"
    using c(1,2) price_text_is_price by (simp add: canonical_parts_def)
qed

text \<open>C8: two price texts are canonicalised to the same text exactly when they denote the same decimal; the
  canonical text is again a price, of the same value, and canonicalising it once more changes nothing.\<close>

theorem canonical_price_normal_form:
  assumes "is_price a" and "is_price b"
  shows "(canonical_price a = canonical_price b \<longleftrightarrow> dec_val (dec_of_price a) = dec_val (dec_of_price b)) \<and>
    is_price (canonical_price a) \<and> dec_val (dec_of_price (canonical_price a)) = dec_val (dec_of_price a) \<and>
    canonical_price (canonical_price a) = canonical_price a"
proof -
  have iff: "canonical_price x = canonical_price y \<longleftrightarrow> dec_val (dec_of_price x) = dec_val (dec_of_price y)"
    if "is_price x" "is_price y" for x y
    using that by (metis canonical_price_parts canonical_parts_inj)
  show ?thesis
    using assms iff canonical_price_price [OF assms(1)] by simp
qed

theorem canonical_price_normal_form_witness:
  "canonical_price ''0050.70'' = canonical_price ''50.7'' \<and> is_price (canonical_price ''0050.70'') \<and>
     dec_val (dec_of_price (canonical_price ''0050.70'')) = dec_val (dec_of_price ''0050.70'') \<and>
     canonical_price (canonical_price ''0050.70'') = canonical_price ''0050.70''"
proof -
  have "is_price ''0050.70''" and "is_price ''50.7''" and "canonical_price ''0050.70'' = canonical_price ''50.7''"
    by code_simp+
  with canonical_price_normal_form [OF this(1,2)] show ?thesis by simp
qed

end
