(* ===== verification/LockProperties.thy ===== *)
theory LockProperties
  imports Ownership Interfaces
begin

text \<open>
  The account lock: among all the leases that were ever handed out over one lock directory, at most
  one per account and environment is held, and while it is held nobody else acquires that account.
\<close>

section \<open>The invariant\<close>

abbreviation path_of :: "(namespace \<Rightarrow> string) \<Rightarrow> string \<Rightarrow> lease \<Rightarrow> string" where
  "path_of sha directory l \<equiv> lock_path sha directory (ls_scope l)"

lemma held_paths_append:
  "held_paths sha directory (xs @ ys) = held_paths sha directory xs @ held_paths sha directory ys"
  by (simp add: held_paths_def)

lemma held_paths_update:
  assumes "i < length ls"
  shows "mset (held_paths sha directory (ls[i := l])) + mset (held_paths sha directory [ls ! i]) =
    mset (held_paths sha directory ls) + mset (held_paths sha directory [l])"
proof -
  have split: "mset (held_paths sha directory (take i ls @ [x] @ drop (Suc i) ls)) = mset (held_paths sha directory (take i ls)) +
      (mset (held_paths sha directory [x]) + mset (held_paths sha directory (drop (Suc i) ls)))" for x
    by (simp only: held_paths_append mset_append)
  have "ls = take i ls @ [ls ! i] @ drop (Suc i) ls" using assms by (simp add: id_take_nth_drop)
  with split [of "ls ! i"] have "mset (held_paths sha directory ls) = mset (held_paths sha directory (take i ls)) +
      (mset (held_paths sha directory [ls ! i]) + mset (held_paths sha directory (drop (Suc i) ls)))" by simp
  moreover have "ls[i := l] = take i ls @ [l] @ drop (Suc i) ls" using assms by (simp add: upd_conv_take_nth_drop)
  ultimately show ?thesis using split [of l] by simp
qed

lemma held_paths_same:
  assumes "i < length ls" and "held_paths sha directory [l] = held_paths sha directory [ls ! i]"
  shows "mset (held_paths sha directory (ls[i := l])) = mset (held_paths sha directory ls)"
  using held_paths_update [OF assms(1), of sha directory l] assms(2) by simp

lemma lock_step_inv:
  assumes "lock_inv sha directory w" and "lock_step sha directory w w'"
  shows "lock_inv sha directory w'"
  using assms(2)
proof cases
  case (acquired pid sc io l locks)
  then have "l = (new_lease pid sc)\<lparr>ls_held := True\<rparr>" "locks = lock_path sha directory sc # lw_locks w"
    "lock_path sha directory sc \<notin> set (lw_locks w)"
    by (auto simp: acquire_def Let_def split: option.splits if_splits)
  then show ?thesis using acquired(1) assms(1)
    by (simp add: lock_inv_def held_paths_append) (simp add: held_paths_def new_lease_def)
next
  case (released i l locks)
  let ?p = "path_of sha directory (lw_leases w ! i)"
  have "l = retire (lw_leases w ! i)" and locks: "locks = remove1 ?p (lw_locks w)"
    using released by (simp_all add: release_def)
  then have "mset (held_paths sha directory ((lw_leases w)[i := l])) + {#?p#} =
      mset (held_paths sha directory (lw_leases w))"
    using held_paths_update [OF released(2), of sha directory l] released(3)
    by (simp add: held_paths_def retire_def)
  then have "mset (held_paths sha directory ((lw_leases w)[i := l])) = mset (lw_locks w) - {#?p#}"
    using assms(1) unfolding lock_inv_def by (metis add_diff_cancel_right')
  then show ?thesis using released(1) assms(1) locks by (simp add: lock_inv_def)
next
  case (approved i pid l)
  then have "held_paths sha directory [l] = held_paths sha directory [lw_leases w ! i]"
    by (auto simp: approve_virtual_review_def result_simps held_paths_def)
  from held_paths_same [OF approved(2) this] show ?thesis
    using approved(1) assms(1) by (simp add: lock_inv_def)
next
  case (bound i pid path l)
  then have "held_paths sha directory [l] = held_paths sha directory [lw_leases w ! i]"
    by (auto simp: bind_database_def result_simps held_paths_def split: if_splits)
  from held_paths_same [OF bound(2) this] show ?thesis
    using bound(1) assms(1) by (simp add: lock_inv_def)
qed

interpretation locks: transition_system "lock_step sha directory" "lock_inv sha directory" for sha directory
  by unfold_locales (rule lock_step_inv)

lemma lock_world0_inv: "lock_inv sha directory lock_world0"
  by (simp add: lock_inv_def lock_world0_def held_paths_def)

section \<open>Exclusion\<close>

lemma held_paths_distinct:
  assumes "distinct (held_paths sha directory ls)" and "i < j" and "j < length ls"
    and "ls_held (ls ! i)" and "ls_held (ls ! j)"
  shows "path_of sha directory (ls ! i) \<noteq> path_of sha directory (ls ! j)"
proof -
  have "held_paths sha directory ls = held_paths sha directory (take j ls) @ held_paths sha directory (drop j ls)"
    by (simp flip: held_paths_append)
  then have "set (held_paths sha directory (take j ls)) \<inter> set (held_paths sha directory (drop j ls)) = {}"
    using assms(1) by simp
  moreover have "ls ! i \<in> set (take j ls)" using assms(2,3) by (force simp: in_set_conv_nth)
  moreover have "ls ! j \<in> set (drop j ls)" using assms(3) by (metis Cons_nth_drop_Suc list.set_intros(1))
  ultimately show ?thesis using assms(4,5) unfolding held_paths_def by (auto simp: disjoint_iff)
qed

text \<open>C6: However leases are acquired, approved, bound and released over a lock directory, two distinct held
  leases are never for the same account and environment, and while a lease is held any attempt to acquire its account and
  environment, whatever the process and the execution scope, fails with \<open>ACCOUNT_LOCK_BUSY_READ_ONLY\<close>.\<close>

theorem account_lock_exclusive:
  assumes "(lock_step sha directory)\<^sup>*\<^sup>* lock_world0 w" and "i < length (lw_leases w)"
    and "ls_held (lw_leases w ! i)"
  shows "(\<forall>j<length (lw_leases w). j \<noteq> i \<and> ls_held (lw_leases w ! j) \<longrightarrow>
      scope_namespace (ls_scope (lw_leases w ! j)) \<noteq> scope_namespace (ls_scope (lw_leases w ! i))) \<and>
    (\<forall>sc pid. scope_namespace sc = scope_namespace (ls_scope (lw_leases w ! i)) \<longrightarrow>
      acquire sha directory pid sc None (lw_locks w) = Inl (LedgerError ''ACCOUNT_LOCK_BUSY_READ_ONLY''))"
proof -
  have inv: "lock_inv sha directory w" by (rule locks.run_inv [OF assms(1) lock_world0_inv])
  then have same: "mset (held_paths sha directory (lw_leases w)) = mset (lw_locks w)"
    and dist: "distinct (held_paths sha directory (lw_leases w))"
    unfolding lock_inv_def by (auto dest: mset_eq_imp_distinct_iff)
  have "path_of sha directory (lw_leases w ! i) \<in> set (held_paths sha directory (lw_leases w))"
    using assms(2,3) by (simp add: held_paths_def)
  then have "path_of sha directory (lw_leases w ! i) \<in> set (lw_locks w)"
    using mset_eq_setD [OF same] by simp
  then have "acquire sha directory pid sc None (lw_locks w) = Inl (LedgerError ''ACCOUNT_LOCK_BUSY_READ_ONLY'')"
    if "scope_namespace sc = scope_namespace (ls_scope (lw_leases w ! i))" for sc pid
    using that by (simp add: lock_path_def acquire_def Let_def acquire_error_def)
  moreover have "path_of sha directory (lw_leases w ! j) \<noteq> path_of sha directory (lw_leases w ! i)"
    if "j < length (lw_leases w)" "j \<noteq> i" "ls_held (lw_leases w ! j)" for j
    using held_paths_distinct [OF dist, of i j] held_paths_distinct [OF dist, of j i] that assms(2,3)
    by (cases "i < j") (auto simp: not_less_iff_gr_or_eq)
  then have "scope_namespace (ls_scope (lw_leases w ! j)) \<noteq> scope_namespace (ls_scope (lw_leases w ! i))"
    if "j < length (lw_leases w)" "j \<noteq> i" "ls_held (lw_leases w ! j)" for j
    using that unfolding lock_path_def by metis
  ultimately show ?thesis by blast
qed

definition two_accounts :: "lease list" where
  "two_accounts = [(new_lease 1 \<lparr>sc_account_id = ''A'', sc_environment = PAPER, execution_scope = 1\<rparr>)\<lparr>ls_held := True\<rparr>,
     (new_lease 2 \<lparr>sc_account_id = ''B'', sc_environment = PAPER, execution_scope = 2\<rparr>)\<lparr>ls_held := True\<rparr>]"

lemma two_accounts_run:
  "(lock_step fst ''locks'')\<^sup>*\<^sup>* lock_world0 \<lparr>lw_leases = two_accounts, lw_locks = [''locks/B.lock'', ''locks/A.lock'']\<rparr>"
proof -
  let ?w = "\<lparr>lw_leases = take 1 two_accounts, lw_locks = [''locks/A.lock'']\<rparr>"
  have "acquire fst ''locks'' 1 (ls_scope (two_accounts ! 0)) None (lw_locks lock_world0) =
      Inr (two_accounts ! 0, [''locks/A.lock''])" by code_simp
  from lock_step.acquired [OF this] have a: "lock_step fst ''locks'' lock_world0 ?w"
    by (simp add: lock_world0_def two_accounts_def)
  have "acquire fst ''locks'' 2 (ls_scope (two_accounts ! 1)) None (lw_locks ?w) =
      Inr (two_accounts ! 1, [''locks/B.lock'', ''locks/A.lock''])" by code_simp
  from lock_step.acquired [OF this] have
    "lock_step fst ''locks'' ?w \<lparr>lw_leases = two_accounts, lw_locks = [''locks/B.lock'', ''locks/A.lock'']\<rparr>"
    by (simp add: two_accounts_def)
  with a show ?thesis by auto
qed

theorem account_lock_exclusive_witness:
  "scope_namespace (ls_scope (two_accounts ! 1)) \<noteq> scope_namespace (ls_scope (two_accounts ! 0)) \<and>
   acquire fst ''locks'' 9 \<lparr>sc_account_id = ''A'', sc_environment = PAPER, execution_scope = 8\<rparr> None
     [''locks/B.lock'', ''locks/A.lock''] = Inl (LedgerError ''ACCOUNT_LOCK_BUSY_READ_ONLY'')"
  using account_lock_exclusive [OF two_accounts_run, of 0]
  by (simp add: two_accounts_def new_lease_def scope_namespace_def)

end
