(* ===== verification/CoreProperties.thy ===== *)
theory CoreProperties
  imports Scenarios TradeEvaluation
begin

text \<open>
  Properties of the projections, of the quarantine, of the outbox and of the pure evaluations, stated over the
  operations of the code and resting on the lemmas of their components.
\<close>

section \<open>Arrival order\<close>

text \<open>C7: The projections do not depend on the order in which the evidence arrived: two journals with the same
  requests, allocations and controls whose facts are a permutation of each other give every symbol the same
  portfolio and every order the same figures; only the active quantity and the gap of an order can differ, and
  only while its observations contradict each other.\<close>

theorem arrival_order_irrelevant:
  assumes "reordered j j'"
  shows "portfolio j' symb = portfolio j symb \<and>
    (\<forall>oid x. order j oid = Inr x \<longrightarrow>
      (\<exists>y. order j' oid = Inr y \<and> y = x\<lparr>active := active y, gap := gap y\<rparr> \<and> (observation_conflict j oid \<or> y = x)))"
  using reordered_order [OF assms] reordered_portfolio [OF assms] by (simp add: portfolio_closed)

definition early_fill :: fill where
  "early_fill = \<lparr>event_id = 41, order_id = 11, evidence_version = 1, remaining = 30, fill_qty = 10,
     fill_price = None, trading_date = None\<rparr>"

definition late_fill :: fill where
  "late_fill = \<lparr>event_id = 42, order_id = 11, evidence_version = 2, remaining = 25, fill_qty = 5,
     fill_price = None, trading_date = None\<rparr>"

definition in_order :: journal where
  "in_order = (ljnl sold)\<lparr>facts := [Fill early_fill, Fill late_fill]\<rparr>"

definition out_of_order :: journal where
  "out_of_order = (ljnl sold)\<lparr>facts := [Fill late_fill, Fill early_fill]\<rparr>"

lemma in_order_reordered: "reordered in_order out_of_order"
  by (simp add: reordered_def in_order_def out_of_order_def add_mset_commute)

theorem arrival_order_irrelevant_witness:
  "portfolio out_of_order ''005930'' = portfolio in_order ''005930'' \<and>
   order out_of_order 11 = order in_order 11"
proof -
  have "\<not> isl (order in_order 11)" and "\<not> observation_conflict in_order 11" by code_simp+
  then obtain x where "order in_order 11 = Inr x" and "\<not> observation_conflict in_order 11"
    by (cases "order in_order 11") auto
  then show ?thesis using arrival_order_irrelevant [OF in_order_reordered, of "''005930''"] by fastforce
qed

text \<open>The exception is real: with two observations of one version that disagree, the first one to arrive decides the
  active quantity.\<close>

definition disagreeing :: "fill list \<Rightarrow> journal" where
  "disagreeing fs = (ljnl sold)\<lparr>facts := map Fill fs\<rparr>"

theorem arrival_order_matters:
  "reordered (disagreeing [early_fill, late_fill\<lparr>evidence_version := 1\<rparr>])
     (disagreeing [late_fill\<lparr>evidence_version := 1\<rparr>, early_fill]) \<and>
   active (projr (order (disagreeing [early_fill, late_fill\<lparr>evidence_version := 1\<rparr>]) 11)) = Some 30 \<and>
   active (projr (order (disagreeing [late_fill\<lparr>evidence_version := 1\<rparr>, early_fill]) 11)) = Some 25"
proof (intro conjI)
  show "reordered (disagreeing [early_fill, late_fill\<lparr>evidence_version := 1\<rparr>])
     (disagreeing [late_fill\<lparr>evidence_version := 1\<rparr>, early_fill])"
    by (simp add: reordered_def disagreeing_def add_mset_commute)
qed code_simp+

section \<open>The outbox\<close>

text \<open>C40: Whatever operations run, in whatever order and with restarts, the outbox holds exactly one message per
  journal row, in the order of the rows and with strictly increasing sequence numbers, so a publisher that drains it
  by sequence sees every committed entry once.\<close>

theorem outbox_mirrors_journal:
  assumes "ledger_ok L" and "(ledger_step sha dg u5)\<^sup>*\<^sup>* L L'"
  shows "db_outbox (lg_db L') = map (\<lambda>r. (row_seq r, row_payload r)) (db_journal (lg_db L')) \<and>
    sorted_wrt (<) (map fst (db_outbox (lg_db L'))) \<and> (\<forall>m\<in>set (db_outbox (lg_db L')). 0 < fst m)"
  using ledger.run_inv [OF assms(2,1)]
  by (auto simp: ledger_ok_def store_ok_def db_ok_def comp_def)

theorem outbox_mirrors_journal_witness:
  "db_outbox (lg_db paused) = map (\<lambda>r. (row_seq r, row_payload r)) (db_journal (lg_db paused)) \<and>
   length (db_outbox (lg_db paused)) = 3"
proof -
  have "length (db_journal (lg_db paused)) = 3" by code_simp
  then show ?thesis using outbox_mirrors_journal [OF sold_ok(1) paused_run] by simp
qed

section \<open>Stops\<close>

text \<open>A protective sell is proposed exactly when the managed position is not empty, a fresh quote of its own
  symbol is at or below the stop line as a real number, the exposure agrees with the confirmed position, no evidence is
  unresolved and some shares are not reserved; it then covers exactly the unreserved shares, and otherwise none.\<close>

theorem protective_sell_iff:
  "(prot_status (protection_candidate (evaluate_stop p quote rule t) p ex) = CANDIDATE \<longleftrightarrow>
      confirmed_qty p \<noteq> 0 \<and>
      (\<exists>q line. quote = Some q \<and> quote_symbol q = mp_symbol p \<and> quote_fresh q t \<and>
         stop_line p rule = Some line \<and> dec_val (quote_price q) \<le> dec_val line) \<and>
      managed_qty ex = confirmed_qty p \<and> \<not> exp_reconciliation_required ex \<and> \<not> exp_sell_uncertain ex \<and>
      reserved_sell_qty ex < managed_qty ex) \<and>
   unreserved_qty (protection_candidate (evaluate_stop p quote rule t) p ex) =
     (if prot_status (protection_candidate (evaluate_stop p quote rule t) p ex) = CANDIDATE
      then managed_qty ex - reserved_sell_qty ex else 0)"
  using protection_candidate_iff [of "evaluate_stop p quote rule t" p ex]
    protection_candidate_qty [of "evaluate_stop p quote rule t" p ex]
    protection_not_candidate_qty [of "evaluate_stop p quote rule t" p ex]
  by (simp add: evaluate_stop_triggered_iff)

section \<open>Virtual buys and manual sells\<close>

text \<open>A decision behind a gate: the gate is open and the decision stands, or it is blocked.\<close>

definition buy_sized :: "buy_decision \<Rightarrow> bool" where
  "buy_sized d \<longleftrightarrow> buy_qty d = (if buy_status d = BUY_CANDIDATE then 1 else 0)"

lemma buy_gate:
  "buy_status (block_or r buy_blocked d) = BUY_CANDIDATE \<longleftrightarrow> r = None \<and> buy_status d = BUY_CANDIDATE"
  "buy_status (buy_blocked x) \<noteq> BUY_CANDIDATE"
  "buy_sized (buy_blocked x)"
  "buy_sized d \<Longrightarrow> buy_sized (block_or r buy_blocked d)"
  by (cases r; simp add: buy_blocked_def buy_sized_def)+

definition sell_sized :: "managed_position \<Rightarrow> string \<Rightarrow> datetime \<Rightarrow> manual_sell_proposal \<Rightarrow> bool" where
  "sell_sized p mode s_end r \<longleftrightarrow>
     (if msp_status r = READY
      then 0 < msp_qty r \<and> msp_qty r * (if mode = ''FULL'' then 1 else 2) = confirmed_qty p \<and> msp_expires_at r = Some s_end
      else msp_qty r = 0 \<and> msp_limit_price r = None)"

lemma sell_gate:
  "msp_status (block_or r msp_blocked d) = READY \<longleftrightarrow> r = None \<and> msp_status d = READY"
  "msp_status (msp_blocked x) \<noteq> READY"
  "sell_sized p mode s_end (msp_blocked x)"
  "(r = None \<Longrightarrow> sell_sized p mode s_end d) \<Longrightarrow> sell_sized p mode s_end (block_or r msp_blocked d)"
  by (cases r; simp add: msp_blocked_def sell_sized_def)+

text \<open>A virtual buy is a candidate exactly when its target is a positive decimal of at most 100,000, the
  command has not expired and expires within the session, nothing is held or was bought that day, and a fresh quote of
  the symbol is at or below the target; it is then for one share, and a blocked decision is for none.\<close>

theorem virtual_buy_iff:
  "(buy_status (evaluate_virtual_buy symb goal quote t held today expires s_end) = BUY_CANDIDATE \<longleftrightarrow>
      (\<exists>d e n q. parse_decimal goal = Some (Finite d) \<and> 0 < dcoeff d \<and> dec_val d \<le> 100000 \<and>
         expires = Some e \<and> aware e \<and> aware s_end \<and> dt_lt (obs_now t) e \<and> dt_le e s_end \<and>
         held \<le> 0 \<and> today = Some n \<and> n \<le> 0 \<and>
         quote = Some q \<and> quote_symbol q = symb \<and> quote_fresh q t \<and> dec_val (quote_price q) \<le> dec_val d)) \<and>
   buy_qty (evaluate_virtual_buy symb goal quote t held today expires s_end) =
     (if buy_status (evaluate_virtual_buy symb goal quote t held today expires s_end) = BUY_CANDIDATE then 1 else 0)"
proof
  let ?at = "\<lambda>q. if quote_symbol q \<noteq> symb then buy_blocked ''QUOTE_MISSING_OR_WRONG_SYMBOL''
    else block_or (market_block_reason q t (target_decimal goal)) buy_blocked
      \<lparr>buy_status = BUY_CANDIDATE, buy_reason = ''TARGET_AND_FRESHNESS_OK'', buy_qty = buy_qty_fixed\<rparr>"
  let ?m = "case quote of None \<Rightarrow> buy_blocked ''QUOTE_MISSING_OR_WRONG_SYMBOL'' | Some q \<Rightarrow> ?at q"
  have m: "buy_status ?m = BUY_CANDIDATE \<longleftrightarrow> (\<exists>q. quote = Some q \<and> quote_symbol q = symb \<and> quote_fresh q t \<and>
      dec_val (quote_price q) \<le> dec_val (target_decimal goal))"
    by (cases quote) (auto simp: buy_gate market_block_reason_None)
  show "buy_status (evaluate_virtual_buy symb goal quote t held today expires s_end) = BUY_CANDIDATE \<longleftrightarrow>
      (\<exists>d e n q. parse_decimal goal = Some (Finite d) \<and> 0 < dcoeff d \<and> dec_val d \<le> 100000 \<and>
         expires = Some e \<and> aware e \<and> aware s_end \<and> dt_lt (obs_now t) e \<and> dt_le e s_end \<and>
         held \<le> 0 \<and> today = Some n \<and> n \<le> 0 \<and>
         quote = Some q \<and> quote_symbol q = symb \<and> quote_fresh q t \<and> dec_val (quote_price q) \<le> dec_val d)"
    unfolding evaluate_virtual_buy_def buy_gate(1) m target_block_reason_None expiry_block_reason_None
      standing_block_reason_None
    by (auto simp: target_decimal_def)
  have "buy_sized ?m" by (cases quote) (auto intro!: buy_gate(3,4), simp add: buy_sized_def buy_qty_fixed_def)
  then have "buy_sized (evaluate_virtual_buy symb goal quote t held today expires s_end)"
    unfolding evaluate_virtual_buy_def by (intro buy_gate(4))
  then show "buy_qty (evaluate_virtual_buy symb goal quote t held today expires s_end) =
     (if buy_status (evaluate_virtual_buy symb goal quote t held today expires s_end) = BUY_CANDIDATE then 1 else 0)"
    by (simp add: buy_sized_def)
qed

text \<open>The clock is inside a session that starts and ends on the clock's own local day.\<close>

definition session_open :: "observe_at \<Rightarrow> datetime \<Rightarrow> datetime \<Rightarrow> bool" where
  "session_open t s_start s_end \<longleftrightarrow> aware s_start \<and> aware s_end \<and>
     day_at s_start (dt_offset s_start) = day_at s_end (dt_offset s_end) \<and>
     day_at s_start (dt_offset s_start) = day_at (obs_now t) (dt_offset s_start) \<and>
     dt_le s_start (obs_now t) \<and> dt_lt (obs_now t) s_end"

lemma session_open_iff: "session_block_reason t s_start s_end = None \<longleftrightarrow> session_open t s_start s_end"
  by (auto simp: session_block_reason_def session_open_def Let_def)

text \<open>A manual sell is ready exactly when it was submitted by the user with a known mode and order kind, no
  stop is due, the whole confirmed position is free of reservations and doubts, the session is one open day, a market
  order was confirmed, the quote of the symbol is fresh and a half of the position is a whole number of shares. The
  ready quantity is the whole or the exact half of the position, never more.\<close>

theorem manual_sell_ready_iff:
  "(msp_status (propose_manual_general_sell p ex quote t s_start s_end by_user mode kind confirmed stop_due) = READY \<longleftrightarrow>
      by_user \<and> mode \<in> {''FULL'', ''HALF''} \<and> kind \<in> {''LIMIT'', ''MARKET''} \<and> \<not> stop_due \<and>
      0 < confirmed_qty p \<and> managed_qty ex = confirmed_qty p \<and> reserved_sell_qty ex = 0 \<and>
      \<not> exp_reconciliation_required ex \<and> \<not> exp_sell_uncertain ex \<and>
      session_open t s_start s_end \<and> (kind = ''LIMIT'' \<or> confirmed) \<and>
      (\<exists>q. quote = Some q \<and> quote_symbol q = mp_symbol p \<and> quote_fresh q t) \<and>
      (mode = ''FULL'' \<or> even (confirmed_qty p))) \<and>
   sell_sized p mode s_end (propose_manual_general_sell p ex quote t s_start s_end by_user mode kind confirmed stop_due)"
proof -
  let ?at = "\<lambda>q. if mode \<noteq> ''FULL'' \<and> confirmed_qty p mod 2 \<noteq> 0 then msp_blocked ''HALF_QTY_NOT_WHOLE''
    else \<lparr>msp_status = READY, msp_reason = ''EXPLICIT_MANUAL_SELL_VALIDATED'',
      msp_qty = (if mode = ''FULL'' then confirmed_qty p else confirmed_qty p div 2), msp_order_kind = Some kind,
      msp_limit_price = (if kind = ''LIMIT'' then Some (quote_price q) else None), msp_expires_at = Some s_end\<rparr>"
  let ?m = "case quote of None \<Rightarrow> msp_blocked ''QUOTE_UNAVAILABLE'' | Some q \<Rightarrow> ?at q"
  let ?g = "block_or (fresh_quote_reason (mp_symbol p) quote t) msp_blocked ?m"
  let ?k = "if kind = ''MARKET'' \<and> \<not> confirmed then msp_blocked ''MARKET_CONFIRMATION_REQUIRED'' else ?g"
  let ?s = "block_or (position_block_reason p ex) msp_blocked
    (block_or (session_block_reason t s_start s_end) msp_blocked ?k)"
  let ?r = "propose_manual_general_sell p ex quote t s_start s_end by_user mode kind confirmed stop_due"
  let ?asked = "by_user \<and> mode \<in> {''FULL'', ''HALF''} \<and> kind \<in> {''LIMIT'', ''MARKET''} \<and> \<not> stop_due"
  have m: "msp_status ?g = READY \<longleftrightarrow> (\<exists>q. quote = Some q \<and> quote_symbol q = mp_symbol p \<and> quote_fresh q t) \<and>
      (mode = ''FULL'' \<or> even (confirmed_qty p))"
    unfolding sell_gate(1) fresh_quote_reason_None
    by (cases quote) (auto simp: sell_gate(2) even_iff_mod_2_eq_zero)
  have k: "msp_status ?k = READY \<longleftrightarrow> (kind \<noteq> ''MARKET'' \<or> confirmed) \<and> msp_status ?g = READY"
    by (simp only: sell_gate(2) split: if_split) blast
  have "msp_status ?s = READY \<longleftrightarrow> position_block_reason p ex = None \<and>
      session_block_reason t s_start s_end = None \<and> msp_status ?k = READY"
    by (simp only: sell_gate(1))
  then have s: "msp_status ?s = READY \<longleftrightarrow> 0 < confirmed_qty p \<and> managed_qty ex = confirmed_qty p \<and>
      reserved_sell_qty ex = 0 \<and> \<not> exp_reconciliation_required ex \<and> \<not> exp_sell_uncertain ex \<and>
      session_open t s_start s_end \<and> (kind \<noteq> ''MARKET'' \<or> confirmed) \<and>
      (\<exists>q. quote = Some q \<and> quote_symbol q = mp_symbol p \<and> quote_fresh q t) \<and>
      (mode = ''FULL'' \<or> even (confirmed_qty p))"
    unfolding k m position_block_reason_None session_open_iff by blast
  have sized: "sell_sized p mode s_end ?s"
  proof (intro sell_gate(4))
    assume "position_block_reason p ex = None"
    then have "0 < confirmed_qty p" by (simp add: position_block_reason_None)
    moreover from this have "confirmed_qty p mod 2 = 0 \<Longrightarrow> 0 < confirmed_qty p div 2 \<and>
        confirmed_qty p div 2 * 2 = confirmed_qty p" by presburger
    ultimately have "sell_sized p mode s_end ?m"
      by (cases quote) (auto simp: sell_gate(3), auto simp: sell_sized_def)
    then show "sell_sized p mode s_end ?k" using sell_gate(3,4) by (simp only: split: if_split) blast
  qed
  show ?thesis
  proof (cases ?asked)
    case True
    then have r: "?r = ?s" by (auto simp: propose_manual_general_sell_def)
    have kind: "kind = ''LIMIT'' \<longleftrightarrow> kind \<noteq> ''MARKET''" using True by auto
    show ?thesis unfolding r s by (rule conjI, use True kind in blast, rule sized)
  next
    case False
    then consider "\<not> by_user" | "by_user" "mode \<notin> {''FULL'', ''HALF''}"
      | "by_user" "mode \<in> {''FULL'', ''HALF''}" "kind \<notin> {''LIMIT'', ''MARKET''}"
      | "by_user" "mode \<in> {''FULL'', ''HALF''}" "kind \<in> {''LIMIT'', ''MARKET''}" "stop_due" by blast
    then obtain x where r: "?r = msp_blocked x"
      by cases (auto simp: propose_manual_general_sell_def)
    show ?thesis unfolding r using False sell_gate(2,3) by blast
  qed
qed

section \<open>Quarantine\<close>

lemma linked_fill_qty:
  assumes "linked_fill u5 j q = Inr fl"
  shows "\<exists>s. find_quarantined j q = Some s \<and> linked_targets j (qf_broker_order_no s) = [order_id fl] \<and>
    fill_qty fl = qf_qty s"
proof -
  obtain s where s: "find_quarantined j q = Some s" "linked_targets j (qf_broker_order_no s) = [order_id fl]"
    and fl: "fl = fill_of_quarantine u5 (order_id fl) s" using linked_fill_Inr [OF assms] by blast
  have "fill_qty fl = qf_qty s" using arg_cong [OF fl, of fill_qty] by (simp add: fill_of_quarantine_def)
  then show ?thesis using s by blast
qed

lemma append_fact_fresh:
  assumes "store_ok d" and "append_fact sc f d = Inr d'"
  shows "find_fact (jnl sc d) (fact_id f) = None"
  using assms key_free_kinds(2) [OF assms(1), of sc "fact_id f"]
  by (auto simp: append_fact_def append_entry_Inr entry_def find_fact_def find_None_iff')

lemma reprocess_records:
  assumes ok: "ledger_ok L" and run: "reprocess u5 q pr expected L = Inr (True, L')"
  shows "find_fact (ljnl L') (u5 q ''release'') = Some (QuarantineReleased (release_of u5 q pr))"
    and "make_fact (QuarantineReleased (release_of u5 q pr)) = Inr (QuarantineReleased (release_of u5 q pr))"
    and "usable L'"
proof -
  let ?R = "QuarantineReleased (release_of u5 q pr)"
  have id: "fact_id ?R = u5 q ''release''" by (simp add: release_of_def)
  have store: "store_ok (lg_db L)" using ok by (simp add: ledger_ok_def)
  from run ledger_read [OF ok] obtain fl d1 d2 where
    d1: "append_linked_fill u5 (lg_scope L) (ljnl L) fl (lg_db L) = Inr d1"
    and d2: "append_fact (lg_scope L) ?R d1 = Inr d2" and L': "L' = L\<lparr>lg_db := d2\<rparr>"
    and R: "make_fact ?R = Inr ?R" and us: "usable L"
    by (auto simp: reprocess_def make_fact_Inr transaction_Inr result_simps usable_def
        simp del: check_fact.simps split: option.splits if_splits)
  note a1 = append_linked_fill_store [OF store d1 [unfolded ljnl_def]]
  note a2 = append_fact_store [OF a1(1) d2]
  show "find_fact (ljnl L') (u5 q ''release'') = Some ?R"
    using append_fact_fresh [OF a1(1) d2] a2(2) L' id
    by (simp add: ljnl_db find_fact_def find_append)
  show "make_fact ?R = Inr ?R" "usable L'" using R us L' by (simp_all add: usable_def)
qed

text \<open>Reprocessing a quarantined fill that succeeds finds exactly one linked order for its broker number,
  leaves in the same transaction a fill of that order with the quarantined quantity and the release of the
  quarantine, and happens once: at any later time, after other operations and restarts, it reports that nothing was
  done and changes nothing.\<close>

theorem reprocess_once:
  assumes "ledger_ok L" and "reprocess u5 q pr expected L = Inr (True, L')"
    and "(ledger_step sha dg u)\<^sup>*\<^sup>* L' T" and "usable T"
  shows "reprocess u5 q pr expected' T = Inr (False, T) \<and>
    (\<exists>s fl. find_quarantined (ljnl L) q = Some s \<and> linked_targets (ljnl L) (qf_broker_order_no s) = [order_id fl] \<and>
       fill_qty fl = qf_qty s \<and> (\<exists>x\<in>set (facts (ljnl L')). fact_eq x (Fill fl)) \<and>
       QuarantineReleased (release_of u5 q pr) \<in> set (facts (ljnl L')))"
proof
  let ?R = "QuarantineReleased (release_of u5 q pr)"
  note r = reprocess_records [OF assms(1,2)]
  obtain fl d1 where fl: "linked_fill u5 (ljnl L) q = Inr fl"
    and app: "append_linked_fill u5 (lg_scope L) (ljnl L) fl (lg_db L) = Inr d1"
    and ok: "ledger_ok L'" and j': "ljnl L' = push (PFact ?R) (jnl (lg_scope L) d1)"
    by (rule reprocess_True [OF assms(1,2)])
  have T: "ledger_ok T" "continues L' T" using ledger.run_le [OF assms(3) ok] by auto
  then have "find_fact (ljnl T) (u5 q ''release'') = Some ?R"
    using r(1) grown_find_fact by (auto simp: continues_def)
  then show "reprocess u5 q pr expected' T = Inr (False, T)"
    using r(2) assms(4) ledger_read [OF T(1)]
    by (simp add: reprocess_def transaction_def operation_def usable_def release_of_def)
  have "store_ok (lg_db L)" using assms(1) by (simp add: ledger_ok_def)
  then have "\<exists>x\<in>set (facts (jnl (lg_scope L) d1)). fact_eq x (Fill fl)"
    using append_linked_fill_store(3) app [unfolded ljnl_def] by blast
  then have "\<exists>x\<in>set (facts (ljnl L')). fact_eq x (Fill fl)" "?R \<in> set (facts (ljnl L'))"
    by (auto simp: j')
  then show "\<exists>s fl. find_quarantined (ljnl L) q = Some s \<and>
      linked_targets (ljnl L) (qf_broker_order_no s) = [order_id fl] \<and>
      fill_qty fl = qf_qty s \<and> (\<exists>x\<in>set (facts (ljnl L')). fact_eq x (Fill fl)) \<and> ?R \<in> set (facts (ljnl L'))"
    using linked_fill_qty [OF fl] by blast
qed

section \<open>A quarantined fill on a ledger\<close>

definition sc_u5 :: "uuid \<Rightarrow> string \<Rightarrow> uuid" where
  "sc_u5 q purpose = (if purpose = ''release'' then q + 1000 else q + 2000)"

definition sc_ack :: fact where
  "sc_ack = Ack \<lparr>event_id = 51, ack_request_id = 12, broker_order_no = ''B-1''\<rparr>"

definition stray_fill :: fact where
  "stray_fill = QuarantinedFill \<lparr>event_id = 52, qf_broker_order_no = ''B-1'', qf_symbol = ''005930'',
     qf_qty = 10, qf_remaining = 30, qf_evidence_version = 1\<rparr>"

definition acked_step :: "(bool \<times> ledger) result" where
  "acked_step = ingest sc_u5 sc_ack sold"

definition strayed_step :: "(bool \<times> ledger) result" where
  "strayed_step = ingest sc_u5 stray_fill (aft acked_step)"

definition strayed :: ledger where "strayed = aft strayed_step"

definition released_step :: "(bool \<times> ledger) result" where
  "released_step = reprocess sc_u5 52 ''proof-1'' 4 strayed"

definition released :: ledger where "released = aft released_step"

lemma strayed_ok: "ledger_ok strayed" by code_simp

lemma released_run: "reprocess sc_u5 52 ''proof-1'' 4 strayed = Inr (True, released)"
proof -
  have "\<not> isl released_step" and "val released_step" by code_simp+
  from ran [OF this(1)] this(2) show ?thesis by (simp add: released_def released_step_def)
qed

lemma released_usable: "usable released" by code_simp

theorem reprocess_once_witness:
  "reprocess sc_u5 52 ''proof-1'' 4 released = Inr (False, released) \<and>
   (\<exists>s (fl :: fill). find_quarantined (ljnl strayed) 52 = Some s \<and>
     linked_targets (ljnl strayed) (qf_broker_order_no s) = [order_id fl] \<and> fill_qty fl = qf_qty s)"
  using reprocess_once [OF strayed_ok released_run rtranclp.rtrancl_refl released_usable, of 4] by blast

end
