(* ===== verification/RestOrder.thy ===== *)
theory RestOrder
  imports PyValues DigitText
begin

text \<open>
  \<open>adapters/kiwoom_rest_order.py\<close>: the one-share demonstration buy. A preview is validated on construction;
  the body and the classification of the answer are functions of it.
\<close>

record buy_preview =
  bp_symbol :: string
  bp_price :: string

definition max_demo_price :: int where "max_demo_price = 100000"

definition demo_quantity :: int where "demo_quantity = 1"

text \<open>\<open>int(price.split(".", 1)[0])\<close>; Python refuses to convert more than 4300 digits.\<close>

definition whole_part :: "string \<Rightarrow> int result" where
  "whole_part price =
     (if length (before_dot price) > 4300 then Inl (ValueError ''INT_DIGITS_EXCEEDED'')
      else Inr (int_of_digits (before_dot price)))"

definition make_buy_preview :: "string \<Rightarrow> string \<Rightarrow> buy_preview result" where
  "make_buy_preview symb price =
     ebind (raise_if (\<not> six_digits symb) (ValueError ''ORDER_SYMBOL_INVALID'')) (\<lambda>_.
     ebind (raise_if (\<not> is_price price) (ValueError ''ORDER_PRICE_INVALID'')) (\<lambda>_.
     ebind (whole_part price) (\<lambda>n.
     ebind (raise_if (n > max_demo_price) (ValueError ''ORDER_PRICE_CAPPED'')) (\<lambda>_.
     ebind (raise_if (n \<le> 0) (ValueError ''ORDER_PRICE_INVALID'')) (\<lambda>_.
     Inr \<lparr>bp_symbol = symb, bp_price = price\<rparr>)))))"

definition build_buy_body :: "buy_preview \<Rightarrow> (string \<times> string) list" where
  "build_buy_body p = [(''dmst_stex_tp'', ''KRX''), (''stk_cd'', bp_symbol p),
     (''ord_qty'', str_int demo_quantity), (''trde_tp'', ''0''), (''ord_uv'', bp_price p), (''cond_uv'', [])]"

definition classify_order_response :: "pyval \<Rightarrow> bool \<times> string" where
  "classify_order_response payload =
     (case payload of
       PyDict table \<Rightarrow>
         if \<not> success_code (py_get table ''return_code'') then (False, ''API_SUCCESS_UNCONFIRMED'')
         else (case py_get table ''ord_no'' of
             PyStr n \<Rightarrow> if strip n = [] then (False, ''ORDER_NUMBER_MISSING'') else (True, ''ORDER_ACKED'')
           | _ \<Rightarrow> (False, ''ORDER_NUMBER_MISSING''))
     | _ \<Rightarrow> (False, ''RESPONSE_INVALID''))"

section \<open>Lemmas\<close>

text \<open>The part before the point is the price rounded down.\<close>

lemma price_floor:
  assumes "is_price p"
  shows "\<lfloor>dec_val (dec_of_price p)\<rfloor> = int_of_digits (before_dot p)"
proof -
  let ?k = "length (after_dot p)"
  have ad: "\<forall>c\<in>set (after_dot p). is_digit c" by (rule price_fraction_digits [OF assms])
  note b = int_of_digits_bounds [OF ad]
  have "dec_val (dec_of_price p) =
      of_int (int_of_digits (before_dot p)) + of_int (int_of_digits (after_dot p)) / 10 ^ ?k"
    by (simp add: dec_val_def dec_of_price_def int_of_digits_append field_simps power_int_minus)
  moreover have "0 \<le> (of_int (int_of_digits (after_dot p)) :: real) / 10 ^ ?k"
    using b by simp
  moreover have "(of_int (int_of_digits (after_dot p)) :: real) / 10 ^ ?k < 1"
    using b by (simp add: divide_less_eq)
  ultimately show ?thesis by (simp add: floor_eq_iff)
qed

lemma whole_part_Inr: "whole_part p = Inr n \<longleftrightarrow> length (before_dot p) \<le> 4300 \<and> n = int_of_digits (before_dot p)"
  by (auto simp: whole_part_def)

section \<open>Properties\<close>

text \<open>A demonstration buy can only be a limit buy of one share at a small price. A preview is accepted exactly
  when its symbol has six digits, its price is a decimal number of a convertible length, and the price,
  read exactly, is at least 1 and less than 100001; the body then asks for one share of that symbol at
  that price on the exchange, as a limit order. The cap of 100000 is thus applied to the price rounded
  down: 100000.99 passes, as 0.99 does not.\<close>

theorem buy_preview_accepted_iff:
  "(make_buy_preview symb price = Inr b \<longleftrightarrow>
     six_digits symb \<and> is_price price \<and> length (before_dot price) \<le> 4300 \<and>
     1 \<le> dec_val (dec_of_price price) \<and> dec_val (dec_of_price price) < 100001 \<and>
     b = \<lparr>bp_symbol = symb, bp_price = price\<rparr>) \<and>
   map_of (build_buy_body b) ''ord_qty'' = Some ''1'' \<and> map_of (build_buy_body b) ''trde_tp'' = Some ''0'' \<and>
   map_of (build_buy_body b) ''stk_cd'' = Some (bp_symbol b) \<and>
   map_of (build_buy_body b) ''ord_uv'' = Some (bp_price b)"
proof -
  have "1 \<le> int_of_digits (before_dot price) \<longleftrightarrow> 1 \<le> dec_val (dec_of_price price)"
    and "int_of_digits (before_dot price) \<le> 100000 \<longleftrightarrow> dec_val (dec_of_price price) < 100001" if "is_price price"
    using price_floor [OF that] by linarith+
  then have "make_buy_preview symb price = Inr b \<longleftrightarrow>
     six_digits symb \<and> is_price price \<and> length (before_dot price) \<le> 4300 \<and>
     1 \<le> dec_val (dec_of_price price) \<and> dec_val (dec_of_price price) < 100001 \<and>
     b = \<lparr>bp_symbol = symb, bp_price = price\<rparr>"
    by (auto simp: make_buy_preview_def result_simps whole_part_Inr max_demo_price_def)
  moreover have "str_int demo_quantity = ''1''" by code_simp
  ultimately show ?thesis by (simp add: build_buy_body_def)
qed

text \<open>The price cap can be exceeded: a preview at 100000.99 is accepted, at a price above the stated maximum.\<close>

theorem buy_cap_exceeded:
  "make_buy_preview ''005930'' ''100000.99'' = Inr \<lparr>bp_symbol = ''005930'', bp_price = ''100000.99''\<rparr> \<and>
   dec_lt (dec_of_int max_demo_price) (dec_of_price ''100000.99'')"
  by code_simp

end
