(* ===== verification/PaperWorld.thy ===== *)
theory PaperWorld
  imports RestAuth
begin

text \<open>
  What the tools on the mock host share: the world outside as a record of functions on an outside state (the
  environment variables, the two clocks, the sleep, the network, \<open>json.loads\<close> and the disk), the token of a
  cache over the pacer of the tool, and the transport over both. A log of the posted requests, carried beside the
  outside state, is what their safety properties speak of.
\<close>

section \<open>The world of a tool\<close>

text \<open>\<open>Torn\<close> is a \<open>write_text\<close> that raises after it created the file.\<close>

datatype disk_answer = Written | Refused | Torn

record 's paper_world =
  pw_vars :: "string \<rightharpoonup> string"
  pw_day :: "'s \<Rightarrow> string \<times> 's"
  pw_monotonic :: "'s \<Rightarrow> rat \<times> 's"
  pw_sleep :: "rat \<Rightarrow> 's \<Rightarrow> 's"
  pw_now :: "'s \<Rightarrow> datetime \<times> 's"
  pw_post :: "'s poster"
  pw_loads :: "string \<Rightarrow> pyval option"
  pw_disk :: "'s \<Rightarrow> disk_answer \<times> 's"

definition default_pacer :: request_pacer where
  "default_pacer = \<lparr>pc_interval = 11 / 10, pc_next = 0\<rparr>"

text \<open>\<open>PaperTokenCache(credentials, PaperTokenIssuer(pacer).issue).get()\<close>.\<close>

definition tool_token ::
    "'s paper_world \<Rightarrow> paper_credentials \<Rightarrow> request_pacer \<times> token_cache \<times> 's \<Rightarrow>
     string result \<times> request_pacer \<times> token_cache \<times> 's" where
  "tool_token W c = (\<lambda>(p, C, s).
     let clock = (\<lambda>(p, s). let (n, s') = pw_now W s in (n, p, s'));
         issue = (\<lambda>(p, s). issue_token (pw_monotonic W) (pw_sleep W) (pw_post W) (pw_loads W) c p s);
         (token, C', p', s') = get_token clock issue C (p, s)
     in (token, p', C', s'))"

text \<open>\<open>PaperReadOnlyTransport(cache.get, timeout=10, pacer=pacer).fetch_page\<close>.\<close>

definition beside_cache :: "('s \<Rightarrow> 'a \<times> 's) \<Rightarrow> token_cache \<times> 's \<Rightarrow> 'a \<times> token_cache \<times> 's" where
  "beside_cache f = (\<lambda>(C, s). case f s of (x, s') \<Rightarrow> (x, C, s'))"

definition paper_fetch ::
    "'s paper_world \<Rightarrow> paper_credentials \<Rightarrow> (request_pacer \<times> token_cache \<times> 's) page_fetcher" where
  "paper_fetch W c = fetch_page (beside_cache (pw_monotonic W)) (\<lambda>d (C, s). (C, pw_sleep W d s))
     (\<lambda>url hs body. beside_cache (pw_post W url hs body)) (pw_loads W) (tool_token W c)"

section \<open>The log of posted requests\<close>

text \<open>Endpoint, headers and body.\<close>

type_synonym post_log = "(string \<times> (string \<times> string) list \<times> (string \<times> string) list) list"

definition unlogged :: "('s \<Rightarrow> 'a \<times> 's) \<Rightarrow> 's \<times> post_log \<Rightarrow> 'a \<times> 's \<times> post_log" where
  "unlogged f = (\<lambda>(s, l). case f s of (x, s') \<Rightarrow> (x, s', l))"

definition logged_post :: "'s poster \<Rightarrow> ('s \<times> post_log) poster" where
  "logged_post post url hs body = (\<lambda>(s, l). case post url hs body s of (x, s') \<Rightarrow> (x, s', l @ [(url, hs, body)]))"

definition logged_wait :: "(rat \<Rightarrow> 's \<Rightarrow> 's) \<Rightarrow> rat \<Rightarrow> 's \<times> post_log \<Rightarrow> 's \<times> post_log" where
  "logged_wait wait d = (\<lambda>(s, l). (wait d s, l))"

definition logged_world :: "'s paper_world \<Rightarrow> ('s \<times> post_log) paper_world" where
  "logged_world W = \<lparr>pw_vars = pw_vars W, pw_day = unlogged (pw_day W), pw_monotonic = unlogged (pw_monotonic W),
     pw_sleep = logged_wait (pw_sleep W), pw_now = unlogged (pw_now W), pw_post = logged_post (pw_post W),
     pw_loads = pw_loads W, pw_disk = unlogged (pw_disk W)\<rparr>"

lemma logged_world_simps [simp]:
  "pw_vars (logged_world W) = pw_vars W" "pw_day (logged_world W) = unlogged (pw_day W)"
  "pw_monotonic (logged_world W) = unlogged (pw_monotonic W)" "pw_sleep (logged_world W) = logged_wait (pw_sleep W)"
  "pw_now (logged_world W) = unlogged (pw_now W)" "pw_post (logged_world W) = logged_post (pw_post W)"
  "pw_loads (logged_world W) = pw_loads W" "pw_disk (logged_world W) = unlogged (pw_disk W)"
  by (simp_all add: logged_world_def)

lemma unlogged_apply: "unlogged f (s, l) = (fst (f s), snd (f s), l)"
  by (simp add: unlogged_def split: prod.split)

lemma unlogged_log: "unlogged f (s, l) = (x, s', l') \<Longrightarrow> l' = l"
  by (auto simp: unlogged_def split: prod.splits)

lemma acquire_unlogged:
  "acquire_slot (unlogged clock) (logged_wait wait) p (s, l) =
     (case acquire_slot clock wait p s of (t, p', s') \<Rightarrow> (t, p', s', l))"
  by (simp add: acquire_slot_def unlogged_def logged_wait_def split: prod.splits)

lemma acquire_log:
  "acquire_slot (unlogged clock) (logged_wait wait) p (s, l) = (t, p', s', l') \<Longrightarrow> l' = l"
  by (auto simp: acquire_unlogged split: prod.splits)

lemma logged_post_log: "logged_post post url hs body (s, l) = (x, s', l') \<Longrightarrow> l' = l @ [(url, hs, body)]"
  by (auto simp: logged_post_def split: prod.splits)

section \<open>What a token posts\<close>

text \<open>What clock readings and issuing do to the outside state, a call of the cache does.\<close>

lemma get_token_outside:
  assumes "get_token clock issue C s = (r, C', s')"
    and "\<And>s. R s (snd (clock s))" and "\<And>s. R s (snd (issue s))" and "\<And>a b c. R a b \<Longrightarrow> R b c \<Longrightarrow> R a c"
  shows "R s s'"
proof -
  obtain now s1 where c: "clock s = (now, s1)" by (cases "clock s")
  have 1: "R s s1" using assms(2) [of s] c by simp
  show ?thesis
  proof (cases "s' = s1")
    case False
    then have "renew_token clock issue now (C\<lparr>tc_last_now := Some now\<rparr>) s1 = (r, C', s')"
      using assms(1) c by (auto simp: get_token_def Let_def split: if_splits option.splits)
    then have "s' = snd (issue s1) \<or> s' = snd (clock (snd (issue s1)))"
      by (auto simp: renew_token_def split: prod.splits sum.splits if_splits)
    then show ?thesis using 1 assms(2-4) by metis
  qed (use 1 in simp)
qed

definition only_tokens :: "request_pacer \<times> 's \<times> post_log \<Rightarrow> request_pacer \<times> 's \<times> post_log \<Rightarrow> bool" where
  "only_tokens a b \<longleftrightarrow> (\<exists>new. snd (snd b) = snd (snd a) @ new \<and> (\<forall>x\<in>set new. fst x = token_url))"

lemma only_tokens_trans: "only_tokens a b \<Longrightarrow> only_tokens b c \<Longrightarrow> only_tokens a c"
  by (fastforce simp: only_tokens_def)

lemma issue_token_log:
  assumes "issue_token (unlogged clock) (logged_wait wait) (logged_post post) loads c p (s, l) = (r, p', s', l')"
  shows "only_tokens (p, s, l) (p', s', l')"
proof -
  obtain t p1 s1 l1 where a: "acquire_slot (unlogged clock) (logged_wait wait) p (s, l) = (t, p1, s1, l1)"
    by (metis prod.collapse)
  then have "l1 = l" by (rule acquire_log)
  then show ?thesis using assms a
    by (auto simp: issue_token_def only_tokens_def dest: logged_post_log split: prod.splits)
qed

lemma tool_token_log:
  assumes "tool_token (logged_world W) c (p, C, s, l) = (r, p', C', s', l')"
  shows "\<exists>new. l' = l @ new \<and> (\<forall>x\<in>set new. fst x = token_url)"
proof -
  let ?clock = "\<lambda>(p, s). let (n, s') = unlogged (pw_now W) s in (n, p, s')"
  let ?issue = "\<lambda>(p, s). issue_token (unlogged (pw_monotonic W)) (logged_wait (pw_sleep W)) (logged_post (pw_post W))
    (pw_loads W) c p s"
  have g: "get_token ?clock ?issue C (p, s, l) = (r, C', p', s', l')"
    using assms by (auto simp: tool_token_def Let_def split: prod.splits)
  have "only_tokens (p, s, l) (p', s', l')"
  proof (rule get_token_outside [OF g])
    fix x :: "request_pacer \<times> 'a \<times> post_log"
    obtain p s l where x: "x = (p, s, l)" by (cases x)
    show "only_tokens x (snd (?clock x))"
      by (auto simp: x only_tokens_def unlogged_def split: prod.splits)
    show "only_tokens x (snd (?issue x))"
      unfolding x using issue_token_log by (metis (mono_tags, lifting) prod.collapse case_prod_conv)
  qed (rule only_tokens_trans)
  then show ?thesis by (simp add: only_tokens_def)
qed

section \<open>What a capture posts\<close>

definition account_read :: "rest_query \<Rightarrow> (string \<times> string) list \<Rightarrow>
    string \<times> (string \<times> string) list \<times> (string \<times> string) list \<Rightarrow> bool" where
  "account_read q body x \<longleftrightarrow> (\<exists>token cont_yn next_key. token_ok token \<and>
     x = (account_url, page_headers q token cont_yn next_key, body))"

definition account_reads :: "post_log \<Rightarrow> post_log" where
  "account_reads l = filter (\<lambda>x. fst x \<noteq> token_url) l"

lemma account_reads_simps [simp]:
  "account_reads [] = []" "account_reads (l @ l') = account_reads l @ account_reads l'"
  "\<forall>x\<in>set l. fst x = token_url \<Longrightarrow> account_reads l = []"
  "account_reads [(account_url, hs, body)] = [(account_url, hs, body)]"
  by (auto simp: account_reads_def filter_empty_conv token_url_def account_url_def)

text \<open>The contract of a transport: a fetched page appends to the log, with at most one read of the account.\<close>

locale logged_transport =
  fixes fetch :: "'s page_fetcher" and posts_of :: "'s \<Rightarrow> post_log"
  assumes fetch_log: "fetch q body marker cursor s = (r, s') \<Longrightarrow>
    \<exists>new. posts_of s' = posts_of s @ new \<and> length (account_reads new) \<le> 1 \<and>
      (\<forall>x\<in>set (account_reads new). account_read q body x) \<and> (r \<noteq> Fetch_raised \<longrightarrow> account_reads new \<noteq> [])"
begin

text \<open>A capture never retries: it reads at most as often as pages are left, and once for each page it holds.\<close>

lemma pages_log:
  assumes "capture_pages fetch q body n pages cursors marker cursor s = (c, s')"
  shows "\<exists>new. posts_of s' = posts_of s @ new \<and> length (account_reads new) \<le> n \<and>
    (\<forall>x\<in>set (account_reads new). account_read q body x) \<and>
    length (rc_pages c) \<le> length pages + length (account_reads new)"
  using assms
proof (induction n arbitrary: pages cursors marker cursor s)
  case 0
  then show ?case by (auto simp: captured_def intro: exI [of _ "[]"])
next
  case (Suc n)
  obtain r s1 where f: "fetch q body marker cursor s = (r, s1)" by (cases "fetch q body marker cursor s")
  from fetch_log [OF f] obtain new where one: "posts_of s1 = posts_of s @ new" "length (account_reads new) \<le> 1"
    "\<forall>x\<in>set (account_reads new). account_read q body x" "r \<noteq> Fetch_raised \<longrightarrow> account_reads new \<noteq> []" by blast
  show ?case
  proof (cases "\<exists>pg. r = Page pg \<and> page_error q pg = None \<and> rp_cont_yn pg \<noteq> PyStr ''N'' \<and> page_cursor pg \<notin> set cursors")
    case True
    then obtain pg where pg: "r = Page pg" and
      rest: "capture_pages fetch q body n (pages @ [pg]) (cursors @ [page_cursor pg]) ''Y'' (page_cursor pg) s1 = (c, s')"
      using Suc.prems f by (auto simp: Let_def)
    from Suc.IH [OF rest] obtain more where more: "posts_of s' = posts_of s1 @ more" "length (account_reads more) \<le> n"
      "\<forall>x\<in>set (account_reads more). account_read q body x"
      "length (rc_pages c) \<le> length (pages @ [pg]) + length (account_reads more)" by blast
    have "length (account_reads new) = 1" using one pg by (cases "account_reads new") auto
    then show ?thesis using one more by (intro exI [of _ "new @ more"]) auto
  next
    case False
    then have "s' = s1" "length (rc_pages c) \<le> length pages + (if r = Fetch_raised then 0 else 1)"
      using Suc.prems f by (auto simp: captured_def Let_def split: fetched.splits option.splits if_splits)
    with one show ?thesis by (cases "account_reads new") (auto split: if_splits)
  qed
qed

lemma capture_log:
  assumes "capture_query fetch q body max_pages s = Inr (c, s')"
  shows "\<exists>new. posts_of s' = posts_of s @ new \<and> int (length (account_reads new)) \<le> max_pages \<and>
    (\<forall>x\<in>set (account_reads new). account_read q body x) \<and> length (rc_pages c) \<le> length (account_reads new)"
proof -
  have "0 < max_pages" and "capture_pages fetch q body (nat max_pages) [] [] ''N'' [] s = (c, s')"
    using assms by (auto simp: capture_query_Inr_iff validate_query_def result_simps)
  from this(1) pages_log [OF this(2)] show ?thesis by (auto simp: le_nat_iff)
qed

end

lemma paper_fetch_log:
  assumes "paper_fetch (logged_world W) c q body marker cursor (p, C, s, l) = (r, p', C', s', l')"
  shows "\<exists>new. l' = l @ new \<and> length (account_reads new) \<le> 1 \<and>
      (\<forall>x\<in>set (account_reads new). account_read q body x) \<and> (r \<noteq> Fetch_raised \<longrightarrow> account_reads new \<noteq> [])"
proof (cases "validate_query q body 1")
  case (Inl e)
  then show ?thesis using assms by (simp add: paper_fetch_def fetch_page_def)
next
  case (Inr u)
  obtain tok p1 C1 s1 l1 where t: "tool_token (logged_world W) c (p, C, s, l) = (tok, p1, C1, s1, l1)"
    by (metis prod.collapse)
  from tool_token_log [OF t] obtain new where new: "l1 = l @ new" "\<forall>x\<in>set new. fst x = token_url" by blast
  show ?thesis
  proof (cases "\<exists>token. tok = Inr token \<and> token_ok token")
    case True
    then obtain token where token: "tok = Inr token" "token_ok token" by blast
    let ?clock = "beside_cache (pw_monotonic (logged_world W))" and ?wait = "\<lambda>d (C, s). (C, pw_sleep (logged_world W) d s)"
    obtain t2 p2 C2 s2 l2 where a: "acquire_slot ?clock ?wait p1 (C1, s1, l1) = (t2, p2, C2, s2, l2)"
      by (metis prod.collapse)
    then have l2: "l2 = l1"
      by (auto simp: acquire_slot_def beside_cache_def unlogged_def logged_wait_def split: prod.splits if_splits)
    have "l' = l2 @ [(account_url, page_headers q token marker cursor, body)]"
      using assms Inr t token a
      by (auto simp: paper_fetch_def fetch_page_def beside_cache_def logged_post_def split: prod.splits)
    then show ?thesis using new l2 token(2)
      by (intro exI [of _ "new @ [(account_url, page_headers q token marker cursor, body)]"]) (auto simp: account_read_def)
  next
    case False
    then show ?thesis
      using assms Inr t new by (intro exI [of _ new]) (auto simp: paper_fetch_def fetch_page_def split: sum.splits)
  qed
qed

interpretation paper: logged_transport "paper_fetch (logged_world W) c" "\<lambda>(p, C, s, l). l" for W c
  by unfold_locales (auto dest!: paper_fetch_log split: prod.splits)

end
