(* ===== verification/PaperBuy.thy ===== *)
theory PaperBuy
  imports RestOrder PaperWorld
begin

text \<open>
  \<open>tools/submit_paper_buy.py\<close>: the opt-in tool that posts one demonstration buy to the mock host, over the world
  of \<open>PaperWorld\<close>. The sentinels under \<open>results/\<close> are a map from days to
  their contents. Each run prints one report, which is its result beside the exit code; argparse is not modelled.
\<close>

section \<open>The sentinels\<close>

datatype sentinel = Sentinel_unknown | Sentinel_acked string string | Sentinel_torn

type_synonym sentinels = "string \<rightharpoonup> sentinel"

section \<open>Posting the order\<close>

definition mock_order_url :: string where
  "mock_order_url = ''https://mockapi.kiwoom.com/api/dostk/ordr''"

definition order_headers :: "string \<Rightarrow> (string \<times> string) list" where
  "order_headers token = [(''Content-Type'', ''application/json;charset=UTF-8''), (''api-id'', ''kt10000''),
     (''authorization'', ''Bearer '' @ token), (''cont-yn'', ''N''), (''next-key'', [])]"

definition submit_buy_body ::
    "'s paper_world \<Rightarrow> (string \<times> string) list \<Rightarrow> string \<Rightarrow> rat option \<Rightarrow> request_pacer \<Rightarrow> 's \<Rightarrow>
     (string \<times> pyval) list result \<times> request_pacer \<times> 's" where
  "submit_buy_body W body token timeout p s =
     (if \<not> timeout_ok timeout then (Inl (ValueError ''TIMEOUT_INVALID''), p, s)
      else if \<not> token_ok token then (Inl (ValueError ''TOKEN_INVALID''), p, s)
      else let (_, p1, s1) = acquire_slot (pw_monotonic W) (pw_sleep W) p s;
               (answer, s2) = pw_post W mock_order_url (order_headers token) body s1
           in (case answer of
                 None \<Rightarrow> Inl (ValueError ''TRANSPORT_FAILED'')
               | Some (raw, _) \<Rightarrow>
                   if int (length raw) > max_response_bytes then Inl (ValueError ''RESPONSE_TOO_LARGE'')
                   else (case pw_loads W raw of
                       None \<Rightarrow> Inl (ValueError ''JSON_INVALID'')
                     | Some (PyDict d) \<Rightarrow> Inr d
                     | Some _ \<Rightarrow> Inl (TypeError ''RESPONSE_INVALID'')), p1, s2))"

section \<open>Reports\<close>

text \<open>\<open>re.sub(r"\d{4,}", "<digits>", s)\<close>: every maximal run of at least four digits goes.\<close>

function redact_digits :: "string \<Rightarrow> string" where
  "redact_digits [] = []"
| "redact_digits (c # cs) =
     (if is_digit c
      then (let run = takeWhile is_digit (c # cs)
            in (if 4 \<le> length run then ''<digits>'' else run) @ redact_digits (dropWhile is_digit (c # cs)))
      else c # redact_digits cs)"
  by pat_completeness auto
termination
proof (relation "measure length", simp)
  fix c cs and x :: string
  assume "is_digit c"
  then show "(dropWhile is_digit (c # cs), c # cs) \<in> measure length"
    using length_dropWhile_le [of is_digit cs] by (simp add: le_imp_less_Suc)
qed simp

definition summarize_broker_message :: "(string \<times> pyval) list \<Rightarrow> pyval \<times> string option" where
  "summarize_broker_message payload =
     (py_get payload ''return_code'',
      case py_get payload ''return_msg'' of
        PyStr message \<Rightarrow> if strip message = [] then None else Some (take 160 (redact_digits (strip message)))
      | _ \<Rightarrow> None)"

record buy_report =
  br_network :: bool
  br_submitted :: bool
  br_acked :: bool
  br_reason :: string
  br_preview :: "buy_preview option"
  br_qty :: "int option"
  br_trade_type :: "string option"
  br_code :: pyval
  br_message :: "string option"

text \<open>The symbol and the price of the report are those of the preview.\<close>

definition report ::
    "bool \<Rightarrow> bool \<Rightarrow> string \<Rightarrow> buy_preview option \<Rightarrow> bool \<Rightarrow> pyval \<times> string option \<Rightarrow> buy_report" where
  "report submitted ackd reason preview network broker =
     \<lparr>br_network = network, br_submitted = submitted, br_acked = ackd, br_reason = reason, br_preview = preview,
      br_qty = (if preview = None then None else Some demo_quantity),
      br_trade_type = (if preview = None then None else Some ''LIMIT''),
      br_code = fst broker, br_message = snd broker\<rparr>"

definition no_broker :: "pyval \<times> string option" where
  "no_broker = (PyNone, None)"

section \<open>The run\<close>

definition error_text :: "py_error \<Rightarrow> string" where
  "error_text e = (case e of ValueError c \<Rightarrow> c | LedgerError c \<Rightarrow> c | TypeError c \<Rightarrow> c | _ \<Rightarrow> [])"

text \<open>\<open>guard.parent.mkdir\<close> and \<open>guard.write_text\<close>: whether they returned, and the sentinels after.\<close>

definition write_sentinel ::
    "'s paper_world \<Rightarrow> string \<Rightarrow> sentinel \<Rightarrow> sentinels \<Rightarrow> 's \<Rightarrow> bool \<times> sentinels \<times> 's" where
  "write_sentinel W day x F s =
     (case pw_disk W s of
        (Written, s') \<Rightarrow> (True, F(day \<mapsto> x), s')
      | (Refused, s') \<Rightarrow> (False, F, s')
      | (Torn, s') \<Rightarrow> (False, F(day \<mapsto> Sentinel_torn), s'))"

text \<open>The token of a fresh cache, issued over the same pacer as the order.\<close>

definition buy_token :: "'s paper_world \<Rightarrow> paper_credentials \<Rightarrow> 's \<Rightarrow> string result \<times> request_pacer \<times> 's" where
  "buy_token W c s = (case tool_token W c (default_pacer, new_token_cache, s) of (token, p, _, s') \<Rightarrow> (token, p, s'))"

text \<open>The broad handler around the run: nothing was confirmed to be submitted.\<close>

definition setup_failed :: "buy_preview \<Rightarrow> int \<times> buy_report" where
  "setup_failed b = (1, report False False ''SETUP_OR_AUTH_UNCONFIRMED'' (Some b) False no_broker)"

definition finish_buy ::
    "'s paper_world \<Rightarrow> buy_preview \<Rightarrow> string \<Rightarrow> (string \<times> pyval) list result \<Rightarrow> sentinels \<Rightarrow> 's \<Rightarrow>
     (int \<times> buy_report) \<times> sentinels \<times> 's" where
  "finish_buy W b day answer F s =
     (case answer of
        Inl _ \<Rightarrow>
          (case write_sentinel W day Sentinel_unknown F s of
             (ok, F', s') \<Rightarrow>
               (if ok then (1, report True False ''TRANSPORT_UNKNOWN'' (Some b) True no_broker) else setup_failed b, F', s'))
      | Inr payload \<Rightarrow>
          let (ackd, reason) = classify_order_response (PyDict payload);
              (ok, F', s') = (if ackd then write_sentinel W day (Sentinel_acked (bp_symbol b) (bp_price b)) F s
                              else (True, F, s))
          in (if ok then (if ackd then 0 else 1,
                report True ackd reason (Some b) True (summarize_broker_message payload)) else setup_failed b, F', s'))"

definition paper_buy ::
    "'s paper_world \<Rightarrow> string \<Rightarrow> string \<Rightarrow> bool \<Rightarrow> sentinels \<Rightarrow> 's \<Rightarrow> (int \<times> buy_report) \<times> sentinels \<times> 's" where
  "paper_buy W symb price confirm_execute F s =
     (case make_buy_preview symb price of
        Inl e \<Rightarrow> ((1, report False False (error_text e) None False no_broker), F, s)
      | Inr b \<Rightarrow>
          if \<not> confirm_execute then ((0, report False False ''EXECUTION_NOT_REQUESTED'' (Some b) False no_broker), F, s)
          else (case paper_credentials_from_env (pw_vars W) of
              Inl _ \<Rightarrow> (setup_failed b, F, s)
            | Inr c \<Rightarrow>
                let (day, s1) = pw_day W s
                in if F day \<noteq> None
                   then ((1, report False False ''SECOND_ORDER_BLOCKED'' (Some b) False no_broker), F, s1)
                   else (case buy_token W c s1 of
                       (Inl _, _, s2) \<Rightarrow> (setup_failed b, F, s2)
                     | (Inr token, p, s2) \<Rightarrow>
                         let (answer, _, s3) = submit_buy_body W (build_buy_body b) token (Some 10) p s2
                         in finish_buy W b day answer F s3)))"

section \<open>What a run posts\<close>

lemma buy_token_log:
  assumes "buy_token (logged_world W) c (s, l) = (r, p, s', l')"
  shows "\<exists>new. l' = l @ new \<and> (\<forall>x\<in>set new. fst x = token_url)"
  using assms by (auto simp: buy_token_def dest!: tool_token_log split: prod.splits)

lemma submit_log:
  assumes "submit_buy_body (logged_world W) body token timeout p (s, l) = (r, p', s', l')"
  shows "l' = l \<and> isl r \<or> l' = l @ [(mock_order_url, order_headers token, body)]"
proof -
  obtain t p1 s1 l1 where a: "acquire_slot (unlogged (pw_monotonic W)) (logged_wait (pw_sleep W)) p (s, l) = (t, p1, s1, l1)"
    by (metis prod.collapse)
  then have "l1 = l" by (rule acquire_log)
  then show ?thesis using assms a
    by (auto simp: submit_buy_body_def dest: logged_post_log split: prod.splits if_splits)
qed

section \<open>Writing the sentinel\<close>

lemma write_sentinel_keeps:
  assumes "write_sentinel W day x F s = (ok, F', s')"
  shows "d \<noteq> day \<Longrightarrow> F' d = F d" and "ok \<Longrightarrow> F' day \<noteq> None" and "F day \<noteq> None \<Longrightarrow> F' day \<noteq> None"
  using assms by (auto simp: write_sentinel_def split: prod.splits disk_answer.splits)

lemma write_sentinel_log:
  "write_sentinel (logged_world W) day x F (s, l) = (ok, F', s', l') \<Longrightarrow> l' = l"
  by (auto simp: write_sentinel_def dest: unlogged_log split: prod.splits disk_answer.splits)

definition settled :: "buy_report \<Rightarrow> bool" where
  "settled r \<longleftrightarrow> br_reason r \<in> {''ORDER_ACKED'', ''TRANSPORT_UNKNOWN''}"

lemma settled_simps [simp]:
  "\<not> settled (snd (setup_failed b))" "settled (report x y reason v n k) \<longleftrightarrow> reason \<in> {''ORDER_ACKED'', ''TRANSPORT_UNKNOWN''}"
  by (simp_all add: settled_def setup_failed_def report_def)

lemma classify_reason: "classify_order_response v = (ackd, reason) \<Longrightarrow> ackd \<longleftrightarrow> reason = ''ORDER_ACKED''"
  "classify_order_response v = (ackd, reason) \<Longrightarrow> reason \<noteq> ''TRANSPORT_UNKNOWN''"
  by (auto simp: classify_order_response_def split: pyval.splits if_splits)

lemma finish_buy_keeps:
  assumes "finish_buy W b day answer F s = ((code, r), F', s')"
  shows "d \<noteq> day \<Longrightarrow> F' d = F d" and "settled r \<Longrightarrow> F' day \<noteq> None" and "F day \<noteq> None \<Longrightarrow> F' day \<noteq> None"
proof -
  have "(d \<noteq> day \<longrightarrow> F' d = F d) \<and> (settled r \<longrightarrow> F' day \<noteq> None) \<and> (F day \<noteq> None \<longrightarrow> F' day \<noteq> None)"
  proof (cases answer)
    case (Inl e)
    obtain ok F1 s1 where w: "write_sentinel W day Sentinel_unknown F s = (ok, F1, s1)"
      by (metis prod.collapse)
    note k = write_sentinel_keeps [OF w]
    have "r = (if ok then report True False ''TRANSPORT_UNKNOWN'' (Some b) True no_broker else snd (setup_failed b))" "F' = F1"
      using assms w Inl by (auto simp: finish_buy_def setup_failed_def split: if_splits)
    then show ?thesis using k by (cases ok) simp_all
  next
    case (Inr payload)
    obtain ackd reason where c: "classify_order_response (PyDict payload) = (ackd, reason)"
      by (metis prod.collapse)
    show ?thesis
    proof (cases ackd)
      case True
      obtain ok F1 s1 where w: "write_sentinel W day (Sentinel_acked (bp_symbol b) (bp_price b)) F s = (ok, F1, s1)"
        by (metis prod.collapse)
      note k = write_sentinel_keeps [OF w]
      have "ok \<or> r = snd (setup_failed b)" "F' = F1"
        using assms w Inr c True by (auto simp: finish_buy_def setup_failed_def split: if_splits)
      then show ?thesis using k by (cases ok) simp_all
    next
      case False
      then have "F' = F" "\<not> settled r"
        using assms Inr c classify_reason [OF c] by (auto simp: finish_buy_def)
      then show ?thesis by simp
    qed
  qed
  then show "d \<noteq> day \<Longrightarrow> F' d = F d" "settled r \<Longrightarrow> F' day \<noteq> None" "F day \<noteq> None \<Longrightarrow> F' day \<noteq> None" by simp_all
qed

lemma finish_buy_log:
  "finish_buy (logged_world W) b day answer F (s, l) = (x, F', s', l') \<Longrightarrow> l' = l"
  by (auto simp: finish_buy_def Let_def dest: write_sentinel_log split: prod.splits sum.splits if_splits)

text \<open>A run either stops before it asks for a token, or posts with the token it got.\<close>

lemma paper_buy_cases:
  assumes "paper_buy W symb price confirm_execute F s = ((code, r), F', s')"
  obtains (stopped) "F' = F" "s' = s \<or> s' = snd (pw_day W s)" "\<not> br_submitted r" "\<not> br_network r" "\<not> settled r"
  | (unauthorised) b c p e where "confirm_execute" "make_buy_preview symb price = Inr b" "F (fst (pw_day W s)) = None"
      "buy_token W c (snd (pw_day W s)) = (Inl e, p, s')" "F' = F" "\<not> settled r" "\<not> br_submitted r"
  | (posted) b c token p s2 answer p' s3 where "confirm_execute" "make_buy_preview symb price = Inr b"
      "F (fst (pw_day W s)) = None" "buy_token W c (snd (pw_day W s)) = (Inr token, p, s2)"
      "submit_buy_body W (build_buy_body b) token (Some 10) p s2 = (answer, p', s3)"
      "finish_buy W b (fst (pw_day W s)) answer F s3 = ((code, r), F', s')"
proof (cases "make_buy_preview symb price")
  case (Inl e)
  have "error_text e \<notin> {''ORDER_ACKED'', ''TRANSPORT_UNKNOWN''}"
    using Inl by (auto simp: make_buy_preview_def whole_part_def error_text_def result_simps split: if_splits)
  then show ?thesis using assms Inl by (intro stopped) (auto simp: paper_buy_def report_def settled_def)
next
  case (Inr b)
  note pv = this
  consider "\<not> confirm_execute \<or> (\<exists>e. paper_credentials_from_env (pw_vars W) = Inl e)"
    | c where "confirm_execute" "paper_credentials_from_env (pw_vars W) = Inr c"
    by (cases "paper_credentials_from_env (pw_vars W)") auto
  then show ?thesis
  proof cases
    case 1
    then show ?thesis using assms pv
      by (intro stopped) (auto simp: paper_buy_def report_def setup_failed_def settled_def split: if_splits)
  next
    case 2
    obtain day s1 where d: "pw_day W s = (day, s1)" by (metis prod.collapse)
    show ?thesis
    proof (cases "F day")
      case (Some x)
      then show ?thesis using assms pv 2 d by (intro stopped) (auto simp: paper_buy_def report_def settled_def)
    next
      case None
      obtain tok p s2 where t: "buy_token W c s1 = (tok, p, s2)" by (metis prod.collapse)
      show ?thesis
      proof (cases tok)
        case (Inl e)
        then show ?thesis using assms pv 2 d None t
          by (intro unauthorised [of b c e p]) (auto simp: paper_buy_def setup_failed_def report_def settled_def)
      next
        case (Inr token)
        obtain answer p' s3 where "submit_buy_body W (build_buy_body b) token (Some 10) p s2 = (answer, p', s3)"
          by (metis prod.collapse)
        then show ?thesis using assms pv 2 d None t Inr
          by (intro posted [of b c token p s2 answer p' s3]) (auto simp: paper_buy_def)
      qed
    qed
  qed
qed

section \<open>Properties\<close>

text \<open>An answer without an order number that is text and not blank.\<close>

definition order_identifier_missing :: "(string \<times> pyval) list \<Rightarrow> bool" where
  "order_identifier_missing payload \<longleftrightarrow> (case py_get payload ''ord_no'' of PyStr n \<Rightarrow> strip n = [] | _ \<Rightarrow> True)"

definition posted_orders :: "post_log \<Rightarrow> post_log" where
  "posted_orders l = filter (\<lambda>x. fst x = mock_order_url) l"

lemma posted_orders_simps [simp]:
  "posted_orders (l @ l') = posted_orders l @ posted_orders l'"
  "\<forall>x\<in>set l. fst x = token_url \<Longrightarrow> posted_orders l = []"
  "posted_orders [(mock_order_url, hs, body)] = [(mock_order_url, hs, body)]"
  by (auto simp: posted_orders_def filter_empty_conv token_url_def mock_order_url_def)

text \<open>What one run posts, and when it posts nothing.\<close>

lemma paper_buy_log:
  assumes "paper_buy (logged_world W) symb price confirm_execute F (s, l) = ((code, r), F', s', l')"
  shows "\<exists>new. l' = l @ new \<and> (\<forall>x\<in>set new. fst x = token_url \<or> fst x = mock_order_url) \<and>
    length (posted_orders new) \<le> 1 \<and>
    (\<forall>x\<in>set (posted_orders new). \<exists>token b. make_buy_preview symb price = Inr b \<and>
      x = (mock_order_url, order_headers token, build_buy_body b)) \<and>
    (\<not> confirm_execute \<or> isl (make_buy_preview symb price) \<or> F (fst (pw_day W s)) \<noteq> None \<longrightarrow> new = [] \<and> F' = F)"
  using assms
proof (cases rule: paper_buy_cases)
  case stopped
  then have "l' = l" by (auto simp: unlogged_def split: prod.splits)
  then show ?thesis using stopped by (simp add: posted_orders_def)
next
  case (unauthorised b c p e)
  obtain s1 where d: "pw_day (logged_world W) (s, l) = (fst (pw_day W s), s1, l)"
    by (simp add: unlogged_apply)
  then obtain new where "l' = l @ new" "\<forall>x\<in>set new. fst x = token_url"
    using buy_token_log [of W c s1 l "Inl e" p s' l'] unauthorised(4) by auto
  then show ?thesis using unauthorised d by auto
next
  case (posted b c token p s2 answer p' s3)
  obtain s1 where d: "pw_day (logged_world W) (s, l) = (fst (pw_day W s), s1, l)"
    by (simp add: unlogged_apply)
  obtain s2' l2 s3' l3 where st: "s2 = (s2', l2)" "s3 = (s3', l3)" by (metis prod.collapse)
  obtain new where "l2 = l @ new" and t: "\<forall>x\<in>set new. fst x = token_url"
    using buy_token_log [of W c s1 l "Inr token" p s2' l2] posted(4) d st by auto
  moreover have "l3 = l2 \<or> l3 = l2 @ [(mock_order_url, order_headers token, build_buy_body b)]"
    using submit_log [OF posted(5) [unfolded st]] by auto
  moreover have "l' = l3" by (rule finish_buy_log [OF posted(6) [unfolded st]])
  ultimately show ?thesis using posted(1-3) d t by auto
qed

text \<open>A session is any sequence of runs over the same disk; each is recorded with its day, its report and the number
  of orders it posted.\<close>

fun paper_buy_session ::
    "'s paper_world \<Rightarrow> (string \<times> string \<times> bool) list \<Rightarrow> sentinels \<Rightarrow> 's \<times> post_log \<Rightarrow>
     (string \<times> buy_report \<times> nat) list" where
  "paper_buy_session W [] F sl = []"
| "paper_buy_session W ((symb, price, confirm_execute) # runs) F sl =
     (case paper_buy (logged_world W) symb price confirm_execute F sl of
        ((code, r), F', s', l') \<Rightarrow>
          (fst (pw_day W (fst sl)), r, length (posted_orders l') - length (posted_orders (snd sl))) #
            paper_buy_session W runs F' (s', l'))"

lemma paper_buy_sentinels:
  assumes "paper_buy (logged_world W) symb price confirm_execute F (s, l) = ((code, r), F', s', l')"
  shows "F d \<noteq> None \<Longrightarrow> F' d \<noteq> None" and "settled r \<Longrightarrow> F' (fst (pw_day W s)) \<noteq> None"
proof -
  have day: "fst (pw_day (logged_world W) (s, l)) = fst (pw_day W s)" by (simp add: unlogged_apply)
  have "(F d \<noteq> None \<longrightarrow> F' d \<noteq> None) \<and> (settled r \<longrightarrow> F' (fst (pw_day W s)) \<noteq> None)"
    using assms
  proof (cases rule: paper_buy_cases)
    case (posted b c token p s2 answer p' s3)
    note k = finish_buy_keeps [OF posted(6), unfolded day]
    show ?thesis using k(1) [of d] k(2,3) by (cases "d = fst (pw_day W s)") auto
  qed simp_all
  then show "F d \<noteq> None \<Longrightarrow> F' d \<noteq> None" "settled r \<Longrightarrow> F' (fst (pw_day W s)) \<noteq> None" by simp_all
qed

lemma paper_buy_session_blocked:
  assumes "F d \<noteq> None" and "(d, r, n) \<in> set (paper_buy_session W runs F sl)"
  shows "n = 0"
  using assms
proof (induction runs arbitrary: F sl)
  case (Cons run runs)
  obtain symb price confirm_execute where run: "run = (symb, price, confirm_execute)" by (cases run)
  obtain s l where sl: "sl = (s, l)" by (cases sl)
  obtain code r0 F' s' l' where p: "paper_buy (logged_world W) symb price confirm_execute F (s, l) = ((code, r0), F', s', l')"
    by (metis prod.collapse)
  have "F' d \<noteq> None" using paper_buy_sentinels(1) [OF p] Cons.prems(1) by simp
  moreover have "length (posted_orders l') - length (posted_orders l) = 0" if "fst (pw_day W s) = d"
    using paper_buy_log [OF p] that Cons.prems(1) by auto
  ultimately show ?case using Cons run sl p by auto
qed simp

text \<open>C5: Over any sequence of runs, once a run of a day reported the order as acknowledged or its transport as unknown,
  no later run of that day posts an order, and no run ever posts more than one.\<close>

theorem one_settled_order_per_day:
  "sorted_wrt (\<lambda>(d, r, n) (d', r', n'). d' = d \<and> settled r \<longrightarrow> n' = 0) (paper_buy_session W runs F sl) \<and>
   (\<forall>(d, r, n)\<in>set (paper_buy_session W runs F sl). n \<le> 1)"
proof (induction runs arbitrary: F sl)
  case (Cons run runs)
  obtain symb price confirm_execute where run: "run = (symb, price, confirm_execute)" by (cases run)
  obtain s l where sl: "sl = (s, l)" by (cases sl)
  obtain code r0 F' s' l' where p: "paper_buy (logged_world W) symb price confirm_execute F (s, l) = ((code, r0), F', s', l')"
    by (metis prod.collapse)
  have "length (posted_orders l') - length (posted_orders l) \<le> 1" using paper_buy_log [OF p] by auto
  moreover have "n' = 0" if "settled r0" "(fst (pw_day W s), r', n') \<in> set (paper_buy_session W runs F' (s', l'))" for r' n'
    using paper_buy_session_blocked [OF paper_buy_sentinels(2) [OF p that(1)] that(2)] .
  ultimately show ?case using Cons.IH [of F' "(s', l')"] run sl p by auto
qed simp

text \<open>C21: One run of the tool posts nothing without the explicit confirmation, nothing for a rejected preview and
  nothing on a day that has a sentinel, and then it leaves the sentinels alone. Otherwise it posts to two fixed mock
  addresses only, at most one order, and that order is the body of the validated preview, for one share.\<close>

theorem paper_buy_posts:
  assumes "paper_buy (logged_world W) symb price confirm_execute F (s, l) = ((code, r), F', s', l')"
  shows "\<exists>new. l' = l @ new \<and> (\<forall>x\<in>set new. fst x = token_url \<or> fst x = mock_order_url) \<and>
    length (posted_orders new) \<le> 1 \<and>
    (\<forall>x\<in>set (posted_orders new). \<exists>token b. make_buy_preview symb price = Inr b \<and>
      x = (mock_order_url, order_headers token, build_buy_body b)) \<and>
    (\<not> confirm_execute \<or> isl (make_buy_preview symb price) \<or> F (fst (pw_day W s)) \<noteq> None \<longrightarrow> new = [] \<and> F' = F)"
  by (rule paper_buy_log [OF assms])

section \<open>Runs on a concrete world\<close>

definition example_world :: "(string \<times> pyval) list \<Rightarrow> disk_answer \<Rightarrow> int paper_world" where
  "example_world reply disk = \<lparr>pw_vars = (\<lambda>_. Some ''k''), pw_day = (\<lambda>n. (''20260924'', n)),
     pw_monotonic = (\<lambda>n. (of_int n, n + 1)), pw_sleep = (\<lambda>_ n. n + 2), pw_now = example_clock,
     pw_post = (\<lambda>url _ _ n. (Some (if url = token_url then ''T'' else ''R'', []), n)),
     pw_loads = (\<lambda>raw. Some (PyDict (if raw = ''T'' then example_payload else reply))), pw_disk = (\<lambda>n. (disk, n))\<rparr>"

definition two_buys :: "(string \<times> string \<times> bool) list" where
  "two_buys = [(''005930'', ''70000'', True), (''005930'', ''70000'', True)]"

definition outcomes :: "(string \<times> buy_report \<times> nat) list \<Rightarrow> (string \<times> bool \<times> nat) list" where
  "outcomes = map (\<lambda>(_, r, n). (br_reason r, br_submitted r, n))"

theorem paper_buy_posts_witness:
  "snd (snd (snd (paper_buy (logged_world (example_world [] Written)) ''005930'' ''70000'' False (\<lambda>_. None) (0, [])))) = []"
proof -
  let ?r = "paper_buy (logged_world (example_world [] Written)) ''005930'' ''70000'' False (\<lambda>_. None) (0, [])"
  have "?r = ((fst (fst ?r), snd (fst ?r)), fst (snd ?r), fst (snd (snd ?r)), snd (snd (snd ?r)))" by simp
  from paper_buy_posts [OF this] show ?thesis by auto
qed

lemma acked_once:
  "outcomes (paper_buy_session (example_world [(''return_code'', PyInt 0), (''ord_no'', PyStr ''17'')] Written) two_buys
     (\<lambda>_. None) (0, [])) = [(''ORDER_ACKED'', True, 1), (''SECOND_ORDER_BLOCKED'', False, 0)]"
  by code_simp

theorem one_settled_order_per_day_witness:
  "snd (snd (paper_buy_session (example_world [(''return_code'', PyInt 0), (''ord_no'', PyStr ''17'')] Written) two_buys
     (\<lambda>_. None) (0, []) ! 1)) = 0"
proof -
  let ?log = "paper_buy_session (example_world [(''return_code'', PyInt 0), (''ord_no'', PyStr ''17'')] Written) two_buys
     (\<lambda>_. None) (0, [])"
  have "length ?log = 2" and "settled (fst (snd (?log ! 0)))" and "fst (?log ! 1) = fst (?log ! 0)" by code_simp+
  then show ?thesis
    using sorted_wrt_nth_less [OF conjunct1 [OF one_settled_order_per_day], of 0 1
        "example_world [(''return_code'', PyInt 0), (''ord_no'', PyStr ''17'')] Written" two_buys "\<lambda>_. None" "(0, [])"]
    by (simp add: case_prod_beta)
qed

text \<open>Two runs of a day can both post: the first one leaves no sentinel.\<close>

lemma two_orders_in_a_day:
  "outcomes (paper_buy_session (example_world [(''return_code'', PyInt 0)] Written) two_buys (\<lambda>_. None) (0, [])) =
     [(''ORDER_NUMBER_MISSING'', True, 1), (''ORDER_NUMBER_MISSING'', True, 1)]"
  "outcomes (paper_buy_session (example_world [(''return_code'', PyInt 0), (''ord_no'', PyStr ''17'')] Refused) two_buys
     (\<lambda>_. None) (0, [])) =
     [(''SETUP_OR_AUTH_UNCONFIRMED'', False, 1), (''SETUP_OR_AUTH_UNCONFIRMED'', False, 1)]"
  by code_simp+

text \<open>C23: The sentinel does not cover every posted order. Whenever a run has posted its order and the broker's answer
  has a success code, in any world and for any arguments: if the answer has no order number, the run reports the
  order as submitted and writes nothing, so that the day stays without a sentinel and its next run is not blocked; if
  it has a number and the disk then refuses the sentinel, the day stays without one too, and the run reports
  that no order was submitted and the network not used.\<close>

theorem submitted_order_unguarded:
  assumes preview: "make_buy_preview symb price = Inr b" and creds: "paper_credentials_from_env (pw_vars W) = Inr c"
    and free: "F (fst (pw_day W s)) = None"
    and token: "buy_token (logged_world W) c (snd (pw_day W s), l) = (Inr token, p, s2, l2)"
    and answer: "submit_buy_body (logged_world W) (build_buy_body b) token (Some 10) p (s2, l2) = (Inr payload, p', s3, l3)"
    and code: "success_code (py_get payload ''return_code'')"
  shows "length (posted_orders l3) = length (posted_orders l) + 1 \<and>
    (order_identifier_missing payload \<longrightarrow>
      paper_buy (logged_world W) symb price True F (s, l) =
        ((1, report True False ''ORDER_NUMBER_MISSING'' (Some b) True (summarize_broker_message payload)), F, s3, l3)) \<and>
    (\<not> order_identifier_missing payload \<and> fst (pw_disk W s3) = Refused \<longrightarrow>
      paper_buy (logged_world W) symb price True F (s, l) =
        ((1, report False False ''SETUP_OR_AUTH_UNCONFIRMED'' (Some b) False no_broker), F, snd (pw_disk W s3), l3))"
proof -
  have run: "paper_buy (logged_world W) symb price True F (s, l) =
      finish_buy (logged_world W) b (fst (pw_day W s)) (Inr payload) F (s3, l3)"
    using preview creds free token answer by (simp add: paper_buy_def unlogged_apply)
  obtain new where new: "l2 = l @ new" "\<forall>x\<in>set new. fst x = token_url" using buy_token_log [OF token] by blast
  have "l3 = l2 @ [(mock_order_url, order_headers token, build_buy_body b)]" using submit_log [OF answer] by simp
  then have "length (posted_orders l3) = length (posted_orders l) + 1" using new by simp
  moreover have "classify_order_response (PyDict payload) = (False, ''ORDER_NUMBER_MISSING'')" if "order_identifier_missing payload"
    using that code by (auto simp: classify_order_response_def order_identifier_missing_def split: pyval.splits)
  moreover have "classify_order_response (PyDict payload) = (True, ''ORDER_ACKED'')" if "\<not> order_identifier_missing payload"
    using that code by (auto simp: classify_order_response_def order_identifier_missing_def split: pyval.splits)
  moreover have "write_sentinel (logged_world W) d x F (s3, l3) = (False, F, snd (pw_disk W s3), l3)"
    if "fst (pw_disk W s3) = Refused" for d x
    using that by (simp add: write_sentinel_def unlogged_apply)
  ultimately show ?thesis by (simp add: run finish_buy_def setup_failed_def)
qed

theorem submitted_order_unguarded_witness:
  "\<exists>r l. paper_buy (logged_world (example_world [(''return_code'', PyInt 0)] Written)) ''005930'' ''70000'' True (\<lambda>_. None) (0, []) =
      ((1, r), \<lambda>_. None, l) \<and> br_submitted r"
proof -
  let ?W = "example_world [(''return_code'', PyInt 0)] Written"
  let ?b = "projr (make_buy_preview ''005930'' ''70000'')"
  let ?c = "\<lparr>pk_app_key = ''k'', pk_app_secret = ''k''\<rparr>"
  let ?t = "buy_token (logged_world ?W) ?c (snd (pw_day ?W 0), [])"
  let ?a = "submit_buy_body (logged_world ?W) (build_buy_body ?b) (projr (fst ?t)) (Some 10) (fst (snd ?t)) (snd (snd ?t))"
  have facts: "\<not> isl (make_buy_preview ''005930'' ''70000'')" "paper_credentials_from_env (pw_vars ?W) = Inr ?c"
    "\<not> isl (fst ?t)" "\<not> isl (fst ?a)" "success_code (py_get (projr (fst ?a)) ''return_code'')"
    "order_identifier_missing (projr (fst ?a))" by code_simp+
  have p: "make_buy_preview ''005930'' ''70000'' = Inr ?b" using facts(1) by (simp add: isl_def sum.case_eq_if)
  have t: "?t = (Inr (projr (fst ?t)), fst (snd ?t), fst (snd (snd ?t)), snd (snd (snd ?t)))"
    using facts(3) by (simp add: prod_eq_iff)
  have a: "submit_buy_body (logged_world ?W) (build_buy_body ?b) (projr (fst ?t)) (Some 10) (fst (snd ?t))
      (fst (snd (snd ?t)), snd (snd (snd ?t))) =
      (Inr (projr (fst ?a)), fst (snd ?a), fst (snd (snd ?a)), snd (snd (snd ?a)))"
    using facts(4) by (simp add: prod_eq_iff)
  from submitted_order_unguarded [OF p facts(2) refl t a facts(5)] facts(6)
  show ?thesis by (auto simp: report_def)
qed

end
