(* ===== verification/MorningRun.thy ===== *)
theory MorningRun
  imports PyValues DigitText
begin

text \<open>
  \<open>tools/r045_morning_run.py\<close>: the unattended checklist of one morning. The runner starts the other tools as child
  processes one after the other, keeps a manifest of the steps, and submits at most one paper order. The processes,
  the files, the clocks and the sleep are functions on an outside state. Text is limited to characters below 256.
\<close>

section \<open>The market window\<close>

definition kst_time_of_day :: "datetime \<Rightarrow> int" where
  "kst_time_of_day now = (dt_instant now + seconds 32400) mod seconds 86400"

text \<open>Monday is 0; the epoch was a Thursday.\<close>

definition kst_weekday :: "datetime \<Rightarrow> int" where
  "kst_weekday now = (local_day now 32400 + 3) mod 7"

definition market_gate :: "datetime \<Rightarrow> string" where
  "market_gate now =
     (if \<not> aware now then ''CLOCK_UNCERTAIN''
      else if kst_weekday now \<ge> 5 then ''WEEKEND''
      else if kst_time_of_day now < seconds (9 * 3600) then ''BEFORE_OPEN''
      else if kst_time_of_day now > seconds (15 * 3600 + 20 * 60) then ''AFTER_CLOSE''
      else ''MARKET_OPEN'')"

section \<open>The world and the runner\<close>

text \<open>A child process ends with a code and its output, or the start raises an exception of the named type.\<close>

datatype child = Exited int string string | Child_raised string

datatype morning_error = Os_error | Attribute_error | Sleep_value_error

record step_item =
  si_step :: string
  si_exit_code :: int
  si_stdout_bytes :: int
  si_stderr_bytes :: int
  si_diagnostic :: "(string \<times> pyval) list"

record morning_run =
  mr_symbol :: string
  mr_max_pages :: int
  mr_ws_seconds :: int
  mr_settle :: int
  mr_price_cap :: int
  mr_day :: string
  mr_steps :: "step_item list"
  mr_status :: string
  mr_aborted_reason :: "string option"

text \<open>\<open>mw_write\<close> writes the manifest, a snapshot of the runner, and answers whether it returned; \<open>mw_read\<close> reads a file.\<close>

record 's morning_world =
  mw_executable :: string
  mw_root :: string
  mw_utc_now :: "'s \<Rightarrow> datetime \<times> 's"
  mw_kst_day :: "'s \<Rightarrow> string \<times> 's"
  mw_child :: "string list \<Rightarrow> 's \<Rightarrow> child \<times> 's"
  mw_write :: "morning_run \<Rightarrow> 's \<Rightarrow> bool \<times> 's"
  mw_read :: "string \<Rightarrow> 's \<Rightarrow> string option \<times> 's"
  mw_sleep :: "int \<Rightarrow> 's \<Rightarrow> 's"
  mw_loads :: "string \<Rightarrow> pyval option"

text \<open>Methods act on the runner and the outside, and may end in an uncaught exception.\<close>

type_synonym ('s, 'a) act = "morning_run \<times> 's \<Rightarrow> (morning_error + 'a) \<times> morning_run \<times> 's"

definition done_with :: "'a \<Rightarrow> ('s, 'a) act" where
  "done_with x S = (Inr x, S)"

definition raising :: "morning_error \<Rightarrow> ('s, 'a) act" where
  "raising e S = (Inl e, S)"

definition and_then :: "('s, 'a) act \<Rightarrow> ('a \<Rightarrow> ('s, 'b) act) \<Rightarrow> ('s, 'b) act" where
  "and_then m f S = (case m S of (Inl e, S') \<Rightarrow> (Inl e, S') | (Inr x, S') \<Rightarrow> f x S')"

definition outside_act :: "('s \<Rightarrow> 'a \<times> 's) \<Rightarrow> ('s, 'a) act" where
  "outside_act f S = (case f (snd S) of (x, s') \<Rightarrow> (Inr x, fst S, s'))"

definition modify :: "(morning_run \<Rightarrow> morning_run) \<Rightarrow> ('s, unit) act" where
  "modify f S = (Inr (), f (fst S), snd S)"

definition reading :: "(morning_run \<Rightarrow> 'a) \<Rightarrow> ('s, 'a) act" where
  "reading f S = (Inr (f (fst S)), S)"

section \<open>Diagnostics\<close>

definition reason_char :: "char \<Rightarrow> bool" where
  "reason_char c \<longleftrightarrow> is_upper c \<or> is_digit c \<or> c = CHR ''_''"

definition safe_reason :: "pyval \<Rightarrow> (string \<times> pyval) list" where
  "safe_reason v = (case v of
     PyStr s \<Rightarrow> if 0 < length s \<and> length s \<le> 64 \<and> (\<forall>c\<in>set s. reason_char c) then [(''reason'', PyStr s)] else []
   | _ \<Rightarrow> [])"

definition safe_count :: "(string \<times> pyval) list \<Rightarrow> string \<Rightarrow> (string \<times> pyval) list" where
  "safe_count rep name = (case py_get rep name of
     PyInt n \<Rightarrow> if 0 \<le> n \<and> n \<le> 1000000 then [(name, PyInt n)] else [] | _ \<Rightarrow> [])"

definition safe_flag :: "(string \<times> pyval) list \<Rightarrow> string \<Rightarrow> (string \<times> pyval) list" where
  "safe_flag rep name = (case py_get rep name of PyBool b \<Rightarrow> [(name, PyBool b)] | _ \<Rightarrow> [])"

definition safe_code :: "(string \<times> pyval) list \<Rightarrow> string \<times> string list \<Rightarrow> (string \<times> pyval) list" where
  "safe_code rep = (\<lambda>(name, allowed). case py_get rep name of
     PyStr s \<Rightarrow> if s \<in> set allowed then [(name, PyStr s)] else [] | _ \<Rightarrow> [])"

definition safe_codes :: "(string \<times> string list) list" where
  "safe_codes = [(''failure_stage'', [''TOKEN'', ''PACING'', ''CONNECT'', ''PROTOCOL'', ''CLOSE'', ''SETUP'']),
     (''failure_kind'', [''TIMEOUT'', ''DEPENDENCY_ERROR'', ''OS_ERROR'', ''VALUE_ERROR'', ''RUNTIME_ERROR'', ''OTHER'',
        ''CLOSE_ERROR''])]"

definition safe_diagnostic :: "(string \<Rightarrow> pyval option) \<Rightarrow> string \<Rightarrow> (string \<times> pyval) list" where
  "safe_diagnostic loads stdout =
     (case loads stdout of
        Some (PyDict rep) \<Rightarrow>
          safe_reason (py_get rep ''reason'') @
          concat (map (safe_count rep) [''connections'', ''quotes_observed'', ''malformed_frames'']) @
          concat (map (safe_code rep) safe_codes) @
          concat (map (safe_flag rep) [''fresh_before_close'', ''orders_enabled'', ''account_reconciled'', ''quote_saved''])
      | _ \<Rightarrow> [])"

section \<open>Steps\<close>

definition utf8_length :: "string \<Rightarrow> int" where
  "utf8_length s = sum_list (map (\<lambda>c. if (of_char c :: int) < 128 then 1 else 2) s)"

definition flush :: "'s morning_world \<Rightarrow> ('s, unit) act" where
  "flush W = and_then (reading id) (\<lambda>M. and_then (outside_act (mw_write W M))
     (\<lambda>ok. if ok then done_with () else raising Os_error))"

definition run_step :: "'s morning_world \<Rightarrow> string \<Rightarrow> string list \<Rightarrow> bool \<Rightarrow> ('s, bool) act" where
  "run_step W name command abort_on_failure =
     and_then (outside_act (mw_child W command)) (\<lambda>c.
       let (code, out, err) = (case c of Exited k a b \<Rightarrow> (k, a, b) | Child_raised t \<Rightarrow> (- 1, [], t));
           item = \<lparr>si_step = name, si_exit_code = code, si_stdout_bytes = utf8_length out,
             si_stderr_bytes = utf8_length err, si_diagnostic = safe_diagnostic (mw_loads W) out\<rparr>
       in and_then (modify (\<lambda>M. M\<lparr>mr_steps := mr_steps M @ [item]\<rparr>)) (\<lambda>_.
          and_then (flush W) (\<lambda>_.
          and_then (if code \<noteq> 0 \<and> abort_on_failure
            then and_then (modify (\<lambda>M. M\<lparr>mr_status := ''ABORTED'', mr_aborted_reason := Some (name @ ''_FAILED'')\<rparr>))
                   (\<lambda>_. flush W)
            else done_with ()) (\<lambda>_.
          done_with (code = 0)))))"

definition abort_run :: "'s morning_world \<Rightarrow> string \<Rightarrow> ('s, 'a option) act" where
  "abort_run W reason = and_then (modify (\<lambda>M. M\<lparr>mr_status := ''ABORTED'', mr_aborted_reason := Some reason\<rparr>)) (\<lambda>_.
     and_then (flush W) (\<lambda>_. done_with None))"

definition python :: "'s morning_world \<Rightarrow> string list \<Rightarrow> string list" where
  "python W args = [mw_executable W, ''-m''] @ args"

definition read_only_command :: "'s morning_world \<Rightarrow> int \<Rightarrow> string list" where
  "read_only_command W max_pages = python W [''tools.probe_kiwoom_rest'', ''--execute-read-only'', ''--max-pages'',
     str_int max_pages, ''--include-history'']"

definition read_only :: "'s morning_world \<Rightarrow> string \<Rightarrow> bool \<Rightarrow> ('s, bool) act" where
  "read_only W name abort = and_then (reading mr_max_pages) (\<lambda>n. run_step W name (read_only_command W n) abort)"

definition quote_path :: "'s morning_world \<Rightarrow> morning_run \<Rightarrow> string" where
  "quote_path W M = mw_root W @ ''/results/r045-'' @ mr_day M @ ''/last-quote-'' @ mr_symbol M @ ''.json''"

definition quote_command :: "'s morning_world \<Rightarrow> morning_run \<Rightarrow> string list" where
  "quote_command W M = python W [''tools.probe_kiwoom_ws'', mr_symbol M, ''--seconds'', str_int (mr_ws_seconds M),
     ''--execute-read-only'', ''--quote-out'', quote_path W M]"

text \<open>\<open>isinstance(price, int)\<close> holds of a bool as well; the number and its \<open>str\<close>.\<close>

definition int_price :: "pyval \<Rightarrow> (int \<times> string) option" where
  "int_price v = (case v of PyInt n \<Rightarrow> Some (n, str_int n)
   | PyBool b \<Rightarrow> Some (if b then (1, ''True'') else (0, ''False'')) | _ \<Rightarrow> None)"

definition approve_price :: "'s morning_world \<Rightarrow> pyval \<Rightarrow> ('s, (int \<times> string) option) act" where
  "approve_price W v = (case int_price v of
     None \<Rightarrow> abort_run W ''QUOTE_PRICE_INVALID''
   | Some (n, text) \<Rightarrow>
       if n \<le> 0 then abort_run W ''QUOTE_PRICE_INVALID''
       else and_then (reading mr_price_cap) (\<lambda>cap.
         if n > cap
         then and_then (modify (\<lambda>M. M\<lparr>mr_status := ''PARTIAL_PRICE_OVER_CAP'', mr_aborted_reason := Some ''PRICE_OVER_CAP''\<rparr>))
                (\<lambda>_. done_with None)
         else done_with (Some (n, text))))"

definition quote_capture :: "'s morning_world \<Rightarrow> ('s, (int \<times> string) option) act" where
  "quote_capture W =
     and_then (reading id) (\<lambda>M.
     and_then (run_step W ''QUOTE_WS'' (quote_command W M) True) (\<lambda>ok.
     if \<not> ok then done_with None
     else and_then (outside_act (mw_read W (quote_path W M))) (\<lambda>file.
       case (case file of None \<Rightarrow> None | Some text \<Rightarrow> mw_loads W text) of
         None \<Rightarrow> abort_run W ''QUOTE_FILE_UNREADABLE''
       | Some (PyDict book) \<Rightarrow>
           (case py_get book (mr_symbol M) of
              PyDict quote \<Rightarrow> approve_price W (py_get quote ''price'')
            | _ \<Rightarrow> abort_run W ''QUOTE_MISSING'')
       | Some _ \<Rightarrow> raising Attribute_error)))"

definition preview_command :: "'s morning_world \<Rightarrow> string \<Rightarrow> string \<Rightarrow> string list" where
  "preview_command W symb price = python W [''tools.submit_paper_buy'', ''--symbol'', symb, ''--price'', price]"

definition submit_command :: "'s morning_world \<Rightarrow> string \<Rightarrow> string \<Rightarrow> string list" where
  "submit_command W symb price = python W [''tools.submit_paper_buy'', ''--symbol'', symb, ''--price'', price,
     ''--confirm-execute'']"

definition order_pair :: "'s morning_world \<Rightarrow> string \<Rightarrow> ('s, unit) act" where
  "order_pair W price =
     and_then (reading mr_symbol) (\<lambda>symb.
     and_then (run_step W ''ORDER_PREVIEW'' (preview_command W symb price) True) (\<lambda>ok.
     if \<not> ok then done_with ()
     else and_then (run_step W ''ORDER_SUBMIT'' (submit_command W symb price) False) (\<lambda>_. done_with ())))"

definition linkage_command :: "'s morning_world \<Rightarrow> string list" where
  "linkage_command W = python W [''tools.verify_paper_linkage'', ''--execute-read-only'']"

definition post_checks :: "'s morning_world \<Rightarrow> ('s, unit) act" where
  "post_checks W =
     and_then (read_only W ''READ_HISTORY_AFTER'' False) (\<lambda>_.
     and_then (run_step W ''LINKAGE'' (linkage_command W) False) (\<lambda>_. done_with ()))"

text \<open>\<open>time.sleep\<close> refuses a negative number.\<close>

definition settle :: "'s morning_world \<Rightarrow> ('s, unit) act" where
  "settle W = and_then (reading mr_settle) (\<lambda>n.
     if n < 0 then raising Sleep_value_error else outside_act (\<lambda>s. ((), mw_sleep W n s)))"

definition prewarm_command :: "'s morning_world \<Rightarrow> string list" where
  "prewarm_command W = python W [''tools.probe_kiwoom_rest'']"

definition unless_aborted :: "('s, int) act \<Rightarrow> ('s, int) act" where
  "unless_aborted m = and_then (reading mr_status) (\<lambda>st. if st = ''ABORTED'' then done_with 1 else m)"

definition finish_run :: "'s morning_world \<Rightarrow> ('s, int) act" where
  "finish_run W =
     and_then (post_checks W) (\<lambda>_. unless_aborted (
     and_then (modify (\<lambda>M. if mr_status M = ''NOT_STARTED'' then M\<lparr>mr_status := ''DONE''\<rparr> else M)) (\<lambda>_.
     and_then (flush W) (\<lambda>_. done_with 0))))"

definition run_checklist :: "'s morning_world \<Rightarrow> ('s, int) act" where
  "run_checklist W =
     and_then (run_step W ''PREWARM'' (prewarm_command W) True) (\<lambda>ok. if \<not> ok then done_with 1 else
     and_then (read_only W ''READ_BEFORE'' True) (\<lambda>ok. if \<not> ok then done_with 1 else
     and_then (quote_capture W) (\<lambda>price. unless_aborted (
     case price of
       None \<Rightarrow> finish_run W
     | Some (_, text) \<Rightarrow>
         and_then (order_pair W text) (\<lambda>_. unless_aborted (
         and_then (settle W) (\<lambda>_. finish_run W)))))))"

record morning_args =
  ma_symbol :: string
  ma_max_pages :: int
  ma_ws_seconds :: int
  ma_settle_seconds :: int
  ma_price_cap :: int

definition new_morning_run :: "morning_args \<Rightarrow> string \<Rightarrow> morning_run" where
  "new_morning_run a day = \<lparr>mr_symbol = ma_symbol a, mr_max_pages = ma_max_pages a, mr_ws_seconds = ma_ws_seconds a,
     mr_settle = ma_settle_seconds a, mr_price_cap = ma_price_cap a, mr_day = day, mr_steps = [],
     mr_status = ''NOT_STARTED'', mr_aborted_reason = None\<rparr>"

text \<open>Outside the window nothing is started; the result carries the runner when there is one.\<close>

definition morning_main ::
    "'s morning_world \<Rightarrow> morning_args \<Rightarrow> 's \<Rightarrow> (morning_error + int) \<times> morning_run option \<times> 's" where
  "morning_main W a s =
     (let (now, s1) = mw_utc_now W s
      in if market_gate now \<noteq> ''MARKET_OPEN'' then (Inr 0, None, s1)
         else let (day, s2) = mw_kst_day W s1;
                  (r, M, s3) = run_checklist W (new_morning_run a day, s2)
              in (r, Some M, s3))"

section \<open>What a run starts\<close>

text \<open>The world with a log of the commands it was asked to start.\<close>

type_synonym command_log = "string list list"

definition logging :: "('s \<Rightarrow> 'a \<times> 's) \<Rightarrow> 's \<times> command_log \<Rightarrow> 'a \<times> 's \<times> command_log" where
  "logging f = (\<lambda>(s, l). case f s of (x, s') \<Rightarrow> (x, s', l))"

definition logged_morning :: "'s morning_world \<Rightarrow> ('s \<times> command_log) morning_world" where
  "logged_morning W = \<lparr>mw_executable = mw_executable W, mw_root = mw_root W, mw_utc_now = logging (mw_utc_now W),
     mw_kst_day = logging (mw_kst_day W),
     mw_child = (\<lambda>c (s, l). case mw_child W c s of (x, s') \<Rightarrow> (x, s', l @ [c])),
     mw_write = (\<lambda>M. logging (mw_write W M)), mw_read = (\<lambda>p. logging (mw_read W p)),
     mw_sleep = (\<lambda>n (s, l). (mw_sleep W n s, l)), mw_loads = mw_loads W\<rparr>"

text \<open>\<open>starts m R\<close>: from a runner, the action ends with a result, a runner and new commands that satisfy \<open>R\<close>.\<close>

definition starts ::
    "('s \<times> command_log, 'a) act \<Rightarrow>
     (morning_run \<Rightarrow> morning_error + 'a \<Rightarrow> morning_run \<Rightarrow> command_log \<Rightarrow> bool) \<Rightarrow> bool" where
  "starts m R \<longleftrightarrow> (\<forall>M s l r M' s' l'. m (M, s, l) = (r, M', s', l') \<longrightarrow> (\<exists>cs. l' = l @ cs \<and> R M r M' cs))"

lemma startsI: "(\<And>M s l r M' s' l'. m (M, s, l) = (r, M', s', l') \<Longrightarrow> \<exists>cs. l' = l @ cs \<and> R M r M' cs) \<Longrightarrow> starts m R"
  by (simp add: starts_def)

lemma starts_weaken: "starts m R \<Longrightarrow> (\<And>M r M' cs. R M r M' cs \<Longrightarrow> R' M r M' cs) \<Longrightarrow> starts m R'"
  unfolding starts_def by blast

lemma starts_then:
  assumes "starts m R" and "\<And>x. starts (f x) (Q x)"
    and "\<And>M e M' cs. R M (Inl e) M' cs \<Longrightarrow> P M (Inl e) M' cs"
    and "\<And>M x M1 cs r M' ds. R M (Inr x) M1 cs \<Longrightarrow> Q x M1 r M' ds \<Longrightarrow> P M r M' (cs @ ds)"
  shows "starts (and_then m f) P"
proof (rule startsI)
  fix M s l r M' s' l'
  assume run: "and_then m f (M, s, l) = (r, M', s', l')"
  obtain r1 M1 s1 l1 where m: "m (M, s, l) = (r1, M1, s1, l1)" by (metis prod.collapse)
  then obtain cs where cs: "l1 = l @ cs" "R M r1 M1 cs" using assms(1) unfolding starts_def by blast
  show "\<exists>cs. l' = l @ cs \<and> P M r M' cs"
  proof (cases r1)
    case (Inl e)
    then show ?thesis using run m cs assms(3) by (auto simp: and_then_def)
  next
    case (Inr x)
    then have "f x (M1, s1, l1) = (r, M', s', l')" using run m by (simp add: and_then_def)
    then obtain ds where "l' = l1 @ ds" "Q x M1 r M' ds" using assms(2) unfolding starts_def by blast
    then show ?thesis using cs assms(4) Inr by auto
  qed
qed

text \<open>What no action changes: the arguments of the run.\<close>

definition fixed_args :: "morning_run \<Rightarrow> string \<times> int \<times> string" where
  "fixed_args M = (mr_symbol M, mr_price_cap M, mr_day M)"

text \<open>Actions that start nothing and keep the arguments.\<close>

definition quiet :: "morning_run \<Rightarrow> morning_error + 'a \<Rightarrow> morning_run \<Rightarrow> command_log \<Rightarrow> bool" where
  "quiet M r M' cs \<longleftrightarrow> cs = [] \<and> fixed_args M' = fixed_args M"

lemma quiet_then:
  assumes "starts m quiet" and "\<And>x. starts (f x) quiet"
  shows "starts (and_then m f) quiet"
  by (rule starts_then [OF assms]) (simp_all add: quiet_def)

lemma quiet_basic:
  "starts (done_with x) quiet" "starts (raising e) quiet" "starts (reading f) quiet"
  "(\<And>M. fixed_args (g M) = fixed_args M) \<Longrightarrow> starts (modify g) quiet"
  "starts (outside_act (logging h)) quiet"
  by (auto intro!: startsI simp: done_with_def raising_def reading_def modify_def outside_act_def logging_def quiet_def
      split: prod.splits)

lemma logged_morning_simps [simp]:
  "mw_executable (logged_morning W) = mw_executable W" "mw_root (logged_morning W) = mw_root W"
  "mw_write (logged_morning W) M = logging (mw_write W M)" "mw_read (logged_morning W) p = logging (mw_read W p)"
  "mw_utc_now (logged_morning W) = logging (mw_utc_now W)" "mw_kst_day (logged_morning W) = logging (mw_kst_day W)"
  "mw_loads (logged_morning W) = mw_loads W" "mw_sleep (logged_morning W) n = (\<lambda>(s, l). (mw_sleep W n s, l))"
  "mw_child (logged_morning W) c = (\<lambda>(s, l). case mw_child W c s of (x, s') \<Rightarrow> (x, s', l @ [c]))"
  by (simp_all add: logged_morning_def)

lemma flush_quiet: "starts (flush (logged_morning W)) quiet"
  unfolding flush_def by (intro quiet_then) (auto intro: quiet_basic)

lemma abort_quiet: "starts (abort_run (logged_morning W) reason) quiet"
  unfolding abort_run_def
  by (intro quiet_then flush_quiet quiet_basic) (simp add: fixed_args_def)

lemma settle_quiet: "starts (settle (logged_morning W)) quiet"
  unfolding settle_def
  by (intro quiet_then quiet_basic)
     (auto intro: quiet_basic intro!: startsI simp: outside_act_def quiet_def raising_def)

text \<open>A step starts its command, once, whatever happens.\<close>

definition one_command :: "string list \<Rightarrow> morning_run \<Rightarrow> morning_error + 'a \<Rightarrow> morning_run \<Rightarrow> command_log \<Rightarrow> bool" where
  "one_command c M r M' cs \<longleftrightarrow> cs = [c] \<and> fixed_args M' = fixed_args M"

lemma run_step_starts: "starts (run_step (logged_morning W) name c abort) (one_command c)"
proof -
  have child: "starts (outside_act (mw_child (logged_morning W) c)) (one_command c)"
    by (rule startsI) (auto simp: outside_act_def one_command_def split: prod.splits)
  show ?thesis
    unfolding run_step_def Let_def
    by (rule starts_then [OF child, where Q = "\<lambda>_. quiet"])
       (auto intro!: quiet_then flush_quiet quiet_basic simp: fixed_args_def one_command_def quiet_def split: prod.splits)
qed

section \<open>Submissions\<close>

definition submits :: "string list \<Rightarrow> bool" where
  "submits c \<longleftrightarrow> last c = ''--confirm-execute''"

definition calm :: "morning_run \<Rightarrow> morning_error + 'a \<Rightarrow> morning_run \<Rightarrow> command_log \<Rightarrow> bool" where
  "calm M r M' cs \<longleftrightarrow> (\<forall>c\<in>set cs. \<not> submits c) \<and> fixed_args M' = fixed_args M"

lemma calm_then:
  assumes "starts m calm" and "\<And>x. starts (f x) calm"
  shows "starts (and_then m f) calm"
  by (rule starts_then [OF assms]) (auto simp: calm_def)

lemma quiet_calm: "starts m quiet \<Longrightarrow> starts m calm"
  by (erule starts_weaken) (simp add: quiet_def calm_def)

lemma step_calm: "\<not> submits c \<Longrightarrow> starts (run_step (logged_morning W) name c abort) calm"
  by (rule starts_weaken [OF run_step_starts]) (auto simp: one_command_def calm_def)

lemma fixed_commands_calm:
  "\<not> submits (read_only_command W n)" "\<not> submits (linkage_command W)" "\<not> submits (prewarm_command W)"
  "\<not> submits (quote_command W M)"
proof -
  have "last (quote_path W M) \<noteq> last ''--confirm-execute''" by (simp add: quote_path_def)
  then have "quote_path W M \<noteq> ''--confirm-execute''" by metis
  then show "\<not> submits (quote_command W M)" by (simp add: submits_def quote_command_def python_def)
qed (simp_all add: submits_def read_only_command_def linkage_command_def prewarm_command_def python_def)

lemma read_only_calm: "starts (read_only (logged_morning W) name abort) calm"
  unfolding read_only_def
  by (intro calm_then quiet_calm [OF quiet_basic(3)] step_calm fixed_commands_calm)

lemma unless_aborted_starts:
  assumes "starts m R" and "\<And>M. R M (Inr 1) M []"
  shows "starts (unless_aborted m) R"
  unfolding unless_aborted_def
proof (rule starts_then [OF _ _ _, where R = "\<lambda>M r M' cs. M' = M \<and> cs = [] \<and> r = Inr (mr_status M)"
    and Q = "\<lambda>st M r M' cs. R M r M' cs"])
  show "starts (reading mr_status) (\<lambda>M r M' cs. M' = M \<and> cs = [] \<and> r = Inr (mr_status M))"
    by (rule startsI) (simp add: reading_def)
  show "starts (if st = ''ABORTED'' then done_with 1 else m) (\<lambda>M r M' cs. R M r M' cs)" for st
    using assms by (auto intro!: startsI simp: done_with_def starts_def)
qed simp_all

lemma finish_calm: "starts (finish_run (logged_morning W)) calm"
  unfolding finish_run_def post_checks_def
  by (intro calm_then unless_aborted_starts read_only_calm step_calm fixed_commands_calm
      quiet_calm [OF flush_quiet] quiet_calm [OF quiet_basic(1)] quiet_calm [OF quiet_basic(4)])
     (simp_all add: fixed_args_def calm_def)

text \<open>The price that a capture approves: the one of the symbol in what the quote file of the run held.\<close>

definition quoted_price :: "'s morning_world \<Rightarrow> string \<Rightarrow> string \<Rightarrow> int \<times> string \<Rightarrow> bool" where
  "quoted_price W path symb price \<longleftrightarrow> (\<exists>x text book quote. fst (mw_read W path x) = Some text \<and>
     mw_loads W text = Some (PyDict book) \<and> py_get book symb = PyDict quote \<and> int_price (py_get quote ''price'') = Some price)"

definition approved :: "'s morning_world \<Rightarrow> morning_run \<Rightarrow> (int \<times> string) option \<Rightarrow> bool" where
  "approved W M p \<longleftrightarrow> (case p of None \<Rightarrow> True
   | Some (n, text) \<Rightarrow> 0 < n \<and> n \<le> mr_price_cap M \<and> quoted_price W (quote_path W M) (mr_symbol M) (n, text))"

definition captures ::
    "'s morning_world \<Rightarrow> morning_run \<Rightarrow> morning_error + (int \<times> string) option \<Rightarrow> morning_run \<Rightarrow> command_log \<Rightarrow> bool" where
  "captures W M r M' cs \<longleftrightarrow> calm M r M' cs \<and> (\<forall>p. r = Inr p \<longrightarrow> approved W M p)"

lemma approved_fixed: "approved W M' p \<Longrightarrow> fixed_args M' = fixed_args M \<Longrightarrow> approved W M p"
  by (cases p) (auto simp: approved_def fixed_args_def quote_path_def)

text \<open>Actions that approve nothing.\<close>

definition nothing :: "morning_run \<Rightarrow> morning_error + (int \<times> string) option \<Rightarrow> morning_run \<Rightarrow> command_log \<Rightarrow> bool" where
  "nothing M r M' cs \<longleftrightarrow> calm M r M' cs \<and> (\<forall>p. r = Inr p \<longrightarrow> p = None)"

lemma nothing_then:
  assumes "starts m calm" and "\<And>x. starts (f x) nothing"
  shows "starts (and_then m f) nothing"
  by (rule starts_then [OF assms]) (auto simp: nothing_def calm_def)

lemma nothing_ends: "starts (done_with None) nothing" "starts (raising e) nothing"
  by (auto intro!: startsI simp: done_with_def raising_def nothing_def calm_def)

lemma abort_nothing: "starts (abort_run (logged_morning W) reason) nothing"
  unfolding abort_run_def
  by (intro nothing_then quiet_calm [OF quiet_basic(4)] quiet_calm [OF flush_quiet] nothing_ends)
     (simp add: fixed_args_def)

lemma approved_None [simp]: "approved W M None"
  by (simp add: approved_def)

lemma nothing_captures: "starts m nothing \<Longrightarrow> starts m (captures W)"
  by (erule starts_weaken) (unfold nothing_def captures_def, metis approved_None)

text \<open>Approving a value returns its number, when it is positive and within the cap.\<close>

definition values_at :: "pyval \<Rightarrow> morning_run \<Rightarrow> morning_error + (int \<times> string) option \<Rightarrow> morning_run \<Rightarrow> command_log \<Rightarrow> bool" where
  "values_at v M r M' cs \<longleftrightarrow> calm M r M' cs \<and>
     (\<forall>n t. r = Inr (Some (n, t)) \<longrightarrow> int_price v = Some (n, t) \<and> 0 < n \<and> n \<le> mr_price_cap M)"

lemma nothing_values: "starts m nothing \<Longrightarrow> starts m (values_at v)"
  by (erule starts_weaken) (auto simp: nothing_def values_at_def)

lemma approve_values: "starts (approve_price (logged_morning W) v) (values_at v)"
proof (cases "\<exists>n t. int_price v = Some (n, t) \<and> 0 < n")
  case False
  then show ?thesis
    by (auto simp: approve_price_def intro!: nothing_values abort_nothing split: option.splits)
next
  case True
  then obtain n t where p: "int_price v = Some (n, t)" "0 < n" by blast
  let ?over = "modify (\<lambda>M. M\<lparr>mr_status := ''PARTIAL_PRICE_OVER_CAP'', mr_aborted_reason := Some ''PRICE_OVER_CAP''\<rparr>)"
  have cap: "starts (reading mr_price_cap) (\<lambda>M r M' cs. r = Inr (mr_price_cap M) \<and> M' = M \<and> cs = [])"
    by (rule startsI) (simp add: reading_def)
  have over: "starts (and_then ?over (\<lambda>_. done_with None)) nothing"
    by (intro nothing_then quiet_calm [OF quiet_basic(4)] nothing_ends) (simp add: fixed_args_def)
  have "starts (if n > x then and_then ?over (\<lambda>_. done_with None) else done_with (Some (n, t)))
      (\<lambda>M r M' cs. x = mr_price_cap M \<longrightarrow> values_at v M r M' cs)" for x
  proof (cases "n > x")
    case True
    then show ?thesis by (simp only: if_True) (rule starts_weaken [OF nothing_values [OF over, of v]], simp)
  next
    case False
    then show ?thesis using p
      by (simp only: if_False) (auto intro!: startsI simp: done_with_def values_at_def calm_def)
  qed
  then have "starts (and_then (reading mr_price_cap) (\<lambda>cap. if n > cap then and_then ?over (\<lambda>_. done_with None)
      else done_with (Some (n, t)))) (values_at v)"
    by (rule starts_then [OF cap]) simp_all
  then show ?thesis using p by (simp add: approve_price_def)
qed

lemma quote_captures: "starts (quote_capture (logged_morning W)) (captures W)"
proof -
  let ?W = "logged_morning W"
  define finish where "finish = (\<lambda>(M :: morning_run) file. case (case file of None \<Rightarrow> None | Some text \<Rightarrow> mw_loads W text) of
         None \<Rightarrow> abort_run ?W ''QUOTE_FILE_UNREADABLE''
       | Some (PyDict book) \<Rightarrow>
           (case py_get book (mr_symbol M) of
              PyDict quote \<Rightarrow> approve_price ?W (py_get quote ''price'')
            | _ \<Rightarrow> abort_run ?W ''QUOTE_MISSING'')
       | Some _ \<Rightarrow> raising Attribute_error)"
  have path: "quote_path ?W M = quote_path W M" for M by (simp add: quote_path_def)
  have held: "starts (finish M0 (fst (mw_read W (quote_path W M0) x)))
      (\<lambda>M r M' cs. fixed_args M = fixed_args M0 \<longrightarrow> captures W M r M' cs)" for M0 x
  proof (cases "\<exists>text book quote. fst (mw_read W (quote_path W M0) x) = Some text \<and> mw_loads W text = Some (PyDict book) \<and>
      py_get book (mr_symbol M0) = PyDict quote")
    case True
    then obtain raw book quote where q: "fst (mw_read W (quote_path W M0) x) = Some raw"
      "mw_loads W raw = Some (PyDict book)" "py_get book (mr_symbol M0) = PyDict quote" by blast
    have "captures W M r M' cs" if "fixed_args M = fixed_args M0" "values_at (py_get quote ''price'') M r M' cs" for M r M' cs
    proof -
      have same: "quote_path W M = quote_path W M0" "mr_symbol M = mr_symbol M0"
        using that(1) by (simp_all add: fixed_args_def quote_path_def)
      have "approved W M (Some (n, t))" if "int_price (py_get quote ''price'') = Some (n, t)" "0 < n" "n \<le> mr_price_cap M" for n t
        using that q unfolding approved_def quoted_price_def same option.case prod.case by blast
      then have "approved W M price" if "r = Inr price" for price
        using \<open>values_at _ M r M' cs\<close> that unfolding values_at_def by (cases price) auto
      then show ?thesis using that(2) unfolding captures_def values_at_def by blast
    qed
    then have "starts (approve_price ?W (py_get quote ''price'')) (\<lambda>M r M' cs. fixed_args M = fixed_args M0 \<longrightarrow> captures W M r M' cs)"
      by (intro starts_weaken [OF approve_values]) blast
    then show ?thesis using q by (simp add: finish_def)
  next
    case False
    then have "starts (finish M0 (fst (mw_read W (quote_path W M0) x))) nothing"
      by (auto simp: finish_def intro!: abort_nothing nothing_ends split: option.splits pyval.splits)
    from nothing_captures [OF this, of W] show ?thesis by (rule starts_weaken) simp
  qed
  have read: "starts (outside_act (mw_read ?W p)) (\<lambda>M r M' cs. (\<exists>x. r = Inr (fst (mw_read W p x))) \<and> M' = M \<and> cs = [])" for p
    by (rule startsI) (auto simp: outside_act_def logging_def split: prod.splits, metis fst_conv)
  have held_at: "starts (finish M0 y) (\<lambda>M r M' cs. (\<exists>x. y = fst (mw_read W (quote_path W M0) x)) \<longrightarrow>
      fixed_args M = fixed_args M0 \<longrightarrow> captures W M r M' cs)" for M0 y
  proof (cases "\<exists>x. y = fst (mw_read W (quote_path W M0) x)")
    case True
    then obtain x where "y = fst (mw_read W (quote_path W M0) x)" by blast
    then show ?thesis by (simp only:) (rule starts_weaken [OF held [of M0 x]], simp)
  next
    case False
    have "starts (finish M0 y) (\<lambda>M r M' cs. True)"
      by (auto simp: finish_def intro!: starts_weaken [OF abort_nothing] starts_weaken [OF nothing_ends(2)]
          starts_weaken [OF approve_values] split: option.splits pyval.splits)
    then show ?thesis by (rule starts_weaken) (use False in blast)
  qed
  have whole: "starts (and_then (outside_act (mw_read ?W (quote_path W M0))) (finish M0))
      (\<lambda>M r M' cs. fixed_args M = fixed_args M0 \<longrightarrow> captures W M r M' cs)" for M0
    by (rule starts_then [OF read held_at]) auto
  have tested: "starts (if \<not> ok then done_with None else and_then (outside_act (mw_read ?W (quote_path W M0))) (finish M0))
      (\<lambda>M r M' cs. fixed_args M = fixed_args M0 \<longrightarrow> captures W M r M' cs)" for M0 ok
  proof (cases ok)
    case False
    then show ?thesis by simp (rule starts_weaken [OF nothing_captures [OF nothing_ends(1), of W]], simp)
  qed (use whole [of M0] in simp)
  have step: "starts (and_then (run_step ?W ''QUOTE_WS'' (quote_command ?W M0) True) (\<lambda>ok. if \<not> ok then done_with None
      else and_then (outside_act (mw_read ?W (quote_path W M0))) (finish M0)))
      (\<lambda>M r M' cs. fixed_args M = fixed_args M0 \<longrightarrow> captures W M r M' cs)" for M0
    by (rule starts_then [OF step_calm [OF fixed_commands_calm(4)] tested])
      (auto simp: captures_def calm_def dest: approved_fixed)
  have args: "starts (reading id) (\<lambda>M r M' cs. r = Inr M \<and> M' = M \<and> cs = [])"
    by (rule startsI) (simp add: reading_def)
  have "starts (and_then (reading id) (\<lambda>M0. and_then (run_step ?W ''QUOTE_WS'' (quote_command ?W M0) True)
      (\<lambda>ok. if \<not> ok then done_with None else and_then (outside_act (mw_read ?W (quote_path W M0))) (finish M0)))) (captures W)"
    by (rule starts_then [OF args step]) simp_all
  then show ?thesis unfolding quote_capture_def finish_def path logged_morning_simps(7) .
qed

section \<open>At most one order\<close>

lemma quoted_text:
  assumes "quoted_price W path symb (n, t)" and "0 < n"
  shows "t = str_int n \<or> n = 1 \<and> t = ''True''"
proof -
  obtain v where "int_price v = Some (n, t)" using assms(1) unfolding quoted_price_def by blast
  then show ?thesis using assms(2) by (cases v) (auto simp: int_price_def split: if_splits)
qed

lemma approved_text: "approved W M (Some (n, t)) \<Longrightarrow> t \<noteq> ''--confirm-execute''"
proof -
  assume a: "approved W M (Some (n, t))"
  then have "0 < n" by (simp add: approved_def)
  then have "is_digit (hd (digits10 n))" using digits10_digits [of n] hd_in_set [OF digits10_ne, of n] by simp
  moreover have "\<not> is_digit (CHR ''-'')" by (simp add: is_digit_def)
  ultimately have "digits10 n \<noteq> ''--confirm-execute''" by (metis list.sel(1))
  moreover have "t = str_int n \<or> t = ''True''" using a quoted_text [of W "quote_path W M" "mr_symbol M" n t] by (simp add: approved_def) blast
  ultimately show ?thesis using \<open>0 < n\<close> by (auto simp: str_int_def)
qed

text \<open>What an order pair starts: the preview, and the submission of the same price when the preview succeeded.\<close>

definition pair_only :: "'s morning_world \<Rightarrow> string \<Rightarrow> morning_run \<Rightarrow> morning_error + 'a \<Rightarrow> morning_run \<Rightarrow> command_log \<Rightarrow> bool" where
  "pair_only W price M r M' cs \<longleftrightarrow> fixed_args M' = fixed_args M \<and>
     (cs = [preview_command W (mr_symbol M) price] \<or>
      cs = [preview_command W (mr_symbol M) price, submit_command W (mr_symbol M) price])"

lemma logged_commands [simp]:
  "preview_command (logged_morning W) = preview_command W" "submit_command (logged_morning W) = submit_command W"
  by (simp_all add: fun_eq_iff preview_command_def submit_command_def python_def)

lemma order_pair_starts: "starts (order_pair (logged_morning W) price) (pair_only W price)"
proof -
  have symb: "starts (reading mr_symbol) (\<lambda>M r M' cs. r = Inr (mr_symbol M) \<and> M' = M \<and> cs = [])"
    by (rule startsI) (simp add: reading_def)
  have submit: "starts (if \<not> ok then done_with () else
      and_then (run_step (logged_morning W) ''ORDER_SUBMIT'' (submit_command W x price) False) (\<lambda>_. done_with ()))
    (\<lambda>M r M' cs. fixed_args M' = fixed_args M \<and> (cs = [] \<or> cs = [submit_command W x price]))" for ok x
  proof (cases ok)
    case True
    show ?thesis unfolding if_not_P [OF not_not [THEN iffD2, OF True]]
      by (rule starts_then [OF run_step_starts quiet_basic(1)]) (auto simp: one_command_def quiet_def)
  next
    case False
    then show ?thesis using starts_weaken [OF quiet_basic(1)] by (simp add: starts_def done_with_def)
  qed
  have pair: "starts (and_then (run_step (logged_morning W) ''ORDER_PREVIEW'' (preview_command W x price) True) (\<lambda>ok.
      if \<not> ok then done_with () else
        and_then (run_step (logged_morning W) ''ORDER_SUBMIT'' (submit_command W x price) False) (\<lambda>_. done_with ())))
    (\<lambda>M r M' cs. x = mr_symbol M \<longrightarrow> pair_only W price M r M' cs)" for x
    by (rule starts_then [OF run_step_starts submit]) (auto simp: one_command_def pair_only_def)
  show ?thesis
    unfolding order_pair_def logged_commands
    by (rule starts_then [OF symb pair]) simp_all
qed

text \<open>A run: calm commands around at most one order pair of an approved price.\<close>

definition one_pair :: "'s morning_world \<Rightarrow> morning_run \<Rightarrow> morning_error + 'a \<Rightarrow> morning_run \<Rightarrow> command_log \<Rightarrow> bool" where
  "one_pair W M r M' cs \<longleftrightarrow> fixed_args M' = fixed_args M \<and>
     (\<exists>pre mid post. cs = pre @ mid @ post \<and> (\<forall>c\<in>set (pre @ post). \<not> submits c) \<and>
        (mid = [] \<or> (\<exists>n t. approved W M (Some (n, t)) \<and>
           (mid = [preview_command W (mr_symbol M) t] \<or>
            mid = [preview_command W (mr_symbol M) t, submit_command W (mr_symbol M) t]))))"

lemma calm_one_pair: "calm M r M' cs \<Longrightarrow> one_pair W M r' M' cs"
  unfolding calm_def one_pair_def by (intro conjI exI [of _ cs] exI [of _ "[]"]) simp_all

lemma calm_pair_append:
  assumes c: "calm M r0 M1 cs" and "one_pair W M1 r M' ds"
  shows "one_pair W M r M' (cs @ ds)"
proof -
  obtain pre mid post where p: "fixed_args M' = fixed_args M1" "ds = pre @ mid @ post"
    "\<forall>c\<in>set (pre @ post). \<not> submits c" and mid: "mid = [] \<or> (\<exists>n t. approved W M1 (Some (n, t)) \<and>
           (mid = [preview_command W (mr_symbol M1) t] \<or>
            mid = [preview_command W (mr_symbol M1) t, submit_command W (mr_symbol M1) t]))"
    using assms(2) unfolding one_pair_def by blast
  have f: "fixed_args M1 = fixed_args M" "mr_symbol M1 = mr_symbol M" using c by (simp_all add: calm_def fixed_args_def)
  have "mid = [] \<or> (\<exists>n t. approved W M (Some (n, t)) \<and>
           (mid = [preview_command W (mr_symbol M) t] \<or>
            mid = [preview_command W (mr_symbol M) t, submit_command W (mr_symbol M) t]))"
    using mid approved_fixed [OF _ f(1)] f(2) by metis
  moreover have "cs @ ds = (cs @ pre) @ mid @ post" "\<forall>c\<in>set ((cs @ pre) @ post). \<not> submits c"
    using p c by (auto simp: calm_def)
  ultimately show ?thesis unfolding one_pair_def using p(1) f(1) by metis
qed

lemma calm_then_pair:
  assumes "starts m calm" and "\<And>x. starts (f x) (one_pair W)"
  shows "starts (and_then m f) (one_pair W)"
  by (rule starts_then [OF assms]) (blast intro: calm_one_pair calm_pair_append)+

lemma done_calm: "starts (done_with x) calm"
  by (rule quiet_calm [OF quiet_basic(1)])

lemma after_pair_calm:
  "starts (unless_aborted (and_then (settle (logged_morning W)) (\<lambda>_. finish_run (logged_morning W)))) calm"
  by (intro unless_aborted_starts calm_then quiet_calm [OF settle_quiet] finish_calm) (simp add: calm_def)

lemma run_checklist_starts: "starts (run_checklist (logged_morning W)) (one_pair W)"
proof -
  let ?W = "logged_morning W"
  have order: "starts (and_then (order_pair ?W t) (\<lambda>_. unless_aborted (and_then (settle ?W) (\<lambda>_. finish_run ?W))))
      (\<lambda>M r M' cs. approved W M (Some (n, t)) \<longrightarrow> one_pair W M r M' cs)" for n t
  proof (rule starts_then [OF order_pair_starts after_pair_calm])
    fix M e M' cs
    assume "pair_only W t M (Inl e :: morning_error + unit) M' cs"
    then show "approved W M (Some (n, t)) \<longrightarrow> one_pair W M (Inl e :: morning_error + int) M' cs"
      unfolding pair_only_def one_pair_def
      by (intro impI conjI exI [of _ "[]"] exI [of _ cs]) auto
  next
    fix M x M1 cs M' ds and r :: "morning_error + int"
    assume "pair_only W t M (Inr x :: morning_error + unit) M1 cs" and "calm M1 r M' ds"
    then show "approved W M (Some (n, t)) \<longrightarrow> one_pair W M r M' (cs @ ds)"
      unfolding pair_only_def one_pair_def calm_def
      by (intro impI conjI exI [of _ "[]"] exI [of _ cs] exI [of _ ds]) auto
  qed
  have "starts (unless_aborted (case price of None \<Rightarrow> finish_run ?W
      | Some (_, t) \<Rightarrow> and_then (order_pair ?W t) (\<lambda>_. unless_aborted (and_then (settle ?W) (\<lambda>_. finish_run ?W)))))
    (\<lambda>M r M' cs. approved W M price \<longrightarrow> one_pair W M r M' cs)" for price
  proof (rule unless_aborted_starts)
    show "starts (case price of None \<Rightarrow> finish_run ?W
      | Some (_, t) \<Rightarrow> and_then (order_pair ?W t) (\<lambda>_. unless_aborted (and_then (settle ?W) (\<lambda>_. finish_run ?W))))
    (\<lambda>M r M' cs. approved W M price \<longrightarrow> one_pair W M r M' cs)"
    proof (cases price)
      case None
      show ?thesis unfolding None option.case
        by (rule starts_weaken [OF finish_calm]) (simp add: calm_one_pair)
    next
      case (Some p)
      then show ?thesis using order by (cases p) simp
    qed
  qed (simp add: one_pair_def)
  then have capture: "starts (and_then (quote_capture ?W) (\<lambda>price. unless_aborted (case price of None \<Rightarrow> finish_run ?W
      | Some (_, t) \<Rightarrow> and_then (order_pair ?W t) (\<lambda>_. unless_aborted (and_then (settle ?W) (\<lambda>_. finish_run ?W))))))
    (one_pair W)"
  proof (rule starts_then [OF quote_captures])
    fix M M1 cs M' ds and price :: "(int \<times> string) option" and r :: "morning_error + int"
    assume c: "captures W M (Inr price) M1 cs" and pair: "approved W M1 price \<longrightarrow> one_pair W M1 r M' ds"
    have calm: "calm M (Inr price :: morning_error + (int \<times> string) option) M1 cs" and "approved W M price"
      using c by (simp_all add: captures_def)
    moreover from calm have "fixed_args M = fixed_args M1" by (simp add: calm_def)
    ultimately show "one_pair W M r M' (cs @ ds)" using pair approved_fixed calm_pair_append by blast
  qed (auto simp: captures_def intro: calm_one_pair)
  have stop: "starts (done_with 1) (one_pair W)" by (rule starts_weaken [OF done_calm]) (rule calm_one_pair)
  show ?thesis unfolding run_checklist_def
    by (intro calm_then_pair step_calm fixed_commands_calm read_only_calm)
       (auto intro!: stop capture calm_then_pair read_only_calm)
qed

text \<open>C27: The morning runner starts nothing when the clock, read once before the first step, is not within
  the weekday window of 09:00 to 15:20. Otherwise, however its steps end and however long they take, it submits at most one
  order, directly after a preview of the same symbol and price was started; the price is the integer
  that a reading of the quote file of the day gives for the symbol, it is positive, and it is at most the cap
  of the run.\<close>

theorem morning_submits_once:
  assumes "morning_main (logged_morning W) a (s, []) = (r, M, s', cmds)"
  defines "day \<equiv> fst (mw_kst_day W (snd (mw_utc_now W s)))"
  defines "path \<equiv> mw_root W @ ''/results/r045-'' @ day @ ''/last-quote-'' @ ma_symbol a @ ''.json''"
  shows "(market_gate (fst (mw_utc_now W s)) \<noteq> ''MARKET_OPEN'' \<longrightarrow> cmds = [] \<and> r = Inr 0) \<and>
    length (filter submits cmds) \<le> 1 \<and>
    (\<forall>c\<in>set cmds. submits c \<longrightarrow> (\<exists>pre post n t. cmds = pre @ [preview_command W (ma_symbol a) t, c] @ post \<and>
       c = submit_command W (ma_symbol a) t \<and> 0 < n \<and> n \<le> ma_price_cap a \<and> (t = str_int n \<or> n = 1 \<and> t = ''True'') \<and>
       (\<exists>x text book quote. fst (mw_read W path x) = Some text \<and> mw_loads W text = Some (PyDict book) \<and>
          py_get book (ma_symbol a) = PyDict quote \<and> int_price (py_get quote ''price'') = Some (n, t))))"
proof -
  obtain now s1 where n: "mw_utc_now W s = (now, s1)" by (cases "mw_utc_now W s")
  show ?thesis
  proof (cases "market_gate now = ''MARKET_OPEN''")
    case False
    then show ?thesis using assms n by (simp add: morning_main_def logging_def)
  next
    case True
    obtain s2 where d: "mw_kst_day W s1 = (day, s2)" using n by (cases "mw_kst_day W s1") (simp add: day_def)
    let ?M = "new_morning_run a day"
    have symb: "mr_symbol ?M = ma_symbol a" by (simp add: new_morning_run_def)
    obtain M1 where "run_checklist (logged_morning W) (?M, s2, []) = (r, M1, s', cmds)"
      using assms(1) n d True by (auto simp: morning_main_def logging_def split: prod.splits)
    then have "one_pair W ?M r M1 cmds" using run_checklist_starts [of W] unfolding starts_def by fastforce
    then obtain pre mid post where p: "cmds = pre @ mid @ post" "\<forall>c\<in>set (pre @ post). \<not> submits c"
      and mid: "mid = [] \<or> (\<exists>n t. approved W ?M (Some (n, t)) \<and>
           (mid = [preview_command W (ma_symbol a) t] \<or>
            mid = [preview_command W (ma_symbol a) t, submit_command W (ma_symbol a) t]))"
      unfolding one_pair_def symb by blast
    have calm: "filter submits pre = []" "filter submits post = []" using p(2) by (simp_all add: filter_empty_conv)
    have sub: "submits (submit_command W symb t)" for symb t
      by (simp add: submits_def submit_command_def python_def)
    have prv: "\<not> submits (preview_command W symb t)" if "approved W ?M (Some (n, t))" for symb n t
      using approved_text [OF that] by (simp add: submits_def preview_command_def python_def)
    have app: "0 < n \<and> n \<le> ma_price_cap a \<and> (t = str_int n \<or> n = 1 \<and> t = ''True'') \<and>
        quoted_price W path (ma_symbol a) (n, t)" if "approved W ?M (Some (n, t))" for n t
    proof -
      have a: "0 < n \<and> n \<le> ma_price_cap a \<and> quoted_price W path (ma_symbol a) (n, t)"
        using that by (simp add: approved_def new_morning_run_def quote_path_def path_def)
      then show ?thesis using quoted_text [of W path "ma_symbol a" n t] by blast
    qed
    have "length (filter submits cmds) \<le> 1" using mid calm prv sub by (auto simp: p(1))
    moreover have "\<exists>pre post n t. cmds = pre @ [preview_command W (ma_symbol a) t, c] @ post \<and>
       c = submit_command W (ma_symbol a) t \<and> 0 < n \<and> n \<le> ma_price_cap a \<and> (t = str_int n \<or> n = 1 \<and> t = ''True'') \<and>
       quoted_price W path (ma_symbol a) (n, t)"
      if c: "c \<in> set cmds" "submits c" for c
    proof -
      have "c \<in> set mid" using c p by auto
      then obtain n t where "approved W ?M (Some (n, t))" "c = submit_command W (ma_symbol a) t"
        "mid = [preview_command W (ma_symbol a) t, c]"
        using mid prv c(2) by auto
      then show ?thesis using app unfolding p(1) by blast
    qed
    ultimately show ?thesis using True n unfolding quoted_price_def by simp
  qed
qed

section \<open>A morning\<close>

text \<open>Every child takes a hundred seconds and succeeds; the outside keeps the clock and the starting times. The first
  reading of the clock is at 15:19:00 on Monday, 2026-11-16.\<close>

definition late_monday :: int where "late_monday = 1794809940"

definition example_morning :: "(int \<times> (int \<times> string list) list) morning_world" where
  "example_morning = \<lparr>mw_executable = ''python'', mw_root = ''.'',
     mw_utc_now = (\<lambda>(t, l). (\<lparr>dt_instant = seconds t, dt_offset = Some 0\<rparr>, t, l)),
     mw_kst_day = (\<lambda>s. (''20261116'', s)),
     mw_child = (\<lambda>c (t, l). (Exited 0 [] [], t + 100, l @ [(t, c)])),
     mw_write = (\<lambda>_ s. (True, s)), mw_read = (\<lambda>_ s. (Some ''Q'', s)), mw_sleep = (\<lambda>n (t, l). (t + n, l)),
     mw_loads = (\<lambda>x. if x = ''Q'' then Some (PyDict [(''067310'', PyDict [(''price'', PyInt 36000)])]) else None)\<rparr>"

definition example_args :: morning_args where
  "example_args = \<lparr>ma_symbol = ''067310'', ma_max_pages = 3, ma_ws_seconds = 30, ma_settle_seconds = 30, ma_price_cap = 36800\<rparr>"

theorem morning_submits_once_witness:
  "filter submits (snd (snd (snd (morning_main (logged_morning example_morning) example_args ((late_monday, []), []))))) =
     [submit_command example_morning ''067310'' ''36000'']"
proof -
  let ?r = "morning_main (logged_morning example_morning) example_args ((late_monday, []), [])"
  let ?cmds = "snd (snd (snd ?r))"
  have "?r = (fst ?r, fst (snd ?r), fst (snd (snd ?r)), ?cmds)" by simp
  note m = morning_submits_once [OF this]
  have ne: "filter submits ?cmds \<noteq> []" by code_simp
  then obtain c where c: "filter submits ?cmds = [c]" using m by (cases "filter submits ?cmds") auto
  then have "c \<in> set (filter submits ?cmds)" by simp
  then have "c \<in> set ?cmds" "submits c" by simp_all
  then obtain n t where "c = submit_command example_morning (ma_symbol example_args) t"
    "\<exists>x text book quote. fst (mw_read example_morning p x) = Some text \<and> mw_loads example_morning text = Some (PyDict book) \<and>
       py_get book (ma_symbol example_args) = PyDict quote \<and> int_price (py_get quote ''price'') = Some (n, t)" for p
    using m by (auto simp: example_morning_def)
  moreover have "digits10 36000 = ''36000''" by code_simp
  ultimately have "c = submit_command example_morning ''067310'' ''36000''"
    by (auto simp: example_morning_def example_args_def py_get_def int_price_def str_int_def split: if_splits prod.splits)
  with c show ?thesis by simp
qed

text \<open>The window is looked at once, before the first step: the order of a run that started at 15:19:00 is submitted
  after the close, at 15:25:40.\<close>

lemma order_after_close:
  "(case morning_main example_morning example_args (late_monday, []) of (r, M, t, l) \<Rightarrow>
      map (\<lambda>(t, c). market_gate \<lparr>dt_instant = seconds t, dt_offset = Some 0\<rparr>) (filter (\<lambda>(t, c). submits c) l)) =
     [''AFTER_CLOSE'']"
  by code_simp

text \<open>A negative settling time, which the arguments allow, raises after the order was submitted and skips the checks
  after it.\<close>

lemma negative_settle_raises:
  "(case morning_main example_morning (example_args\<lparr>ma_settle_seconds := - 1\<rparr>) (late_monday, []) of (r, M, t, l) \<Rightarrow>
      (r, map (\<lambda>(t, c). submits c) l)) = (Inl Sleep_value_error, [False, False, False, False, True])"
  by code_simp

end
