(* ===== verification/AccountProbes.thy ===== *)
theory AccountProbes
  imports PaperWorld
begin

text \<open>
  \<open>tools/probe_kiwoom_rest.py\<close> and \<open>tools/verify_paper_linkage.py\<close>: the opt-in tools that read the account
  and its history over the mock host. A run ends with an exit code and the value it prints as JSON, or refuses its
  arguments; argparse itself is not modelled. The rows of a page hold arbitrary values; the text of a float, a
  list or a dictionary is the parameter \<open>repr\<close>.
\<close>

section \<open>Captures in a row\<close>

datatype probe_end = Usage_error | Ended int pyval

text \<open>The loop over the queries stops after the first incomplete capture.\<close>

fun capture_all ::
    "'s page_fetcher \<Rightarrow> int \<Rightarrow> (rest_query \<times> (string \<times> string) list) list \<Rightarrow> 's \<Rightarrow> rest_capture list result \<times> 's" where
  "capture_all fetch max_pages [] s = (Inr [], s)"
| "capture_all fetch max_pages ((q, body) # specs) s =
     (case capture_query fetch q body max_pages s of
        Inl e \<Rightarrow> (Inl e, s)
      | Inr (c, s1) \<Rightarrow>
          if \<not> rc_complete c then (Inr [c], s1)
          else (case capture_all fetch max_pages specs s1 of
              (Inl e, s2) \<Rightarrow> (Inl e, s2)
            | (Inr cs, s2) \<Rightarrow> (Inr (c # cs), s2)))"

definition not_requested :: pyval where
  "not_requested = PyDict [(''mode'', PyStr ''PAPER''), (''network'', PyBool False), (''orders_enabled'', PyBool False),
     (''reason'', PyStr ''EXECUTION_NOT_REQUESTED'')]"

definition setup_unconfirmed :: pyval where
  "setup_unconfirmed = PyDict [(''mode'', PyStr ''PAPER''), (''orders_enabled'', PyBool False),
     (''reason'', PyStr ''SETUP_OR_AUTH_UNCONFIRMED'')]"

text \<open>Both tools check their arguments, then need the option, then the credentials.\<close>

definition account_tool ::
    "'s paper_world \<Rightarrow> bool \<Rightarrow> int \<Rightarrow> (rest_query \<times> (string \<times> string) list) list \<Rightarrow>
     (rest_capture list \<Rightarrow> probe_end) \<Rightarrow> 's \<Rightarrow> probe_end \<times> 's" where
  "account_tool W execute_read_only max_pages specs conclude s =
     (if \<not> (1 \<le> max_pages \<and> max_pages \<le> 10) then (Usage_error, s)
      else if \<not> execute_read_only then (Ended 0 not_requested, s)
      else case paper_credentials_from_env (pw_vars W) of
          Inl _ \<Rightarrow> (Ended 1 setup_unconfirmed, s)
        | Inr c \<Rightarrow>
            (case capture_all (paper_fetch W c) max_pages specs (default_pacer, new_token_cache, s) of
               (Inl _, _, _, s') \<Rightarrow> (Ended 1 setup_unconfirmed, s')
             | (Inr captures, _, _, s') \<Rightarrow> (conclude captures, s')))"

section \<open>The account probe\<close>

definition account_specs :: "(rest_query \<times> (string \<times> string) list) list" where
  "account_specs = [(POSITIONS, [(''qry_tp'', ''2''), (''dmst_stex_tp'', ''KRX'')]),
     (UNFILLED, [(''all_stk_tp'', ''0''), (''trde_tp'', ''0''), (''stex_tp'', ''0'')])]"

definition history_specs :: "(rest_query \<times> (string \<times> string) list) list" where
  "history_specs = [
     (ORDER_DETAIL, [(''qry_tp'', ''1''), (''stk_bond_tp'', ''0''), (''sell_tp'', ''0''), (''dmst_stex_tp'', ''%'')]),
     (ORDER_STATUS, [(''stk_bond_tp'', ''0''), (''mrkt_tp'', ''0''), (''sell_tp'', ''0''), (''qry_tp'', ''0''),
        (''dmst_stex_tp'', ''KRX'')]),
     (FILLS, [(''qry_tp'', ''0''), (''sell_tp'', ''0''), (''stex_tp'', ''0'')])]"

definition probe_specs :: "bool \<Rightarrow> (rest_query \<times> (string \<times> string) list) list" where
  "probe_specs include_history = account_specs @ (if include_history then history_specs else [])"

definition page_rows :: "rest_query \<Rightarrow> pyval \<Rightarrow> pyval list" where
  "page_rows q payload = (case payload of
     PyDict d \<Rightarrow> (case py_get d (row_key q) of PyList rows \<Rightarrow> rows | _ \<Rightarrow> []) | _ \<Rightarrow> [])"

definition observed_rows :: "rest_capture \<Rightarrow> int" where
  "observed_rows c = sum_list (map (\<lambda>p. int (length (page_rows (rc_query c) (rp_payload p)))) (rc_pages c))"

definition query_report :: "rest_capture \<Rightarrow> pyval" where
  "query_report c = PyDict [(''api_id'', PyStr (query_value (rc_query c))), (''complete'', PyBool (rc_complete c)),
     (''reason'', PyStr (rc_reason c)), (''pages'', PyInt (int (length (rc_pages c)))),
     (''observed_rows'', PyInt (observed_rows c))]"

definition account_report :: "rest_capture list \<Rightarrow> pyval" where
  "account_report captures = PyDict [(''mode'', PyStr ''PAPER''), (''orders_enabled'', PyBool False),
     (''account_reconciled'', PyBool False), (''queries'', PyList (map query_report captures))]"

definition probe_account :: "'s paper_world \<Rightarrow> bool \<Rightarrow> int \<Rightarrow> bool \<Rightarrow> 's \<Rightarrow> probe_end \<times> 's" where
  "probe_account W execute_read_only max_pages include_history =
     account_tool W execute_read_only max_pages (probe_specs include_history) (\<lambda>captures.
       Ended (if length captures = length (probe_specs include_history) \<and> list_all rc_complete captures then 0 else 1)
         (account_report captures))"

section \<open>The linkage check\<close>

definition linkage_specs :: "(rest_query \<times> (string \<times> string) list) list" where
  "linkage_specs = [
     (ORDER_DETAIL, [(''qry_tp'', ''1''), (''stk_bond_tp'', ''0''), (''sell_tp'', ''0''), (''dmst_stex_tp'', ''%'')]),
     (ORDER_STATUS, [(''stk_bond_tp'', ''0''), (''mrkt_tp'', ''0''), (''sell_tp'', ''0''), (''qry_tp'', ''0''),
        (''dmst_stex_tp'', ''KRX'')]),
     (FILLS, [(''qry_tp'', ''0''), (''sell_tp'', ''0''), (''stex_tp'', ''0'')]),
     (UNFILLED, [(''all_stk_tp'', ''0''), (''trde_tp'', ''0''), (''stex_tp'', ''0'')])]"

type_synonym account_row = "(string \<times> pyval) list"

definition row_dicts :: "rest_query \<Rightarrow> pyval \<Rightarrow> account_row list" where
  "row_dicts q payload = concat (map (\<lambda>r. case r of PyDict d \<Rightarrow> [d] | _ \<Rightarrow> []) (page_rows q payload))"

definition py_text :: "(pyval \<Rightarrow> string) \<Rightarrow> pyval \<Rightarrow> string" where
  "py_text repr v = (case v of PyNone \<Rightarrow> ''None'' | PyBool b \<Rightarrow> if b then ''True'' else ''False''
     | PyInt n \<Rightarrow> str_int n | PyStr s \<Rightarrow> s | _ \<Rightarrow> repr v)"

text \<open>A row without a symbol counts as one of the symbol asked for.\<close>

definition of_symbol :: "(pyval \<Rightarrow> string) \<Rightarrow> string \<Rightarrow> account_row \<Rightarrow> bool" where
  "of_symbol repr symb r = (case map_of r ''stk_cd'' of None \<Rightarrow> True | Some v \<Rightarrow> py_text repr v = symb)"

text \<open>The text of a value that is text and not blank.\<close>

definition order_identifier :: "pyval \<Rightarrow> string option" where
  "order_identifier v = (case v of PyStr s \<Rightarrow> if strip s = [] then None else Some (strip s) | _ \<Rightarrow> None)"

definition row_numbers :: "account_row list \<Rightarrow> string \<Rightarrow> string set" where
  "row_numbers rows key =
     set (concat (map (\<lambda>r. case order_identifier (py_get r key) of None \<Rightarrow> [] | Some x \<Rightarrow> [x]) rows))"

record query_snapshot =
  sn_query :: rest_query
  sn_rows :: int
  sn_orig_present :: bool
  sn_fill_numbers :: int
  sn_numbers :: "string set"

definition snapshot_rows :: "(pyval \<Rightarrow> string) \<Rightarrow> string \<Rightarrow> rest_capture \<Rightarrow> account_row list" where
  "snapshot_rows repr symb c =
     filter (of_symbol repr symb) (concat (map (\<lambda>p. row_dicts (rc_query c) (rp_payload p)) (rc_pages c)))"

definition snapshot_of :: "(pyval \<Rightarrow> string) \<Rightarrow> string \<Rightarrow> rest_capture \<Rightarrow> query_snapshot" where
  "snapshot_of repr symb c =
     (let rows = snapshot_rows repr symb c
      in \<lparr>sn_query = rc_query c, sn_rows = int (length rows),
          sn_orig_present = list_ex (\<lambda>r. list_ex (\<lambda>k. order_identifier (py_get r k) \<noteq> None) [''ori_ord'', ''orig_ord_no'']) rows,
          sn_fill_numbers = int (card (row_numbers rows ''cntr_no'')),
          sn_numbers = row_numbers rows ''ord_no''\<rparr>)"

definition order_sets :: "query_snapshot list \<Rightarrow> string set list" where
  "order_sets sns = filter (\<lambda>g. g \<noteq> {}) (map sn_numbers sns)"

definition seen_in_multiple :: "query_snapshot list \<Rightarrow> bool" where
  "seen_in_multiple sns \<longleftrightarrow> length (order_sets sns) \<ge> 2"

definition sets_equal :: "query_snapshot list \<Rightarrow> bool" where
  "sets_equal sns \<longleftrightarrow> seen_in_multiple sns \<and> list_all (\<lambda>g. g = hd (order_sets sns)) (tl (order_sets sns))"

definition orig_clean :: "query_snapshot list \<Rightarrow> bool" where
  "orig_clean sns \<longleftrightarrow> \<not> list_ex sn_orig_present sns"

definition linkage_consistent :: "query_snapshot list \<Rightarrow> bool" where
  "linkage_consistent sns \<longleftrightarrow> seen_in_multiple sns \<and> sets_equal sns \<and> orig_clean sns"

definition per_query :: "(query_snapshot \<Rightarrow> int) \<Rightarrow> query_snapshot list \<Rightarrow> pyval" where
  "per_query f sns = PyDict (map (\<lambda>n. (query_value (sn_query n), PyInt (f n))) sns)"

definition linkage_report :: "string \<Rightarrow> query_snapshot list \<Rightarrow> pyval" where
  "linkage_report symb sns = PyDict [(''mode'', PyStr ''PAPER''), (''network'', PyBool True), (''orders_enabled'', PyBool False),
     (''account_reconciled'', PyBool False), (''symbol'', PyStr symb), (''row_counts'', per_query sn_rows sns),
     (''distinct_order_counts'', per_query (\<lambda>n. int (card (sn_numbers n))) sns),
     (''order_seen_in_multiple'', PyBool (seen_in_multiple sns)), (''order_sets_equal'', PyBool (sets_equal sns)),
     (''orig_link_clean'', PyBool (orig_clean sns)),
     (''fills_seen'', PyBool (list_ex (\<lambda>n. sn_query n = FILLS \<and> sn_rows n > 0) sns)),
     (''fill_numbers_seen'', PyBool (list_ex (\<lambda>n. sn_fill_numbers n > 0) sns)),
     (''reason'', PyStr (if linkage_consistent sns then ''LINKAGE_CONSISTENT'' else ''LINKAGE_UNCONFIRMED''))]"

definition linkage_incomplete :: "rest_capture \<Rightarrow> pyval" where
  "linkage_incomplete c = PyDict [(''mode'', PyStr ''PAPER''), (''network'', PyBool True), (''orders_enabled'', PyBool False),
     (''account_reconciled'', PyBool False), (''reason'', PyStr (rc_reason c)),
     (''failing_query'', PyStr (query_value (rc_query c)))]"

text \<open>The snapshots are pure, so they are taken once the loop has ended; an incomplete capture is its last.\<close>

definition verify_linkage ::
    "(pyval \<Rightarrow> string) \<Rightarrow> 's paper_world \<Rightarrow> bool \<Rightarrow> string \<Rightarrow> int \<Rightarrow> 's \<Rightarrow> probe_end \<times> 's" where
  "verify_linkage repr W execute_read_only symb max_pages =
     account_tool W execute_read_only max_pages linkage_specs (\<lambda>captures.
       case List.find (\<lambda>c. \<not> rc_complete c) captures of
         Some c \<Rightarrow> Ended 1 (linkage_incomplete c)
       | None \<Rightarrow> let sns = map (snapshot_of repr symb) captures
                 in Ended (if linkage_consistent sns then 0 else 1) (linkage_report symb sns))"

section \<open>What the tools post\<close>

text \<open>The reads of one query: at most the page limit, each that query with its body.\<close>

definition reads_within :: "int \<Rightarrow> rest_query \<times> (string \<times> string) list \<Rightarrow> post_log \<Rightarrow> bool" where
  "reads_within max_pages spec reads \<longleftrightarrow> int (length reads) \<le> max_pages \<and>
     (\<forall>x\<in>set reads. account_read (fst spec) (snd spec) x)"

context logged_transport begin

text \<open>The pages come query by query, in the order of the queries, each within the page limit.\<close>

lemma capture_all_log:
  assumes "capture_all fetch max_pages specs s = (r, s')" and "0 \<le> max_pages"
  shows "\<exists>new parts. posts_of s' = posts_of s @ new \<and> account_reads new = concat parts \<and>
    length parts \<le> length specs \<and> list_all2 (reads_within max_pages) (take (length parts) specs) parts"
  using assms(1)
proof (induction specs arbitrary: s r s')
  case Nil
  then show ?case by (auto intro!: exI [of _ "[]"])
next
  case (Cons spec specs)
  obtain q body where spec: "spec = (q, body)" by (cases spec)
  show ?case
  proof (cases "capture_query fetch q body max_pages s")
    case (Inl e)
    then show ?thesis using Cons.prems spec by (auto intro!: exI [of _ "[]"])
  next
    case (Inr cs)
    then obtain c s1 where one: "capture_query fetch q body max_pages s = Inr (c, s1)" by (cases cs) auto
    from capture_log [OF one] obtain new where new: "posts_of s1 = posts_of s @ new"
      "reads_within max_pages spec (account_reads new)" by (auto simp: spec reads_within_def)
    show ?thesis
    proof (cases "rc_complete c")
      case False
      then have "s' = s1" using Cons.prems spec one by simp
      then show ?thesis using new by (intro exI [of _ new] exI [of _ "[account_reads new]"]) simp
    next
      case True
      obtain r2 s2 where rest: "capture_all fetch max_pages specs s1 = (r2, s2)"
        by (cases "capture_all fetch max_pages specs s1")
      have "s' = s2" using Cons.prems spec one True rest by (auto split: sum.splits)
      moreover from Cons.IH [OF rest] obtain more parts where "posts_of s2 = posts_of s1 @ more"
        "account_reads more = concat parts" "length parts \<le> length specs"
        "list_all2 (reads_within max_pages) (take (length parts) specs) parts" by blast
      ultimately show ?thesis using new
        by (intro exI [of _ "new @ more"] exI [of _ "account_reads new # parts"]) (simp add: account_reads_def)
    qed
  qed
qed

end

lemma account_tool_log:
  assumes "account_tool (logged_world W) execute_read_only max_pages specs conclude (s, l) = (r, s', l')"
  shows "\<exists>new parts. l' = l @ new \<and> account_reads new = concat parts \<and> length parts \<le> length specs \<and>
    list_all2 (reads_within max_pages) (take (length parts) specs) parts \<and>
    (\<not> execute_read_only \<or> \<not> (1 \<le> max_pages \<and> max_pages \<le> 10) \<longrightarrow> new = [])"
proof (cases "execute_read_only \<and> 1 \<le> max_pages \<and> max_pages \<le> 10 \<and> \<not> isl (paper_credentials_from_env (pw_vars W))")
  case False
  then have "l' = l" using assms by (auto simp: account_tool_def split: if_splits sum.splits)
  then show ?thesis by (auto intro!: exI [of _ "[]"])
next
  case True
  then obtain c where c: "paper_credentials_from_env (pw_vars W) = Inr c" by (auto simp: isl_def sum.case_eq_if) (metis sum.exhaust)
  obtain cs p C s2 l2 where run: "capture_all (paper_fetch (logged_world W) c) max_pages specs
      (default_pacer, new_token_cache, s, l) = (cs, p, C, s2, l2)" by (metis prod.collapse)
  have "l' = l2" using assms c True run by (auto simp: account_tool_def split: sum.splits)
  with paper.capture_all_log [OF run] True show ?thesis by auto
qed

section \<open>What a successful run has read\<close>

definition read_in_full :: "int \<Rightarrow> rest_capture \<Rightarrow> bool" where
  "read_in_full max_pages c \<longleftrightarrow> rc_complete c \<and> rc_reason c = ''QUERY_COMPLETE_ONLY'' \<and>
     complete_chain (rc_query c) (rc_pages c) \<and> int (length (rc_pages c)) \<le> max_pages"

lemma capture_query_full:
  assumes "capture_query fetch q body max_pages s = Inr (c, s')" and "rc_complete c"
  shows "rc_query c = q \<and> read_in_full max_pages c"
proof -
  have run: "capture_pages fetch q body (nat max_pages) [] [] ''N'' [] s = (c, s')" and pos: "0 < max_pages"
    using assms(1) by (auto simp: capture_query_Inr_iff validate_query_def result_simps)
  from capture_pages_sound [OF run assms(2)] obtain ps where ps: "c = captured q ps True ''QUERY_COMPLETE_ONLY''"
    "length ps \<le> nat max_pages" "chain_from q {} ps" by auto
  moreover have "int (length ps) \<le> max_pages" using ps(2) pos by linarith
  ultimately show ?thesis by (auto simp: read_in_full_def captured_def chain_from_iff)
qed

lemma capture_query_query: "capture_query fetch q body max_pages s = Inr (c, s') \<Longrightarrow> rc_query c = q"
  unfolding capture_query_Inr_iff by (metis capture_pages_bound)

text \<open>The loop either read every query in full, or its last capture is the only incomplete one.\<close>

lemma capture_all_prefix:
  assumes "capture_all fetch max_pages specs s = (Inr cs, s')"
  shows "map rc_query cs = map fst (take (length cs) specs) \<and> length cs \<le> length specs \<and>
    (\<forall>c\<in>set cs. rc_complete c \<longrightarrow> read_in_full max_pages c) \<and>
    (list_all rc_complete cs \<longleftrightarrow> length cs = length specs \<and> list_all rc_complete cs)"
  using assms
proof (induction specs arbitrary: s cs)
  case (Cons spec specs)
  obtain q body where spec: "spec = (q, body)" by (cases spec)
  obtain c s1 where one: "capture_query fetch q body max_pages s = Inr (c, s1)"
    using Cons.prems spec by (cases "capture_query fetch q body max_pages s") auto
  show ?case
  proof (cases "rc_complete c")
    case False
    then show ?thesis using Cons.prems spec one capture_query_query [OF one] by auto
  next
    case True
    then obtain cs1 where "capture_all fetch max_pages specs s1 = (Inr cs1, s')" "cs = c # cs1"
      using Cons.prems spec one by (auto split: prod.splits sum.splits)
    then show ?thesis using Cons.IH spec capture_query_full [OF one True] by auto
  qed
qed simp

lemma capture_all_full:
  assumes "capture_all fetch max_pages specs s = (Inr cs, s')" and "list_all rc_complete cs"
  shows "map rc_query cs = map fst specs \<and> (\<forall>c\<in>set cs. read_in_full max_pages c)"
  using capture_all_prefix [OF assms(1)] assms(2) by (auto simp: list_all_iff)

lemma probe_run_full:
  assumes "probe_account W True max_pages include_history s = (Ended 0 r, s')"
  shows "\<exists>captures. r = account_report captures \<and> map rc_query captures = map fst (probe_specs include_history) \<and>
    (\<forall>c\<in>set captures. read_in_full max_pages c)"
proof -
  obtain c where c: "paper_credentials_from_env (pw_vars W) = Inr c"
    using assms by (cases "paper_credentials_from_env (pw_vars W)") (auto simp: probe_account_def account_tool_def split: if_splits)
  obtain cs p C s2 where run: "capture_all (paper_fetch W c) max_pages (probe_specs include_history)
      (default_pacer, new_token_cache, s) = (cs, p, C, s2)" by (metis prod.collapse)
  obtain captures where cs: "cs = Inr captures" and "list_all rc_complete captures" "r = account_report captures"
    using assms c run by (cases cs) (auto simp: probe_account_def account_tool_def split: if_splits)
  then show ?thesis using capture_all_full [OF run [unfolded cs]] by blast
qed

section \<open>The verdict on a linkage\<close>

lemma equal_to_hd:
  "2 \<le> length gs \<and> list_all (\<lambda>g. g = hd gs) (tl gs) \<longleftrightarrow> 2 \<le> length gs \<and> (\<exists>g. set gs = {g})"
  by (cases gs) (auto simp: list_all_iff)

lemma sets_equal_iff:
  "sets_equal sns \<longleftrightarrow> seen_in_multiple sns \<and> (\<exists>g. g \<noteq> {} \<and> (\<forall>n\<in>set sns. sn_numbers n = {} \<or> sn_numbers n = g))"
proof -
  have "(\<exists>g. set (order_sets sns) = {g}) \<longleftrightarrow>
      (\<exists>g. g \<noteq> {} \<and> (\<forall>n\<in>set sns. sn_numbers n = {} \<or> sn_numbers n = g))" if "2 \<le> length (order_sets sns)"
  proof
    assume "\<exists>g. set (order_sets sns) = {g}"
    then obtain g where g: "set (order_sets sns) = {g}" by blast
    then have "g \<in> set (order_sets sns)" by simp
    then show "\<exists>g. g \<noteq> {} \<and> (\<forall>n\<in>set sns. sn_numbers n = {} \<or> sn_numbers n = g)"
      using g by (intro exI [of _ g]) (auto simp: order_sets_def)
  next
    assume "\<exists>g. g \<noteq> {} \<and> (\<forall>n\<in>set sns. sn_numbers n = {} \<or> sn_numbers n = g)"
    then obtain g where "\<forall>x\<in>set (order_sets sns). x = g" by (auto simp: order_sets_def)
    moreover have "order_sets sns \<noteq> []" using that by auto
    ultimately show "\<exists>g. set (order_sets sns) = {g}"
      by (metis (mono_tags, lifting) insertI1 insert_absorb list.set_sel(1) singletonD subsetI subset_antisym insert_subset)
  qed
  then show ?thesis unfolding sets_equal_def seen_in_multiple_def using equal_to_hd [of "order_sets sns"] by blast
qed

definition linked :: "(pyval \<Rightarrow> string) \<Rightarrow> string \<Rightarrow> rest_capture list \<Rightarrow> bool" where
  "linked repr symb captures \<longleftrightarrow>
     (\<exists>orders. orders \<noteq> {} \<and>
        (\<forall>c\<in>set captures. row_numbers (snapshot_rows repr symb c) ''ord_no'' \<in> {{}, orders}) \<and>
        2 \<le> length (filter (\<lambda>c. row_numbers (snapshot_rows repr symb c) ''ord_no'' = orders) captures)) \<and>
     (\<forall>c\<in>set captures. \<forall>r\<in>set (snapshot_rows repr symb c).
        order_identifier (py_get r ''ori_ord'') = None \<and> order_identifier (py_get r ''orig_ord_no'') = None)"

lemma counted_once:
  fixes k :: nat
  assumes "\<And>g. N g \<Longrightarrow> Q g \<Longrightarrow> k = f g"
  shows "(2 \<le> k \<and> (\<exists>g. N g \<and> Q g)) \<and> C \<longleftrightarrow> (\<exists>g. N g \<and> Q g \<and> 2 \<le> f g) \<and> C"
  using assms by auto

lemma linkage_consistent_iff: "linkage_consistent (map (snapshot_of repr symb) cs) \<longleftrightarrow> linked repr symb cs"
proof -
  let ?n = "\<lambda>c. row_numbers (snapshot_rows repr symb c) ''ord_no''"
  have sets: "order_sets (map (snapshot_of repr symb) cs) = filter (\<lambda>g. g \<noteq> {}) (map ?n cs)"
    by (simp add: order_sets_def snapshot_of_def Let_def comp_def)
  have count: "length (filter (\<lambda>g. g \<noteq> {}) (map ?n cs)) = length (filter (\<lambda>c. ?n c = orders) cs)"
    if "orders \<noteq> {}" "\<forall>c\<in>set cs. ?n c = {} \<or> ?n c = orders" for orders
  proof -
    have "filter (\<lambda>c. ?n c \<noteq> {}) cs = filter (\<lambda>c. ?n c = orders) cs" using that by (intro filter_cong) auto
    then show ?thesis by (simp add: filter_map comp_def)
  qed
  have clean: "orig_clean (map (snapshot_of repr symb) cs) \<longleftrightarrow> (\<forall>c\<in>set cs. \<forall>r\<in>set (snapshot_rows repr symb c).
        order_identifier (py_get r ''ori_ord'') = None \<and> order_identifier (py_get r ''orig_ord_no'') = None)"
    by (auto simp: orig_clean_def list_ex_iff snapshot_of_def Let_def)
  have numbers: "(\<forall>n\<in>set (map (snapshot_of repr symb) cs). sn_numbers n = {} \<or> sn_numbers n = g) \<longleftrightarrow>
      (\<forall>c\<in>set cs. ?n c = {} \<or> ?n c = g)" for g
    by (simp add: snapshot_of_def Let_def)
  show ?thesis
    unfolding linkage_consistent_def sets_equal_iff clean linked_def seen_in_multiple_def sets numbers
      insert_iff empty_iff simp_thms conj_assoc [symmetric]
    unfolding conj_assoc [of _ _ "2 \<le> _"]
    by (rule counted_once) (rule count)
qed

section \<open>Properties\<close>

text \<open>C22: The account probe and the linkage check only read. Whatever the network answers, a run posts token requests
  and, query by query in the fixed order of the tool, documented queries of the account, each with its fixed body and
  a valid bearer token, for each query at most as many as the page limit; without the explicit option, or with a page
  limit outside 1 to 10, it posts nothing at all.\<close>

theorem account_tools_only_read:
  assumes "tool = probe_account (logged_world W) execute max_pages include_history \<and> specs = probe_specs include_history \<or>
      tool = verify_linkage repr (logged_world W) execute symb max_pages \<and> specs = linkage_specs"
    and "tool (s, l) = (r, s', l')"
  shows "\<exists>new parts. l' = l @ new \<and> filter (\<lambda>x. fst x \<noteq> token_url) new = concat parts \<and> length parts \<le> length specs \<and>
    list_all2 (\<lambda>(q, body) reads. int (length reads) \<le> max_pages \<and> (\<forall>x\<in>set reads. account_read q body x))
      (take (length parts) specs) parts \<and>
    (\<not> execute \<or> \<not> (1 \<le> max_pages \<and> max_pages \<le> 10) \<longrightarrow> new = [])"
proof -
  have within: "reads_within max_pages = (\<lambda>(q, body) reads. int (length reads) \<le> max_pages \<and> (\<forall>x\<in>set reads. account_read q body x))"
    by (auto simp: reads_within_def fun_eq_iff)
  obtain conclude where run: "account_tool (logged_world W) execute max_pages specs conclude (s, l) = (r, s', l')"
    using assms unfolding probe_account_def verify_linkage_def by blast
  show ?thesis using account_tool_log [OF run] unfolding within account_reads_def .
qed

text \<open>When the account probe exits with 0 it has, for positions, open orders and on request the three histories in
  this order, a whole chain of pages within the page limit, and its report lists exactly these queries as complete.\<close>

theorem probe_succeeds:
  assumes "probe_account W True max_pages include_history s = (Ended 0 r, s')"
  shows "\<exists>captures. r = account_report captures \<and> map rc_query captures = map fst (probe_specs include_history) \<and>
    (\<forall>c\<in>set captures. read_in_full max_pages c)"
  by (rule probe_run_full [OF assms])

text \<open>Whenever the linkage check could read its queries, it exits with 0 exactly if all four are whole chains of
  pages, the rows of the symbol name one and the same non-empty set of orders in at least two of them and no other
  order in any, and no row points to an original order.\<close>

theorem linkage_verdict:
  assumes "1 \<le> max_pages \<and> max_pages \<le> 10" and "paper_credentials_from_env (pw_vars W) = Inr c"
    and run: "capture_all (paper_fetch W c) max_pages linkage_specs (default_pacer, new_token_cache, s) =
      (Inr captures, p, C, s')"
  shows "fst (verify_linkage repr W True symb max_pages s) = Ended 0 r \<longleftrightarrow>
    r = linkage_report symb (map (snapshot_of repr symb) captures) \<and>
    map rc_query captures = map fst linkage_specs \<and> (\<forall>c\<in>set captures. read_in_full max_pages c) \<and>
    linked repr symb captures"
proof (cases "list_all rc_complete captures")
  case True
  then have "List.find (\<lambda>c. \<not> rc_complete c) captures = None" by (simp add: find_None_iff list_all_iff)
  then show ?thesis using assms capture_all_full [OF run True]
    by (auto simp: verify_linkage_def account_tool_def Let_def linkage_consistent_iff)
next
  case False
  then obtain d where "List.find (\<lambda>c. \<not> rc_complete c) captures = Some d" and "\<exists>c\<in>set captures. \<not> rc_complete c"
    by (cases "List.find (\<lambda>c. \<not> rc_complete c) captures") (auto simp: find_None_iff list_all_iff)
  then show ?thesis using assms by (auto simp: verify_linkage_def account_tool_def read_in_full_def)
qed

section \<open>Runs on a concrete world\<close>

text \<open>Every answer has all tables; the order of the histories is filled, so nothing is open.\<close>

definition example_order :: pyval where
  "example_order = PyDict [(''stk_cd'', PyStr ''005930''), (''ord_no'', PyStr ''0000017''), (''ori_ord'', PyStr [])]"

definition probe_world :: "int paper_world" where
  "probe_world = \<lparr>pw_vars = (\<lambda>_. Some ''k''), pw_day = (\<lambda>n. (''20260924'', n)),
     pw_monotonic = (\<lambda>n. (of_int n, n + 1)), pw_sleep = (\<lambda>_ n. n + 2), pw_now = example_clock,
     pw_post = (\<lambda>url _ _ n. (Some (if url = token_url then ''T'' else ''R'', [(''cont-yn'', ''N'')]), n)),
     pw_loads = (\<lambda>raw. Some (PyDict (if raw = ''T'' then example_payload else
       (''return_code'', PyInt 0) # map (\<lambda>q. (row_key q, PyList (if q = UNFILLED then [] else [example_order])))
         [POSITIONS, UNFILLED, ORDER_DETAIL, ORDER_STATUS, FILLS]))), pw_disk = (\<lambda>n. (Written, n))\<rparr>"

theorem account_tools_only_read_witness:
  "\<exists>(parts :: post_log list). filter (\<lambda>x. fst x \<noteq> token_url) (snd (snd (probe_account (logged_world probe_world) True 3 False (0, [])))) = concat parts \<and>
     length parts \<le> 2 \<and> list_all2 (\<lambda>spec reads. length reads \<le> 3) (take (length parts) account_specs) parts"
proof -
  let ?r = "probe_account (logged_world probe_world) True 3 False (0, [])"
  have "?r = (fst ?r, fst (snd ?r), snd (snd ?r))" by simp
  from account_tools_only_read [OF disjI1 [OF conjI [OF refl refl]] this] obtain new parts where
    "snd (snd ?r) = [] @ new" "filter (\<lambda>x. fst x \<noteq> token_url) new = concat parts" "length parts \<le> length (probe_specs False)"
    "list_all2 (\<lambda>(q, body) reads. int (length reads) \<le> 3 \<and> (\<forall>x\<in>set reads. account_read q body x))
      (take (length parts) (probe_specs False)) parts" by blast
  then show ?thesis
    by (intro exI [of _ parts]) (auto simp: probe_specs_def account_specs_def elim!: list_all2_mono)
qed

theorem probe_succeeds_witness:
  "\<exists>captures. snd (case probe_account probe_world True 3 True 0 of (Ended k r, s) \<Rightarrow> (k, r)) = account_report captures \<and>
     length captures = 5"
proof -
  let ?run = "probe_account probe_world True 3 True 0"
  have "(case ?run of (Ended k r, s) \<Rightarrow> k = 0 | _ \<Rightarrow> False)" by code_simp
  then obtain r s' where run: "?run = (Ended 0 r, s')" by (auto split: prod.splits probe_end.splits)
  obtain captures where c: "r = account_report captures" "map rc_query captures = map fst (probe_specs True)"
    using probe_succeeds [OF run] by blast
  have "length (probe_specs True) = 5" by (simp add: probe_specs_def account_specs_def history_specs_def)
  then have "length captures = 5" using arg_cong [OF c(2), of length] by simp
  then show ?thesis using c(1) run by auto
qed

theorem linkage_verdict_witness:
  "\<exists>captures. linked (\<lambda>_. []) ''005930'' captures \<and> length captures = 4 \<and>
     fst (verify_linkage (\<lambda>_. []) probe_world True ''005930'' 3 0) =
       Ended 0 (linkage_report ''005930'' (map (snapshot_of (\<lambda>_. []) ''005930'') captures))"
proof -
  let ?c = "\<lparr>pk_app_key = ''k'', pk_app_secret = ''k''\<rparr>"
  let ?run = "capture_all (paper_fetch probe_world ?c) 3 linkage_specs (default_pacer, new_token_cache, 0)"
  have creds: "paper_credentials_from_env (pw_vars probe_world) = Inr ?c" by code_simp
  have "\<not> isl (fst ?run) \<and> linkage_consistent (map (snapshot_of (\<lambda>_. []) ''005930'') (projr (fst ?run))) \<and>
      length (projr (fst ?run)) = 4 \<and> list_all rc_complete (projr (fst ?run))" by code_simp
  moreover obtain r p C s' where run: "?run = (r, p, C, s')" by (metis prod.collapse)
  ultimately obtain captures where cs: "r = Inr captures" "linked (\<lambda>_. []) ''005930'' captures" "length captures = 4"
    "list_all rc_complete captures"
    by (cases r) (auto simp: linkage_consistent_iff)
  note full = capture_all_full [OF run [unfolded cs(1)] cs(4)]
  have "fst (verify_linkage (\<lambda>_. []) probe_world True ''005930'' 3 0) =
      Ended 0 (linkage_report ''005930'' (map (snapshot_of (\<lambda>_. []) ''005930'') captures))"
    by (rule linkage_verdict [THEN iffD2, OF _ creds run [unfolded cs(1)]]) (use cs full in auto)
  then show ?thesis using cs by blast
qed

end
