(* ===== verification/ReadOnlyRun.thy ===== *)
theory ReadOnlyRun
  imports MorningRun AccountProbes
begin

text \<open>
  \<open>tools/r04_readonly_morning_run.py\<close>: the scheduled read-only probe. It starts the account and the quote probe,
  keeps sanitized parts of what they print and writes one dated record. The window and the tests on single fields
  are those of \<open>MorningRun\<close>; child processes, the clock and the disk are functions on an outside state. A record
  stands for its JSON document, its time is kept as a date-time, and its file is named by the day.
\<close>

section \<open>Sanitizing\<close>

definition query_ids :: "string list" where
  "query_ids = [''kt00018'', ''ka10075'', ''kt00007'', ''kt00009'', ''ka10076'']"

definition safe_reason_text :: "string \<Rightarrow> bool" where
  "safe_reason_text s \<longleftrightarrow> 0 < length s \<and> length s \<le> 64 \<and> (\<forall>c\<in>set s. reason_char c)"

definition small_count :: "int \<Rightarrow> bool" where
  "small_count n \<longleftrightarrow> 0 \<le> n \<and> n \<le> 1000000"

definition clean_query :: "pyval \<Rightarrow> pyval list" where
  "clean_query v = (case v of
     PyDict q \<Rightarrow>
       (case (py_get q ''api_id'', py_get q ''complete'', py_get q ''reason'', py_get q ''pages'', py_get q ''observed_rows'') of
          (PyStr api_id, PyBool whole, PyStr reason, PyInt pages, PyInt rows) \<Rightarrow>
            if api_id \<in> set query_ids \<and> safe_reason_text reason \<and> small_count pages \<and> small_count rows
            then [PyDict [(''api_id'', PyStr api_id), (''complete'', PyBool whole), (''reason'', PyStr reason),
              (''pages'', PyInt pages), (''observed_rows'', PyInt rows)]]
            else []
        | _ \<Rightarrow> [])
   | _ \<Rightarrow> [])"

definition report_fields :: "pyval \<Rightarrow> (string \<times> pyval) list" where
  "report_fields v = (case v of PyDict d \<Rightarrow> d | _ \<Rightarrow> [])"

definition clean_queries :: "pyval \<Rightarrow> pyval list" where
  "clean_queries v = (case py_get (report_fields v) ''queries'' of PyList qs \<Rightarrow> concat (map clean_query qs) | _ \<Rightarrow> [])"

definition sanitize_rest_report :: "pyval \<Rightarrow> pyval" where
  "sanitize_rest_report v = PyDict [(''queries'', PyList (clean_queries v)), (''orders_enabled'', PyBool False),
     (''account_reconciled'', PyBool False)]"

definition clean_stream :: "pyval \<Rightarrow> (string \<times> pyval) list" where
  "clean_stream v = (let rep = report_fields v in
     [(''orders_enabled'', PyBool False), (''account_reconciled'', PyBool False)] @
     safe_reason (py_get rep ''reason'') @
     concat (map (safe_count rep) [''connections'', ''quotes_observed'', ''malformed_frames'']) @
     concat (map (safe_flag rep) [''fresh_before_close'', ''quote_saved'']) @
     concat (map (safe_code rep) safe_codes))"

definition sanitize_ws_report :: "pyval \<Rightarrow> pyval" where
  "sanitize_ws_report v = PyDict (clean_stream v)"

section \<open>Children\<close>

record 's readonly_world =
  ro_executable :: string
  ro_now :: "'s \<Rightarrow> datetime \<times> 's"
  ro_child :: "string list \<Rightarrow> 's \<Rightarrow> child \<times> 's"
  ro_loads :: "string \<Rightarrow> pyval option"

definition fixed_commands :: "string \<Rightarrow> string \<Rightarrow> string list \<times> string list" where
  "fixed_commands exe symb =
     ([exe, ''-m'', ''tools.probe_kiwoom_rest'', ''--execute-read-only'', ''--max-pages'', ''3'', ''--include-history''],
      [exe, ''-m'', ''tools.probe_kiwoom_ws'', symb, ''--seconds'', ''30'', ''--execute-read-only''])"

definition upper :: "char \<Rightarrow> char" where
  "upper c = (if is_lower c then char_of ((of_char c :: int) - 32) else c)"

text \<open>A child that cannot run or runs too long prints the name of its exception, as JSON.\<close>

definition run_captured :: "'s readonly_world \<Rightarrow> string list \<Rightarrow> 's \<Rightarrow> (int \<times> string) \<times> 's" where
  "run_captured W command s = (case ro_child W command s of
     (Exited code out err, s') \<Rightarrow> ((code, out), s')
   | (Child_raised name, s') \<Rightarrow> ((- 1, ''{\"reason\": \"'' @ map upper name @ ''\"}''), s'))"

definition parse_json :: "'s readonly_world \<Rightarrow> string \<Rightarrow> pyval" where
  "parse_json W out = (case ro_loads W out of None \<Rightarrow> PyDict [] | Some v \<Rightarrow> v)"

definition git_command :: "string list" where
  "git_command = [''git'', ''rev-parse'', ''--verify'', ''HEAD'']"

definition commit :: "'s readonly_world \<Rightarrow> 's \<Rightarrow> string option \<times> 's" where
  "commit W s =
     (let ((code, out), s') = run_captured W git_command s;
          v = strip out
      in (if code = 0 \<and> length v = 40 \<and> (\<forall>c\<in>set v. c \<in> set ''0123456789abcdef'') then Some v else None, s'))"

section \<open>The run\<close>

record readonly_step =
  rs_step :: string
  rs_exit_code :: int
  rs_report :: pyval

record readonly_record =
  rr_run_at :: datetime
  rr_commit :: "string option"
  rr_gate :: string
  rr_orders_enabled :: bool
  rr_steps :: "readonly_step list"
  rr_status :: string

definition rest_ok :: "int \<Rightarrow> pyval \<Rightarrow> bool" where
  "rest_ok code printed \<longleftrightarrow> code = 0 \<and> length (clean_queries printed) = length query_ids"

definition quotes_ok :: "int \<Rightarrow> pyval \<Rightarrow> bool" where
  "quotes_ok code printed \<longleftrightarrow> code = 0 \<and>
     (case py_get (clean_stream printed) ''quotes_observed'' of PyInt n \<Rightarrow> n > 0 | _ \<Rightarrow> False) \<and>
     py_get (clean_stream printed) ''fresh_before_close'' = PyBool True"

definition in_kst :: "datetime \<Rightarrow> datetime" where
  "in_kst d = (if aware d then d\<lparr>dt_offset := Some 32400\<rparr> else d)"

definition record_day :: "datetime \<Rightarrow> date" where
  "record_day d = local_day d (case dt_offset d of None \<Rightarrow> 0 | Some off \<Rightarrow> off)"

text \<open>The exit code, the record and the day of its file; the steps are run inside the window only.\<close>

definition readonly_run ::
    "'s readonly_world \<Rightarrow> datetime option \<Rightarrow> 's \<Rightarrow> (int \<times> readonly_record \<times> date) \<times> 's" where
  "readonly_run W now s =
     (let (started, s1) = (case now of None \<Rightarrow> ro_now W s | Some t \<Rightarrow> (t, s));
          gate = market_gate started;
          (sha, s2) = commit W s1;
          rec = \<lparr>rr_run_at = in_kst started, rr_commit = sha, rr_gate = gate, rr_orders_enabled = False, rr_steps = [],
            rr_status = ''SKIPPED_OUTSIDE_MARKET''\<rparr>;
          day = record_day (in_kst started)
      in if gate \<noteq> ''MARKET_OPEN'' then ((0, rec, day), s2)
         else let (rest_command, ws_command) = fixed_commands (ro_executable W) ''005930'';
                  ((rest_code, rest_out), s3) = run_captured W rest_command s2;
                  rest = parse_json W rest_out;
                  ((ws_code, ws_out), s4) = run_captured W ws_command s3;
                  ws = parse_json W ws_out;
                  ok = rest_ok rest_code rest \<and> quotes_ok ws_code ws
              in ((if ok then 0 else 1,
                   rec\<lparr>rr_steps :=
                       [\<lparr>rs_step = ''READ_ONLY_ACCOUNT'', rs_exit_code = rest_code, rs_report = sanitize_rest_report rest\<rparr>,
                        \<lparr>rs_step = ''READ_ONLY_WEBSOCKET'', rs_exit_code = ws_code, rs_report = sanitize_ws_report ws\<rparr>],
                     rr_status := if ok then ''PASS'' else ''INCOMPLETE''\<rparr>, day), s4))"

text \<open>The file is written to a temporary name and then replaced, or the write raises: the records on disk by day.\<close>

type_synonym record_files = "date \<rightharpoonup> readonly_record"

definition atomic_write :: "bool \<Rightarrow> date \<Rightarrow> readonly_record \<Rightarrow> record_files \<Rightarrow> record_files" where
  "atomic_write ok day rec F = (if ok then F(day \<mapsto> rec) else F)"

definition readonly_main ::
    "'s readonly_world \<Rightarrow> ('s \<Rightarrow> bool \<times> 's) \<Rightarrow> datetime option \<Rightarrow> record_files \<Rightarrow> 's \<Rightarrow>
     (int \<times> readonly_record) option \<times> record_files \<times> 's" where
  "readonly_main W disk now F s =
     (let ((code, rec, day), s1) = readonly_run W now s;
          (ok, s2) = disk s1
      in (if ok then Some (code, rec) else None, atomic_write ok day rec F, s2))"

section \<open>What reaches the disk\<close>

definition report_keys :: "string list" where
  "report_keys = [''queries'', ''orders_enabled'', ''account_reconciled'', ''api_id'', ''complete'', ''reason'', ''pages'',
     ''observed_rows'', ''connections'', ''quotes_observed'', ''malformed_frames'', ''fresh_before_close'', ''quote_saved'',
     ''failure_stage'', ''failure_kind'']"

text \<open>Flags, counts up to a million, the query ids and short texts of capitals, digits and underscores.\<close>

fun safe_value :: "pyval \<Rightarrow> bool" where
  "safe_value PyNone = False"
| "safe_value (PyBool _) = True"
| "safe_value (PyInt n) = small_count n"
| "safe_value (PyFloat _) = False"
| "safe_value (PyStr s) = (s \<in> set query_ids \<or> safe_reason_text s)"
| "safe_value (PyList vs) = (\<forall>v\<in>set vs. safe_value v)"
| "safe_value (PyDict d) = (\<forall>(k, v)\<in>set d. k \<in> set report_keys \<and> safe_value v)"

abbreviation safe_fields :: "(string \<times> pyval) list \<Rightarrow> bool" where
  "safe_fields d \<equiv> \<forall>(k, v)\<in>set d. k \<in> set report_keys \<and> safe_value v"

lemma clean_query_safe: "\<forall>x\<in>set (clean_query v). safe_value x"
  by (auto simp: clean_query_def report_keys_def split: pyval.splits prod.splits) (metis safe_value.simps(2,3,5))+

lemma clean_field_safe: "safe_fields (safe_reason v)"
  by (cases v) (auto simp: safe_reason_def safe_reason_text_def report_keys_def)

lemma clean_member_safe:
  assumes "k \<in> set report_keys"
  shows "safe_fields (safe_count rep k)" and "safe_fields (safe_flag rep k)"
  using assms by (cases "py_get rep k"; simp add: safe_count_def safe_flag_def small_count_def)+

lemma safe_codes_safe: "\<forall>(k, allowed)\<in>set safe_codes. k \<in> set report_keys \<and> (\<forall>s\<in>set allowed. safe_reason_text s)"
  by code_simp

lemma clean_members_safe:
  assumes "set ks \<subseteq> set report_keys"
  shows "\<forall>k\<in>set ks. safe_fields (safe_count rep k)" and "\<forall>k\<in>set ks. safe_fields (safe_flag rep k)"
  using clean_member_safe assms by blast+

lemma clean_code_safe: "spec \<in> set safe_codes \<Longrightarrow> safe_fields (safe_code rep spec)"
  using safe_codes_safe by (cases "py_get rep (fst spec)") (auto simp: safe_code_def split: prod.splits)

lemma clean_codes_safe: "\<forall>spec\<in>set safe_codes. safe_fields (safe_code rep spec)"
  using clean_code_safe by blast

lemma safe_fields_join:
  "safe_fields (xs @ ys) \<longleftrightarrow> safe_fields xs \<and> safe_fields ys"
  "safe_fields (concat (map f zs)) \<longleftrightarrow> (\<forall>z\<in>set zs. safe_fields (f z))"
  by auto

lemma sanitized_safe: "safe_value (sanitize_rest_report v)" "safe_value (sanitize_ws_report v)"
proof -
  have "safe_value x" if "x \<in> set (clean_queries v)" for x
    using that clean_query_safe by (auto simp: clean_queries_def split: pyval.splits)
  then show "safe_value (sanitize_rest_report v)" by (simp add: sanitize_rest_report_def report_keys_def)
  have "safe_fields (clean_stream v)"
    unfolding clean_stream_def Let_def safe_fields_join
    by (intro conjI clean_field_safe clean_codes_safe clean_members_safe) (simp_all add: report_keys_def)
  then show "safe_value (sanitize_ws_report v)" by (simp add: sanitize_ws_report_def)
qed

section \<open>What a run starts\<close>

definition logged_readonly :: "'s readonly_world \<Rightarrow> ('s \<times> command_log) readonly_world" where
  "logged_readonly W = \<lparr>ro_executable = ro_executable W, ro_now = logging (ro_now W),
     ro_child = (\<lambda>c (s, l). case ro_child W c s of (x, s') \<Rightarrow> (x, s', l @ [c])), ro_loads = ro_loads W\<rparr>"

lemma logged_readonly_simps [simp]:
  "ro_executable (logged_readonly W) = ro_executable W" "ro_now (logged_readonly W) = logging (ro_now W)"
  "ro_loads (logged_readonly W) = ro_loads W"
  by (simp_all add: logged_readonly_def)

lemma parse_json_logged [simp]: "parse_json (logged_readonly W) = parse_json W"
  by (simp add: fun_eq_iff parse_json_def)

lemma run_captured_log: "run_captured (logged_readonly W) c (s, l) = (x, s', l') \<Longrightarrow> l' = l @ [c]"
  by (auto simp: run_captured_def logged_readonly_def split: prod.splits child.splits)

lemma commit_log: "commit (logged_readonly W) (s, l) = (x, s', l') \<Longrightarrow> l' = l @ [git_command]"
  by (auto simp: commit_def Let_def dest: run_captured_log split: prod.splits)

lemma logging_log: "logging f (s, l) = (x, s', l') \<Longrightarrow> l' = l"
  by (auto simp: logging_def split: prod.splits)

text \<open>The two ends of a run.\<close>

lemma readonly_run_cases:
  assumes "readonly_run W now s = ((code, rec, day), s')"
  obtains (skipped) started s1 sha where "(case now of None \<Rightarrow> ro_now W s | Some t \<Rightarrow> (t, s)) = (started, s1)"
      "commit W s1 = (sha, s')" "market_gate started \<noteq> ''MARKET_OPEN''" "code = 0" "rr_steps rec = []"
      "rr_status rec = ''SKIPPED_OUTSIDE_MARKET''" "day = record_day (in_kst started)"
  | (ran) started s1 sha s2 rc out s3 wc wout where "(case now of None \<Rightarrow> ro_now W s | Some t \<Rightarrow> (t, s)) = (started, s1)"
      "commit W s1 = (sha, s2)" "market_gate started = ''MARKET_OPEN''"
      "run_captured W (fst (fixed_commands (ro_executable W) ''005930'')) s2 = ((rc, out), s3)"
      "run_captured W (snd (fixed_commands (ro_executable W) ''005930'')) s3 = ((wc, wout), s')"
      "rr_steps rec = [\<lparr>rs_step = ''READ_ONLY_ACCOUNT'', rs_exit_code = rc,
          rs_report = sanitize_rest_report (parse_json W out)\<rparr>,
        \<lparr>rs_step = ''READ_ONLY_WEBSOCKET'', rs_exit_code = wc, rs_report = sanitize_ws_report (parse_json W wout)\<rparr>]"
      "rr_status rec = (if rest_ok rc (parse_json W out) \<and> quotes_ok wc (parse_json W wout) then ''PASS'' else ''INCOMPLETE'')"
      "code = (if rest_ok rc (parse_json W out) \<and> quotes_ok wc (parse_json W wout) then 0 else 1)"
      "day = record_day (in_kst started)"
proof -
  obtain started s1 where st: "(case now of None \<Rightarrow> ro_now W s | Some t \<Rightarrow> (t, s)) = (started, s1)"
    by (metis prod.collapse)
  obtain sha s2 where c: "commit W s1 = (sha, s2)" by (metis prod.collapse)
  show thesis
  proof (cases "market_gate started = ''MARKET_OPEN''")
    case False
    then show thesis using assms st c by (intro skipped) (auto simp: readonly_run_def Let_def)
  next
    case True
    obtain rc out s3 where r: "run_captured W (fst (fixed_commands (ro_executable W) ''005930'')) s2 = ((rc, out), s3)"
      by (metis prod.collapse)
    obtain wc wout s4 where w: "run_captured W (snd (fixed_commands (ro_executable W) ''005930'')) s3 = ((wc, wout), s4)"
      by (metis prod.collapse)
    note run = assms [unfolded readonly_run_def st c prod.case Let_def, simplified True]
    have "s4 = s'" using run r w by (auto simp: fixed_commands_def)
    then show thesis using run st c True r w
      by (intro ran [OF st c True r]) (auto simp: fixed_commands_def)
  qed
qed

section \<open>Properties\<close>

definition started_at :: "'s readonly_world \<Rightarrow> datetime option \<Rightarrow> 's \<Rightarrow> datetime" where
  "started_at W now s = (case now of None \<Rightarrow> fst (ro_now W s) | Some t \<Rightarrow> t)"

text \<open>The scheduled read-only run starts only git outside the weekday window of 09:00 to 15:20, and inside it git and
  then the two fixed read-only probes, each once and none of them an order. Its record passes exactly when both probes
  exited with 0, five whitelisted query reports survived sanitizing, and a quote was observed that was fresh at the
  end; the exit code is 1 exactly for an incomplete record.\<close>

theorem readonly_run_verdict:
  assumes "readonly_run (logged_readonly W) now (s, []) = ((code, rec, day), s', cmds)"
  shows "(if market_gate (started_at W now s) = ''MARKET_OPEN''
      then cmds = [git_command, fst (fixed_commands (ro_executable W) ''005930''), snd (fixed_commands (ro_executable W) ''005930'')]
      else cmds = [git_command] \<and> rr_steps rec = [] \<and> rr_status rec = ''SKIPPED_OUTSIDE_MARKET'') \<and>
    (rr_status rec = ''PASS'' \<longleftrightarrow> market_gate (started_at W now s) = ''MARKET_OPEN'' \<and>
      (\<exists>rest ws n. rr_steps rec =
         [\<lparr>rs_step = ''READ_ONLY_ACCOUNT'', rs_exit_code = 0, rs_report = sanitize_rest_report rest\<rparr>,
          \<lparr>rs_step = ''READ_ONLY_WEBSOCKET'', rs_exit_code = 0, rs_report = sanitize_ws_report ws\<rparr>] \<and>
         length (clean_queries rest) = 5 \<and> 0 < n \<and> py_get (clean_stream ws) ''quotes_observed'' = PyInt n \<and>
         py_get (clean_stream ws) ''fresh_before_close'' = PyBool True)) \<and>
    code = (if rr_status rec = ''INCOMPLETE'' then 1 else 0)"
  using assms
proof (cases rule: readonly_run_cases)
  case (skipped started s1 sha)
  then have "started = started_at W now s" "snd s1 = []"
    by (auto simp: started_at_def logging_def split: option.splits prod.splits)
  then show ?thesis using skipped by (cases s1) (auto dest: commit_log)
next
  case (ran started s1 sha s2 rc out s3 wc wout)
  have st: "started = started_at W now s" "snd s1 = []"
    using ran(1) by (auto simp: started_at_def logging_def split: option.splits prod.splits)
  have "snd s2 = [git_command]" using ran(2) st(2) by (cases s1; cases s2) (auto dest: commit_log)
  then have "cmds = [git_command, fst (fixed_commands (ro_executable W) ''005930''), snd (fixed_commands (ro_executable W) ''005930'')]"
    using ran(4,5) by (cases s2; cases s3) (auto dest!: run_captured_log)
  moreover have "(\<exists>rest ws n. rr_steps rec =
         [\<lparr>rs_step = ''READ_ONLY_ACCOUNT'', rs_exit_code = 0, rs_report = sanitize_rest_report rest\<rparr>,
          \<lparr>rs_step = ''READ_ONLY_WEBSOCKET'', rs_exit_code = 0, rs_report = sanitize_ws_report ws\<rparr>] \<and>
         length (clean_queries rest) = 5 \<and> 0 < n \<and> py_get (clean_stream ws) ''quotes_observed'' = PyInt n \<and>
         py_get (clean_stream ws) ''fresh_before_close'' = PyBool True) \<longleftrightarrow>
      rest_ok rc (parse_json W out) \<and> quotes_ok wc (parse_json W wout)"
    unfolding ran(6) rest_ok_def quotes_ok_def
    by (auto simp: query_ids_def sanitize_rest_report_def sanitize_ws_report_def split: pyval.splits)
      (rule exI [of _ "parse_json W out"], simp, rule exI [of _ "parse_json W wout"], simp)
  ultimately show ?thesis using ran st(1) by auto
qed

text \<open>C19: Nothing that a probe printed reaches the record of the scheduled run except, under the documented keys and at any
  depth, flags, counts from 0 to a million, the ids of the five queries, and texts of 1 to 64 capitals, digits and
  underscores: no other key, no fraction, no other text and no larger number. It is a filter of shapes only; a reason that
  consists of digits passes it.\<close>

theorem readonly_record_sanitized:
  "\<forall>step\<in>set (rr_steps (fst (snd (fst (readonly_run W now s))))). safe_value (rs_report step)"
proof -
  obtain code rec day s' where run: "readonly_run W now s = ((code, rec, day), s')" by (metis prod.collapse)
  from run have "\<forall>step\<in>set (rr_steps rec). safe_value (rs_report step)"
    by (cases rule: readonly_run_cases) (auto simp: sanitized_safe)
  then show ?thesis using run by simp
qed

lemma observed_rows_nonneg: "0 \<le> observed_rows c"
  unfolding observed_rows_def by (rule sum_list_nonneg) auto

text \<open>What the account probe prints survives the sanitizing of the scheduled run: when the probe exits with 0 and no
  query has more than a million rows, the reports of all five queries are kept unchanged, so the account step of the
  record is accepted.\<close>

theorem probe_report_survives:
  assumes "probe_account W True max_pages True s = (Ended 0 r, s')"
  shows "\<exists>cs. r = account_report cs \<and>
    ((\<forall>c\<in>set cs. observed_rows c \<le> 1000000) \<longrightarrow> clean_queries r = map query_report cs \<and> rest_ok 0 r)"
proof -
  have pages: "1 \<le> max_pages" "max_pages \<le> 10"
    using assms by (auto simp: probe_account_def account_tool_def split: if_splits)
  obtain cs where cs: "r = account_report cs" "map rc_query cs = map fst (probe_specs True)"
    "\<forall>c\<in>set cs. read_in_full max_pages c"
    using probe_run_full [OF assms] by blast
  have ids: "query_value q \<in> set query_ids" for q by (cases q) (simp_all add: query_ids_def)
  have whole: "safe_reason_text ''QUERY_COMPLETE_ONLY''" by code_simp
  have keep: "clean_query (query_report c) = [query_report c]" if "c \<in> set cs" "observed_rows c \<le> 1000000" for c
  proof -
    have "small_count (int (length (rc_pages c)))" "small_count (observed_rows c)"
      using that cs(3) pages observed_rows_nonneg [of c] by (auto simp: small_count_def read_in_full_def)
    then show ?thesis using that cs(3) ids whole
      by (auto simp: clean_query_def query_report_def py_get_def read_in_full_def)
  qed
  have "clean_queries r = map query_report cs" if "\<forall>c\<in>set cs. observed_rows c \<le> 1000000"
  proof -
    have "clean_queries r = concat (map (\<lambda>c. clean_query (query_report c)) cs)"
      by (simp add: cs(1) clean_queries_def report_fields_def account_report_def py_get_def comp_def)
    also have "map (\<lambda>c. clean_query (query_report c)) cs = map (\<lambda>c. [query_report c]) cs"
      using keep that by (intro map_cong) auto
    also have "concat (map (\<lambda>c. [query_report c]) cs) = map query_report cs" by (induction cs) simp_all
    finally show ?thesis .
  qed
  moreover have "length cs = 5"
    using arg_cong [OF cs(2), of length] by (simp add: probe_specs_def account_specs_def history_specs_def)
  ultimately show ?thesis using cs(1) by (intro exI [of _ cs]) (auto simp: rest_ok_def query_ids_def)
qed

section \<open>A run\<close>

definition example_query_report :: "string \<Rightarrow> pyval" where
  "example_query_report api_id = PyDict [(''api_id'', PyStr api_id), (''complete'', PyBool True),
     (''reason'', PyStr ''QUERY_COMPLETE_ONLY''), (''pages'', PyInt 1), (''observed_rows'', PyInt 2),
     (''account'', PyStr ''5012345678'')]"

definition example_readonly :: "int readonly_world" where
  "example_readonly = \<lparr>ro_executable = ''python'', ro_now = (\<lambda>n. (\<lparr>dt_instant = seconds late_monday, dt_offset = Some 0\<rparr>, n)),
     ro_child = (\<lambda>c n. (Exited 0 (if ''tools.probe_kiwoom_rest'' \<in> set c then ''R'' else ''Q'') [], n + 1)),
     ro_loads = (\<lambda>t. Some (PyDict (if t = ''R'' then [(''queries'', PyList (map example_query_report query_ids))]
       else [(''quotes_observed'', PyInt 3), (''fresh_before_close'', PyBool True), (''token'', PyStr ''secret'')])))\<rparr>"

theorem readonly_run_verdict_witness:
  "snd (snd (readonly_run (logged_readonly example_readonly) None (0, []))) =
     [git_command, fst (fixed_commands ''python'' ''005930''), snd (fixed_commands ''python'' ''005930'')]"
proof -
  let ?r = "readonly_run (logged_readonly example_readonly) None (0, [])"
  have "?r = ((fst (fst ?r), fst (snd (fst ?r)), snd (snd (fst ?r))), fst (snd ?r), snd (snd ?r))" by simp
  note v = readonly_run_verdict [OF this]
  have "market_gate (started_at example_readonly None 0) = ''MARKET_OPEN''" by code_simp
  then show ?thesis using v by (simp add: example_readonly_def)
qed

lemma example_run_passes:
  "(case readonly_run example_readonly None 0 of ((code, rec, day), n) \<Rightarrow> (code, rr_status rec, n)) = (0, ''PASS'', 3)"
  by code_simp

theorem readonly_record_sanitized_witness:
  "safe_value (rs_report (rr_steps (fst (snd (fst (readonly_run example_readonly None 0)))) ! 0))"
proof -
  have "length (rr_steps (fst (snd (fst (readonly_run example_readonly None 0))))) = 2" by code_simp
  then show ?thesis using readonly_record_sanitized [of example_readonly None 0] by simp
qed

theorem probe_report_survives_witness:
  "(case probe_account probe_world True 3 True 0 of (Ended k r, s) \<Rightarrow> rest_ok 0 r | _ \<Rightarrow> False)"
proof -
  let ?run = "probe_account probe_world True 3 True 0"
  have "(case ?run of (Ended k r, s) \<Rightarrow> k = 0 | _ \<Rightarrow> False)" by code_simp
  then obtain r s' where run: "?run = (Ended 0 r, s')" by (auto split: prod.splits probe_end.splits)
  obtain cs where cs: "r = account_report cs"
    "(\<forall>c\<in>set cs. observed_rows c \<le> 1000000) \<longrightarrow> clean_queries r = map query_report cs \<and> rest_ok 0 r"
    using probe_report_survives [OF run] by blast
  have "(case ?run of (Ended k (PyDict d), s) \<Rightarrow> (case py_get d ''queries'' of PyList qs \<Rightarrow>
      list_all (\<lambda>v. case v of PyDict q \<Rightarrow> (case py_get q ''observed_rows'' of PyInt n \<Rightarrow> n \<le> 1000000 | _ \<Rightarrow> False) | _ \<Rightarrow> False) qs
      | _ \<Rightarrow> False) | _ \<Rightarrow> False)" by code_simp
  then have "\<forall>c\<in>set cs. observed_rows c \<le> 1000000"
    unfolding run by (simp add: cs(1) account_report_def query_report_def py_get_def list_all_iff)
  then show ?thesis using cs(2) run by simp
qed

end
