(* ===== verification/LegacyTrading.thy ===== *)
theory LegacyTrading
  imports Floats Interfaces "HOL-Library.AList"
begin

text \<open>
  The trading core of the archived engine: \<open>core/models.py\<close>, \<open>core/portfolio.py\<close>, \<open>core/risk_manager.py\<close> and
  \<open>core/order_manager.py\<close> under \<open>back/legacy-2026-09-13\<close>. A dictionary is an association list in insertion
  order, where an update keeps the place of a key. Prices are doubles. The reasons of the risk manager are Korean
  sentences and stand as constructors.
\<close>

section \<open>Models\<close>

datatype trade_side = Buy_side | Sell_side

datatype trade_order_type = Market_order | Limit_order

datatype trade_status = St_pending | St_submitted | St_partial | St_filled | St_canceled | St_rejected

record trade_signal =
  tg_symbol :: string
  tg_side :: trade_side
  tg_qty :: int
  tg_reason :: string
  tg_price :: "double option"
  tg_order_type :: trade_order_type
  tg_ts :: datetime

record trade_order =
  od_id :: string
  od_symbol :: string
  od_side :: trade_side
  od_qty :: int
  od_price :: "double option"
  od_order_type :: trade_order_type
  od_status :: trade_status
  od_filled :: int
  od_avg_fill_price :: double
  od_reason :: string
  od_ts :: datetime

record trade_fill =
  tf_order_id :: string
  tf_symbol :: string
  tf_side :: trade_side
  tf_qty :: int
  tf_price :: double
  tf_ts :: datetime

section \<open>The portfolio\<close>

record stock_lot =
  hd_symbol :: string
  hd_qty :: int
  hd_avg_price :: double

record trade_portfolio =
  pf_cash :: double
  pf_positions :: "(string \<times> stock_lot) list"
  pf_realized :: double

definition new_portfolio :: "double \<Rightarrow> trade_portfolio" where
  "new_portfolio initial_cash = \<lparr>pf_cash = initial_cash, pf_positions = [], pf_realized = 0\<rparr>"

definition get_holding :: "trade_portfolio \<Rightarrow> string \<Rightarrow> stock_lot" where
  "get_holding P symb = (case map_of (pf_positions P) symb of
     Some h \<Rightarrow> h | None \<Rightarrow> \<lparr>hd_symbol = symb, hd_qty = 0, hd_avg_price = 0\<rparr>)"

definition has_holding :: "trade_portfolio \<Rightarrow> string \<Rightarrow> bool" where
  "has_holding P symb \<longleftrightarrow> hd_qty (get_holding P symb) > 0"

definition put_holding :: "string \<Rightarrow> stock_lot \<Rightarrow> trade_portfolio \<Rightarrow> trade_portfolio" where
  "put_holding symb h P = P\<lparr>pf_positions := AList.update symb h (pf_positions P)\<rparr>"

definition update_fill :: "trade_fill \<Rightarrow> trade_portfolio \<Rightarrow> trade_portfolio" where
  "update_fill f P =
     (let h = get_holding P (tf_symbol f)
      in case tf_side f of
        Buy_side \<Rightarrow>
          let total_cost = fadd (fmul (hd_avg_price h) (fint (hd_qty h))) (fmul (tf_price f) (fint (tf_qty f)));
              new_qty = hd_qty h + tf_qty f
          in put_holding (tf_symbol f)
               (h\<lparr>hd_avg_price := (if new_qty > 0 then fdiv total_cost (fint new_qty) else 0), hd_qty := new_qty\<rparr>)
               (P\<lparr>pf_cash := fsub (pf_cash P) (fmul (tf_price f) (fint (tf_qty f)))\<rparr>)
      | Sell_side \<Rightarrow>
          if hd_qty h \<le> 0 then P
          else let sell_qty = min (tf_qty f) (hd_qty h);
                   pnl = fmul (fsub (tf_price f) (hd_avg_price h)) (fint sell_qty);
                   left = hd_qty h - sell_qty
               in put_holding (tf_symbol f)
                    (h\<lparr>hd_qty := left, hd_avg_price := (if left = 0 then 0 else hd_avg_price h)\<rparr>)
                    (P\<lparr>pf_realized := fadd (pf_realized P) pnl,
                       pf_cash := fadd (pf_cash P) (fmul (tf_price f) (fint sell_qty))\<rparr>))"

definition total_positions :: "trade_portfolio \<Rightarrow> nat" where
  "total_positions P = length (filter (\<lambda>(_, h). hd_qty h > 0) (pf_positions P))"

section \<open>The risk manager\<close>

record risk_limits =
  rl_max_positions :: int
  rl_max_order_value :: double
  rl_daily_loss_limit :: double

definition default_limits :: risk_limits where
  "default_limits = \<lparr>rl_max_positions = 3, rl_max_order_value = 1000000, rl_daily_loss_limit = - 300000\<rparr>"

datatype risk_answer = Risk_ok | Daily_loss_exceeded | Order_value_exceeded | Too_many_positions | Nothing_to_sell

definition estimated_value :: "trade_signal \<Rightarrow> double" where
  "estimated_value g = (case tg_price g of
     Some p \<Rightarrow> if p > 0 then fmul p (fint (tg_qty g)) else 0 | None \<Rightarrow> 0)"

definition can_trade :: "risk_limits \<Rightarrow> trade_signal \<Rightarrow> trade_portfolio \<Rightarrow> risk_answer" where
  "can_trade L g P =
     (if pf_realized P \<le> rl_daily_loss_limit L then Daily_loss_exceeded
      else if estimated_value g > rl_max_order_value L then Order_value_exceeded
      else if tg_side g = Buy_side \<and> \<not> has_holding P (tg_symbol g) \<and> int (total_positions P) \<ge> rl_max_positions L
      then Too_many_positions
      else if tg_side g = Sell_side \<and> hd_qty (get_holding P (tg_symbol g)) \<le> 0 then Nothing_to_sell
      else Risk_ok)"

section \<open>The order manager\<close>

record order_book =
  ob_orders :: "(string \<times> trade_order) list"
  ob_local_ids :: "string \<rightharpoonup> string"

definition empty_book :: order_book where
  "empty_book = \<lparr>ob_orders = [], ob_local_ids = Map.empty\<rparr>"

definition register_order :: "trade_order \<Rightarrow> order_book \<Rightarrow> order_book" where
  "register_order x B = B\<lparr>ob_orders := AList.update (od_id x) x (ob_orders B)\<rparr>"

definition get_order :: "order_book \<Rightarrow> string \<Rightarrow> trade_order option" where
  "get_order B i = map_of (ob_orders B) i"

definition resolve_order_id :: "order_book \<Rightarrow> string \<Rightarrow> string" where
  "resolve_order_id B i = (case ob_local_ids B i of Some j \<Rightarrow> j | None \<Rightarrow> i)"

definition is_open :: "trade_order \<Rightarrow> bool" where
  "is_open x \<longleftrightarrow> od_status x \<in> {St_pending, St_submitted, St_partial}"

definition exists_open_order :: "order_book \<Rightarrow> string \<Rightarrow> bool" where
  "exists_open_order B symb \<longleftrightarrow> (\<exists>x\<in>set (map snd (ob_orders B)). od_symbol x = symb \<and> is_open x)"

text \<open>\<open>sort(key=ts, reverse=True)\<close> is stable; the first of the latest orders is returned.\<close>

definition latest_order :: "trade_order list \<Rightarrow> trade_order option" where
  "latest_order xs = (case sort_key (\<lambda>x. - dt_instant (od_ts x)) xs of [] \<Rightarrow> None | x # _ \<Rightarrow> Some x)"

definition get_open_order_by_symbol :: "order_book \<Rightarrow> string \<Rightarrow> trade_order option" where
  "get_open_order_by_symbol B symb =
     latest_order (filter (\<lambda>x. od_symbol x = symb \<and> is_open x) (map snd (ob_orders B)))"

definition get_open_sell_order_by_symbol :: "order_book \<Rightarrow> string \<Rightarrow> trade_order option" where
  "get_open_sell_order_by_symbol B symb =
     latest_order (filter (\<lambda>x. od_symbol x = symb \<and> od_side x = Sell_side \<and> is_open x) (map snd (ob_orders B)))"

definition bind_broker_order_id :: "string \<Rightarrow> string \<Rightarrow> order_book \<Rightarrow> string option \<times> order_book" where
  "bind_broker_order_id symb broker_id B =
     (if broker_id = [] then (None, B)
      else case ob_local_ids B broker_id of
        Some i \<Rightarrow> (Some i, B)
      | None \<Rightarrow>
          (case get_open_order_by_symbol B symb of
             None \<Rightarrow> (None, B)
           | Some x \<Rightarrow> (Some (od_id x), B\<lparr>ob_local_ids := (ob_local_ids B)(broker_id \<mapsto> od_id x)\<rparr>)))"

definition filled_order :: "int \<Rightarrow> double \<Rightarrow> int option \<Rightarrow> trade_order \<Rightarrow> trade_order" where
  "filled_order qty price unfilled x =
     (let new_filled = od_filled x + qty;
          remain = (case unfilled of Some n \<Rightarrow> n | None \<Rightarrow> max (od_qty x - new_filled) 0)
      in x\<lparr>od_filled := new_filled, od_avg_fill_price := price,
           od_status := (if remain \<le> 0 then St_filled else if new_filled > 0 then St_partial else St_submitted)\<rparr>)"

definition apply_order_fill :: "string \<Rightarrow> int \<Rightarrow> double \<Rightarrow> int option \<Rightarrow> order_book \<Rightarrow> trade_order option \<times> order_book" where
  "apply_order_fill i qty price unfilled B =
     (case get_order B i of
        None \<Rightarrow> (None, B)
      | Some x \<Rightarrow> (let y = filled_order qty price unfilled x
                  in (Some y, B\<lparr>ob_orders := AList.update i y (ob_orders B)\<rparr>)))"

section \<open>Holdings\<close>

lemma get_put_holding [simp]: "get_holding (put_holding symb h P) s = (if s = symb then h else get_holding P s)"
  by (simp add: get_holding_def put_holding_def update_conv')

lemma get_holding_fields [simp]:
  "get_holding (P\<lparr>pf_cash := c\<rparr>) = get_holding P" "get_holding (P\<lparr>pf_realized := c\<rparr>) = get_holding P"
  by (simp_all add: fun_eq_iff get_holding_def)

lemma put_holding_fields [simp]:
  "pf_cash (put_holding symb h P) = pf_cash P" "pf_realized (put_holding symb h P) = pf_realized P"
  by (simp_all add: put_holding_def)

definition held_symbols :: "trade_portfolio \<Rightarrow> string set" where
  "held_symbols P = {s. has_holding P s}"

definition portfolio_ok :: "trade_portfolio \<Rightarrow> bool" where
  "portfolio_ok P \<longleftrightarrow> distinct (map fst (pf_positions P))"

lemma total_positions_card:
  assumes "portfolio_ok P"
  shows "finite (held_symbols P) \<and> total_positions P = card (held_symbols P)"
proof -
  let ?xs = "filter (\<lambda>(_, h). hd_qty h > 0) (pf_positions P)"
  have d: "distinct (map fst ?xs)" using assms by (simp add: portfolio_ok_def distinct_map_filter)
  have "s \<in> held_symbols P \<longleftrightarrow> s \<in> set (map fst ?xs)" for s
  proof
    assume "s \<in> held_symbols P"
    then obtain h where "map_of (pf_positions P) s = Some h" "hd_qty h > 0"
      by (auto simp: held_symbols_def has_holding_def get_holding_def split: option.splits)
    then show "s \<in> set (map fst ?xs)" by (force dest: map_of_SomeD)
  next
    assume "s \<in> set (map fst ?xs)"
    then obtain h where "(s, h) \<in> set (pf_positions P)" "hd_qty h > 0" by auto
    then show "s \<in> held_symbols P"
      using assms by (auto simp: portfolio_ok_def held_symbols_def has_holding_def get_holding_def)
  qed
  then have "held_symbols P = set (map fst ?xs)" by blast
  then show ?thesis using distinct_card [OF d] by (simp add: total_positions_def)
qed

lemma update_fill_ok: "portfolio_ok P \<Longrightarrow> portfolio_ok (update_fill f P)"
  by (auto simp: update_fill_def portfolio_ok_def put_holding_def Let_def distinct_update split: trade_side.splits)

section \<open>An exact account\<close>

text \<open>What a portfolio promises: whole won are moved exactly, and no more is sold than is held.\<close>

type_synonym account = "int \<times> (string \<Rightarrow> int)"

definition book_fill :: "trade_fill \<Rightarrow> int \<Rightarrow> account \<Rightarrow> account" where
  "book_fill f price = (\<lambda>(cash, qty).
     let s = tf_symbol f; n = (case tf_side f of Buy_side \<Rightarrow> tf_qty f | Sell_side \<Rightarrow> - min (tf_qty f) (max (qty s) 0))
     in (cash - price * n, qty(s := qty s + n)))"

definition account_of :: "trade_portfolio \<Rightarrow> account" where
  "account_of P = (\<lfloor>pf_cash P\<rfloor>, \<lambda>s. hd_qty (get_holding P s))"

text \<open>A fill of a non-negative quantity at a whole price, with room for its amount in 53 bits.\<close>

definition whole_fill :: "trade_fill \<Rightarrow> bool" where
  "whole_fill f \<longleftrightarrow> tf_price f \<in> \<int> \<and> 0 \<le> tf_price f \<and> 0 \<le> tf_qty f"

definition amount_of :: "trade_fill \<Rightarrow> int" where
  "amount_of f = \<lfloor>tf_price f\<rfloor> * tf_qty f"

definition cash_ok :: "int \<Rightarrow> trade_portfolio \<Rightarrow> bool" where
  "cash_ok room P \<longleftrightarrow> pf_cash P \<in> \<int> \<and> \<bar>\<lfloor>pf_cash P\<rfloor>\<bar> \<le> room \<and> (\<forall>s. 0 \<le> hd_qty (get_holding P s))"

lemma whole_amount:
  assumes "tf_price f = of_int p" and "0 \<le> p" and "0 \<le> n" and "n \<le> tf_qty f" and "p * tf_qty f \<le> 2 ^ 53" and "0 < p"
  shows "fmul (tf_price f) (fint n) = of_int (p * n)"
proof -
  have "n \<le> p * n" using assms(3,6) by (simp add: mult_le_cancel_right1)
  moreover have pn: "p * n \<le> p * tf_qty f" using assms(2,4) by (rule mult_left_mono [rotated])
  moreover have "0 \<le> p * n" using assms(2,3) by simp
  ultimately have "\<bar>n\<bar> \<le> 2 ^ 53" "\<bar>p * n\<bar> \<le> 2 ^ 53" using assms(3,5) by linarith+
  then show ?thesis using assms(1) whole_ops(3,4) by metis
qed

lemma whole_amount_any:
  assumes "tf_price f = of_int p" and "0 \<le> p" and "0 \<le> n" and "n \<le> tf_qty f" and "p * tf_qty f \<le> 2 ^ 53"
  shows "fmul (tf_price f) (fint n) = of_int (p * n)"
proof (cases "p = 0")
  case True
  then show ?thesis using assms(1) by (simp add: fmul_def)
next
  case False
  then have "0 < p" using assms(2) by simp
  then show ?thesis by (rule whole_amount [OF assms])
qed

lemma update_fill_books:
  assumes f: "whole_fill f" and P: "cash_ok room P" and room: "room + amount_of f \<le> 2 ^ 53"
  shows "cash_ok (room + amount_of f) (update_fill f P) \<and> account_of (update_fill f P) = book_fill f \<lfloor>tf_price f\<rfloor> (account_of P)"
proof -
  obtain p where p: "tf_price f = of_int p" and p0: "0 \<le> p" using f by (auto simp: whole_fill_def elim: Ints_cases)
  obtain c where c: "pf_cash P = of_int c" and cr: "\<bar>c\<bar> \<le> room" using P by (auto simp: cash_ok_def elim: Ints_cases)
  have q: "0 \<le> hd_qty (get_holding P s)" for s using P by (simp add: cash_ok_def)
  have n: "0 \<le> tf_qty f" using f by (simp add: whole_fill_def)
  have amount: "amount_of f = p * tf_qty f" by (simp add: amount_of_def p)
  have big: "p * tf_qty f \<le> 2 ^ 53" using room cr amount by linarith
  have moved: "fsub (of_int c) (of_int (p * k)) = of_int (c - p * k)" "fadd (of_int c) (of_int (p * k)) = of_int (c + p * k)"
    "\<bar>c - p * k\<bar> \<le> room + p * tf_qty f" "\<bar>c + p * k\<bar> \<le> room + p * tf_qty f" if "0 \<le> k" "k \<le> tf_qty f" for k
  proof -
    have "0 \<le> p * k" "p * k \<le> p * tf_qty f" using that p0 by (simp_all add: mult_left_mono)
    then show "\<bar>c - p * k\<bar> \<le> room + p * tf_qty f" "\<bar>c + p * k\<bar> \<le> room + p * tf_qty f" using cr by linarith+
    then have "\<bar>c - p * k\<bar> \<le> 2 ^ 53" "\<bar>c + p * k\<bar> \<le> 2 ^ 53" using room amount by linarith+
    then show "fsub (of_int c) (of_int (p * k)) = of_int (c - p * k)" "fadd (of_int c) (of_int (p * k)) = of_int (c + p * k)"
      using whole_ops(1,2) by blast+
  qed
  let ?h = "hd_qty (get_holding P (tf_symbol f))"
  have fm: "fmul (of_int p) (fint k) = of_int (p * k)" if "0 \<le> k" "k \<le> tf_qty f" for k
    using whole_amount_any [OF p p0 that big] p by simp
  show ?thesis
  proof (cases "tf_side f")
    case Buy_side
    then show ?thesis
      using p c n q moved [OF n order_refl] fm [OF n order_refl] amount
      by (auto simp: update_fill_def cash_ok_def account_of_def book_fill_def Let_def fun_eq_iff
          simp del: of_int_mult of_int_diff of_int_add)
  next
    case Sell_side
    show ?thesis
    proof (cases "?h \<le> 0")
      case True
      then have "?h = 0" using q [of "tf_symbol f"] by simp
      then show ?thesis
        using Sell_side c add_mono [OF cr mult_nonneg_nonneg [OF p0 n]] q n amount
        by (auto simp: min_absorb2 update_fill_def cash_ok_def account_of_def book_fill_def Let_def fun_eq_iff
          simp del: of_int_mult of_int_diff of_int_add)
    next
      case False
      then have k: "0 \<le> min (tf_qty f) ?h" "min (tf_qty f) ?h \<le> tf_qty f" using n by auto
      then show ?thesis
        using Sell_side False p c q moved [OF k] fm [OF k] amount
        by (auto simp: update_fill_def cash_ok_def account_of_def book_fill_def Let_def fun_eq_iff max_def
          simp del: of_int_mult of_int_diff of_int_add)
    qed
  qed
qed

section \<open>Trading under the risk manager\<close>

text \<open>A fill of an approved signal, applied before anything else is approved.\<close>

inductive trade_step :: "risk_limits \<Rightarrow> trade_portfolio \<Rightarrow> trade_portfolio \<Rightarrow> bool" for L where
  approved_fill: "can_trade L g P = Risk_ok \<Longrightarrow> tf_symbol f = tg_symbol g \<Longrightarrow> tf_side f = tg_side g \<Longrightarrow> 0 \<le> tf_qty f \<Longrightarrow>
    trade_step L P (update_fill f P)"

inductive_cases trade_stepE: "trade_step L P P'"

definition within_limits :: "risk_limits \<Rightarrow> trade_portfolio \<Rightarrow> bool" where
  "within_limits L P \<longleftrightarrow> portfolio_ok P \<and> int (total_positions P) \<le> rl_max_positions L \<and> (\<forall>s. 0 \<le> hd_qty (get_holding P s))"

lemma update_fill_qty:
  "hd_qty (get_holding (update_fill f P) s) =
     (if s \<noteq> tf_symbol f then hd_qty (get_holding P s)
      else case tf_side f of Buy_side \<Rightarrow> hd_qty (get_holding P s) + tf_qty f
        | Sell_side \<Rightarrow> if hd_qty (get_holding P s) \<le> 0 then hd_qty (get_holding P s)
            else hd_qty (get_holding P s) - min (tf_qty f) (hd_qty (get_holding P s)))"
  by (auto simp: update_fill_def Let_def split: trade_side.splits)

lemma trade_step_within:
  assumes "within_limits L P" and "trade_step L P P'"
  shows "within_limits L P'"
  using assms(2)
proof cases
  case (approved_fill g f)
  have ok: "portfolio_ok P" "portfolio_ok P'" using assms(1) approved_fill(1) update_fill_ok by (auto simp: within_limits_def)
  have nonneg: "0 \<le> hd_qty (get_holding P' s)" for s
    using assms(1) approved_fill by (cases "tg_side g") (auto simp: within_limits_def update_fill_qty)
  have sub: "held_symbols P' \<subseteq> (if tf_side f = Buy_side then insert (tf_symbol f) (held_symbols P) else held_symbols P)"
    using approved_fill by (cases "tg_side g") (auto simp: held_symbols_def has_holding_def update_fill_qty split: if_splits)
  have fin: "finite (held_symbols P)" and tot: "total_positions P = card (held_symbols P)"
    using total_positions_card [OF ok(1)] by auto
  have "int (card (held_symbols P')) \<le> rl_max_positions L"
  proof (cases "tf_side f = Buy_side \<and> tf_symbol f \<notin> held_symbols P")
    case True
    then have "int (total_positions P) < rl_max_positions L"
      using approved_fill by (auto simp: can_trade_def held_symbols_def split: if_splits)
    moreover have "card (held_symbols P') \<le> Suc (card (held_symbols P))"
      using card_mono [of "insert (tf_symbol f) (held_symbols P)" "held_symbols P'"] sub True fin by simp
    ultimately show ?thesis using tot by linarith
  next
    case False
    then have "held_symbols P' \<subseteq> held_symbols P" using sub by (auto split: if_splits)
    then have "card (held_symbols P') \<le> total_positions P" using card_mono [OF fin] tot by simp
    moreover have "int (total_positions P) \<le> rl_max_positions L" using assms(1) by (simp add: within_limits_def)
    ultimately show ?thesis by linarith
  qed
  then show ?thesis using ok nonneg total_positions_card [OF ok(2)] by (simp add: within_limits_def)
qed

interpretation trading: transition_system "trade_step L" "within_limits L" for L
  by unfold_locales (rule trade_step_within)

section \<open>The order book\<close>

inductive book_step :: "order_book \<Rightarrow> order_book \<Rightarrow> bool" where
  registers: "book_step B (register_order x B)"
| binds: "book_step B (snd (bind_broker_order_id symb b B))"
| fills: "book_step B (snd (apply_order_fill i qty price unfilled B))"

inductive_cases book_stepE: "book_step B B'"

lemma book_step_ids: "book_step B B' \<Longrightarrow> ob_local_ids B \<subseteq>\<^sub>m ob_local_ids B'"
  by (elim book_stepE)
    (auto simp: register_order_def bind_broker_order_id_def apply_order_fill_def Let_def map_le_def split: option.splits)

interpretation order_books: growing_system book_step "\<lambda>_. True" "\<lambda>B B'. ob_local_ids B \<subseteq>\<^sub>m ob_local_ids B'"
  by unfold_locales (auto intro: book_step_ids map_le_trans)

lemma latest_order_iff:
  "latest_order xs = None \<longleftrightarrow> xs = []"
  "latest_order xs = Some x \<Longrightarrow> x \<in> set xs \<and> (\<forall>y\<in>set xs. dt_le (od_ts y) (od_ts x))"
proof -
  let ?k = "\<lambda>x. - dt_instant (od_ts x)"
  have s: "sorted (map ?k (sort_key ?k xs))" "set (sort_key ?k xs) = set xs" by simp_all
  show "latest_order xs = None \<longleftrightarrow> xs = []"
    using length_sort [of ?k xs] by (cases "sort_key ?k xs") (auto simp: latest_order_def)
  assume "latest_order xs = Some x"
  then obtain r where r: "sort_key ?k xs = x # r" by (auto simp: latest_order_def split: list.splits)
  then show "x \<in> set xs \<and> (\<forall>y\<in>set xs. dt_le (od_ts y) (od_ts x))" using s by auto
qed

section \<open>Properties\<close>

text \<open>C28: The archived portfolio keeps exact books. Over any fills of non-negative quantities at whole prices, as long as
  the amounts fit in 53 bits, its cash moves by exactly the price of what was bought and sold, its quantities by the
  fills, and a sell never takes more than is held: the floats refine an account in integers.\<close>

theorem portfolio_refines_account:
  assumes "\<forall>f\<in>set fs. whole_fill f" and "cash_ok room P" and "room + sum_list (map amount_of fs) \<le> 2 ^ 53"
  shows "account_of (fold update_fill fs P) = fold (\<lambda>f. book_fill f \<lfloor>tf_price f\<rfloor>) fs (account_of P) \<and>
    (\<forall>s. 0 \<le> hd_qty (get_holding (fold update_fill fs P) s))"
  using assms
proof (induction fs arbitrary: P room)
  case Nil
  then show ?case by (simp add: cash_ok_def)
next
  case (Cons f fs)
  have "0 \<le> sum_list (map amount_of fs)"
    using Cons.prems(1) by (intro sum_list_nonneg) (auto simp: amount_of_def whole_fill_def)
  then have "room + amount_of f \<le> 2 ^ 53" using Cons.prems(3) by simp
  from update_fill_books [OF _ Cons.prems(2) this] Cons.prems(1)
  have step: "cash_ok (room + amount_of f) (update_fill f P)"
    "account_of (update_fill f P) = book_fill f \<lfloor>tf_price f\<rfloor> (account_of P)" by auto
  show ?case using Cons.IH [OF _ step(1)] Cons.prems step(2) by (simp add: add.assoc)
qed

text \<open>The risk manager bounds the archived engine: when every fill belongs to a signal it has just approved, the
  number of held symbols never exceeds its limit, whatever the signals, quantities and prices are, and no quantity is
  ever negative.\<close>

theorem approved_trades_within_limits:
  assumes "0 \<le> rl_max_positions L" and "(trade_step L)\<^sup>*\<^sup>* (new_portfolio cash) P"
  shows "int (total_positions P) \<le> rl_max_positions L \<and> (\<forall>s. 0 \<le> hd_qty (get_holding P s))"
proof -
  have "within_limits L (new_portfolio cash)"
    using assms(1) by (simp add: within_limits_def portfolio_ok_def new_portfolio_def total_positions_def get_holding_def)
  with trading.run_inv [OF assms(2)] show ?thesis by (simp add: within_limits_def)
qed

text \<open>A broker order number, once bound, keeps its local order: binding picks a latest open order of the symbol, and
  no later registration, binding or fill changes what the number resolves to.\<close>

theorem broker_id_stays_bound:
  assumes "bind_broker_order_id symb b B = (Some i, B')" and "book_step\<^sup>*\<^sup>* B' B''"
  shows "resolve_order_id B'' b = i \<and>
    (ob_local_ids B b = None \<longrightarrow> (\<exists>x. od_id x = i \<and> od_symbol x = symb \<and> is_open x \<and> x \<in> snd ` set (ob_orders B) \<and>
       (\<forall>y\<in>snd ` set (ob_orders B). od_symbol y = symb \<and> is_open y \<longrightarrow> dt_le (od_ts y) (od_ts x))))"
proof -
  have "ob_local_ids B' b = Some i"
    using assms(1) by (auto simp: bind_broker_order_id_def split: if_splits option.splits)
  with order_books.run_le [OF assms(2)] have "ob_local_ids B'' b = Some i"
    by (metis domI map_le_def)
  moreover have "\<exists>x. od_id x = i \<and> od_symbol x = symb \<and> is_open x \<and> x \<in> snd ` set (ob_orders B) \<and>
       (\<forall>y\<in>snd ` set (ob_orders B). od_symbol y = symb \<and> is_open y \<longrightarrow> dt_le (od_ts y) (od_ts x))"
    if unbound: "ob_local_ids B b = None"
  proof -
    obtain x where x: "get_open_order_by_symbol B symb = Some x" "od_id x = i"
      using assms(1) unbound by (auto simp: bind_broker_order_id_def split: if_splits option.splits)
    from latest_order_iff(2) [OF x(1) [unfolded get_open_order_by_symbol_def]] x(2) show ?thesis
      by (intro exI [of _ x]) auto
  qed
  ultimately show ?thesis by (simp add: resolve_order_id_def)
qed

section \<open>Worked trades\<close>

definition example_fill :: "trade_side \<Rightarrow> int \<Rightarrow> double \<Rightarrow> trade_fill" where
  "example_fill d n p = \<lparr>tf_order_id = ''A1'', tf_symbol = ''005930'', tf_side = d, tf_qty = n, tf_price = p,
     tf_ts = \<lparr>dt_instant = 0, dt_offset = None\<rparr>\<rparr>"

definition example_signal :: trade_signal where
  "example_signal = \<lparr>tg_symbol = ''005930'', tg_side = Buy_side, tg_qty = 2, tg_reason = [], tg_price = Some 70000,
     tg_order_type = Market_order, tg_ts = \<lparr>dt_instant = 0, dt_offset = None\<rparr>\<rparr>"

definition example_order :: "string \<Rightarrow> int \<Rightarrow> trade_order" where
  "example_order i t = \<lparr>od_id = i, od_symbol = ''005930'', od_side = Buy_side, od_qty = 10, od_price = Some 100,
     od_order_type = Limit_order, od_status = St_submitted, od_filled = 0, od_avg_fill_price = 0, od_reason = [],
     od_ts = \<lparr>dt_instant = t, dt_offset = None\<rparr>\<rparr>"

theorem portfolio_refines_account_witness:
  "fst (account_of (fold update_fill [example_fill Buy_side 3 70000, example_fill Sell_side 5 71000] (new_portfolio 1000000)))
     = 1003000"
proof -
  let ?fs = "[example_fill Buy_side 3 70000, example_fill Sell_side 5 71000]"
  have "\<forall>f\<in>set ?fs. whole_fill f" by (simp add: whole_fill_def example_fill_def)
  moreover have "cash_ok 1000000 (new_portfolio 1000000)" by (simp add: cash_ok_def new_portfolio_def get_holding_def)
  moreover have "1000000 + sum_list (map amount_of ?fs) \<le> 2 ^ 53" by (simp add: amount_of_def example_fill_def)
  ultimately have "account_of (fold update_fill ?fs (new_portfolio 1000000)) =
      fold (\<lambda>f. book_fill f \<lfloor>tf_price f\<rfloor>) ?fs (account_of (new_portfolio 1000000))"
    using portfolio_refines_account by blast
  then show ?thesis
    by (simp add: book_fill_def example_fill_def account_of_def new_portfolio_def get_holding_def)
qed

theorem approved_trades_within_limits_witness:
  "int (total_positions (update_fill (example_fill Buy_side 2 70000) (new_portfolio 1000000))) \<le> 3"
proof -
  have "fmul 70000 (fint 2) = 140000" using whole_ops(3) [of 70000 2] whole_ops(4) [of 2] by simp
  then have "can_trade default_limits example_signal (new_portfolio 1000000) = Risk_ok"
    by (simp add: can_trade_def estimated_value_def default_limits_def example_signal_def new_portfolio_def has_holding_def
        get_holding_def total_positions_def)
  then have "trade_step default_limits (new_portfolio 1000000) (update_fill (example_fill Buy_side 2 70000) (new_portfolio 1000000))"
    by (rule approved_fill) (simp_all add: example_fill_def example_signal_def)
  then show ?thesis
    using approved_trades_within_limits [of default_limits 1000000] by (auto simp: default_limits_def)
qed

theorem broker_id_stays_bound_witness:
  "resolve_order_id (snd (apply_order_fill ''L2'' 4 101 None (snd (bind_broker_order_id ''005930'' ''B7''
      (register_order (example_order ''L2'' 9) (register_order (example_order ''L1'' 5) empty_book)))))) ''B7'' = ''L2''"
proof -
  let ?B = "register_order (example_order ''L2'' 9) (register_order (example_order ''L1'' 5) empty_book)"
  let ?r = "bind_broker_order_id ''005930'' ''B7'' ?B"
  have "fst ?r = Some ''L2''" by code_simp
  then have "?r = (Some ''L2'', snd ?r)" by (metis prod.collapse)
  from broker_id_stays_bound [OF this] r_into_rtranclp [of book_step, OF fills] show ?thesis by blast
qed

text \<open>The average price of an order is overwritten by each fill: five shares at 100 and five at 200 average 200.\<close>

lemma average_price_overwritten:
  "(case apply_order_fill ''L1'' 5 200 None (snd (apply_order_fill ''L1'' 5 100 None (register_order (example_order ''L1'' 5) empty_book)))
    of (Some x, B) \<Rightarrow> (od_filled x, od_avg_fill_price x, od_status x)) = (10, 200, St_filled)"
  by code_simp

text \<open>A signal without a price passes the cap on the value of an order, whatever its quantity.\<close>

lemma unpriced_value_uncapped:
  "0 \<le> rl_max_order_value L \<Longrightarrow> tg_price g = None \<Longrightarrow> can_trade L g P \<noteq> Order_value_exceeded"
  by (simp add: can_trade_def estimated_value_def)

end
