(* ===== verification/Backtest.thy ===== *)
theory Backtest
  imports Floats "HOL-Library.AList"
begin

text \<open>
  The backtest of the archived engine: \<open>backtest/runner.py\<close> and the drawdown of \<open>backtest/metrics.py\<close> under
  \<open>back/legacy-2026-09-13\<close>. The strategy is injected; it is a record of functions on its own state, which see the
  portfolio and do not change it. A dictionary is an association list in insertion order; prices are doubles.
\<close>

section \<open>The simulated portfolio\<close>

record bar_tick =
  bk_symbol :: string
  bk_price :: double
  bk_volume :: double
  bk_ts :: datetime
  bk_open :: double
  bk_high :: double
  bk_low :: double
  bk_close :: double
  bk_change_pct :: double
  bk_strength :: double
  bk_volume_ratio :: double

record sim_position =
  sm_symbol :: string
  sm_qty :: int
  sm_avg_price :: double
  sm_highest_pct :: double
  sm_partial_taken :: bool

record sim_portfolio =
  sp_initial_cash :: double
  sp_cash :: double
  sp_realized :: double
  sp_positions :: "(string \<times> sim_position) list"

definition new_sim :: "double \<Rightarrow> sim_portfolio" where
  "new_sim initial = \<lparr>sp_initial_cash = initial, sp_cash = initial, sp_realized = 0, sp_positions = []\<rparr>"

definition fresh_position :: "string \<Rightarrow> sim_position" where
  "fresh_position symb = \<lparr>sm_symbol = symb, sm_qty = 0, sm_avg_price = 0, sm_highest_pct = 0, sm_partial_taken = False\<rparr>"

definition position_at :: "sim_portfolio \<Rightarrow> string \<Rightarrow> sim_position" where
  "position_at P symb = (case map_of (sp_positions P) symb of Some p \<Rightarrow> p | None \<Rightarrow> fresh_position symb)"

definition set_position :: "string \<Rightarrow> sim_position \<Rightarrow> sim_portfolio \<Rightarrow> sim_portfolio" where
  "set_position symb p P = P\<lparr>sp_positions := AList.update symb p (sp_positions P)\<rparr>"

text \<open>\<open>get_position\<close> creates the position it does not find; its result is then read with \<^const>\<open>position_at\<close>.\<close>

definition touch_position :: "string \<Rightarrow> sim_portfolio \<Rightarrow> sim_portfolio" where
  "touch_position symb P = set_position symb (position_at P symb) P"

fun add_values :: "(string \<rightharpoonup> double) \<Rightarrow> double \<Rightarrow> (string \<times> sim_position) list \<Rightarrow> double" where
  "add_values prices acc [] = acc"
| "add_values prices acc ((symb, p) # ps) =
     add_values prices
       (if sm_qty p > 0
        then fadd acc (fmul (fint (sm_qty p)) (case prices symb of Some x \<Rightarrow> x | None \<Rightarrow> sm_avg_price p)) else acc) ps"

definition market_value :: "(string \<rightharpoonup> double) \<Rightarrow> sim_portfolio \<Rightarrow> double" where
  "market_value prices P = add_values prices (sp_cash P) (sp_positions P)"

definition sim_buy :: "string \<Rightarrow> int \<Rightarrow> double \<Rightarrow> sim_portfolio \<Rightarrow> bool \<times> sim_portfolio" where
  "sim_buy symb qty price P =
     (let amount = fmul (fint qty) price
      in if qty \<le> 0 \<or> sp_cash P < amount then (False, P)
         else let P1 = touch_position symb P; p = position_at P1 symb; new_qty = sm_qty p + qty
              in if new_qty \<le> 0 then (False, P1)
                 else (True, set_position symb
                     (p\<lparr>sm_avg_price := fdiv (fadd (fmul (sm_avg_price p) (fint (sm_qty p))) amount) (fint new_qty), sm_qty := new_qty\<rparr>)
                     (P1\<lparr>sp_cash := fsub (sp_cash P1) amount\<rparr>)))"

definition sim_sell :: "string \<Rightarrow> int \<Rightarrow> double \<Rightarrow> sim_portfolio \<Rightarrow> double \<times> sim_portfolio" where
  "sim_sell symb qty price P =
     (let P1 = touch_position symb P; p = position_at P1 symb
      in if qty \<le> 0 \<or> sm_qty p \<le> 0 then (0, P1)
         else let sell_qty = min qty (sm_qty p);
                  pnl = fmul (fsub price (sm_avg_price p)) (fint sell_qty);
                  left = sm_qty p - sell_qty
              in (pnl, set_position symb
                    (if left = 0 then p\<lparr>sm_qty := 0, sm_avg_price := 0, sm_highest_pct := 0, sm_partial_taken := False\<rparr>
                     else p\<lparr>sm_qty := left\<rparr>)
                    (P1\<lparr>sp_cash := fadd (sp_cash P1) (fmul price (fint sell_qty)), sp_realized := fadd (sp_realized P1) pnl\<rparr>)))"

section \<open>The strategy and the runner\<close>

record exit_order =
  xo_action :: string
  xo_ratio :: "double option"
  xo_reason :: "string option"

text \<open>A signal is its side and its quantity; \<open>bs_exit\<close> is \<^const>\<open>None\<close> for a strategy without the method \<open>should_exit\<close>.\<close>

record 'z bt_strategy =
  bs_signal :: "bar_tick \<Rightarrow> sim_portfolio \<Rightarrow> 'z \<Rightarrow> (string \<times> int) option \<times> 'z"
  bs_mark_entry :: "string \<Rightarrow> datetime \<Rightarrow> 'z \<Rightarrow> 'z"
  bs_exit :: "(sim_position \<Rightarrow> double \<Rightarrow> datetime \<Rightarrow> 'z \<Rightarrow> exit_order option \<times> 'z) option"

record bt_trade =
  bd_symbol :: string
  bd_entry_price :: double
  bd_exit_price :: double
  bd_qty :: int
  bd_pnl :: double
  bd_reason :: string
  bd_entry_ts :: "datetime option"
  bd_exit_ts :: datetime

record bt_runner =
  br_portfolio :: sim_portfolio
  br_prices :: "string \<rightharpoonup> double"
  br_equity :: "double list"
  br_trades :: "bt_trade list"
  br_entries :: "string \<rightharpoonup> double \<times> datetime"

definition new_runner :: "double \<Rightarrow> bt_runner" where
  "new_runner initial = \<lparr>br_portfolio = new_sim initial, br_prices = Map.empty, br_equity = [], br_trades = [],
     br_entries = Map.empty\<rparr>"

definition current_price :: "bar_tick \<Rightarrow> double" where
  "current_price t = (if bk_price t \<noteq> 0 then bk_price t else bk_close t)"

definition entry_price_of :: "bt_runner \<Rightarrow> string \<Rightarrow> double \<Rightarrow> double" where
  "entry_price_of R symb other = (case br_entries R symb of Some (p, _) \<Rightarrow> p | None \<Rightarrow> other)"

definition entry_ts_of :: "bt_runner \<Rightarrow> string \<Rightarrow> datetime option" where
  "entry_ts_of R symb = map_option snd (br_entries R symb)"

definition check_entry :: "'z bt_strategy \<Rightarrow> bar_tick \<Rightarrow> bt_runner \<times> 'z \<Rightarrow> bt_runner \<times> 'z" where
  "check_entry S t = (\<lambda>(R, z).
     case bs_signal S t (br_portfolio R) z of
       (None, z1) \<Rightarrow> (R, z1)
     | (Some (side, qty), z1) \<Rightarrow>
         if side \<noteq> ''BUY'' \<or> qty \<le> 0 then (R, z1)
         else (case sim_buy (bk_symbol t) qty (current_price t) (br_portfolio R) of
             (False, P) \<Rightarrow> (R\<lparr>br_portfolio := P\<rparr>, z1)
           | (True, P) \<Rightarrow>
               (R\<lparr>br_portfolio := P,
                  br_entries := (br_entries R)(bk_symbol t \<mapsto> (sm_avg_price (position_at P (bk_symbol t)), bk_ts t))\<rparr>,
                bs_mark_entry S (bk_symbol t) (bk_ts t) z1)))"

text \<open>\<open>int(x)\<close> of a float drops the fraction.\<close>

definition truncate :: "double \<Rightarrow> int" where
  "truncate x = (if 0 \<le> x then \<lfloor>x\<rfloor> else \<lceil>x\<rceil>)"

definition partial_exit :: "bar_tick \<Rightarrow> exit_order \<Rightarrow> bt_runner \<Rightarrow> bt_runner" where
  "partial_exit t x R =
     (let symb = bk_symbol t;
          ratio = (case xo_ratio x of Some r \<Rightarrow> r | None \<Rightarrow> 1 / 2);
          sell_qty = max (truncate (fmul (fint (sm_qty (position_at (br_portfolio R) symb))) ratio)) 1;
          (pnl, P) = sim_sell symb sell_qty (current_price t) (br_portfolio R);
          p = (position_at P symb)\<lparr>sm_partial_taken := True\<rparr>
      in R\<lparr>br_portfolio := set_position symb p P,
           br_trades := br_trades R @ [\<lparr>bd_symbol = symb, bd_entry_price = entry_price_of R symb (sm_avg_price p),
             bd_exit_price = current_price t, bd_qty = sell_qty, bd_pnl = pnl,
             bd_reason = (case xo_reason x of Some r \<Rightarrow> r | None \<Rightarrow> ''partial_sell''), bd_entry_ts = entry_ts_of R symb,
             bd_exit_ts = bk_ts t\<rparr>]\<rparr>)"

definition full_exit :: "bar_tick \<Rightarrow> exit_order \<Rightarrow> bt_runner \<Rightarrow> bt_runner" where
  "full_exit t x R =
     (let symb = bk_symbol t;
          p = position_at (br_portfolio R) symb;
          (pnl, P) = sim_sell symb (sm_qty p) (current_price t) (br_portfolio R);
          P1 = touch_position symb P
      in R\<lparr>br_portfolio := P1,
           br_trades := br_trades R @ [\<lparr>bd_symbol = symb, bd_entry_price = entry_price_of R symb (sm_avg_price p),
             bd_exit_price = current_price t, bd_qty = sm_qty p, bd_pnl = pnl,
             bd_reason = (case xo_reason x of Some r \<Rightarrow> r | None \<Rightarrow> ''full_sell''), bd_entry_ts = entry_ts_of R symb,
             bd_exit_ts = bk_ts t\<rparr>],
           br_entries := (if sm_qty (position_at P1 symb) = 0 then (br_entries R)(symb := None) else br_entries R)\<rparr>)"

text \<open>\<^const>\<open>None\<close> is the \<open>AttributeError\<close> of a strategy without the method.\<close>

definition check_exit :: "'z bt_strategy \<Rightarrow> bar_tick \<Rightarrow> bt_runner \<times> 'z \<Rightarrow> (bt_runner \<times> 'z) option" where
  "check_exit S t = (\<lambda>(R0, z).
     let symb = bk_symbol t;
         R = R0\<lparr>br_portfolio := touch_position symb (br_portfolio R0)\<rparr>;
         p = position_at (br_portfolio R) symb
     in if sm_qty p \<le> 0 \<or> sm_avg_price p \<le> 0 then Some (R, z)
        else let pct = fmul (fdiv (fsub (current_price t) (sm_avg_price p)) (sm_avg_price p)) 100;
                 p1 = p\<lparr>sm_highest_pct := max (sm_highest_pct p) pct\<rparr>;
                 R1 = R\<lparr>br_portfolio := set_position symb p1 (br_portfolio R)\<rparr>
             in case bs_exit S of
                  None \<Rightarrow> None
                | Some should_exit \<Rightarrow>
                    (case should_exit (p1\<lparr>sm_symbol := symb\<rparr>) (current_price t) (bk_ts t) z of
                       (None, z1) \<Rightarrow> Some (R1, z1)
                     | (Some x, z1) \<Rightarrow>
                         Some (if xo_action x = ''PARTIAL_SELL'' then partial_exit t x R1
                           else if xo_action x = ''FULL_SELL'' then full_exit t x R1 else R1, z1)))"

definition run_tick :: "'z bt_strategy \<Rightarrow> bar_tick \<Rightarrow> bt_runner \<times> 'z \<Rightarrow> (bt_runner \<times> 'z) option" where
  "run_tick S t = (\<lambda>(R, z).
     case check_exit S t (R\<lparr>br_prices := (br_prices R)(bk_symbol t \<mapsto> current_price t)\<rparr>, z) of
       None \<Rightarrow> None
     | Some Rz \<Rightarrow> (case check_entry S t Rz of
         (R1, z1) \<Rightarrow> Some (R1\<lparr>br_equity := br_equity R1 @ [market_value (br_prices R1) (br_portfolio R1)]\<rparr>, z1)))"

fun run_ticks :: "'z bt_strategy \<Rightarrow> bar_tick list \<Rightarrow> bt_runner \<times> 'z \<Rightarrow> (bt_runner \<times> 'z) option" where
  "run_ticks S [] Rz = Some Rz"
| "run_ticks S (t # ts) Rz = (case run_tick S t Rz of None \<Rightarrow> None | Some Rz1 \<Rightarrow> run_ticks S ts Rz1)"

definition last_ticks :: "bar_tick list \<Rightarrow> string \<rightharpoonup> bar_tick" where
  "last_ticks ts = foldl (\<lambda>m t. m(bk_symbol t \<mapsto> t)) Map.empty ts"

definition close_position :: "(string \<rightharpoonup> bar_tick) \<Rightarrow> string \<Rightarrow> bt_runner \<Rightarrow> bt_runner" where
  "close_position lasts symb R =
     (let p = position_at (br_portfolio R) symb
      in if sm_qty p \<le> 0 then R
         else case lasts symb of
           None \<Rightarrow> R
         | Some t \<Rightarrow>
             let (pnl, P) = sim_sell symb (sm_qty p) (current_price t) (br_portfolio R);
                 prices = (br_prices R)(symb \<mapsto> current_price t)
             in R\<lparr>br_portfolio := P, br_prices := prices, br_equity := br_equity R @ [market_value prices P],
                  br_trades := br_trades R @ [\<lparr>bd_symbol = symb, bd_entry_price = entry_price_of R symb (sm_avg_price p),
                    bd_exit_price = current_price t, bd_qty = sm_qty p, bd_pnl = pnl,
                    bd_reason = ''force_close_end_of_backtest'', bd_entry_ts = entry_ts_of R symb, bd_exit_ts = bk_ts t\<rparr>],
                  br_entries := (br_entries R)(symb := None)\<rparr>)"

definition force_close_all :: "(string \<rightharpoonup> bar_tick) \<Rightarrow> bt_runner \<Rightarrow> bt_runner" where
  "force_close_all lasts R = fold (close_position lasts) (map fst (sp_positions (br_portfolio R))) R"

definition run_backtest :: "'z bt_strategy \<Rightarrow> double \<Rightarrow> bar_tick list \<Rightarrow> 'z \<Rightarrow> (bt_runner \<times> 'z) option" where
  "run_backtest S initial ts z =
     map_option (\<lambda>(R, z1). (force_close_all (last_ticks ts) R, z1)) (run_ticks S ts (new_runner initial, z))"

text \<open>\<open>calculate_max_drawdown\<close>: one pass with a running peak.\<close>

definition drawdown :: "double \<Rightarrow> double \<Rightarrow> double" where
  "drawdown peak x = (if 0 < peak then fdiv (fsub x peak) peak else 0)"

fun drawdown_pass :: "double \<Rightarrow> double \<Rightarrow> double list \<Rightarrow> double" where
  "drawdown_pass peak worst [] = worst"
| "drawdown_pass peak worst (x # xs) =
     (let peak' = (if peak < x then x else peak); dd = drawdown peak' x
      in drawdown_pass peak' (if dd < worst then dd else worst) xs)"

definition max_drawdown :: "double list \<Rightarrow> double" where
  "max_drawdown curve = (case curve of [] \<Rightarrow> 0 | x # _ \<Rightarrow> drawdown_pass x 0 curve)"

section \<open>Positions\<close>

lemma position_set [simp]: "position_at (set_position symb p P) s = (if s = symb then p else position_at P s)"
  by (simp add: position_at_def set_position_def update_conv')

lemma position_fields [simp]:
  "position_at (P\<lparr>sp_cash := c\<rparr>) = position_at P" "position_at (P\<lparr>sp_realized := c\<rparr>) = position_at P"
  "sp_cash (set_position symb p P) = sp_cash P" "sp_realized (set_position symb p P) = sp_realized P"
  by (simp_all add: fun_eq_iff position_at_def set_position_def)

lemma position_touch [simp]: "position_at (touch_position symb P) = position_at P" "sp_cash (touch_position symb P) = sp_cash P"
  by (simp_all add: fun_eq_iff touch_position_def)

definition sim_keys :: "sim_portfolio \<Rightarrow> string set" where
  "sim_keys P = set (map fst (sp_positions P))"

lemma keys_set [simp]:
  "sim_keys (set_position symb p P) = insert symb (sim_keys P)" "sim_keys (touch_position symb P) = insert symb (sim_keys P)"
  "sim_keys (P\<lparr>sp_cash := c\<rparr>) = sim_keys P" "sim_keys (P\<lparr>sp_realized := c\<rparr>) = sim_keys P"
  by (auto simp: sim_keys_def set_position_def touch_position_def dom_update [unfolded])

lemma absent_position: "s \<notin> sim_keys P \<Longrightarrow> sm_qty (position_at P s) = 0"
  by (force simp: position_at_def sim_keys_def fresh_position_def split: option.splits dest: map_of_SomeD)

text \<open>A solvent portfolio over known symbols.\<close>

definition sim_ok :: "string set \<Rightarrow> sim_portfolio \<Rightarrow> bool" where
  "sim_ok K P \<longleftrightarrow> sim_keys P \<subseteq> K \<and> (\<forall>s. 0 \<le> sm_qty (position_at P s)) \<and> 0 \<le> sp_cash P"

lemma fint_nonneg: "0 \<le> n \<Longrightarrow> 0 \<le> fint n"
  by (simp add: fint_def to_double_nonneg)

lemma sim_buy_ok: "sim_ok K P \<Longrightarrow> symb \<in> K \<Longrightarrow> sim_ok K (snd (sim_buy symb qty price P))"
  by (auto simp: sim_buy_def sim_ok_def Let_def fsub_nonneg)

lemma sim_sell_ok: "sim_ok K P \<Longrightarrow> symb \<in> K \<Longrightarrow> 0 \<le> price \<Longrightarrow> sim_ok K (snd (sim_sell symb qty price P))"
  by (auto simp: sim_sell_def sim_ok_def Let_def fadd_def fmul_def intro!: to_double_nonneg add_nonneg_nonneg mult_nonneg_nonneg
      fint_nonneg)

lemma sim_set_ok: "sim_ok K P \<Longrightarrow> symb \<in> K \<Longrightarrow> 0 \<le> sm_qty p \<Longrightarrow> sim_ok K (set_position symb p P)"
  by (auto simp: sim_ok_def)

lemma sim_touch_ok: "sim_ok K P \<Longrightarrow> symb \<in> K \<Longrightarrow> sim_ok K (touch_position symb P)"
  by (auto simp: sim_ok_def)

lemmas sim_oks = sim_buy_ok sim_sell_ok sim_set_ok sim_touch_ok

section \<open>A run keeps the portfolio solvent\<close>

lemma check_entry_ok:
  assumes "sim_ok K (br_portfolio R)" and "bk_symbol t \<in> K" and "check_entry S t (R, z) = (R', z')"
  shows "sim_ok K (br_portfolio R')"
  using assms sim_buy_ok [OF assms(1,2)]
  by (auto simp: check_entry_def split: prod.splits option.splits if_splits bool.splits) (metis snd_conv)+

lemma partial_exit_ok:
  assumes "sim_ok K (br_portfolio R)" and "bk_symbol t \<in> K" and "0 \<le> current_price t"
  shows "sim_ok K (br_portfolio (partial_exit t x R))"
proof -
  have sold: "sim_ok K (snd (sim_sell (bk_symbol t) qty (current_price t) (br_portfolio R)))" for qty
    by (rule sim_sell_ok [OF assms])
  then have "0 \<le> sm_qty (position_at (snd (sim_sell (bk_symbol t) qty (current_price t) (br_portfolio R))) (bk_symbol t))" for qty
    by (simp add: sim_ok_def)
  with sold show ?thesis using assms(2) by (simp add: partial_exit_def Let_def case_prod_beta sim_set_ok)
qed

lemma full_exit_ok:
  assumes "sim_ok K (br_portfolio R)" and "bk_symbol t \<in> K" and "0 \<le> current_price t"
  shows "sim_ok K (br_portfolio (full_exit t x R))"
  using sim_touch_ok [OF sim_sell_ok [OF assms] assms(2)] by (simp add: full_exit_def Let_def case_prod_beta)

lemma check_exit_ok:
  assumes R: "sim_ok K (br_portfolio R)" and t: "bk_symbol t \<in> K" "0 \<le> current_price t"
    and run: "check_exit S t (R, z) = Some (R', z')"
  shows "sim_ok K (br_portfolio R')"
proof -
  let ?P = "touch_position (bk_symbol t) (br_portfolio R)"
  have P: "sim_ok K ?P" by (rule sim_touch_ok [OF R t(1)])
  have held: "sim_ok K (set_position (bk_symbol t) (p\<lparr>sm_highest_pct := h\<rparr>) ?P)" if "0 \<le> sm_qty p" for p :: sim_position and h
    using sim_set_ok [OF P t(1)] that by simp
  have q: "0 \<le> sm_qty (position_at (br_portfolio R) (bk_symbol t))" using R by (simp add: sim_ok_def)
  show ?thesis
    using run P held [OF q] t
    by (auto simp: check_exit_def Let_def intro: partial_exit_ok full_exit_ok split: if_splits option.splits prod.splits)
qed

lemma run_tick_ok:
  assumes "sim_ok K (br_portfolio R)" and "bk_symbol t \<in> K" and "0 \<le> current_price t"
    and "run_tick S t (R, z) = Some (R', z')"
  shows "sim_ok K (br_portfolio R')"
proof -
  let ?R = "R\<lparr>br_prices := (br_prices R)(bk_symbol t \<mapsto> current_price t)\<rparr>"
  obtain R1 z1 where e: "check_exit S t (?R, z) = Some (R1, z1)"
    using assms(4) by (auto simp: run_tick_def split: option.splits)
  obtain R2 z2 where c: "check_entry S t (R1, z1) = (R2, z2)" by (metis prod.collapse)
  have "sim_ok K (br_portfolio R1)" by (rule check_exit_ok [OF _ assms(2,3) e]) (use assms(1) in simp)
  from check_entry_ok [OF this assms(2) c] show ?thesis using assms(4) e c by (auto simp: run_tick_def)
qed

lemma run_ticks_ok:
  assumes "\<forall>t\<in>set ts. bk_symbol t \<in> K \<and> 0 \<le> current_price t" and "sim_ok K (br_portfolio R)"
    and "run_ticks S ts (R, z) = Some (R', z')"
  shows "sim_ok K (br_portfolio R')"
  using assms
proof (induction ts arbitrary: R z)
  case (Cons t ts)
  then obtain R1 z1 where t: "run_tick S t (R, z) = Some (R1, z1)" by (auto split: option.splits)
  have "sim_ok K (br_portfolio R1)" by (rule run_tick_ok [OF Cons.prems(2) _ _ t]) (use Cons.prems(1) in auto)
  then show ?case using Cons t by simp
qed simp

section \<open>The end of a run\<close>

lemma dom_last_ticks: "dom (last_ticks ts) = bk_symbol ` set ts"
proof -
  have "dom (foldl (\<lambda>m t. m(bk_symbol t \<mapsto> t)) m ts) = dom m \<union> bk_symbol ` set ts" for m
    by (induction ts arbitrary: m) auto
  then show ?thesis by (simp add: last_ticks_def)
qed

lemma last_ticks_in: "last_ticks ts s = Some t \<Longrightarrow> t \<in> set ts"
proof -
  have "foldl (\<lambda>m t. m(bk_symbol t \<mapsto> t)) m ts s = Some t \<Longrightarrow> t \<in> set ts \<or> m s = Some t" for m
    by (induction ts arbitrary: m) (fastforce split: if_splits)+
  then show "last_ticks ts s = Some t \<Longrightarrow> t \<in> set ts" by (auto simp: last_ticks_def)
qed

lemma sim_sell_all:
  "0 \<le> sm_qty (position_at P symb) \<Longrightarrow>
   sm_qty (position_at (snd (sim_sell symb (sm_qty (position_at P symb)) price P)) s) =
     (if s = symb then 0 else sm_qty (position_at P s))"
  by (auto simp: sim_sell_def Let_def)

lemma close_position_flat:
  assumes "sim_ok K (br_portfolio R)" and "symb \<in> K" and "lasts symb = Some t" and "0 \<le> current_price t"
  shows "sim_ok K (br_portfolio (close_position lasts symb R)) \<and>
    sm_qty (position_at (br_portfolio (close_position lasts symb R)) s) =
      (if s = symb then 0 else sm_qty (position_at (br_portfolio R) s))"
proof -
  let ?P = "br_portfolio R"
  have q: "0 \<le> sm_qty (position_at ?P symb)" using assms(1) by (simp add: sim_ok_def)
  obtain pnl P where sell: "sim_sell symb (sm_qty (position_at ?P symb)) (current_price t) ?P = (pnl, P)" by (metis prod.collapse)
  have "br_portfolio (close_position lasts symb R) = (if sm_qty (position_at ?P symb) \<le> 0 then ?P else P)"
    using assms(3) sell by (simp add: close_position_def Let_def)
  then show ?thesis
    using assms(1) q sim_sell_ok [OF assms(1,2,4), of "sm_qty (position_at ?P symb)"] sim_sell_all [OF q, of "current_price t" s] sell
    by auto
qed

lemma force_close_flat:
  assumes "\<forall>s\<in>set ss. s \<in> K \<and> (\<exists>t. lasts s = Some t \<and> 0 \<le> current_price t)" and "sim_ok K (br_portfolio R)"
  shows "sim_ok K (br_portfolio (fold (close_position lasts) ss R)) \<and>
    sm_qty (position_at (br_portfolio (fold (close_position lasts) ss R)) s) =
      (if s \<in> set ss then 0 else sm_qty (position_at (br_portfolio R) s))"
  using assms
proof (induction ss arbitrary: R)
  case (Cons symb ss)
  obtain t where t: "symb \<in> K" "lasts symb = Some t" "0 \<le> current_price t" using Cons.prems(1) by auto
  have flat: "sim_ok K (br_portfolio (close_position lasts symb R)) \<and>
      sm_qty (position_at (br_portfolio (close_position lasts symb R)) s) =
        (if s = symb then 0 else sm_qty (position_at (br_portfolio R) s))"
    by (rule close_position_flat [where lasts = lasts and symb = symb and t = t, OF Cons.prems(2) t])
  show ?case using Cons.IH [of "close_position lasts symb R"] Cons.prems(1) flat by auto
qed simp

section \<open>Properties\<close>

text \<open>C34: A backtest that returns ends flat and solvent. Whatever the strategy signals, if no price is negative and the
  run starts with non-negative cash, every position is closed at the end and the cash has not become negative.\<close>

theorem backtest_ends_flat:
  assumes "run_backtest S initial ts z = Some (R, z')" and "0 \<le> initial" and "\<forall>t\<in>set ts. 0 \<le> current_price t"
  shows "(\<forall>s. sm_qty (position_at (br_portfolio R) s) = 0) \<and> 0 \<le> sp_cash (br_portfolio R)"
proof -
  let ?K = "bk_symbol ` set ts"
  obtain R1 where run: "run_ticks S ts (new_runner initial, z) = Some (R1, z')" and R: "R = force_close_all (last_ticks ts) R1"
    using assms(1) by (auto simp: run_backtest_def)
  have "sim_ok ?K (br_portfolio (new_runner initial))"
    using assms(2) by (simp add: sim_ok_def new_runner_def new_sim_def sim_keys_def position_at_def fresh_position_def)
  from run_ticks_ok [OF _ this run] assms(3) have ok: "sim_ok ?K (br_portfolio R1)" by auto
  let ?ss = "map fst (sp_positions (br_portfolio R1))"
  have "\<forall>s\<in>set ?ss. s \<in> ?K \<and> (\<exists>t. last_ticks ts s = Some t \<and> 0 \<le> current_price t)"
  proof
    fix s assume "s \<in> set ?ss"
    then have "s \<in> ?K" using ok by (auto simp: sim_ok_def sim_keys_def)
    moreover from this obtain t where "last_ticks ts s = Some t" using dom_last_ticks [of ts] by blast
    ultimately show "s \<in> ?K \<and> (\<exists>t. last_ticks ts s = Some t \<and> 0 \<le> current_price t)"
      using last_ticks_in assms(3) by blast
  qed
  note flat = force_close_flat [OF this ok]
  have "sm_qty (position_at (br_portfolio R) s) = 0" for s
    using flat [of s] absent_position [of s "br_portfolio R1"] by (auto simp: R force_close_all_def sim_keys_def split: if_splits)
  moreover have "0 \<le> sp_cash (br_portfolio R)" using flat by (simp add: R force_close_all_def sim_ok_def)
  ultimately show ?thesis by blast
qed

text \<open>A backtest of a strategy without \<open>should_exit\<close> raises as soon as a symbol it holds at a positive price
  ticks again, and so does every run that starts with those ticks.\<close>

theorem missing_should_exit_raises:
  assumes "bs_exit S = None" and "run_ticks S ts (new_runner initial, z) = Some (R, z')"
    and "0 < sm_qty (position_at (br_portfolio R) (bk_symbol t))"
    and "0 < sm_avg_price (position_at (br_portfolio R) (bk_symbol t))"
  shows "run_backtest S initial (ts @ t # ts') z = None"
proof -
  have "run_ticks S (ts @ us) Rz = (case run_ticks S ts Rz of None \<Rightarrow> None | Some Rz1 \<Rightarrow> run_ticks S us Rz1)" for us Rz
    by (induction ts arbitrary: Rz) (auto split: option.splits)
  moreover have "run_tick S t (R, z') = None"
    using assms(1,3,4) by (simp add: run_tick_def check_exit_def Let_def)
  ultimately show ?thesis using assms(2) by (simp add: run_backtest_def)
qed

text \<open>The strategy buys ten shares at the first tick of a run and never sells; its state says whether it has bought.\<close>

definition buy_once :: "bool bt_strategy" where
  "buy_once = \<lparr>bs_signal = (\<lambda>t P bought. (if bought then None else Some (''BUY'', 10), True)),
     bs_mark_entry = (\<lambda>_ _ z. z), bs_exit = None\<rparr>"

definition sample_tick :: "int \<Rightarrow> bar_tick" where
  "sample_tick price = \<lparr>bk_symbol = ''005930'', bk_price = of_int price, bk_volume = 0, bk_ts = \<lparr>dt_instant = 0, dt_offset = None\<rparr>, bk_open = 0,
     bk_high = 0, bk_low = 0, bk_close = 0, bk_change_pct = 0, bk_strength = 0, bk_volume_ratio = 1\<rparr>"

lemma round_numeral: "(numeral k :: int) \<le> 2 ^ 53 \<Longrightarrow> to_double (numeral k) = numeral k"
  using to_double_int [of "numeral k"] by simp

lemma round_one: "to_double 1 = 1"
  using to_double_int [of 1] by simp

lemmas sample_arith = fint_def fadd_def fsub_def fmul_def fdiv_def round_numeral round_one

text \<open>One purchase of ten shares at 100 from a cash of 5000, and the end of the run at 120.\<close>

lemma bought_once:
  "run_ticks buy_once [sample_tick 100] (new_runner 5000, False) =
     Some (\<lparr>br_portfolio = \<lparr>sp_initial_cash = 5000, sp_cash = 4000, sp_realized = 0,
         sp_positions = [(''005930'', \<lparr>sm_symbol = ''005930'', sm_qty = 10, sm_avg_price = 100, sm_highest_pct = 0,
           sm_partial_taken = False\<rparr>)]\<rparr>,
       br_prices = [''005930'' \<mapsto> 100], br_equity = [5000], br_trades = [],
       br_entries = [''005930'' \<mapsto> (100, \<lparr>dt_instant = 0, dt_offset = None\<rparr>)]\<rparr>, True)"
  by (simp add: run_tick_def check_exit_def check_entry_def buy_once_def sample_tick_def new_runner_def new_sim_def
      touch_position_def set_position_def position_at_def fresh_position_def sim_buy_def current_price_def market_value_def
      sample_arith Let_def)

theorem missing_should_exit_raises_witness:
  "run_backtest buy_once 5000 [sample_tick 100, sample_tick 120] False = None"
  using missing_should_exit_raises [OF _ bought_once, of "sample_tick 120" "[]"]
  by (simp add: buy_once_def position_at_def sample_tick_def)

theorem backtest_ends_flat_witness:
  "case run_backtest buy_once 5000 [sample_tick 100] False of
     Some (R, _) \<Rightarrow> sm_qty (position_at (br_portfolio R) ''005930'') = 0 \<and> 0 \<le> sp_cash (br_portfolio R) | None \<Rightarrow> False"
proof -
  obtain R where R: "run_backtest buy_once 5000 [sample_tick 100] False = Some (R, True)"
    using that by (simp add: run_backtest_def bought_once del: run_ticks.simps)
  have "\<forall>t\<in>set [sample_tick 100]. 0 \<le> current_price t" by (simp add: sample_tick_def current_price_def)
  from backtest_ends_flat [OF R _ this] R show ?thesis by simp
qed

section \<open>The drawdown\<close>

lemma drawdown_pass_spec:
  "drawdown_pass peak worst xs =
     Min (insert worst ((\<lambda>i. drawdown (Max (insert peak (set (take (Suc i) xs)))) (xs ! i)) ` {..<length xs}))"
proof (induction xs arbitrary: peak worst)
  case (Cons x xs)
  let ?g = "\<lambda>i. drawdown (Max (insert peak (set (take (Suc i) (x # xs))))) ((x # xs) ! i)"
  let ?p = "max peak x"
  have peaks: "max peak (Max (insert x A)) = Max (insert ?p A)" if "finite A" for A
    using that by (cases "A = {}") (simp_all add: max.assoc)
  have lowest: "Min (insert worst (insert d A)) = Min (insert (min worst d) A)" if "finite A" for d and A
    using that by (cases "A = {}") (simp_all add: min.assoc)
  have "{..<length (x # xs)} = insert 0 (Suc ` {..<length xs})" by (simp add: lessThan_Suc_eq_insert_0)
  then have image: "?g ` {..<length (x # xs)} = insert (drawdown ?p x)
      ((\<lambda>i. drawdown (Max (insert ?p (set (take (Suc i) xs)))) (xs ! i)) ` {..<length xs})"
    by (simp add: image_image peaks)
  have "drawdown_pass peak worst (x # xs) = drawdown_pass ?p (min worst (drawdown ?p x)) xs"
    by (simp add: Let_def max_def min_def not_le) auto
  also have "\<dots> = Min (insert worst (?g ` {..<length (x # xs)}))" unfolding Cons.IH image
    by (rule sym, rule lowest) simp
  finally show ?case .
qed simp

lemma max_drawdown_is_worst:
  "max_drawdown curve =
     Min (insert 0 ((\<lambda>i. drawdown (Max (set (take (Suc i) curve))) (curve ! i)) ` {..<length curve}))"
  by (cases curve) (simp_all add: max_drawdown_def drawdown_pass_spec del: drawdown_pass.simps)

text \<open>The single pass with a running peak computes the worst drop of the curve: the least, over all its points, of the
  relative distance to the highest point up to there, and zero for a curve that never drops.\<close>

theorem max_drawdown_is_worst_drop:
  "max_drawdown curve =
     Min (insert 0 ((\<lambda>i. drawdown (Max (set (take (Suc i) curve))) (curve ! i)) ` {..<length curve}))"
  by (rule max_drawdown_is_worst)

text \<open>The drawdown of a curve of non-negative doubles lies between a total loss and none, after rounding too.\<close>

theorem max_drawdown_bounds:
  assumes "\<forall>x\<in>set curve. 0 \<le> x \<and> to_double x = x"
  shows "- 1 \<le> max_drawdown curve \<and> max_drawdown curve \<le> 0"
proof -
  have low: "- 1 \<le> drawdown peak x" if "0 \<le> x" "to_double peak = peak" for peak x
  proof (cases "0 < peak")
    case True
    have "- peak \<le> fsub x peak"
      using to_double_mono [of "- peak" "x - peak"] that by (simp add: fsub_def to_double_minus)
    then have "- 1 \<le> fsub x peak / peak" using True by (simp add: pos_le_divide_eq)
    from to_double_mono [OF this] True show ?thesis by (simp add: drawdown_def fdiv_def to_double_minus round_one)
  qed (simp add: drawdown_def)
  have "- 1 \<le> drawdown (Max (set (take (Suc i) curve))) (curve ! i)" if "i < length curve" for i
  proof (rule low)
    have "Max (set (take (Suc i) curve)) \<in> set (take (Suc i) curve)" using that by (intro Max_in) auto
    then show "to_double (Max (set (take (Suc i) curve))) = Max (set (take (Suc i) curve))"
      using assms by (blast dest: in_set_takeD)
  qed (use assms that in simp)
  then show ?thesis by (auto simp: max_drawdown_is_worst)
qed

theorem max_drawdown_bounds_witness: "- 1 \<le> max_drawdown [5000, 6000, 3000] \<and> max_drawdown [5000, 6000, 3000] \<le> 0"
  by (rule max_drawdown_bounds) (simp add: round_numeral)

end
