(* ===== verification/SymbolDirectory.thy ===== *)
theory SymbolDirectory
  imports Unicode "HOL-Library.List_Lexorder" "HOL-Library.Multiset"
begin

text \<open>
  \<open>tools/update_symbol_directory.py\<close>: the public name and code directory, refreshed from the master files of two
  markets. Bytes are characters, text is \<open>utext\<close>. The downloads, the zip archives, the CP949 table of the standard
  library, SHA-256, the clock and the writing of the file are the outside; a directory stands for its JSON document.
\<close>

section \<open>One master file\<close>

datatype master_error = MasterError string | Undecodable | Download_failed | Archive_invalid | Write_failed

definition line_break :: "char \<Rightarrow> bool" where
  "line_break c \<longleftrightarrow> c = CHR 0x0A \<or> c = CHR 0x0D"

lemma dropWhile_shrinks: "c # d # rest = dropWhile P s \<Longrightarrow> Suc (length rest) < length s"
  using length_dropWhile_le [of P s] by (metis Suc_le_lessD length_Cons)

text \<open>\<open>bytes.splitlines()\<close>: a carriage return with its line feed is one break, and a final break adds no line.\<close>

function split_lines :: "string \<Rightarrow> string list" where
  "split_lines s = (if s = [] then []
     else takeWhile (\<lambda>c. \<not> line_break c) s #
       (case dropWhile (\<lambda>c. \<not> line_break c) s of
          [] \<Rightarrow> []
        | [c] \<Rightarrow> []
        | c # d # rest \<Rightarrow> split_lines (if c = CHR 0x0D \<and> d = CHR 0x0A then rest else d # rest)))"
  by pat_completeness auto

termination
  by (relation "measure length") (auto dest: dropWhile_shrinks [OF sym] dropWhile_shrinks)

declare split_lines.simps [simp del]

definition decode_ascii :: "string \<Rightarrow> utext option" where
  "decode_ascii b = (if \<forall>c\<in>set b. (of_char c :: int) < 128 then Some (u b) else None)"

definition six_digit_code :: "utext \<Rightarrow> bool" where
  "six_digit_code code \<longleftrightarrow> length code = 6 \<and> u_ascii code \<and> (\<forall>c\<in>set code. 48 \<le> c \<and> c \<le> 57)"

definition stock_kind :: utext where
  "stock_kind = [51452, 49885]"

definition byte_range :: "nat \<Rightarrow> nat \<Rightarrow> string \<Rightarrow> string" where
  "byte_range i j b = drop i (take j b)"

text \<open>A row is the list of its code, name, market and kind, as the code has it.\<close>

type_synonym symbol_row = "utext list"

definition parse_master_row :: "(string \<Rightarrow> utext option) \<Rightarrow> utext \<Rightarrow> utext set \<Rightarrow> string \<Rightarrow> master_error + symbol_row option" where
  "parse_master_row cp949 market seen raw =
     (if length raw < 63 then Inl (MasterError ''TRUNCATED_MASTER_ROW'')
      else (case decode_ascii (byte_range 0 9 raw) of
        None \<Rightarrow> Inl Undecodable
      | Some padded \<Rightarrow>
          (let code = u_strip padded
           in if \<not> six_digit_code code then Inr None
              else (case (cp949 (byte_range 21 61 raw), decode_ascii (byte_range 61 63 raw)) of
                (Some name, Some grp) \<Rightarrow>
                  if grp \<notin> {u ''ST'', u ''EF''} then Inr None
                  else if u_strip name = [] \<or> code \<in> seen
                  then Inl (MasterError ''INVALID_OR_DUPLICATE_MASTER_IDENTITY'')
                  else Inr (Some [code, u_strip name, market, if grp = u ''EF'' then u ''ETF'' else stock_kind])
              | _ \<Rightarrow> Inl Undecodable))))"

definition row_code :: "symbol_row \<Rightarrow> utext" where
  "row_code r = r ! 0"

fun parse_rows :: "(string \<Rightarrow> utext option) \<Rightarrow> utext \<Rightarrow> utext set \<Rightarrow> symbol_row list \<Rightarrow> string list \<Rightarrow> master_error + symbol_row list" where
  "parse_rows cp949 market seen rows [] = Inr rows"
| "parse_rows cp949 market seen rows (raw # raws) =
     (case parse_master_row cp949 market seen raw of
        Inl e \<Rightarrow> Inl e
      | Inr None \<Rightarrow> parse_rows cp949 market seen rows raws
      | Inr (Some row) \<Rightarrow> parse_rows cp949 market (insert (row_code row) seen) (rows @ [row]) raws)"

definition parse_master :: "(string \<Rightarrow> utext option) \<Rightarrow> string \<Rightarrow> utext \<Rightarrow> master_error + symbol_row list" where
  "parse_master cp949 payload market = parse_rows cp949 market {} [] (split_lines payload)"

section \<open>The refresh\<close>

record master_source =
  ms_url :: string
  ms_sha256 :: string
  ms_rows :: nat

record symbol_directory =
  sd_fetched_at :: datetime
  sd_sources :: "master_source list"
  sd_symbols :: "symbol_row list"

text \<open>A member of an archive has its size in the archive's index and its bytes, which are read only afterwards.\<close>

record 's directory_world =
  dw_download :: "string \<Rightarrow> nat \<Rightarrow> 's \<Rightarrow> string option \<times> 's"
  dw_member :: "string \<Rightarrow> string \<Rightarrow> (nat \<times> string option) option"
  dw_cp949 :: "string \<Rightarrow> utext option"
  dw_sha256 :: "string \<Rightarrow> string"
  dw_utc_now :: "'s \<Rightarrow> datetime \<times> 's"
  dw_write :: "symbol_directory \<Rightarrow> 's \<Rightarrow> bool \<times> 's"

definition markets :: "(string \<times> string) list" where
  "markets = [(''KOSPI'', ''kospi_code.mst''), (''KOSDAQ'', ''kosdaq_code.mst'')]"

definition master_url :: "string \<Rightarrow> string" where
  "master_url filename = ''https://new.real.download.dws.co.kr/common/master/'' @ filename @ ''.zip''"

definition max_archive :: nat where "max_archive = 5 * 1024 * 1024"

definition max_master :: nat where "max_master = 20 * 1024 * 1024"

definition min_market_rows :: nat where "min_market_rows = 500"

definition read_market ::
    "'s directory_world \<Rightarrow> string \<times> string \<Rightarrow> 's \<Rightarrow> (master_error + symbol_row list \<times> master_source) \<times> 's" where
  "read_market W = (\<lambda>(market, filename) s.
     case dw_download W (master_url filename) (max_archive + 1) s of
       (None, s1) \<Rightarrow> (Inl Download_failed, s1)
     | (Some archive, s1) \<Rightarrow>
         if length archive > max_archive then (Inl (MasterError ''ARCHIVE_TOO_LARGE''), s1)
         else ((case dw_member W archive filename of
             None \<Rightarrow> Inl Archive_invalid
           | Some (expanded, contents) \<Rightarrow>
               if expanded > max_master then Inl (MasterError ''EXPANDED_MASTER_TOO_LARGE'')
               else (case contents of
                 None \<Rightarrow> Inl Archive_invalid
               | Some data \<Rightarrow>
                   (case parse_master (dw_cp949 W) data (u market) of
                      Inl e \<Rightarrow> Inl e
                    | Inr records \<Rightarrow>
                        if length records < min_market_rows then Inl (MasterError ''INCOMPLETE_MASTER'')
                        else Inr (records, \<lparr>ms_url = master_url filename, ms_sha256 = dw_sha256 W archive,
                          ms_rows = length records\<rparr>)))), s1))"

fun read_markets ::
    "'s directory_world \<Rightarrow> symbol_row list \<Rightarrow> master_source list \<Rightarrow> (string \<times> string) list \<Rightarrow> 's \<Rightarrow>
     (master_error + symbol_row list \<times> master_source list) \<times> 's" where
  "read_markets W rows sources [] s = (Inr (rows, sources), s)"
| "read_markets W rows sources (m # ms) s =
     (case read_market W m s of
        (Inl e, s1) \<Rightarrow> (Inl e, s1)
      | (Inr (records, source), s1) \<Rightarrow> read_markets W (rows @ records) (sources @ [source]) ms s1)"

text \<open>The published file is the second result; it is replaced at the end only. The first is the number of symbols.\<close>

definition update_directory ::
    "'s directory_world \<Rightarrow> symbol_directory option \<Rightarrow> 's \<Rightarrow> (master_error + nat) \<times> symbol_directory option \<times> 's" where
  "update_directory W published s =
     (case read_markets W [] [] markets s of
        (Inl e, s1) \<Rightarrow> (Inl e, published, s1)
      | (Inr (rows, sources), s1) \<Rightarrow>
          if card (set (map row_code rows)) \<noteq> length rows
          then (Inl (MasterError ''CROSS_MARKET_DUPLICATE_CODE''), published, s1)
          else let (now, s2) = dw_utc_now W s1;
                   doc = \<lparr>sd_fetched_at = now, sd_sources = sources, sd_symbols = sort rows\<rparr>;
                   (ok, s3) = dw_write W doc s2
               in if ok then (Inr (length rows), Some doc, s3) else (Inl Write_failed, published, s3))"

section \<open>What a parsed master holds\<close>

definition symbol_row_ok :: "utext \<Rightarrow> symbol_row \<Rightarrow> bool" where
  "symbol_row_ok market r \<longleftrightarrow> (\<exists>code name kind. r = [code, name, market, kind] \<and> six_digit_code code \<and> name \<noteq> [] \<and>
     kind \<in> {u ''ETF'', stock_kind})"

definition master_ok :: "utext \<Rightarrow> symbol_row list \<Rightarrow> bool" where
  "master_ok market rows \<longleftrightarrow> distinct (map row_code rows) \<and> (\<forall>r\<in>set rows. symbol_row_ok market r)"

lemma parse_master_row_some:
  "parse_master_row cp949 market seen raw = Inr (Some row) \<Longrightarrow> symbol_row_ok market row \<and> row_code row \<notin> seen"
  by (auto simp: parse_master_row_def Let_def symbol_row_ok_def row_code_def split: if_splits option.splits)

lemma parse_rows_ok:
  "parse_rows cp949 market (set (map row_code rows)) rows raws = Inr rows' \<Longrightarrow> master_ok market rows \<Longrightarrow> master_ok market rows'"
proof (induction raws arbitrary: rows)
  case (Cons raw raws)
  show ?case
  proof (cases "parse_master_row cp949 market (set (map row_code rows)) raw")
    case (Inr found)
    show ?thesis
    proof (cases found)
      case (Some row)
      from Cons.IH [of "rows @ [row]"] Cons.prems Inr Some parse_master_row_some [of cp949 market "set (map row_code rows)" raw row] show ?thesis
        by (simp add: master_ok_def)
    qed (use Cons Inr in simp)
  qed (use Cons in simp)
qed simp

lemma parse_master_ok: "parse_master cp949 payload market = Inr rows \<Longrightarrow> master_ok market rows"
  using parse_rows_ok [of cp949 market "[]"] by (simp add: parse_master_def master_ok_def)

section \<open>Lines\<close>

lemma split_lines_break:
  assumes "\<forall>c\<in>set l. \<not> line_break c"
  shows "split_lines (l @ CHR 0x0A # rest) = l # split_lines rest"
proof -
  have line: "takeWhile (\<lambda>c. \<not> line_break c) (l @ CHR 0x0A # r) = l"
    "dropWhile (\<lambda>c. \<not> line_break c) (l @ CHR 0x0A # r) = CHR 0x0A # r" for r
    using assms by (simp_all add: line_break_def)
  show ?thesis
    by (subst split_lines.simps, cases rest) (simp_all add: line split_lines.simps [of "[]"])
qed

lemma split_joined:
  "\<forall>l\<in>set ls. \<forall>c\<in>set l. \<not> line_break c \<Longrightarrow> split_lines (concat (map (\<lambda>l. l @ [CHR 0x0A]) ls)) = ls"
  by (induction ls) (simp_all add: split_lines_break split_lines.simps [of "[]"])

section \<open>Written rows are read back\<close>

text \<open>The fields of a master row: the code padded to nine bytes, the ISIN, the name and the group.\<close>

record master_entry =
  me_code :: string
  me_isin :: string
  me_name :: string
  me_group :: string

definition master_line :: "master_entry \<Rightarrow> string" where
  "master_line e = me_code e @ ''   '' @ me_isin e @ me_name e @ me_group e"

definition entry_ok :: "(string \<Rightarrow> utext option) \<Rightarrow> master_entry \<Rightarrow> bool" where
  "entry_ok cp949 e \<longleftrightarrow> length (me_code e) = 6 \<and> (\<forall>c\<in>set (u (me_code e)). 48 \<le> c \<and> c \<le> 57) \<and> length (me_isin e) = 12 \<and>
     length (me_name e) = 40 \<and> (\<exists>name. cp949 (me_name e) = Some name \<and> u_strip name \<noteq> []) \<and>
     me_group e \<in> {''ST'', ''EF''} \<and> (\<forall>c\<in>set (me_isin e @ me_name e). \<not> line_break c)"

definition row_of_entry :: "(string \<Rightarrow> utext option) \<Rightarrow> utext \<Rightarrow> master_entry \<Rightarrow> symbol_row" where
  "row_of_entry cp949 market e = [u (me_code e), u_strip (the (cp949 (me_name e))), market,
     if me_group e = ''EF'' then u ''ETF'' else stock_kind]"

lemma u_inj: "u a = u b \<longleftrightarrow> a = b"
  by (simp add: u_def inj_map_eq_map inj_def)

lemma line_break_code: "line_break c \<longleftrightarrow> (of_char c :: int) = 10 \<or> (of_char c :: int) = 13"
  using of_char_eq_iff [where 'a = int, of c "CHR 0x0A"] of_char_eq_iff [where 'a = int, of c "CHR 0x0D"]
  by (simp add: line_break_def)

lemma digit_code:
  assumes "\<forall>c\<in>set (u s). 48 \<le> c \<and> c \<le> 57"
  shows "decode_ascii (s @ ''   '') = Some (u (s @ ''   ''))" and "\<forall>c\<in>set s. \<not> line_break c"
  using assms by (force simp: u_def decode_ascii_def line_break_code)+

lemma strip_padded:
  assumes "\<forall>c\<in>set (u s). 48 \<le> c \<and> c \<le> 57"
  shows "u_strip (u (s @ ''   '')) = u s"
proof -
  have kept: "\<not> u_blank c" if "c \<in> set (u s)" for c
    using assms that by (force simp: u_blank_def)
  have front: "dropWhile u_blank (u s @ blanks) = u s @ blanks" if "u s \<noteq> []" for blanks
    using that kept by (cases "u s") auto
  have whole: "dropWhile u_blank xs = xs" if "\<forall>x\<in>set xs. \<not> u_blank x" for xs
    using that by (cases xs) auto
  have rear: "dropWhile u_blank (rev (u s)) = rev (u s)" by (rule whole) (simp add: kept)
  have "u (s @ ''   '') = u s @ [32, 32, 32]" by (simp add: u_def)
  moreover have "u_blank 32" by (simp add: u_blank_def)
  ultimately show ?thesis using front rear by (cases "u s = []") (simp_all add: u_strip_def)
qed

lemma parse_entry:
  assumes "entry_ok cp949 e" and "u (me_code e) \<notin> seen"
  shows "parse_master_row cp949 market seen (master_line e) = Inr (Some (row_of_entry cp949 market e))"
proof -
  note e = assms(1) [unfolded entry_ok_def]
  have parts: "byte_range 0 9 (master_line e) = me_code e @ ''   ''" "byte_range 21 61 (master_line e) = me_name e"
    "byte_range 61 63 (master_line e) = me_group e" "length (master_line e) = 63"
    using e by (auto simp: byte_range_def master_line_def)
  have grp: "decode_ascii (me_group e) = Some (u (me_group e))" "u (me_group e) \<in> {u ''ST'', u ''EF''}"
    using e by (auto simp: decode_ascii_def)
  have code: "six_digit_code (u (me_code e))"
    using e by (force simp: six_digit_code_def u_ascii_def u_def)
  have padded: "decode_ascii (me_code e @ ''   '') = Some (u (me_code e @ ''   ''))" "u_strip (u (me_code e @ ''   '')) = u (me_code e)"
    using e digit_code(1) strip_padded by blast+
  from e obtain name where name: "cp949 (me_name e) = Some name" "u_strip name \<noteq> []" by blast
  show ?thesis
    using code name assms(2) grp(2)
    by (simp add: parse_master_row_def parts grp padded Let_def row_of_entry_def u_inj)
qed

lemma parse_entries:
  "\<forall>e\<in>set es. entry_ok cp949 e \<Longrightarrow> distinct (map me_code es) \<Longrightarrow> u ` me_code ` set es \<inter> seen = {} \<Longrightarrow>
   parse_rows cp949 market seen rows (map master_line es) = Inr (rows @ map (row_of_entry cp949 market) es)"
proof (induction es arbitrary: seen rows)
  case (Cons e es)
  have e: "entry_ok cp949 e" "u (me_code e) \<notin> seen" using Cons.prems by auto
  have "u (me_code e) \<notin> u ` me_code ` set es" using Cons.prems(2) by (simp add: image_iff u_inj)
  with Cons.prems(3) have "u ` me_code ` set es \<inter> insert (u (me_code e)) seen = {}" by simp
  then have "parse_rows cp949 market (insert (u (me_code e)) seen) (rows @ [row_of_entry cp949 market e]) (map master_line es) =
      Inr ((rows @ [row_of_entry cp949 market e]) @ map (row_of_entry cp949 market) es)"
    by (intro Cons.IH) (use Cons.prems in auto)
  moreover have "row_code (row_of_entry cp949 market e) = u (me_code e)" by (simp add: row_code_def row_of_entry_def)
  ultimately show ?case by (simp add: parse_entry [OF e])
qed simp

lemma master_read_back:
  assumes "\<forall>e\<in>set es. entry_ok cp949 e" and "distinct (map me_code es)"
  shows "parse_master cp949 (concat (map (\<lambda>e. master_line e @ [CHR 0x0A]) es)) market = Inr (map (row_of_entry cp949 market) es)"
proof -
  have plain: "\<forall>c\<in>set (master_line e). \<not> line_break c" if "entry_ok cp949 e" for e
  proof -
    have "me_group e = ''ST'' \<or> me_group e = ''EF''" using that unfolding entry_ok_def by blast
    then have "\<forall>c\<in>set (me_group e). \<not> line_break c" by (auto simp: line_break_def)
    moreover have "\<forall>c\<in>set (me_code e). \<not> line_break c" using that digit_code(2) unfolding entry_ok_def by blast
    moreover have "\<forall>c\<in>set (me_isin e @ me_name e). \<not> line_break c" using that unfolding entry_ok_def by blast
    moreover have "\<forall>c\<in>set ''   ''. \<not> line_break c" by (simp add: line_break_def)
    ultimately show ?thesis unfolding master_line_def set_append by blast
  qed
  have "\<forall>l\<in>set (map master_line es). \<forall>c\<in>set l. \<not> line_break c" using assms(1) plain unfolding set_map by blast
  from split_joined [OF this] show ?thesis
    using parse_entries [OF assms, of "{}"] by (simp add: parse_master_def comp_def)
qed

section \<open>Properties\<close>

lemma read_market_ok:
  assumes "read_market W (market, filename) s = (Inr (records, source), s')"
  shows "master_ok (u market) records \<and> 500 \<le> ms_rows source \<and> ms_rows source = length records \<and>
    ms_url source = master_url filename"
  using assms parse_master_ok
  by (auto simp: read_market_def min_market_rows_def not_less split: prod.splits option.splits if_splits sum.splits)

lemma read_both:
  assumes "read_markets W [] [] markets s = (Inr (rows, sources), s')"
  obtains kospi kosdaq where "rows = kospi @ kosdaq" "master_ok (u ''KOSPI'') kospi" "master_ok (u ''KOSDAQ'') kosdaq"
    "map ms_rows sources = [length kospi, length kosdaq]" "500 \<le> length kospi" "500 \<le> length kosdaq"
    "map ms_url sources = map (master_url \<circ> snd) markets"
  using assms that
  by (auto simp: markets_def split: prod.splits sum.splits dest!: read_market_ok)

definition rows_of_market :: "string \<Rightarrow> symbol_row list \<Rightarrow> symbol_row list" where
  "rows_of_market market rows = filter (\<lambda>r. r ! 2 = u market) rows"

lemma rows_of_own_market:
  assumes "master_ok (u market) rows"
  shows "rows_of_market market rows = rows" and "u market \<noteq> u other \<Longrightarrow> rows_of_market other rows = []"
proof -
  have "r ! 2 = u market" if "r \<in> set rows" for r
    using assms that by (auto simp: master_ok_def symbol_row_ok_def)
  then show "rows_of_market market rows = rows" "u market \<noteq> u other \<Longrightarrow> rows_of_market other rows = []"
    by (auto simp: rows_of_market_def filter_id_conv filter_empty_conv)
qed

definition directory_ok :: "symbol_directory \<Rightarrow> bool" where
  "directory_ok doc \<longleftrightarrow> sorted (sd_symbols doc) \<and> distinct (map row_code (sd_symbols doc)) \<and>
     (\<forall>r\<in>set (sd_symbols doc). symbol_row_ok (u ''KOSPI'') r \<or> symbol_row_ok (u ''KOSDAQ'') r) \<and>
     map ms_url (sd_sources doc) = map (master_url \<circ> snd) markets \<and>
     map ms_rows (sd_sources doc) = map (\<lambda>m. length (rows_of_market (fst m) (sd_symbols doc))) markets \<and>
     (\<forall>m\<in>set markets. 500 \<le> length (rows_of_market (fst m) (sd_symbols doc)))"

text \<open>C35: Whatever the download sites serve, the published directory is either left as it was, when the refresh raises,
  or replaced by one that is complete: sorted rows with distinct six-digit codes, each of one of the two markets, at least
  500 rows of each market, and of each exactly as many as its source, named by its address, is recorded to have had.\<close>

theorem published_directory:
  assumes "update_directory W published s = (r, D, s')"
  shows "case r of Inl _ \<Rightarrow> D = published | Inr n \<Rightarrow> (\<exists>doc. D = Some doc \<and> directory_ok doc \<and> n = length (sd_symbols doc))"
proof (cases r)
  case (Inl e)
  then show ?thesis using assms
    by (auto simp: update_directory_def Let_def split: prod.splits sum.splits if_splits)
next
  case (Inr n)
  then obtain rows sources s1 now where read: "read_markets W [] [] markets s = (Inr (rows, sources), s1)"
    and codes: "card (set (map row_code rows)) = length rows"
    and doc: "D = Some \<lparr>sd_fetched_at = now, sd_sources = sources, sd_symbols = sort rows\<rparr>" "n = length rows"
    using assms by (auto simp: update_directory_def Let_def split: prod.splits sum.splits if_splits)
  from read obtain kospi kosdaq where parts: "rows = kospi @ kosdaq" "master_ok (u ''KOSPI'') kospi"
      "master_ok (u ''KOSDAQ'') kosdaq" "map ms_rows sources = [length kospi, length kosdaq]" "500 \<le> length kospi"
      "500 \<le> length kosdaq" "map ms_url sources = map (master_url \<circ> snd) markets"
    by (rule read_both)
  have "distinct (map row_code rows)" using codes by (intro card_distinct) simp
  then have "distinct (map row_code (sort rows))"
    using mset_eq_imp_distinct_iff [of "map row_code (sort rows)" "map row_code rows"] by (simp add: mset_map)
  moreover have "u ''KOSPI'' \<noteq> u ''KOSDAQ''" by (simp add: u_inj)
  then have count: "length (rows_of_market ''KOSPI'' rows) = length kospi" "length (rows_of_market ''KOSDAQ'' rows) = length kosdaq"
    using rows_of_own_market(1) [OF parts(2)] rows_of_own_market(1) [OF parts(3)]
      rows_of_own_market(2) [OF parts(2), of "''KOSDAQ''"] rows_of_own_market(2) [OF parts(3), of "''KOSPI''"] parts(1)
    by (simp_all add: rows_of_market_def)
  have "length (rows_of_market m (sort rows)) = length (rows_of_market m rows)" for m
    by (simp add: rows_of_market_def filter_sort)
  ultimately have "directory_ok \<lparr>sd_fetched_at = now, sd_sources = sources, sd_symbols = sort rows\<rparr>"
    using parts count by (auto simp: directory_ok_def master_ok_def markets_def)
  then show ?thesis using Inr doc by simp
qed

text \<open>C36: Written rows are read back: a master file laid out with the fixed byte fields, one line per stock, is parsed to
  the code, the stripped name, the market and the kind of each entry, in order.\<close>

theorem master_roundtrip:
  assumes "\<forall>e\<in>set es. entry_ok cp949 e" and "distinct (map me_code es)"
  shows "parse_master cp949 (concat (map (\<lambda>e. master_line e @ [CHR 0x0A]) es)) market = Inr (map (row_of_entry cp949 market) es)"
  using assms by (rule master_read_back)

section \<open>A full market\<close>

text \<open>A market of five hundred stocks with the codes from a number on, and a world that serves two of them.\<close>

definition three_digits :: "int \<Rightarrow> string" where
  "three_digits n = [digit_char (n div 100 mod 10), digit_char (n div 10 mod 10), digit_char (n mod 10)]"

definition stock :: "string \<Rightarrow> int \<Rightarrow> master_entry" where
  "stock lead n = \<lparr>me_code = lead @ three_digits n, me_isin = replicate 12 (CHR ''K''), me_name = replicate 40 (CHR ''N''),
     me_group = ''ST''\<rparr>"

definition plain_table :: "string \<Rightarrow> utext option" where
  "plain_table b = Some (u b)"

lemma three_digits_inj:
  assumes "0 \<le> m" "m < 1000" "0 \<le> n" "n < 1000" and "three_digits m = three_digits n"
  shows "m = n"
proof -
  have digits: "k = 100 * (k div 100 mod 10) + 10 * (k div 10 mod 10) + k mod 10" if "0 \<le> k" "k < 1000" for k :: int
  proof -
    have "k div 100 < 10" "0 \<le> k div 100" using that by linarith+
    then have "k div 100 mod 10 = k div 100" by simp
    moreover have "k div 10 div 10 = k div 100" using zdiv_zmult2_eq [of 10 k 10] by simp
    moreover have "k = 10 * (k div 10) + k mod 10" "k div 10 = 10 * (k div 10 div 10) + k div 10 mod 10" by simp_all
    ultimately show ?thesis by linarith
  qed
  have "a mod 10 = b mod 10" if "digit_char (a mod 10) = digit_char (b mod 10)" for a b :: int
  proof -
    have "0 \<le> x mod 10" "x mod 10 < 16" for x :: int
      using pos_mod_bound [of 10 x] by simp_all
    with that show ?thesis by (intro digit_char_inj) auto
  qed
  with assms(5) have same: "m div 100 mod 10 = n div 100 mod 10" "m div 10 mod 10 = n div 10 mod 10" "m mod 10 = n mod 10"
    by (simp_all add: three_digits_def)
  have "m = 100 * (m div 100 mod 10) + 10 * (m div 10 mod 10) + m mod 10" using assms(1,2) by (rule digits)
  also have "\<dots> = 100 * (n div 100 mod 10) + 10 * (n div 10 mod 10) + n mod 10" by (simp only: same)
  also have "\<dots> = n" using assms(3,4) by (rule digits [symmetric])
  finally show ?thesis .
qed

lemma stock_entry:
  assumes "lead \<in> {''000'', ''111''}"
  shows "entry_ok plain_table (stock lead n)"
proof -
  have digit: "48 \<le> (of_char (digit_char (k mod 10)) :: int) \<and> (of_char (digit_char (k mod 10)) :: int) \<le> 57" for k :: int
  proof -
    have "0 \<le> k mod 10" "k mod 10 < 10" by simp_all
    then show ?thesis using digit_char_value [of "k mod 10"] by auto
  qed
  have "u_strip (u (replicate 40 (CHR ''N''))) \<noteq> []" by code_simp
  moreover have "\<not> line_break (CHR ''K'')" "\<not> line_break (CHR ''N'')" by (simp_all add: line_break_def)
  moreover have "\<forall>c\<in>set (u (lead @ three_digits n)). 48 \<le> c \<and> c \<le> 57"
    using assms digit [of "n div 100"] digit [of "n div 10"] digit [of n] by (auto simp: u_def three_digits_def)
  ultimately show ?thesis using assms by (auto simp: entry_ok_def stock_def plain_table_def three_digits_def)
qed

definition stocks :: "string \<Rightarrow> master_entry list" where
  "stocks lead = map (stock lead \<circ> int) [0..<500]"

definition full_master :: "string \<Rightarrow> string" where
  "full_master lead = concat (map (\<lambda>e. master_line e @ [CHR 0x0A]) (stocks lead))"

definition full_world :: "unit directory_world" where
  "full_world = \<lparr>dw_download = (\<lambda>url limit s. (Some url, s)),
     dw_member = (\<lambda>archive filename. Some (0, Some (full_master (if filename = ''kospi_code.mst'' then ''000'' else ''111'')))),
     dw_cp949 = plain_table, dw_sha256 = id, dw_utc_now = (\<lambda>s. (\<lparr>dt_instant = 0, dt_offset = Some 0\<rparr>, s)),
     dw_write = (\<lambda>_ s. (True, s))\<rparr>"

lemma stocks_ok:
  assumes "lead \<in> {''000'', ''111''}"
  shows "\<forall>e\<in>set (stocks lead). entry_ok plain_table e" and "distinct (map me_code (stocks lead))"
proof -
  show "\<forall>e\<in>set (stocks lead). entry_ok plain_table e" using stock_entry [OF assms] by (auto simp: stocks_def)
  have "inj_on (me_code \<circ> stock lead \<circ> int) (set [0..<500])"
  proof (rule inj_onI)
    fix x y assume "x \<in> set [0..<500]" "y \<in> set [0..<500]" "(me_code \<circ> stock lead \<circ> int) x = (me_code \<circ> stock lead \<circ> int) y"
    then show "x = y" using three_digits_inj [of "int x" "int y"] by (simp add: stock_def)
  qed
  then show "distinct (map me_code (stocks lead))" by (simp add: stocks_def distinct_map comp_assoc)
qed

theorem master_roundtrip_witness:
  "parse_master plain_table (full_master ''000'') (u ''KOSPI'') = Inr (map (row_of_entry plain_table (u ''KOSPI'')) (stocks ''000''))"
  unfolding full_master_def by (rule master_roundtrip) (rule stocks_ok; simp)+

lemma full_market:
  assumes "lead \<in> {''000'', ''111''}"
  shows "parse_master plain_table (full_master lead) market = Inr (map (row_of_entry plain_table market) (stocks lead))"
  unfolding full_master_def by (rule master_read_back) (rule stocks_ok [OF assms])+

lemma full_codes:
  "card (set (map row_code (map (row_of_entry plain_table m) (stocks ''000'') @ map (row_of_entry plain_table m') (stocks ''111'')))) = 1000"
proof -
  have codes: "map row_code (map (row_of_entry plain_table m) es) = map u (map me_code es)" for m es
    by (simp add: row_code_def row_of_entry_def)
  have apart: "me_code a \<noteq> me_code b" if "a \<in> set (stocks ''000'')" "b \<in> set (stocks ''111'')" for a b
    using that by (auto simp: stocks_def stock_def)
  have "distinct (map me_code (stocks ''000'') @ map me_code (stocks ''111''))"
    unfolding distinct_append using stocks_ok(2) apart by fastforce
  then have "distinct (map u (map me_code (stocks ''000'') @ map me_code (stocks ''111'')))"
    unfolding distinct_map by (simp add: inj_on_def u_inj)
  from distinct_card [OF this] show ?thesis unfolding map_append codes by (simp add: stocks_def del: set_map)
qed

theorem published_directory_witness:
  "case update_directory full_world None () of
     (Inr n, Some doc, _) \<Rightarrow> directory_ok doc \<and> n = 1000 \<and> length (sd_symbols doc) = 1000 \<and>
       500 \<le> length (rows_of_market ''KOSDAQ'' (sd_symbols doc)) | _ \<Rightarrow> False"
proof -
  have len: "length (stocks lead) = 500" for lead by (simp add: stocks_def)
  obtain doc s where run: "update_directory full_world None () = (Inr 1000, Some doc, s)"
    using full_codes [of "u ''KOSPI''" "u ''KOSDAQ''"]
    by (simp add: update_directory_def markets_def read_market_def full_world_def master_url_def max_archive_def max_master_def
        min_market_rows_def full_market len del: set_map)
  from published_directory [OF run] run show ?thesis by (simp add: directory_ok_def markets_def)
qed

end
