(* ===== verification/StreamProbe.thy ===== *)
theory StreamProbe
  imports RestWs
begin

text \<open>
  \<open>tools/probe_kiwoom_ws.py\<close>: one bounded quote capture for an operator, with the last prices written to a file.
  Arguments are parsed; the environment of the capture is injected and extended by the list the tool collects. The
  credentials and the writing of the file are functions on the outside state. A book stands for its JSON document.
\<close>

section \<open>Collecting quotes\<close>

definition beside :: "('s \<Rightarrow> 'a \<times> 's) \<Rightarrow> 's \<times> 'l \<Rightarrow> 'a \<times> 's \<times> 'l" where
  "beside f = (\<lambda>(s, l). case f s of (x, s1) \<Rightarrow> (x, s1, l))"

definition collecting :: "'s ws_env \<Rightarrow> ('s \<times> quote_observation list) ws_env" where
  "collecting E = \<lparr>we_clock = beside (we_clock E), we_now = beside (we_now E), we_token = beside (we_token E),
     we_acquire = beside (we_acquire E), we_connect = (\<lambda>d. beside (we_connect E d)), we_send = (\<lambda>p. beside (we_send E p)),
     we_recv = (\<lambda>d. beside (we_recv E d)), we_close = beside (we_close E),
     we_sink = Some (\<lambda>q (s, l). (Inr (), s, l @ [q])), we_decode_utf8 = we_decode_utf8 E, we_loads = we_loads E\<rparr>"

text \<open>The book: for each symbol the price and the exchange clock of its last observation.\<close>

type_synonym price_book = "string \<rightharpoonup> int \<times> string"

definition quote_book :: "quote_observation list \<Rightarrow> price_book" where
  "quote_book qs = foldl (\<lambda>m q. m(qo_symbol q \<mapsto> (qo_price q, qo_exchange_clock q))) Map.empty qs"

section \<open>The tool\<close>

record 's probe_setup =
  pb_env :: "'s ws_env"
  pb_credentials :: "'s \<Rightarrow> (ws_error + unit) \<times> 's"
  pb_write :: "price_book \<Rightarrow> 's \<Rightarrow> bool \<times> 's"

datatype probe_output = Bad_arguments | Not_requested | Setup_unconfirmed string | Captured stream_capture bool | No_output

record probe_arguments =
  pa_symbol :: "string option"
  pa_seconds :: int
  pa_execute :: bool
  pa_quote_out :: bool

text \<open>The exit code, the output, the books written, and the outside.\<close>

definition finish_probe ::
    "'s probe_setup \<Rightarrow> probe_arguments \<Rightarrow> stream_capture \<Rightarrow> quote_observation list \<Rightarrow> 's \<Rightarrow>
     int \<times> probe_output \<times> price_book option \<times> 's" where
  "finish_probe W a c qs s =
     (let code = (if 0 < sp_quotes_observed c \<and> sp_fresh_before_close c then 0 else 1)
      in if pa_quote_out a \<and> 0 < sp_quotes_observed c
         then (case pb_write W (quote_book qs) s of
             (True, s1) \<Rightarrow> (code, Captured c True, Some (quote_book qs), s1)
           | (False, s1) \<Rightarrow> (1, No_output, None, s1))
         else (code, Captured c False, None, s))"

definition stream_probe ::
    "'s probe_setup \<Rightarrow> nat \<Rightarrow> probe_arguments \<Rightarrow> 's \<Rightarrow> (int \<times> probe_output \<times> price_book option \<times> 's) option" where
  "stream_probe W fuel a s =
     (if \<not> (1 \<le> pa_seconds a \<and> pa_seconds a \<le> 120) then Some (2, Bad_arguments, None, s)
      else if \<not> pa_execute a then Some (0, Not_requested, None, s)
      else case pa_symbol a of
        None \<Rightarrow> Some (2, Bad_arguments, None, s)
      | Some symb \<Rightarrow>
          (case make_stream [symb] of
             Inl _ \<Rightarrow> Some (1, Setup_unconfirmed (safe_failure_kind WsValueError), None, s)
           | Inr _ \<Rightarrow>
               (case pb_credentials W s of
                  (Inl e, s1) \<Rightarrow> Some (1, Setup_unconfirmed (safe_failure_kind e), None, s1)
                | (Inr _, s1) \<Rightarrow>
                    (case capture_stream (collecting (pb_env W)) fuel [symb] (Some (of_int (pa_seconds a))) 2 (s1, []) of
                       None \<Rightarrow> None
                     | Some (Inl _) \<Rightarrow> Some (1, Setup_unconfirmed (safe_failure_kind WsValueError), None, s1)
                     | Some (Inr (c, w)) \<Rightarrow> (case ws_world w of (s2, qs) \<Rightarrow> Some (finish_probe W a c qs s2))))))"

section \<open>What a probe reports\<close>

lemma quote_book_last:
  "quote_book (qs @ [q]) = (quote_book qs)(qo_symbol q \<mapsto> (qo_price q, qo_exchange_clock q))"
  by (simp add: quote_book_def)

text \<open>Each symbol of the book carries its last observation.\<close>

lemma quote_book_find:
  "quote_book qs symb =
     map_option (\<lambda>q. (qo_price q, qo_exchange_clock q)) (List.find (\<lambda>q. qo_symbol q = symb) (rev qs))"
  by (induction qs rule: rev_induct) (simp_all add: quote_book_last, simp add: quote_book_def)

text \<open>Exit code 0 of an executed probe: quotes were observed on a connection, the last one was still fresh, no failure is
  reported, and the file was written if it was asked for.\<close>

lemma stream_probe_confirms:
  assumes "stream_probe W fuel a s = Some (0, out, book, s')" and "pa_execute a"
  shows "\<exists>c. out = Captured c (pa_quote_out a) \<and> 1 \<le> sp_connections c \<and> 1 \<le> sp_quotes_observed c \<and> sp_fresh_before_close c \<and>
    sp_failure_stage c = None \<and> \<not> sp_orders_enabled c \<and> (book \<noteq> None \<longleftrightarrow> pa_quote_out a)"
proof -
  from assms obtain symb c w s1 where
    run: "capture_stream (collecting (pb_env W)) fuel [symb] (Some (of_int (pa_seconds a))) 2 (s1, []) = Some (Inr (c, w))"
    and fin: "finish_probe W a c (snd (ws_world w)) (fst (ws_world w)) = (0, out, book, s')"
    by (auto simp: stream_probe_def split: if_splits option.splits sum.splits prod.splits)
  from fin have "0 < sp_quotes_observed c" "sp_fresh_before_close c" "out = Captured c (pa_quote_out a)"
    "book \<noteq> None \<longleftrightarrow> pa_quote_out a"
    by (auto simp: finish_probe_def Let_def split: if_splits prod.splits bool.splits)
  with capture_verdict [OF run] show ?thesis by (cases "sp_connections c = 0") auto
qed

text \<open>Arguments are checked and execution must be asked for before the outside is touched.\<close>

lemma stream_probe_offline:
  "\<not> pa_execute a \<Longrightarrow> \<exists>code out. stream_probe W fuel a s = Some (code, out, None, s)"
  by (simp add: stream_probe_def)

text \<open>A silent market for two seconds: the probe fails and writes nothing.\<close>

lemma stream_probe_silent:
  "case stream_probe \<lparr>pb_env = silent_env, pb_credentials = (\<lambda>s. (Inr (), s)), pb_write = (\<lambda>_ s. (True, s))\<rparr> 5
      \<lparr>pa_symbol = Some ''005930'', pa_seconds = 2, pa_execute = True, pa_quote_out = True\<rparr> 0 of
     Some (code, Captured c saved, book, _) \<Rightarrow> code = 1 \<and> \<not> saved \<and> Option.is_none book \<and> sp_connections c = 1 | _ \<Rightarrow> False"
  by code_simp

end
