(* ===== verification/MigrationCheck.thy ===== *)
theory MigrationCheck
  imports Prelude
begin

text \<open>
  \<open>tools/verify_rest_migration.py\<close>: the fixed offline checks and the report they leave. Processes, the clock and the
  file are functions on an outside state; the globbed file lists are arguments. A report stands for its JSON document.
\<close>

section \<open>The commands\<close>

definition typecheck_command :: "string \<Rightarrow> string \<Rightarrow> bool \<Rightarrow> string \<Rightarrow> string list \<Rightarrow> string list" where
  "typecheck_command exe entry entry_is_file python adapters =
     (if entry_is_file then [''node'', entry, ''--pythonpath'', python] @ adapters
      else [exe, ''-m'', ''basedpyright''] @ adapters)"

definition check_files :: "string list \<Rightarrow> string list \<Rightarrow> string list" where
  "check_files adapters tests = adapters @ tests @
     [''tools/verify_rest_migration.py'', ''tools/probe_kiwoom_rest.py'', ''tools/probe_kiwoom_ws.py'']"

definition migration_checks :: "string \<Rightarrow> string list \<Rightarrow> string list \<Rightarrow> string list list" where
  "migration_checks exe files typecheck =
     [[exe, ''-m'', ''pytest'', ''--confcutdir=tests/rest'', ''tests/rest'', ''-q''],
      [exe, ''-m'', ''ruff'', ''check''] @ files,
      [exe, ''-m'', ''ruff'', ''format'', ''--check''] @ files,
      typecheck,
      [''node'', ''--test'', ''web/board/board.test.js'', ''web/board/buy-preview.test.js'', ''web/board/log-view.test.js''],
      [''git'', ''diff'', ''--check'']]"

section \<open>The report\<close>

record check_result =
  cr_command :: "string list"
  cr_exit_code :: int
  cr_stdout :: string
  cr_stderr :: string

record migration_report =
  mr_checked_at :: datetime
  mr_python :: string
  mr_checks :: "check_result list"
  mr_broker_verified :: bool
  mr_windows_engine_verified :: bool
  mr_passed :: bool

definition build_report :: "datetime \<Rightarrow> string \<Rightarrow> check_result list \<Rightarrow> migration_report" where
  "build_report at python results = \<lparr>mr_checked_at = at, mr_python = python, mr_checks = results, mr_broker_verified = False,
     mr_windows_engine_verified = False, mr_passed = (\<forall>r\<in>set results. cr_exit_code r = 0)\<rparr>"

text \<open>A check_process that cannot start or takes too long raises, with the name of the exception.\<close>

datatype check_process = Ended int string string | Process_raised string

fun check_item :: "string list \<Rightarrow> check_process \<Rightarrow> check_result" where
  "check_item command (Ended code out err) = \<lparr>cr_command = command, cr_exit_code = code, cr_stdout = out, cr_stderr = err\<rparr>"
| "check_item command (Process_raised name) =
     \<lparr>cr_command = command, cr_exit_code = - 1, cr_stdout = [], cr_stderr = name\<rparr>"

fun run_checks :: "(string list \<Rightarrow> 's \<Rightarrow> check_process \<times> 's) \<Rightarrow> string list list \<Rightarrow> 's \<Rightarrow> check_result list \<times> 's" where
  "run_checks start [] s = ([], s)"
| "run_checks start (c # cs) s =
     (case start c s of (p, s1) \<Rightarrow> (case run_checks start cs s1 of (rs, s2) \<Rightarrow> (check_item c p # rs, s2)))"

record 's migration_world =
  mw_start :: "string list \<Rightarrow> 's \<Rightarrow> check_process \<times> 's"
  mw_now :: "'s \<Rightarrow> datetime \<times> 's"
  mw_write :: "migration_report \<Rightarrow> 's \<Rightarrow> bool \<times> 's"
  mw_version :: string

text \<open>The exit code and the report, or \<^const>\<open>None\<close> when the report cannot be written.\<close>

definition verify_migration :: "'s migration_world \<Rightarrow> string list list \<Rightarrow> 's \<Rightarrow> (int \<times> migration_report) option \<times> 's" where
  "verify_migration W checks s =
     (let (results, s1) = run_checks (mw_start W) checks s;
          (now, s2) = mw_now W s1;
          rep = build_report now (mw_version W) results;
          (ok, s3) = mw_write W rep s2
      in (if ok then Some (if mr_passed rep then 0 else 1, rep) else None, s3))"

section \<open>What a report says\<close>

lemma run_checks_commands: "map cr_command (fst (run_checks start cs s)) = cs"
proof (induction cs arbitrary: s)
  case (Cons c cs)
  have "cr_command (check_item c p) = c" for p by (cases p) simp_all
  with Cons show ?case by (simp split: prod.splits) (metis fst_conv)
qed simp

text \<open>No failure is left out: the report lists every check in order, and exit code 0 means that each of them ran and
  ended with 0; the report never claims more than the offline scope.\<close>

lemma verify_migration_honest:
  assumes "verify_migration W checks s = (Some (code, rep), s')"
  shows "map cr_command (mr_checks rep) = checks \<and> (code = 0 \<longleftrightarrow> (\<forall>r\<in>set (mr_checks rep). cr_exit_code r = 0)) \<and>
    code \<in> {0, 1} \<and> \<not> mr_broker_verified rep \<and> \<not> mr_windows_engine_verified rep"
proof -
  obtain results s1 where r: "run_checks (mw_start W) checks s = (results, s1)" by fastforce
  then have "map cr_command results = checks" using run_checks_commands [of "mw_start W" checks s] by simp
  then show ?thesis using assms r
    by (auto simp: verify_migration_def build_report_def Let_def split: prod.splits if_splits)
qed

lemma raised_check_fails:
  "Process_raised name = fst (start c s) \<Longrightarrow> cr_exit_code (hd (fst (run_checks start (c # cs) s))) = - 1"
  by (cases "start c s") (auto split: prod.splits)

end
