(* ===== verification/DesktopQuery.thy ===== *)
theory DesktopQuery
  imports KiwoomReadonly
begin

text \<open>
  \<open>verify_kiwoom_readonly.py\<close>: one read-only query of the desktop control, with a login and dialogs of the operator.
  The control, the dialogs and the clock are functions on an outside state; the events that the event loop delivers
  are an explicit sequence, and the timer ends the loop when the sequence is exhausted. Printing is left out.
\<close>

section \<open>Messages\<close>

definition password_word :: utext where
  "password_word = [48708, 48128, 48264, 54840]"

definition account_word :: utext where
  "account_word = [44228, 51340, 48264, 54840]"

definition contains_any :: "utext list \<Rightarrow> utext \<Rightarrow> bool" where
  "contains_any ws s \<longleftrightarrow> (\<exists>w\<in>set ws. sublist w s)"

text \<open>The words are, in order: password, authentication; account; query, data; limit, excess, speed; right, permission.\<close>

definition classify_message :: "utext \<Rightarrow> string" where
  "classify_message s =
     (if contains_any [password_word, [51064, 51613]] s then ''AUTHENTICATION''
      else if contains_any [[44228, 51340]] s then ''ACCOUNT''
      else if contains_any [[51312, 54924], u ''TR'', [45936, 51060, 53552]] s then ''QUERY''
      else if contains_any [[51228, 54620], [52488, 44284], [49549, 46020]] s then ''RATE_LIMIT''
      else if contains_any [[44428, 54620], [54728, 50857]] s then ''PERMISSION''
      else ''OTHER'')"

text \<open>
  \<open>re.sub(r"\d{4,}", "<digits>", s)\<close>: a run of digits is replaced as a whole or kept. Which characters are
  decimal digits beyond ASCII depends on the Unicode version of the interpreter and is a parameter.
\<close>

function redact_runs :: "(int \<Rightarrow> bool) \<Rightarrow> utext \<Rightarrow> utext" where
  "redact_runs nd [] = []"
| "redact_runs nd (c # cs) =
     (if nd c
      then (let run = c # takeWhile nd cs
            in (if 4 \<le> length run then u ''<digits>'' else run) @ redact_runs nd (dropWhile nd cs))
      else c # redact_runs nd cs)"
  by pat_completeness auto
termination
  by (relation "measure (length \<circ> snd)") (auto simp: le_imp_less_Suc length_dropWhile_le)

text \<open>
  The second substitution, ignoring case: the password keyword, white space, an optional colon or equals sign, white
  space, and the word after it. The long s also matches an s. The result is what is left after the match; a sign
  with nothing behind it is itself the word.
\<close>

definition folded :: "int \<Rightarrow> int" where
  "folded c = (if 65 \<le> c \<and> c \<le> 90 then c + 32 else if c = 383 then 115 else c)"

definition keyword_length :: "utext \<Rightarrow> nat option" where
  "keyword_length s =
     (if take 4 s = password_word then Some 4 else if map folded (take 8 s) = u ''password'' then Some 8 else None)"

definition skip_word :: "utext \<Rightarrow> utext" where
  "skip_word s = dropWhile (\<lambda>c. \<not> u_blank c) s"

definition skip_secret :: "utext \<Rightarrow> utext option" where
  "skip_secret s =
     (case dropWhile u_blank s of
        [] \<Rightarrow> None
      | c # cs \<Rightarrow>
          if c \<in> {58, 61} \<and> dropWhile u_blank cs \<noteq> [] then Some (skip_word (dropWhile u_blank cs)) else Some (skip_word (c # cs)))"

definition secret_at :: "utext \<Rightarrow> (utext \<times> utext) option" where
  "secret_at s = (case keyword_length s of
     None \<Rightarrow> None
   | Some n \<Rightarrow> map_option (Pair (take n s)) (skip_secret (drop n s)))"

lemma skip_word_le: "length (skip_word s) \<le> length s"
  by (simp add: skip_word_def length_dropWhile_le)

lemma skip_secret_le: "skip_secret s = Some t \<Longrightarrow> length t \<le> length s"
proof -
  assume t: "skip_secret s = Some t"
  then obtain c cs where s: "dropWhile u_blank s = c # cs" by (auto simp: skip_secret_def split: list.splits)
  have "length (c # cs) \<le> length s" using s length_dropWhile_le [of u_blank s] by simp
  moreover have "length t \<le> length (c # cs)"
    using t s skip_word_le [of "dropWhile u_blank cs"] skip_word_le [of "c # cs"] length_dropWhile_le [of u_blank cs]
    by (auto simp: skip_secret_def split: if_splits)
  ultimately show ?thesis by simp
qed

lemma secret_at_shrinks: "secret_at s = Some (k, t) \<Longrightarrow> length t < length s"
proof -
  assume m: "secret_at s = Some (k, t)"
  then obtain n where n: "keyword_length s = Some n" and t: "skip_secret (drop n s) = Some t"
    by (auto simp: secret_at_def split: option.splits)
  have "s \<noteq> []" "0 < n" using n by (auto simp: keyword_length_def password_word_def u_def split: if_splits)
  then have "length (drop n s) < length s" by (cases s) simp_all
  with skip_secret_le [OF t] show ?thesis by simp
qed

function redact_secrets :: "utext \<Rightarrow> utext" where
  "redact_secrets s =
     (case secret_at s of
        Some (k, t) \<Rightarrow> k @ u ''=<redacted>'' @ redact_secrets t
      | None \<Rightarrow> (case s of [] \<Rightarrow> [] | c # cs \<Rightarrow> c # redact_secrets cs))"
  by pat_completeness auto
termination
  by (relation "measure length") (auto simp: secret_at_shrinks)

declare redact_secrets.simps [simp del]

definition redact_message :: "(int \<Rightarrow> bool) \<Rightarrow> utext \<Rightarrow> utext" where
  "redact_message nd s = (let r = redact_secrets (redact_runs nd s) in if r = [] then u ''<empty>'' else take 160 r)"

definition safe_input_fields :: "(utext \<times> utext) list \<Rightarrow> (utext \<times> utext) list" where
  "safe_input_fields values = map (\<lambda>(k, v). (k, if k \<in> {account_word, password_word} then u ''<redacted>'' else v)) values"

section \<open>The desktop\<close>

text \<open>\<open>dynamicCall\<close> with its signature and arguments, read as a number or as text.\<close>

record 's desk =
  dk_create :: "'s \<Rightarrow> bool \<times> 's"
  dk_int :: "string \<Rightarrow> call_arg list \<Rightarrow> 's \<Rightarrow> int \<times> 's"
  dk_text :: "string \<Rightarrow> call_arg list \<Rightarrow> 's \<Rightarrow> utext \<times> 's"
  dk_now :: "'s \<Rightarrow> datetime \<times> 's"
  dk_pick_account :: "nat \<Rightarrow> 's \<Rightarrow> nat option \<times> 's"
  dk_ask_password :: "'s \<Rightarrow> utext option \<times> 's"
  dk_digit :: "int \<Rightarrow> bool"

text \<open>The login: connected or not, the code of the error, and the status. Events are the codes of \<open>OnEventConnect\<close>.\<close>

definition desk_login :: "'s desk \<Rightarrow> int list \<Rightarrow> 's \<Rightarrow> (bool \<times> int option \<times> string) \<times> 's" where
  "desk_login W events s =
     (case dk_int W ''GetConnectState()'' [] s of
        (state, s1) \<Rightarrow>
          if state = 1 then ((True, Some 0, ''already_connected''), s1)
          else (case dk_int W ''CommConnect()'' [] s1 of
              (ret, s2) \<Rightarrow>
                if ret \<noteq> 0 then ((False, Some ret, ''COMM_CONNECT_RETURN''), s2)
                else (case dk_int W ''GetConnectState()'' [] s2 of
                    (now_state, s3) \<Rightarrow>
                      let err = (case events of [] \<Rightarrow> None | e # _ \<Rightarrow> Some e)
                      in if now_state \<noteq> 1 \<and> err = None then ((False, None, ''LOGIN_TIMEOUT''), s3)
                         else ((now_state = 1, err, ''LOGIN_EVENT''), s3))))"

fun split_semicolons :: "utext \<Rightarrow> utext \<Rightarrow> utext list" where
  "split_semicolons cur [] = [cur]"
| "split_semicolons cur (c # cs) = (if c = 59 then cur # split_semicolons [] cs else split_semicolons (cur @ [c]) cs)"

text \<open>The chosen account number and its number in the list, from which its alias is made.\<close>

definition choose_account :: "'s desk \<Rightarrow> 's \<Rightarrow> (utext \<times> nat) option \<times> 's" where
  "choose_account W s =
     (case dk_text W ''GetLoginInfo(QString)'' [Text (u ''ACCNO'')] s of
        (raw, s1) \<Rightarrow>
          let accounts = filter (\<lambda>a. a \<noteq> []) (split_semicolons [] raw)
          in if accounts = [] then (None, s1)
             else (case dk_pick_account W (length accounts) s1 of
                 (None, s2) \<Rightarrow> (None, s2)
               | (Some i, s2) \<Rightarrow> (Some (accounts ! i, i + 1), s2)))"

fun apply_inputs :: "'s desk \<Rightarrow> (utext \<times> utext) list \<Rightarrow> 's \<Rightarrow> 's" where
  "apply_inputs W [] s = s"
| "apply_inputs W ((k, v) # values) s =
     apply_inputs W values (snd (dk_text W ''SetInputValue(QString, QString)'' [Text k, Text v] s))"

definition balance_values :: "utext \<Rightarrow> utext \<Rightarrow> (utext \<times> utext) list" where
  "balance_values account password = [(account_word, account), (password_word, password),
     ([48708, 48128, 48264, 54840, 51077, 47141, 47588, 52404, 44396, 48516], u ''00''),
     ([51312, 54924, 44396, 48516], u ''1'')]"

definition open_order_values :: "utext \<Rightarrow> (utext \<times> utext) list" where
  "open_order_values account = [(account_word, account), ([51204, 52404, 51333, 47785, 44396, 48516], u ''0''),
     ([47588, 47588, 44396, 48516], u ''0''), ([51333, 47785, 53076, 46300], []), ([52404, 44208, 44396, 48516], u ''1'')]"

datatype candidate_tr = Opw00018 | Opt10075 | Opw00007

fun tr_name :: "candidate_tr \<Rightarrow> string" where
  "tr_name Opw00018 = ''opw00018''"
| "tr_name Opt10075 = ''opt10075''"
| "tr_name Opw00007 = ''opw00007''"

definition configure_request ::
    "'s desk \<Rightarrow> candidate_tr \<Rightarrow> utext \<Rightarrow> 's \<Rightarrow> (string + (utext \<times> utext) list) \<times> 's" where
  "configure_request W tr account s =
     (case tr of
        Opw00018 \<Rightarrow>
          (case dk_ask_password W s of
             (None, s1) \<Rightarrow> (Inl ''ACCOUNT_PASSWORD_NOT_PROVIDED'', s1)
           | (Some password, s1) \<Rightarrow> (let values = balance_values account password
               in (Inr (safe_input_fields values), apply_inputs W values s1)))
      | Opt10075 \<Rightarrow> (let values = open_order_values account in (Inr (safe_input_fields values), apply_inputs W values s))
      | Opw00007 \<Rightarrow> (Inl ''TR_SPEC_UNCONFIRMED'', s))"

section \<open>One query\<close>

record tr_page =
  tp_number :: nat
  tp_received_at :: datetime
  tp_screen :: utext
  tp_request_name :: utext
  tp_tr_code :: utext
  tp_record_name :: utext
  tp_event_match :: bool
  tp_prev_next :: utext
  tp_row_count :: "int option"
  tp_complete :: bool

record broker_message =
  bm_received_at :: datetime
  bm_kind :: string
  bm_text :: utext
  bm_length :: nat

record desk_evidence =
  de_requested_at :: datetime
  de_responded_at :: "datetime option"
  de_request_return :: "int option"
  de_pages :: "tr_page list"
  de_messages :: "broker_message list"
  de_inputs :: "(utext \<times> utext) list"
  de_error :: "string option"

text \<open>Both events bring a list of values, already as text.\<close>

datatype tr_event = Message "utext list" | Data "utext list"

record 's desk_state =
  ds_evidence :: desk_evidence
  ds_response_error :: "string option"
  ds_outside :: 's

definition screen_of :: "candidate_tr \<Rightarrow> string" where
  "screen_of tr = (case tr of Opw00018 \<Rightarrow> ''9101'' | _ \<Rightarrow> ''9102'')"

definition request_name :: "candidate_tr \<Rightarrow> string" where
  "request_name tr = ''readonly_'' @ tr_name tr"

definition own_event :: "candidate_tr \<Rightarrow> utext list \<Rightarrow> bool" where
  "own_event tr args = event_matches_request args (u (screen_of tr)) (u (request_name tr)) (u (tr_name tr))"

definition event_field :: "utext list \<Rightarrow> nat \<Rightarrow> utext \<Rightarrow> utext" where
  "event_field args i other = (if i < length args then u_strip (args ! i) else other)"

definition page_of_event :: "candidate_tr \<Rightarrow> utext list \<Rightarrow> bool \<Rightarrow> int option \<Rightarrow> nat \<Rightarrow> datetime \<Rightarrow> tr_page" where
  "page_of_event tr args matched rows number time =
     (let prev_next = event_field args 4 (u ''UNKNOWN'')
      in \<lparr>tp_number = number, tp_received_at = time, tp_screen = event_field args 0 (u ''UNKNOWN''),
        tp_request_name = event_field args 1 (u ''UNKNOWN''), tp_tr_code = event_field args 2 (u ''UNKNOWN''),
        tp_record_name = event_field args 3 (u (request_name tr)), tp_event_match = matched, tp_prev_next = prev_next,
        tp_row_count = rows, tp_complete = matched \<and> prev_next \<in> {[], u ''0''}\<rparr>)"

definition request_page :: "'s desk \<Rightarrow> candidate_tr \<Rightarrow> int \<Rightarrow> 's \<Rightarrow> int \<times> 's" where
  "request_page W tr prev_next =
     dk_int W ''CommRqData(QString, QString, int, QString)''
       [Text (u (request_name tr)), Text (u (tr_name tr)), Number prev_next, Text (u (screen_of tr))]"

definition return_error :: "int \<Rightarrow> string" where
  "return_error n = ''COMM_RQ_DATA_RETURN_'' @ str_int n"

definition on_message :: "'s desk \<Rightarrow> candidate_tr \<Rightarrow> utext list \<Rightarrow> 's desk_state \<Rightarrow> 's desk_state" where
  "on_message W tr args q =
     (if \<not> own_event tr args then q
      else (case dk_now W (ds_outside q) of
          (time, s1) \<Rightarrow>
            q\<lparr>ds_response_error := (if u_strip (last args) \<noteq> [] then Some ''BROKER_MESSAGE_PRESENT'' else None),
              ds_evidence := (ds_evidence q)\<lparr>de_messages := de_messages (ds_evidence q) @
                [\<lparr>bm_received_at = time, bm_kind = classify_message (last args),
                  bm_text = redact_message (dk_digit W) (last args), bm_length = length (last args)\<rparr>]\<rparr>,
              ds_outside := s1\<rparr>))"

text \<open>Whether the event ends the loop, and the state.\<close>

definition on_data :: "'s desk \<Rightarrow> candidate_tr \<Rightarrow> utext list \<Rightarrow> 's desk_state \<Rightarrow> bool \<times> 's desk_state" where
  "on_data W tr args q =
     (let e = ds_evidence q; number = length (de_pages e) + 1
      in if \<not> own_event tr args
         then (case dk_now W (ds_outside q) of
             (time, s1) \<Rightarrow> (True, q\<lparr>ds_evidence := e\<lparr>de_pages := de_pages e @ [page_of_event tr args False None number time],
                 de_error := Some ''TR_EVENT_MISMATCH''\<rparr>, ds_outside := s1\<rparr>))
         else
           (let tr_code = event_field args 2 (u ''UNKNOWN''); record_name = event_field args 3 (u (request_name tr));
                prev_next = event_field args 4 (u ''UNKNOWN'');
                (rows, s1) = dk_int W ''GetRepeatCnt(QString, QString)'' [Text tr_code, Text record_name] (ds_outside q);
                (time, s2) = dk_now W s1;
                e1 = e\<lparr>de_pages := de_pages e @ [page_of_event tr args True (Some rows) number time]\<rparr>
            in if prev_next = u ''2''
               then (let (ret, s3) = request_page W tr 2 s2; e2 = e1\<lparr>de_request_return := Some ret\<rparr>
                     in if ret \<noteq> 0 then (True, q\<lparr>ds_evidence := e2\<lparr>de_error := Some (return_error ret)\<rparr>, ds_outside := s3\<rparr>)
                        else (False, q\<lparr>ds_evidence := e2, ds_outside := s3\<rparr>))
               else (case dk_now W s2 of
                   (done, s3) \<Rightarrow> (True, q\<lparr>ds_evidence := e1\<lparr>de_responded_at := Some done,
                       de_error := (case de_error e of None \<Rightarrow> ds_response_error q | Some x \<Rightarrow> Some x)\<rparr>, ds_outside := s3\<rparr>))))"

fun event_loop :: "'s desk \<Rightarrow> candidate_tr \<Rightarrow> tr_event list \<Rightarrow> 's desk_state \<Rightarrow> 's desk_state" where
  "event_loop W tr [] q = q"
| "event_loop W tr (Message args # es) q = event_loop W tr es (on_message W tr args q)"
| "event_loop W tr (Data args # es) q =
     (case on_data W tr args q of (finished, q1) \<Rightarrow> if finished then q1 else event_loop W tr es q1)"

definition query_one :: "'s desk \<Rightarrow> candidate_tr \<Rightarrow> tr_event list \<Rightarrow> 's \<Rightarrow> desk_evidence \<times> 's" where
  "query_one W tr events s =
     (case dk_now W s of
        (time, s1) \<Rightarrow>
          (case request_page W tr 0 s1 of
             (ret, s2) \<Rightarrow>
               let e = \<lparr>de_requested_at = time, de_responded_at = None, de_request_return = Some ret, de_pages = [],
                     de_messages = [], de_inputs = [], de_error = None\<rparr>
               in if ret \<noteq> 0 then (e\<lparr>de_error := Some (return_error ret)\<rparr>, s2)
                  else
                    (let q = event_loop W tr events \<lparr>ds_evidence = e, ds_response_error = None, ds_outside = s2\<rparr>;
                         e1 = ds_evidence q;
                         e2 = (if de_responded_at e1 = None \<and> de_error e1 = None
                               then e1\<lparr>de_error := Some ''TR_TIMEOUT_OR_INCOMPLETE''\<rparr> else e1);
                         e3 = (if ds_response_error q \<noteq> None \<and> de_error e2 = None
                               then e2\<lparr>de_error := ds_response_error q\<rparr> else e2)
                     in (e3, ds_outside q))))"

section \<open>The run\<close>

datatype desk_report = Control_missing | Not_connected string | No_account | Not_configured string
  | Queried nat desk_evidence bool string

definition page_complete :: "desk_evidence \<Rightarrow> bool" where
  "page_complete e \<longleftrightarrow> de_responded_at e \<noteq> None \<and> pagination_complete (map tp_prev_next (de_pages e))"

definition desk_main ::
    "'s desk \<Rightarrow> candidate_tr \<Rightarrow> int list \<Rightarrow> tr_event list \<Rightarrow> 's \<Rightarrow> (int \<times> desk_report) \<times> 's" where
  "desk_main W tr logins events s =
     (case dk_create W s of
        (created, s1) \<Rightarrow>
          if \<not> created then ((1, Control_missing), s1)
          else (case desk_login W logins s1 of
              ((logged_in, err, status), s2) \<Rightarrow>
                if \<not> logged_in then ((2, Not_connected status), s2)
                else (case choose_account W s2 of
                    (None, s3) \<Rightarrow> ((3, No_account), s3)
                  | (Some (account, number), s3) \<Rightarrow>
                      (case configure_request W tr account s3 of
                         (Inl reason, s4) \<Rightarrow> ((4, Not_configured reason), s4)
                       | (Inr inputs, s4) \<Rightarrow>
                           (case query_one W tr events s4 of
                              (e, s5) \<Rightarrow>
                                let e1 = e\<lparr>de_inputs := inputs\<rparr>
                                in ((if de_responded_at e1 \<noteq> None \<and> de_error e1 = None then 0 else 5,
                                     Queried number e1 (page_complete e1)
                                       (if de_error e1 \<noteq> None then ''NOT_VALIDATED'' else ''UNASSESSED'')), s5))))))"

section \<open>Redaction\<close>

text \<open>No run of four digits, when \<open>n\<close> digits precede the text.\<close>

fun few_digits :: "(int \<Rightarrow> bool) \<Rightarrow> nat \<Rightarrow> utext \<Rightarrow> bool" where
  "few_digits nd n [] = True"
| "few_digits nd n (c # cs) = (if nd c then n < 3 \<and> few_digits nd (Suc n) cs else few_digits nd 0 cs)"

text \<open>What is known of the decimal digits in any version of Unicode: in ASCII the ten digits only, and no keyword letter.\<close>

definition proper_digits :: "(int \<Rightarrow> bool) \<Rightarrow> bool" where
  "proper_digits nd \<longleftrightarrow> (\<forall>c\<in>{0..127}. nd c \<longleftrightarrow> 48 \<le> c \<and> c \<le> 57) \<and> \<not> nd 383 \<and> (\<forall>c\<in>set password_word. \<not> nd c)"

lemma few_digits_mono: "few_digits nd n s \<Longrightarrow> m \<le> n \<Longrightarrow> few_digits nd m s"
  by (induction s arbitrary: n m) (fastforce split: if_splits)+

lemma few_digits_rest: "few_digits nd n (xs @ ys) \<Longrightarrow> few_digits nd 0 ys"
  by (induction xs arbitrary: n) (auto intro: few_digits_mono split: if_splits)

lemma few_digits_take: "few_digits nd n s \<Longrightarrow> few_digits nd n (take k s)"
proof (induction s arbitrary: n k)
  case (Cons c cs)
  then show ?case by (cases k) (auto split: if_splits)
qed simp

lemma few_digits_plain: "\<forall>c\<in>set xs. \<not> nd c \<Longrightarrow> xs \<noteq> [] \<Longrightarrow> few_digits nd n (xs @ ys) = few_digits nd 0 ys"
proof (induction xs arbitrary: n)
  case (Cons c cs)
  then show ?case by (cases cs) auto
qed simp

lemma few_digits_run:
  "\<forall>c\<in>set run. nd c \<Longrightarrow> n + length run \<le> 3 \<Longrightarrow> \<forall>k. few_digits nd k ys \<Longrightarrow> few_digits nd n (run @ ys)"
  by (induction run arbitrary: n) auto

lemma redact_runs_few:
  assumes "\<forall>c\<in>set (u ''<digits>''). \<not> nd c"
  shows "few_digits nd 0 (redact_runs nd s) \<and> (s = [] \<or> \<not> nd (hd s) \<longrightarrow> (\<forall>k. few_digits nd k (redact_runs nd s)))"
  using assms
proof (induction nd s rule: redact_runs.induct)
  case (2 nd c cs)
  show ?case
  proof (cases "nd c")
    case True
    let ?run = "c # takeWhile nd cs" and ?rest = "dropWhile nd cs"
    have "?rest = [] \<or> \<not> nd (hd ?rest)" using hd_dropWhile by blast
    with 2(1) [OF True refl 2(3)] have rest: "\<forall>k. few_digits nd k (redact_runs nd ?rest)" by blast
    have "few_digits nd 0 ((if 4 \<le> length ?run then u ''<digits>'' else ?run) @ redact_runs nd ?rest)"
    proof (cases "4 \<le> length ?run")
      case True
      have "u ''<digits>'' \<noteq> []" by (simp add: u_def)
      from few_digits_plain [OF 2(3) this] rest True show ?thesis by simp
    next
      case False
      moreover have "\<forall>x\<in>set ?run. nd x" using True by (auto dest: set_takeWhileD)
      ultimately show ?thesis using few_digits_run [of ?run nd 0] rest by simp
    qed
    then show ?thesis using True by (simp add: Let_def)
  qed (use 2 in simp)
qed simp

lemma proper_digits_ascii:
  assumes "proper_digits nd"
  shows "\<forall>c\<in>set (u ''<digits>''). \<not> nd c" and "\<forall>c\<in>set (u ''=<redacted>''). \<not> nd c" and "\<forall>c\<in>set (u ''<empty>''). \<not> nd c"
  using assms by (auto simp: proper_digits_def u_def)

lemma keyword_plain:
  assumes "proper_digits nd" and "keyword_length s = Some n"
  shows "\<forall>c\<in>set (take n s). \<not> nd c"
proof (cases "take 4 s = password_word")
  case True
  then show ?thesis using assms by (simp add: keyword_length_def proper_digits_def)
next
  case False
  with assms(2) have n: "n = 8" and w: "map folded (take 8 s) = u ''password''"
    by (simp_all add: keyword_length_def split: if_splits)
  show ?thesis
  proof
    fix c assume "c \<in> set (take n s)"
    then have "folded c \<in> set (u ''password'')" using w n by (metis image_eqI list.set_map)
    then have "97 \<le> folded c \<and> folded c \<le> 122" by (auto simp: u_def)
    then have "c = 383 \<or> (0 \<le> c \<and> c \<le> 127 \<and> \<not> (48 \<le> c \<and> c \<le> 57))" by (auto simp: folded_def split: if_splits)
    then show "\<not> nd c" using assms(1) by (auto simp: proper_digits_def)
  qed
qed

lemma skip_word_suffix: "\<exists>pre. s = pre @ skip_word s"
  unfolding skip_word_def by (metis takeWhile_dropWhile_id)

lemma skip_secret_suffix: "skip_secret s = Some t \<Longrightarrow> \<exists>pre. s = pre @ t"
proof -
  assume t: "skip_secret s = Some t"
  then obtain c cs where s: "dropWhile u_blank s = c # cs" by (auto simp: skip_secret_def split: list.splits)
  then have s': "s = takeWhile u_blank s @ c # cs" by (metis takeWhile_dropWhile_id)
  obtain a where a: "dropWhile u_blank cs = a @ skip_word (dropWhile u_blank cs)" using skip_word_suffix by blast
  obtain b where b: "c # cs = b @ skip_word (c # cs)" using skip_word_suffix by blast
  from t s consider "t = skip_word (dropWhile u_blank cs)" | "t = skip_word (c # cs)"
    by (auto simp: skip_secret_def split: if_splits)
  then show ?thesis
  proof cases
    case 1
    then have "s = (takeWhile u_blank s @ c # takeWhile u_blank cs @ a) @ t"
      using s' a by (metis append.assoc append_Cons takeWhile_dropWhile_id)
    then show ?thesis by blast
  next
    case 2
    then show ?thesis using s' b by (metis append.assoc)
  qed
qed

lemma redact_secrets_few:
  assumes "proper_digits nd"
  shows "few_digits nd n s \<Longrightarrow> few_digits nd n (redact_secrets s)"
proof (induction s arbitrary: n rule: redact_secrets.induct)
  case (1 s)
  show ?case
  proof (cases "secret_at s")
    case None
    with 1 show ?thesis
      by (subst redact_secrets.simps) (auto split: list.splits if_splits)
  next
    case (Some kt)
    then obtain k t where m: "secret_at s = Some (k, t)" by (cases kt) simp
    then obtain m' where kw: "keyword_length s = Some m'" "k = take m' s" "skip_secret (drop m' s) = Some t"
      by (auto simp: secret_at_def split: option.splits)
    obtain pre where "drop m' s = pre @ t" using skip_secret_suffix [OF kw(3)] by blast
    then have "s = (take m' s @ pre) @ t" by (metis append.assoc append_take_drop_id)
    then have "few_digits nd 0 t" using few_digits_rest 1(3) by metis
    then have rest: "few_digits nd 0 (redact_secrets t)" using 1(2) [OF m refl] by blast
    have "\<forall>c\<in>set (k @ u ''=<redacted>''). \<not> nd c" "k @ u ''=<redacted>'' \<noteq> []"
      using keyword_plain [OF assms kw(1)] kw(2) proper_digits_ascii(2) [OF assms] by (auto simp: u_def)
    from few_digits_plain [OF this, of n "redact_secrets t"] rest show ?thesis
      using m by (subst redact_secrets.simps) simp
  qed
qed

lemma few_digits_run_free:
  assumes "few_digits nd 0 (pre @ run @ post)" and "length run = 4"
  shows "\<exists>c\<in>set run. \<not> nd c"
proof (rule ccontr)
  assume all: "\<not> (\<exists>c\<in>set run. \<not> nd c)"
  from assms(2) obtain a b c d where run: "run = [a, b, c, d]" by (auto simp: length_Suc_conv numeral_eq_Suc)
  have "few_digits nd 0 (run @ post)" using assms(1) by (rule few_digits_rest)
  then show False using all by (simp add: run)
qed

text \<open>C38: What is kept of a broker message shows no number: it has no four decimal digits in a row, whatever the message and
  the Unicode version, and at most 160 characters.\<close>

theorem redacted_message_short_numbers:
  assumes "proper_digits nd"
  shows "\<not> (\<exists>pre run post. redact_message nd s = pre @ run @ post \<and> length run = 4 \<and> (\<forall>c\<in>set run. nd c)) \<and>
    length (redact_message nd s) \<le> 160"
proof -
  have "few_digits nd 0 (redact_secrets (redact_runs nd s))"
    using redact_secrets_few [OF assms] redact_runs_few [OF proper_digits_ascii(1) [OF assms], of s] by blast
  moreover have "few_digits nd 0 (u ''<empty>'')"
    using few_digits_plain [OF proper_digits_ascii(3) [OF assms], of 0 "[]"] by (simp add: u_def)
  ultimately have "few_digits nd 0 (redact_message nd s)" by (simp add: redact_message_def Let_def few_digits_take)
  then have "\<not> (\<exists>pre run post. redact_message nd s = pre @ run @ post \<and> length run = 4 \<and> (\<forall>c\<in>set run. nd c))"
    using few_digits_run_free by metis
  moreover have "length (redact_message nd s) \<le> 160" by (simp add: redact_message_def Let_def u_def)
  ultimately show ?thesis by blast
qed

definition ascii_digit :: "int \<Rightarrow> bool" where
  "ascii_digit c \<longleftrightarrow> 48 \<le> c \<and> c \<le> 57"

lemma ascii_digit_proper: "proper_digits ascii_digit"
  by (auto simp: proper_digits_def ascii_digit_def password_word_def)

theorem redacted_message_short_numbers_witness:
  "redact_message ascii_digit (u ''acct 12345678 PassWord : hunter2 x'') = u ''acct <digits> PassWord=<redacted> x'' \<and>
   \<not> (\<exists>pre run post. u ''acct <digits> PassWord=<redacted> x'' = pre @ run @ post \<and> length run = 4 \<and> (\<forall>c\<in>set run. ascii_digit c))"
proof -
  have shown: "redact_message ascii_digit (u ''acct 12345678 PassWord : hunter2 x'') = u ''acct <digits> PassWord=<redacted> x''"
    by code_simp
  with redacted_message_short_numbers [OF ascii_digit_proper, of "u ''acct 12345678 PassWord : hunter2 x''"]
  show ?thesis by simp
qed

section \<open>The calls of a run\<close>

type_synonym desk_log = "(string \<times> call_arg list) list"

definition logged_desk :: "'s desk \<Rightarrow> ('s \<times> desk_log) desk" where
  "logged_desk W = \<lparr>dk_create = (\<lambda>(s, l). case dk_create W s of (x, s1) \<Rightarrow> (x, s1, l)),
     dk_int = (\<lambda>sig args (s, l). case dk_int W sig args s of (x, s1) \<Rightarrow> (x, s1, l @ [(sig, args)])),
     dk_text = (\<lambda>sig args (s, l). case dk_text W sig args s of (x, s1) \<Rightarrow> (x, s1, l @ [(sig, args)])),
     dk_now = (\<lambda>(s, l). case dk_now W s of (x, s1) \<Rightarrow> (x, s1, l)),
     dk_pick_account = (\<lambda>n (s, l). case dk_pick_account W n s of (x, s1) \<Rightarrow> (x, s1, l)),
     dk_ask_password = (\<lambda>(s, l). case dk_ask_password W s of (x, s1) \<Rightarrow> (x, s1, l)), dk_digit = dk_digit W\<rparr>"

definition desk_call_ok :: "candidate_tr \<Rightarrow> string \<times> call_arg list \<Rightarrow> bool" where
  "desk_call_ok tr = (\<lambda>(sig, args). sig \<in> {''GetConnectState()'', ''CommConnect()'', ''GetLoginInfo(QString)'',
       ''SetInputValue(QString, QString)'', ''GetRepeatCnt(QString, QString)''} \<or>
     sig = ''CommRqData(QString, QString, int, QString)'' \<and>
       (\<exists>n\<in>{0, 2}. args = [Text (u (request_name tr)), Text (u (tr_name tr)), Number n, Text (u (screen_of tr))]))"

definition calls_ok :: "candidate_tr \<Rightarrow> 's \<times> desk_log \<Rightarrow> bool" where
  "calls_ok tr w \<longleftrightarrow> list_all (desk_call_ok tr) (snd w)"

text \<open>Each operation on the outside keeps the log in order.\<close>

lemma logged_operations:
  "calls_ok tr w \<Longrightarrow> calls_ok tr (snd (dk_create (logged_desk W) w))"
  "calls_ok tr w \<Longrightarrow> calls_ok tr (snd (dk_now (logged_desk W) w))"
  "calls_ok tr w \<Longrightarrow> calls_ok tr (snd (dk_pick_account (logged_desk W) n w))"
  "calls_ok tr w \<Longrightarrow> calls_ok tr (snd (dk_ask_password (logged_desk W) w))"
  "calls_ok tr w \<Longrightarrow> desk_call_ok tr (sig, args) \<Longrightarrow> calls_ok tr (snd (dk_int (logged_desk W) sig args w))"
  "calls_ok tr w \<Longrightarrow> desk_call_ok tr (sig, args) \<Longrightarrow> calls_ok tr (snd (dk_text (logged_desk W) sig args w))"
  by (cases w; simp add: calls_ok_def logged_desk_def split: prod.splits)+

lemma desk_calls:
  "desk_call_ok tr (''GetConnectState()'', args)" "desk_call_ok tr (''CommConnect()'', args)"
  "desk_call_ok tr (''GetLoginInfo(QString)'', args)" "desk_call_ok tr (''SetInputValue(QString, QString)'', args)"
  "desk_call_ok tr (''GetRepeatCnt(QString, QString)'', args)"
  by (simp_all add: desk_call_ok_def)

lemma request_page_calls:
  assumes "calls_ok tr w" and "n = 0 \<or> n = 2"
  shows "calls_ok tr (snd (request_page (logged_desk W) tr n w))"
  unfolding request_page_def using assms by (intro logged_operations(5)) (auto simp: desk_call_ok_def)

lemmas call_steps = logged_operations desk_calls request_page_calls

lemma login_calls: "calls_ok tr w \<Longrightarrow> calls_ok tr (snd (desk_login (logged_desk W) events w))"
  unfolding desk_login_def Let_def case_prod_beta by (simp add: call_steps)

lemma choose_calls: "calls_ok tr w \<Longrightarrow> calls_ok tr (snd (choose_account (logged_desk W) w))"
  unfolding choose_account_def Let_def case_prod_beta by (auto simp: call_steps split: option.split)

lemma apply_inputs_calls: "calls_ok tr w \<Longrightarrow> calls_ok tr (apply_inputs (logged_desk W) kvs w)"
proof (induction kvs arbitrary: w)
  case (Cons kv kvs)
  obtain k v where kv: "kv = (k, v)" by fastforce
  from Cons.IH [OF logged_operations(6) [OF Cons.prems desk_calls(4)]] show ?case by (simp add: kv)
qed simp

lemma configure_calls: "calls_ok tr w \<Longrightarrow> calls_ok tr (snd (configure_request (logged_desk W) tr' account w))"
  unfolding configure_request_def Let_def case_prod_beta
  by (auto simp: call_steps apply_inputs_calls split: candidate_tr.split option.split)

lemma on_message_calls: "calls_ok tr (ds_outside q) \<Longrightarrow> calls_ok tr (ds_outside (on_message (logged_desk W) tr' args q))"
  unfolding on_message_def case_prod_beta by (simp add: call_steps)

lemma on_data_calls: "calls_ok tr (ds_outside q) \<Longrightarrow> calls_ok tr (ds_outside (snd (on_data (logged_desk W) tr args q)))"
  unfolding on_data_def Let_def case_prod_beta by (simp add: call_steps)

lemma event_loop_calls: "calls_ok tr (ds_outside q) \<Longrightarrow> calls_ok tr (ds_outside (event_loop (logged_desk W) tr es q))"
proof (induction es arbitrary: q)
  case (Cons e es)
  show ?case
  proof (cases e)
    case (Data args)
    obtain finished q1 where d: "on_data (logged_desk W) tr args q = (finished, q1)" by fastforce
    with on_data_calls [OF Cons.prems, of W args] Cons.IH Data show ?thesis by simp
  qed (use Cons.IH [OF on_message_calls [OF Cons.prems]] in simp)
qed simp

lemma query_calls: "calls_ok tr w \<Longrightarrow> calls_ok tr (snd (query_one (logged_desk W) tr es w))"
  unfolding query_one_def Let_def case_prod_beta by (simp add: call_steps event_loop_calls)

text \<open>C37: A run calls nothing of the control but the login, the account list, the inputs, the row count, and the request
  of the chosen query itself, first or continued, on its own screen: no order method exists in any run.\<close>

theorem desk_calls_read_only:
  "list_all (desk_call_ok tr) (snd (snd (desk_main (logged_desk W) tr logins events (s, []))))"
proof -
  have "calls_ok tr (s, [])" by (simp add: calls_ok_def)
  then have "calls_ok tr (snd (desk_main (logged_desk W) tr logins events (s, [])))"
    unfolding desk_main_def Let_def case_prod_beta
    by (auto simp: call_steps login_calls choose_calls configure_calls query_calls split: option.split sum.split)
  then show ?thesis by (simp add: calls_ok_def)
qed

section \<open>What a successful run has seen\<close>

text \<open>The pages while the loop runs: matched continuations, numbered in order, and no answer yet.\<close>

definition continued :: "desk_evidence \<Rightarrow> bool" where
  "continued e \<longleftrightarrow> de_responded_at e = None \<and> de_error e = None \<and>
     (\<forall>g\<in>set (de_pages e). tp_event_match g \<and> tp_prev_next g = u ''2'') \<and>
     map tp_number (de_pages e) = [1..<Suc (length (de_pages e))]"

text \<open>The pages of an answer: the last one does not continue.\<close>

definition answered :: "desk_evidence \<Rightarrow> bool" where
  "answered e \<longleftrightarrow> (\<exists>gs g. de_pages e = gs @ [g] \<and> (\<forall>x\<in>set gs. tp_prev_next x = u ''2'') \<and> tp_prev_next g \<noteq> u ''2'' \<and>
     (\<forall>x\<in>set (de_pages e). tp_event_match x)) \<and> map tp_number (de_pages e) = [1..<Suc (length (de_pages e))]"

definition loop_ok :: "desk_evidence \<Rightarrow> bool" where
  "loop_ok e \<longleftrightarrow> continued e \<or> de_error e \<noteq> None \<or> (de_responded_at e \<noteq> None \<and> answered e)"

lemma on_data_ok:
  assumes "continued (ds_evidence q)"
  shows "case on_data W tr args q of (finished, q1) \<Rightarrow>
    if finished then loop_ok (ds_evidence q1) else continued (ds_evidence q1)"
  using assms
  by (auto simp: on_data_def Let_def loop_ok_def continued_def answered_def page_of_event_def split: prod.splits)

lemma event_loop_ok: "continued (ds_evidence q) \<Longrightarrow> loop_ok (ds_evidence (event_loop W tr es q))"
proof (induction es arbitrary: q)
  case (Cons e es)
  show ?case
  proof (cases e)
    case (Message args)
    have "continued (ds_evidence (on_message W tr args q))"
      using Cons.prems by (auto simp: on_message_def continued_def split: prod.splits)
    with Cons.IH Message show ?thesis by simp
  next
    case (Data args)
    with Cons.IH on_data_ok [OF Cons.prems, of W tr args] show ?thesis by (auto split: prod.splits if_splits)
  qed
qed (simp add: loop_ok_def)

lemma query_ok: "loop_ok (fst (query_one W tr events s))"
proof -
  obtain time s1 where n: "dk_now W s = (time, s1)" by fastforce
  obtain ret s2 where r: "request_page W tr 0 s1 = (ret, s2)" by fastforce
  let ?e = "\<lparr>de_requested_at = time, de_responded_at = None, de_request_return = Some ret, de_pages = [],
      de_messages = [], de_inputs = [], de_error = None\<rparr>"
  define q where "q = event_loop W tr events \<lparr>ds_evidence = ?e, ds_response_error = None, ds_outside = s2\<rparr>"
  have "loop_ok (ds_evidence q)" unfolding q_def by (rule event_loop_ok) (simp add: continued_def)
  then have "loop_ok (fst (let e1 = ds_evidence q;
      e2 = (if de_responded_at e1 = None \<and> de_error e1 = None then e1\<lparr>de_error := Some ''TR_TIMEOUT_OR_INCOMPLETE''\<rparr> else e1);
      e3 = (if ds_response_error q \<noteq> None \<and> de_error e2 = None then e2\<lparr>de_error := ds_response_error q\<rparr> else e2)
      in (e3, ds_outside q)))"
    by (auto simp: loop_ok_def continued_def Let_def)
  note finished = this
  show ?thesis
  proof (cases "ret = 0")
    case True
    with finished show ?thesis by (simp only: query_one_def n r Let_def prod.case q_def simp_thms if_False)
  next
    case False
    then show ?thesis by (simp add: query_one_def n r loop_ok_def)
  qed
qed

text \<open>Exit code 0 means an answered query: every page came with the identity of the request, each but the last asked
  for a continuation and the last did not, the pages are numbered in order, and no error was recorded.\<close>

theorem desk_success_answered:
  assumes "desk_main W tr logins events s = ((0, rep), s')"
  shows "\<exists>number e c. rep = Queried number e c ''UNASSESSED'' \<and> de_responded_at e \<noteq> None \<and> de_error e = None \<and> answered e"
proof -
  from assms obtain s4 e s5 number inputs where q: "query_one W tr events s4 = (e, s5)"
    and rep: "rep = Queried number (e\<lparr>de_inputs := inputs\<rparr>) (page_complete (e\<lparr>de_inputs := inputs\<rparr>)) ''UNASSESSED''"
    and ok: "de_responded_at e \<noteq> None" "de_error e = None"
    by (auto simp: desk_main_def Let_def split: prod.splits if_splits option.splits sum.splits)
  have "loop_ok e" using query_ok [of W tr events s4] q by simp
  then have "answered e" using ok by (auto simp: loop_ok_def continued_def)
  then show ?thesis using rep ok by (auto simp: answered_def)
qed

text \<open>A desktop that is connected, has one account and answers every call with 1, except the request, which returns 0.\<close>

definition example_desk :: "unit desk" where
  "example_desk = \<lparr>dk_create = (\<lambda>s. (True, s)),
     dk_int = (\<lambda>sig args s. (if sig = ''CommRqData(QString, QString, int, QString)'' then 0 else 1, s)),
     dk_text = (\<lambda>sig args s. (u ''12345678;'', s)), dk_now = (\<lambda>s. (\<lparr>dt_instant = 0, dt_offset = Some 0\<rparr>, s)),
     dk_pick_account = (\<lambda>n s. (Some 0, s)), dk_ask_password = (\<lambda>s. (None, s)), dk_digit = ascii_digit\<rparr>"

definition answer_page :: "string \<Rightarrow> tr_event" where
  "answer_page prev_next = Data [u ''9102'', u ''readonly_opt10075'', u ''OPT10075'', u ''orders'', u prev_next]"

theorem desk_success_answered_witness:
  "\<exists>e c. snd (fst (desk_main example_desk Opt10075 [] [answer_page ''2'', answer_page '' 0''] ())) = Queried 1 e c ''UNASSESSED'' \<and>
     de_responded_at e \<noteq> None \<and> answered e"
proof -
  let ?run = "desk_main example_desk Opt10075 [] [answer_page ''2'', answer_page '' 0''] ()"
  have "fst (fst ?run) = 0" and one: "case snd (fst ?run) of Queried n _ _ _ \<Rightarrow> n = 1 | _ \<Rightarrow> False" by code_simp+
  then have "?run = ((0, snd (fst ?run)), snd ?run)" by (simp add: prod_eq_iff)
  from desk_success_answered [OF this] one show ?thesis by auto
qed

text \<open>A run whose only page asks for neither an end nor a continuation succeeds, although its pages are not complete.\<close>

lemma unfinished_marker_accepted:
  "case fst (desk_main example_desk Opt10075 [] [answer_page ''1''] ()) of
     (code, Queried _ _ whole _) \<Rightarrow> code = 0 \<and> \<not> whole | _ \<Rightarrow> False"
  by code_simp

end
