(* ===== verification/RealtimeProbe.thy ===== *)
theory RealtimeProbe
  imports Decimals
begin

text \<open>
  \<open>tools/inspect_kiwoom_realtime.py\<close>: a bounded look at the real-time trades of one stock. The callbacks of the Qt
  loop are functions on a state; which of them runs next is the choice of a step relation, with the return values of
  the control and the clock readings as parameters of the steps. Argument parsing and printing are left out, and the
  moments of the subscriptions are kept in the state.
\<close>

section \<open>The start time\<close>

definition two_digits :: "char \<Rightarrow> char \<Rightarrow> int option" where
  "two_digits a b = (if is_digit a \<and> is_digit b then Some (10 * digit_val a + digit_val b) else None)"

definition clock_text :: "string \<Rightarrow> (int \<times> int) option" where
  "clock_text s = (case s of
     [a, b, c, d, e] \<Rightarrow>
       (case (two_digits a b, two_digits d e) of
          (Some h, Some m) \<Rightarrow> if c = CHR '':'' \<and> h < 24 \<and> m < 60 then Some (h, m) else None
        | _ \<Rightarrow> None)
   | _ \<Rightarrow> None)"

text \<open>Midnight of the local day of an aware moment, as an instant.\<close>

definition local_midnight :: "int \<Rightarrow> int \<Rightarrow> int" where
  "local_midnight instant offset = (instant + seconds offset) div seconds 86400 * seconds 86400 - seconds offset"

text \<open>The target and the delay in microseconds.\<close>

definition seconds_until_start_at :: "string \<Rightarrow> datetime \<Rightarrow> (datetime \<times> int) result" where
  "seconds_until_start_at v now =
     (case (clock_text v, dt_offset now) of
        (Some (h, m), Some off) \<Rightarrow>
          (let target = \<lparr>dt_instant = local_midnight (dt_instant now) off + seconds (3600 * h + 60 * m), dt_offset = Some off\<rparr>;
               delay = dt_minus target now
           in if 0 < delay \<and> delay \<le> seconds (8 * 60 * 60) then Inr (target, delay)
              else Inl (ValueError ''start time must be later today and within eight hours''))
      | _ \<Rightarrow> Inl (ValueError ''start time must be local HH:MM''))"

section \<open>The callbacks\<close>

record realtime_args =
  ra_symbol :: string
  ra_target :: "datetime option"

record realtime_state =
  rt_running :: bool
  rt_connected :: bool
  rt_registered :: bool
  rt_exit_code :: int
  rt_event_count :: nat
  rt_start_timer :: bool
  rt_finish_timer :: bool
  rt_subscribed :: bool
  rt_started :: "int list"

text \<open>\<open>rt_subscribed\<close> is the side of the broker: a successful \<open>SetRealReg\<close> sets it and \<open>SetRealRemove\<close> clears it.\<close>

definition realtime_start :: realtime_state where
  "realtime_start = \<lparr>rt_running = True, rt_connected = False, rt_registered = False, rt_exit_code = 0, rt_event_count = 0,
     rt_start_timer = False, rt_finish_timer = False, rt_subscribed = False, rt_started = []\<rparr>"

definition quit_with :: "int \<Rightarrow> realtime_state \<Rightarrow> realtime_state" where
  "quit_with code p = p\<lparr>rt_exit_code := code, rt_running := False\<rparr>"

definition remove_subscription :: "realtime_state \<Rightarrow> realtime_state" where
  "remove_subscription p = (if rt_registered p then p\<lparr>rt_subscribed := False, rt_registered := False\<rparr> else p)"

definition on_finish :: "realtime_state \<Rightarrow> realtime_state" where
  "on_finish p = (remove_subscription p)\<lparr>rt_finish_timer := False, rt_running := False\<rparr>"

definition on_real :: "realtime_args \<Rightarrow> string \<Rightarrow> bool \<Rightarrow> realtime_state \<Rightarrow> realtime_state" where
  "on_real A code is_trade p =
     (if code \<noteq> ra_symbol A \<or> \<not> is_trade then p else p\<lparr>rt_event_count := rt_event_count p + 1\<rparr>)"

definition start_observation :: "realtime_args \<Rightarrow> int \<Rightarrow> int \<Rightarrow> realtime_state \<Rightarrow> realtime_state" where
  "start_observation A now ret p =
     (if (case ra_target A of None \<Rightarrow> False | Some t \<Rightarrow> now - dt_instant t > seconds 30) then quit_with 2 p
      else if ret \<noteq> 0 then quit_with 2 (p\<lparr>rt_started := rt_started p @ [now]\<rparr>)
      else p\<lparr>rt_started := rt_started p @ [now], rt_subscribed := True, rt_registered := True, rt_finish_timer := True\<rparr>)"

definition on_connect :: "realtime_args \<Rightarrow> int \<Rightarrow> int \<Rightarrow> int \<Rightarrow> realtime_state \<Rightarrow> realtime_state" where
  "on_connect A err now ret p =
     (if err \<noteq> 0 then quit_with 2 p
      else (let p1 = p\<lparr>rt_connected := True\<rparr>
            in case ra_target A of
                 None \<Rightarrow> start_observation A now ret p1
               | Some t \<Rightarrow> if dt_instant t - now \<le> 0 then quit_with 2 p1 else p1\<lparr>rt_start_timer := True\<rparr>))"

definition on_login_timeout :: "realtime_state \<Rightarrow> realtime_state" where
  "on_login_timeout p = (if rt_connected p then p else quit_with 2 p)"

text \<open>One callback while the loop runs. A timer fires only when it was set; the login timer is set from the start.\<close>

inductive realtime_step :: "realtime_args \<Rightarrow> realtime_state \<Rightarrow> realtime_state \<Rightarrow> bool" for A where
  connect: "rt_running p \<Longrightarrow> realtime_step A p (on_connect A err now ret p)"
| start: "rt_running p \<Longrightarrow> rt_start_timer p \<Longrightarrow> realtime_step A p (start_observation A now ret (p\<lparr>rt_start_timer := False\<rparr>))"
| finish: "rt_running p \<Longrightarrow> rt_finish_timer p \<Longrightarrow> realtime_step A p (on_finish p)"
| real: "rt_running p \<Longrightarrow> realtime_step A p (on_real A code is_trade p)"
| login_timeout: "rt_running p \<Longrightarrow> realtime_step A p (on_login_timeout p)"
| interrupt: "rt_running p \<Longrightarrow> realtime_step A p (p\<lparr>rt_running := False\<rparr>)"

inductive_cases realtime_stepE: "realtime_step A p p'"

text \<open>\<open>finally\<close>, after the loop has ended in whatever way: the exit code and the state.\<close>

definition realtime_end :: "realtime_state \<Rightarrow> int \<times> realtime_state" where
  "realtime_end p = (rt_exit_code p, remove_subscription p)"

section \<open>Every run cleans up\<close>

definition realtime_ok :: "realtime_args \<Rightarrow> realtime_state \<Rightarrow> bool" where
  "realtime_ok A p \<longleftrightarrow> (rt_subscribed p \<longrightarrow> rt_registered p) \<and> (rt_registered p \<longrightarrow> rt_connected p) \<and>
     (rt_start_timer p \<longrightarrow> rt_connected p \<and> ra_target A \<noteq> None) \<and> (rt_exit_code p \<noteq> 0 \<longrightarrow> \<not> rt_running p) \<and>
     (\<forall>t. ra_target A = Some t \<longrightarrow> (\<forall>now\<in>set (rt_started p). now \<le> dt_instant t + seconds 30))"

lemma realtime_step_ok: "realtime_step A p p' \<Longrightarrow> realtime_ok A p \<Longrightarrow> realtime_ok A p'"
  by (erule realtime_stepE)
     (auto simp: realtime_ok_def on_connect_def start_observation_def on_finish_def on_real_def on_login_timeout_def quit_with_def
       remove_subscription_def Let_def split: option.splits)

lemma realtime_reachable_ok: "(realtime_step A)\<^sup>*\<^sup>* realtime_start p \<Longrightarrow> realtime_ok A p"
proof (induction rule: rtranclp_induct)
  case base
  show ?case by (simp add: realtime_ok_def realtime_start_def)
next
  case (step p p')
  then show ?case using realtime_step_ok by blast
qed

text \<open>C39: No subscription survives a run and none starts late. In whatever order the callbacks come and however the loop
  ends, after the cleanup the broker streams nothing, and with a start time no subscription was requested more than thirty
  seconds after it.\<close>

theorem realtime_leaves_no_subscription:
  assumes "(realtime_step A)\<^sup>*\<^sup>* realtime_start p"
  shows "\<not> rt_subscribed (snd (realtime_end p)) \<and> \<not> rt_registered (snd (realtime_end p)) \<and>
    (\<forall>t. ra_target A = Some t \<longrightarrow> (\<forall>now\<in>set (rt_started p). now \<le> dt_instant t + seconds 30))"
  using realtime_reachable_ok [OF assms] by (auto simp: realtime_ok_def realtime_end_def remove_subscription_def)

text \<open>A login without a start time, a subscription, and an interrupt.\<close>

theorem realtime_leaves_no_subscription_witness:
  "\<exists>p. (realtime_step \<lparr>ra_symbol = ''005930'', ra_target = None\<rparr>)\<^sup>*\<^sup>* realtime_start p \<and> rt_subscribed p \<and> \<not> rt_running p \<and>
     \<not> rt_subscribed (snd (realtime_end p))"
proof -
  let ?A = "\<lparr>ra_symbol = ''005930'', ra_target = None\<rparr> :: realtime_args"
  let ?p = "on_connect ?A 0 0 0 realtime_start"
  have one: "realtime_step ?A realtime_start ?p" by (rule realtime_step.connect) (simp add: realtime_start_def)
  have "realtime_step ?A ?p (?p\<lparr>rt_running := False\<rparr>)"
    by (rule realtime_step.interrupt) (simp add: on_connect_def start_observation_def realtime_start_def)
  with one have run: "(realtime_step ?A)\<^sup>*\<^sup>* realtime_start (?p\<lparr>rt_running := False\<rparr>)" by simp
  have "rt_subscribed (?p\<lparr>rt_running := False\<rparr>)" by (simp add: on_connect_def start_observation_def realtime_start_def)
  moreover have "\<not> rt_running (?p\<lparr>rt_running := False\<rparr>)" by simp
  ultimately show ?thesis using run realtime_leaves_no_subscription [OF run] by blast
qed

section \<open>The window of the start time\<close>

lemma start_at_window:
  assumes "seconds_until_start_at v now = Inr (target, delay)"
  shows "\<exists>h m off. clock_text v = Some (h, m) \<and> dt_offset now = Some off \<and> dt_offset target = Some off \<and>
    dt_instant target + seconds off = (dt_instant now + seconds off) div seconds 86400 * seconds 86400 + seconds (3600 * h + 60 * m) \<and>
    delay = dt_instant target - dt_instant now \<and> 0 < delay \<and> delay \<le> seconds 28800"
  using assms
  by (auto simp: seconds_until_start_at_def local_midnight_def dt_minus_def Let_def split: option.splits if_splits prod.splits)

end
