(* ===== verification/LegacyFills.thy ===== *)
theory LegacyFills
  imports Floats
begin

text \<open>
  Fills in the archived engine: \<open>core/order_registry.py\<close>, \<open>core/position_manager.py\<close>,
  \<open>core/fill_processor.py\<close> and \<open>strategy/exit_rules.py\<close> under \<open>back/legacy-2026-09-13\<close>. The two indices of
  the registry share one mutable record per order, so the records live in a store and the indices hold addresses.
  Clock readings are arguments; the log and the message of the notifier are left out (its exceptions are swallowed).
\<close>

section \<open>The order registry\<close>

datatype registry_status = Requested | Accepted | Partly_filled | Filled | Canceled | Rejected

record registry_record =
  rc_request_id :: string
  rc_code :: string
  rc_side :: string
  rc_order_type :: string
  rc_qty :: int
  rc_price :: double
  rc_strategy_tag :: string
  rc_parent_order_no :: string
  rc_order_no :: string
  rc_status :: registry_status
  rc_filled_qty :: int
  rc_avg_fill_price :: double
  rc_remain_qty :: int
  rc_created_at :: double
  rc_updated_at :: double

definition record_fill :: "int \<Rightarrow> double \<Rightarrow> double \<Rightarrow> registry_record \<Rightarrow> registry_record" where
  "record_fill qty price now x =
     (let new_cost = fadd (fmul (rc_avg_fill_price x) (fint (rc_filled_qty x))) (fmul price (fint qty));
          filled = rc_filled_qty x + qty;
          remain = max 0 (rc_qty x - filled)
      in x\<lparr>rc_filled_qty := filled,
           rc_avg_fill_price := (if filled > 0 then fdiv new_cost (fint filled) else rc_avg_fill_price x),
           rc_remain_qty := remain, rc_updated_at := now,
           rc_status := (if filled = 0 then Accepted else if remain > 0 then Partly_filled else Filled)\<rparr>)"

record order_registry =
  rg_records :: "registry_record list"
  rg_by_request_id :: "string \<rightharpoonup> nat"
  rg_by_order_no :: "string \<rightharpoonup> nat"

definition new_registry :: order_registry where
  "new_registry = \<lparr>rg_records = [], rg_by_request_id = Map.empty, rg_by_order_no = Map.empty\<rparr>"

text \<open>The record at an address; each operation below stores addresses of existing records only.\<close>

definition record_at :: "order_registry \<Rightarrow> nat \<Rightarrow> registry_record" where
  "record_at R a = rg_records R ! a"

definition change_record :: "nat \<Rightarrow> (registry_record \<Rightarrow> registry_record) \<Rightarrow> order_registry \<Rightarrow> order_registry" where
  "change_record a f R = R\<lparr>rg_records := (rg_records R)[a := f (record_at R a)]\<rparr>"

record request_fields =
  rq_code :: string
  rq_side :: string
  rq_order_type :: string
  rq_qty :: int
  rq_price :: double
  rq_strategy_tag :: string
  rq_parent_order_no :: string

definition registered_record :: "string \<Rightarrow> request_fields \<Rightarrow> double \<Rightarrow> double \<Rightarrow> registry_record" where
  "registered_record i f created updated = \<lparr>rc_request_id = i, rc_code = rq_code f, rc_side = rq_side f,
     rc_order_type = rq_order_type f, rc_qty = rq_qty f, rc_price = rq_price f, rc_strategy_tag = rq_strategy_tag f,
     rc_parent_order_no = rq_parent_order_no f, rc_order_no = [], rc_status = Requested, rc_filled_qty = 0,
     rc_avg_fill_price = 0, rc_remain_qty = rq_qty f, rc_created_at = created, rc_updated_at = updated\<rparr>"

definition register_request :: "string \<Rightarrow> request_fields \<Rightarrow> double \<Rightarrow> double \<Rightarrow> order_registry \<Rightarrow> registry_record \<times> order_registry" where
  "register_request i f created updated R =
     (let x = registered_record i f created updated
      in (x, R\<lparr>rg_records := rg_records R @ [x], rg_by_request_id := (rg_by_request_id R)(i \<mapsto> length (rg_records R))\<rparr>))"

definition bind_order_no :: "string \<Rightarrow> string \<Rightarrow> double \<Rightarrow> order_registry \<Rightarrow> registry_record option \<times> order_registry" where
  "bind_order_no i no now R =
     (case rg_by_request_id R i of
        None \<Rightarrow> (None, R)
      | Some a \<Rightarrow>
          (let R1 = change_record a (\<lambda>x. x\<lparr>rc_order_no := no, rc_status := Accepted, rc_updated_at := now\<rparr>) R
           in (Some (record_at R1 a), R1\<lparr>rg_by_order_no := (rg_by_order_no R1)(no \<mapsto> a)\<rparr>)))"

definition get_by_order_no :: "order_registry \<Rightarrow> string \<Rightarrow> registry_record option" where
  "get_by_order_no R no = map_option (record_at R) (rg_by_order_no R no)"

definition get_by_request_id :: "order_registry \<Rightarrow> string \<Rightarrow> registry_record option" where
  "get_by_request_id R i = map_option (record_at R) (rg_by_request_id R i)"

definition mark_rejected :: "string \<Rightarrow> double \<Rightarrow> order_registry \<Rightarrow> order_registry" where
  "mark_rejected i now R = (case rg_by_request_id R i of
     None \<Rightarrow> R | Some a \<Rightarrow> change_record a (\<lambda>x. x\<lparr>rc_status := Rejected, rc_updated_at := now\<rparr>) R)"

definition mark_canceled :: "string \<Rightarrow> double \<Rightarrow> order_registry \<Rightarrow> order_registry" where
  "mark_canceled no now R = (case rg_by_order_no R no of
     None \<Rightarrow> R | Some a \<Rightarrow> change_record a (\<lambda>x. x\<lparr>rc_status := Canceled, rc_updated_at := now\<rparr>) R)"

definition registry_fill :: "string \<Rightarrow> int \<Rightarrow> double \<Rightarrow> double \<Rightarrow> order_registry \<Rightarrow> registry_record option \<times> order_registry" where
  "registry_fill no qty price now R = (case rg_by_order_no R no of
     None \<Rightarrow> (None, R)
   | Some a \<Rightarrow> (let R1 = change_record a (record_fill qty price now) R in (Some (record_at R1 a), R1)))"

section \<open>The position manager\<close>

record tracked_position =
  tk_code :: string
  tk_qty :: int
  tk_avg_price :: double
  tk_realized_pnl :: double
  tk_highest_price :: double
  tk_entry_time :: double

definition new_position :: "string \<Rightarrow> double \<Rightarrow> tracked_position" where
  "new_position code now = \<lparr>tk_code = code, tk_qty = 0, tk_avg_price = 0, tk_realized_pnl = 0, tk_highest_price = 0,
     tk_entry_time = now\<rparr>"

definition update_on_buy_fill :: "int \<Rightarrow> double \<Rightarrow> tracked_position \<Rightarrow> tracked_position" where
  "update_on_buy_fill qty price p =
     (if qty \<le> 0 then p
      else let cost = fadd (fmul (tk_avg_price p) (fint (tk_qty p))) (fmul price (fint qty));
               held = tk_qty p + qty
           in p\<lparr>tk_qty := held, tk_avg_price := (if held > 0 then fdiv cost (fint held) else tk_avg_price p),
                tk_highest_price := max (tk_highest_price p) price\<rparr>)"

definition update_on_sell_fill :: "int \<Rightarrow> double \<Rightarrow> tracked_position \<Rightarrow> double \<times> tracked_position" where
  "update_on_sell_fill qty price p =
     (if qty \<le> 0 \<or> tk_qty p \<le> 0 then (0, p)
      else let sell_qty = min qty (tk_qty p);
               pnl = fmul (fsub price (tk_avg_price p)) (fint sell_qty);
               p1 = p\<lparr>tk_realized_pnl := fadd (tk_realized_pnl p) pnl, tk_qty := tk_qty p - sell_qty\<rparr>
           in (pnl, if tk_qty p1 = 0 then p1\<lparr>tk_avg_price := 0, tk_highest_price := 0\<rparr> else p1))"

definition update_market_price :: "double \<Rightarrow> tracked_position \<Rightarrow> tracked_position" where
  "update_market_price price p =
     (if tk_qty p > 0 then p\<lparr>tk_highest_price := max (tk_highest_price p) price\<rparr> else p)"

definition unrealized_pnl_ratio :: "tracked_position \<Rightarrow> double \<Rightarrow> double" where
  "unrealized_pnl_ratio p price =
     (if tk_qty p \<le> 0 \<or> tk_avg_price p \<le> 0 then 0 else fdiv (fsub price (tk_avg_price p)) (tk_avg_price p))"

definition trailing_drawdown_ratio :: "tracked_position \<Rightarrow> double \<Rightarrow> double" where
  "trailing_drawdown_ratio p price =
     (if tk_qty p \<le> 0 \<or> tk_highest_price p \<le> 0 then 0
      else fdiv (fsub price (tk_highest_price p)) (tk_highest_price p))"

type_synonym tracked_positions = "string \<rightharpoonup> tracked_position"

definition ensure_position :: "string \<Rightarrow> double \<Rightarrow> tracked_positions \<Rightarrow> tracked_position" where
  "ensure_position code now M = (case M code of Some p \<Rightarrow> p | None \<Rightarrow> new_position code now)"

definition manager_buy_fill :: "string \<Rightarrow> int \<Rightarrow> double \<Rightarrow> double \<Rightarrow> tracked_positions \<Rightarrow> tracked_positions" where
  "manager_buy_fill code qty price now M = M(code \<mapsto> update_on_buy_fill qty price (ensure_position code now M))"

definition manager_sell_fill :: "string \<Rightarrow> int \<Rightarrow> double \<Rightarrow> double \<Rightarrow> tracked_positions \<Rightarrow> double \<times> tracked_positions" where
  "manager_sell_fill code qty price now M =
     (case update_on_sell_fill qty price (ensure_position code now M) of (pnl, p) \<Rightarrow> (pnl, M(code \<mapsto> p)))"

definition manager_tick :: "string \<Rightarrow> double \<Rightarrow> double \<Rightarrow> tracked_positions \<Rightarrow> tracked_positions" where
  "manager_tick code price now M = M(code \<mapsto> update_market_price price (ensure_position code now M))"

definition manager_has_position :: "tracked_positions \<Rightarrow> string \<Rightarrow> bool" where
  "manager_has_position M code = (case M code of Some p \<Rightarrow> tk_qty p > 0 | None \<Rightarrow> False)"

section \<open>The fill processor\<close>

record fill_report =
  fr_order_no :: string
  fr_code :: string
  fr_side :: string
  fr_qty :: int
  fr_price :: double

text \<open>The readings of the clock are those of the record's update and of a new position.\<close>

definition process_fill ::
    "fill_report \<Rightarrow> double \<Rightarrow> double \<Rightarrow> order_registry \<times> tracked_positions \<Rightarrow>
     registry_record option \<times> order_registry \<times> tracked_positions" where
  "process_fill f now now' = (\<lambda>(R, M).
     case registry_fill (fr_order_no f) (fr_qty f) (fr_price f) now R of (x, R1) \<Rightarrow>
       (x, R1,
        if fr_side f = ''BUY'' then manager_buy_fill (fr_code f) (fr_qty f) (fr_price f) now' M
        else if fr_side f = ''SELL'' then snd (manager_sell_fill (fr_code f) (fr_qty f) (fr_price f) now' M)
        else M))"

fun process_fills ::
    "(fill_report \<times> double \<times> double) list \<Rightarrow> order_registry \<times> tracked_positions \<Rightarrow> order_registry \<times> tracked_positions" where
  "process_fills [] S = S"
| "process_fills ((f, now, now') # fs) S = process_fills fs (snd (process_fill f now now' S))"

section \<open>The exit rules\<close>

datatype exit_reason = No_exit | Partial_tp | Take_profit | Stop_loss | Trailing_stop

record exit_signal =
  xs_should_exit :: bool
  xs_reason :: exit_reason
  xs_ratio :: double
  xs_qty_ratio :: double

record exit_rules =
  xr_take_profit :: double
  xr_stop_loss :: double
  xr_trailing_start :: double
  xr_trailing_backoff :: double
  xr_partial_take_profit :: double

definition default_exit_rules :: exit_rules where
  "default_exit_rules = \<lparr>xr_take_profit = to_double (25 / 1000), xr_stop_loss = to_double (- 15 / 1000),
     xr_trailing_start = to_double (2 / 100), xr_trailing_backoff = to_double (- 1 / 100),
     xr_partial_take_profit = to_double (15 / 1000)\<rparr>"

definition exit_with :: "exit_reason \<Rightarrow> double \<Rightarrow> double \<Rightarrow> exit_signal option" where
  "exit_with reason ratio part = Some \<lparr>xs_should_exit = True, xs_reason = reason, xs_ratio = ratio, xs_qty_ratio = part\<rparr>"

definition evaluate_exit :: "exit_rules \<Rightarrow> tracked_position option \<Rightarrow> double \<Rightarrow> exit_signal option" where
  "evaluate_exit X position price =
     (case position of
        None \<Rightarrow> None
      | Some p \<Rightarrow>
          if tk_qty p \<le> 0 \<or> tk_avg_price p \<le> 0 then None
          else (let ratio = unrealized_pnl_ratio p price; drop = trailing_drawdown_ratio p price
                in if xr_partial_take_profit X \<le> ratio \<and> 2 \<le> tk_qty p then exit_with Partial_tp ratio (1 / 2)
                   else if xr_take_profit X \<le> ratio then exit_with Take_profit ratio 1
                   else if ratio \<le> xr_stop_loss X then exit_with Stop_loss ratio 1
                   else if xr_trailing_start X \<le> ratio \<and> drop \<le> xr_trailing_backoff X then exit_with Trailing_stop ratio 1
                   else Some \<lparr>xs_should_exit = False, xs_reason = No_exit, xs_ratio = 0, xs_qty_ratio = 1\<rparr>))"

section \<open>The registry stays consistent\<close>

inductive registry_step :: "order_registry \<Rightarrow> order_registry \<Rightarrow> bool" where
  register: "0 \<le> rq_qty f \<Longrightarrow> registry_step R (snd (register_request i f t t' R))"
| bind: "registry_step R (snd (bind_order_no i no t R))"
| reject: "registry_step R (mark_rejected i t R)"
| cancel: "registry_step R (mark_canceled no t R)"
| fill: "registry_step R (snd (registry_fill no qty price t R))"

definition record_ok :: "registry_record \<Rightarrow> bool" where
  "record_ok x \<longleftrightarrow> rc_remain_qty x = max 0 (rc_qty x - rc_filled_qty x) \<and>
     (rc_status x = Filled \<longrightarrow> rc_filled_qty x \<noteq> 0 \<and> rc_qty x \<le> rc_filled_qty x) \<and>
     (rc_status x = Partly_filled \<longrightarrow> rc_filled_qty x \<noteq> 0 \<and> rc_filled_qty x < rc_qty x)"

definition registry_ok :: "order_registry \<Rightarrow> bool" where
  "registry_ok R \<longleftrightarrow> (\<forall>x\<in>set (rg_records R). record_ok x) \<and>
     (\<forall>i a. rg_by_request_id R i = Some a \<longrightarrow> a < length (rg_records R) \<and> rc_request_id (record_at R a) = i) \<and>
     (\<forall>no a. rg_by_order_no R no = Some a \<longrightarrow> a < length (rg_records R))"

lemma record_fill_ok: "record_ok (record_fill qty price t x)"
  by (auto simp: record_ok_def record_fill_def Let_def)

lemma record_fill_id: "rc_request_id (record_fill qty price t x) = rc_request_id x"
  by (simp add: record_fill_def Let_def)

lemma change_record_ok:
  assumes "registry_ok R" and "a < length (rg_records R)" and "record_ok (f (record_at R a))"
    and "rc_request_id (f (record_at R a)) = rc_request_id (record_at R a)"
  shows "registry_ok (change_record a f R)"
  using assms set_update_subset_insert [of "rg_records R" a "f (record_at R a)"]
  by (auto simp: registry_ok_def change_record_def record_at_def nth_list_update)

lemma record_at_ok: "registry_ok R \<Longrightarrow> a < length (rg_records R) \<Longrightarrow> record_ok (record_at R a)"
  by (simp add: registry_ok_def record_at_def)

lemma status_ok: "record_ok x \<Longrightarrow> st \<noteq> Filled \<Longrightarrow> st \<noteq> Partly_filled \<Longrightarrow> record_ok (x\<lparr>rc_status := st, rc_updated_at := t\<rparr>)"
  by (simp add: record_ok_def)

lemma register_ok:
  assumes "registry_ok R" and "0 \<le> rq_qty f"
  shows "registry_ok (snd (register_request i f t t' R))"
  using assms
  by (auto simp: registry_ok_def register_request_def Let_def record_at_def registered_record_def record_ok_def nth_append
      split: if_splits) (meson less_SucI)+

lemma bind_ok:
  assumes R: "registry_ok R"
  shows "registry_ok (snd (bind_order_no i no t R))"
proof (cases "rg_by_request_id R i")
  case None
  then show ?thesis using R by (simp add: bind_order_no_def)
next
  case (Some a)
  then have a: "a < length (rg_records R)" using R by (simp add: registry_ok_def)
  let ?R1 = "change_record a (\<lambda>x. x\<lparr>rc_order_no := no, rc_status := Accepted, rc_updated_at := t\<rparr>) R"
  have "registry_ok ?R1" using R a record_at_ok [OF R a] by (intro change_record_ok) (simp_all add: record_ok_def)
  moreover have "a < length (rg_records ?R1)" using a by (simp add: change_record_def)
  ultimately show ?thesis by (simp add: bind_order_no_def Some Let_def registry_ok_def record_at_def)
qed

lemma registry_step_ok: "registry_step R R' \<Longrightarrow> registry_ok R \<Longrightarrow> registry_ok R'"
proof (induction rule: registry_step.induct)
  case (reject R i t)
  then show ?case using record_at_ok
    by (auto simp: mark_rejected_def registry_ok_def [of R] split: option.split intro!: change_record_ok status_ok)
next
  case (cancel R no t)
  then show ?case using record_at_ok
    by (auto simp: mark_canceled_def registry_ok_def [of R] split: option.split intro!: change_record_ok status_ok)
next
  case (fill R no qty price t)
  then show ?case
    by (auto simp: registry_fill_def registry_ok_def [of R] Let_def record_fill_id record_fill_ok split: option.split
        intro!: change_record_ok)
qed (auto intro: register_ok bind_ok)

lemma registry_reachable_ok: "registry_step\<^sup>*\<^sup>* new_registry R \<Longrightarrow> registry_ok R"
proof (induction rule: rtranclp_induct)
  case base
  show ?case by (simp add: registry_ok_def new_registry_def)
qed (use registry_step_ok in blast)

lemma getters:
  "get_by_request_id R i = Some x \<longleftrightarrow> (\<exists>a. rg_by_request_id R i = Some a \<and> x = record_at R a)"
  "get_by_order_no R no = Some x \<longleftrightarrow> (\<exists>a. rg_by_order_no R no = Some a \<and> x = record_at R a)"
  by (auto simp: get_by_request_id_def get_by_order_no_def)

lemma registry_fill_seen:
  assumes ok: "registry_ok R" and fill: "registry_fill no qty price t R = (Some y, R')"
  shows "get_by_order_no R' no = Some y \<and> record_ok y \<and>
    (rg_by_request_id R i = rg_by_order_no R no \<longrightarrow> get_by_request_id R' i = Some y \<and> rc_request_id y = i)"
proof -
  from fill obtain a where a: "rg_by_order_no R no = Some a" and R': "R' = change_record a (record_fill qty price t) R"
    and y: "y = record_at R' a" by (auto simp: registry_fill_def Let_def split: option.splits)
  have "a < length (rg_records R)" using ok a by (simp add: registry_ok_def)
  then have "y = record_fill qty price t (record_at R a)" by (simp add: y R' change_record_def record_at_def)
  then have rec: "record_ok y" "rc_request_id y = rc_request_id (record_at R a)" by (simp_all add: record_fill_ok record_fill_id)
  have same: "rg_by_order_no R' = rg_by_order_no R" "rg_by_request_id R' = rg_by_request_id R" by (simp_all add: R' change_record_def)
  have "rc_request_id (record_at R a) = i" if "rg_by_request_id R i = Some a"
    using ok that by (simp add: registry_ok_def)
  then show ?thesis using a y rec same by (simp add: get_by_order_no_def get_by_request_id_def)
qed

section \<open>A record adds up its fills\<close>

datatype registry_op =
    Op_register string request_fields double double
  | Op_bind string string double
  | Op_reject string double
  | Op_cancel string double
  | Op_fill string int double double

fun registry_do :: "registry_op \<Rightarrow> order_registry \<Rightarrow> order_registry" where
  "registry_do (Op_register i f t t') R = snd (register_request i f t t' R)"
| "registry_do (Op_bind i no t) R = snd (bind_order_no i no t R)"
| "registry_do (Op_reject i t) R = mark_rejected i t R"
| "registry_do (Op_cancel no t) R = mark_canceled no t R"
| "registry_do (Op_fill no qty price t) R = snd (registry_fill no qty price t R)"

fun registry_run :: "registry_op list \<Rightarrow> order_registry \<Rightarrow> order_registry" where
  "registry_run [] R = R"
| "registry_run (x # xs) R = registry_run xs (registry_do x R)"

fun valid_op :: "registry_op \<Rightarrow> bool" where
  "valid_op (Op_register i f t t') \<longleftrightarrow> 0 \<le> rq_qty f"
| "valid_op _ \<longleftrightarrow> True"

text \<open>The reference: the sum of the fills whose order number named the record at the time.\<close>

fun fill_of :: "nat \<Rightarrow> registry_op \<Rightarrow> order_registry \<Rightarrow> int" where
  "fill_of a (Op_fill no qty price t) R = (if rg_by_order_no R no = Some a then qty else 0)"
| "fill_of a _ R = 0"

fun filled_by :: "nat \<Rightarrow> registry_op list \<Rightarrow> order_registry \<Rightarrow> int" where
  "filled_by a [] R = 0"
| "filled_by a (x # xs) R = fill_of a x R + filled_by a xs (registry_do x R)"

lemma registry_do_step: "valid_op x \<Longrightarrow> registry_step R (registry_do x R)"
  by (cases x) (auto intro: registry_step.intros)

lemma registry_run_steps: "list_all valid_op xs \<Longrightarrow> registry_step\<^sup>*\<^sup>* R (registry_run xs R)"
proof (induction xs arbitrary: R)
  case (Cons x xs)
  then have "registry_step R (registry_do x R)" "registry_step\<^sup>*\<^sup>* (registry_do x R) (registry_run xs (registry_do x R))"
    by (auto intro: registry_do_step)
  then show ?case by simp
qed simp

definition filled_at :: "order_registry \<Rightarrow> nat \<Rightarrow> int" where
  "filled_at R a = (if a < length (rg_records R) then rc_filled_qty (record_at R a) else 0)"

lemma filled_at_change:
  "b < length (rg_records R) \<Longrightarrow> filled_at (change_record b f R) a =
     (if a = b then rc_filled_qty (f (record_at R b)) else filled_at R a)"
  by (auto simp: filled_at_def change_record_def record_at_def)

lemma filled_at_index: "filled_at (R\<lparr>rg_by_order_no := m\<rparr>) a = filled_at R a"
  by (simp add: filled_at_def record_at_def)

lemma filled_at_same: "b < length (rg_records R) \<Longrightarrow> rc_filled_qty (record_at R b) = filled_at R b"
  by (simp add: filled_at_def)

lemma registry_do_filled:
  assumes ok: "registry_ok R"
  shows "filled_at (registry_do x R) a = filled_at R a + fill_of a x R"
proof (cases x)
  case (Op_register i f t t')
  then show ?thesis
    by (simp add: register_request_def registered_record_def filled_at_def record_at_def nth_append Let_def)
next
  case (Op_bind i no t)
  then show ?thesis using ok
    by (auto simp: bind_order_no_def Let_def filled_at_index filled_at_change filled_at_same registry_ok_def split: option.split)
next
  case (Op_reject i t)
  then show ?thesis using ok
    by (auto simp: mark_rejected_def filled_at_change filled_at_same registry_ok_def split: option.split)
next
  case (Op_cancel no t)
  then show ?thesis using ok
    by (auto simp: mark_canceled_def filled_at_change filled_at_same registry_ok_def split: option.split)
next
  case (Op_fill no qty price t)
  then show ?thesis using ok
    by (auto simp: registry_fill_def Let_def filled_at_change filled_at_same record_fill_def registry_ok_def split: option.split)
qed

lemma registry_run_filled:
  "registry_ok R \<Longrightarrow> list_all valid_op xs \<Longrightarrow> filled_at (registry_run xs R) a = filled_at R a + filled_by a xs R"
proof (induction xs arbitrary: R)
  case (Cons x xs)
  then have "registry_ok (registry_do x R)" using registry_step_ok [OF registry_do_step] by simp
  then show ?case using Cons registry_do_filled [OF Cons.prems(1)] by simp
qed simp

text \<open>C30: A registry keeps the books of its orders. After any sequence of registrations, of non-negative quantity,
  bindings, rejections, cancellations and fills, a record found by request id carries that id; the filled quantity of a
  record found either way is the sum of the fills whose order number named it when they came; the remaining quantity is the
  ordered one less the filled one, never below zero; FILLED and PARTIAL are reported only of orders whose fills
  do and do not cover them. The next fill adds its quantity to the record and sets its status, and is seen through both
  indices when they name the same order.\<close>

theorem registry_consistent:
  assumes valid: "list_all valid_op ops"
  defines "R \<equiv> registry_run ops new_registry"
  shows "(get_by_request_id R i = Some x \<longrightarrow> rc_request_id x = i \<and>
      (\<exists>a. rg_by_request_id R i = Some a \<and> rc_filled_qty x = filled_by a ops new_registry) \<and> record_ok x) \<and>
    (get_by_order_no R no = Some x \<longrightarrow>
      (\<exists>a. rg_by_order_no R no = Some a \<and> rc_filled_qty x = filled_by a ops new_registry) \<and> record_ok x \<and>
      (\<exists>y. registry_fill no qty price t R = (Some y, registry_run (ops @ [Op_fill no qty price t]) new_registry) \<and>
        rc_filled_qty y = rc_filled_qty x + qty \<and> rc_qty y = rc_qty x \<and> record_ok y \<and>
        rc_status y = (if rc_filled_qty y = 0 then Accepted else if rc_filled_qty y < rc_qty y then Partly_filled else Filled) \<and>
        get_by_order_no (registry_run (ops @ [Op_fill no qty price t]) new_registry) no = Some y \<and>
        (rg_by_request_id R i = rg_by_order_no R no \<longrightarrow>
          get_by_request_id (registry_run (ops @ [Op_fill no qty price t]) new_registry) i = Some y)))"
proof -
  have new: "registry_ok new_registry" by (simp add: registry_ok_def new_registry_def)
  have ok: "registry_ok R" unfolding R_def by (rule registry_reachable_ok [OF registry_run_steps [OF valid]])
  have sum: "rc_filled_qty (record_at R a) = filled_by a ops new_registry" if "a < length (rg_records R)" for a
    using registry_run_filled [OF new valid, of a, folded R_def] that by (simp add: filled_at_def new_registry_def)
  have run: "registry_run (ops @ [z]) new_registry = registry_do z R" for z
  proof -
    have "registry_run (xs @ [z]) S = registry_do z (registry_run xs S)" for xs S by (induction xs arbitrary: S) simp_all
    then show ?thesis by (simp add: R_def)
  qed
  have byid: "rc_request_id x = i \<and> (\<exists>a. rg_by_request_id R i = Some a \<and> rc_filled_qty x = filled_by a ops new_registry) \<and>
      record_ok x" if "get_by_request_id R i = Some x"
    using that ok record_at_ok [OF ok] sum by (auto simp: getters registry_ok_def)
  show ?thesis
  proof (intro conjI impI)
    assume "get_by_order_no R no = Some x"
    then obtain a where a: "rg_by_order_no R no = Some a" and x: "x = record_at R a" by (auto simp: getters)
    have len: "a < length (rg_records R)" using ok a by (simp add: registry_ok_def)
    show "\<exists>a. rg_by_order_no R no = Some a \<and> rc_filled_qty x = filled_by a ops new_registry" "record_ok x"
      using a x sum [OF len] record_at_ok [OF ok len] by simp_all
    let ?R' = "change_record a (record_fill qty price t) R"
    let ?y = "record_fill qty price t x"
    have y: "record_at ?R' a = ?y" using len by (simp add: change_record_def record_at_def x)
    have fill: "registry_fill no qty price t R = (Some ?y, ?R')" by (simp add: registry_fill_def a Let_def y)
    have next_run: "registry_run (ops @ [Op_fill no qty price t]) new_registry = ?R'" by (simp add: run fill)
    have "rc_filled_qty ?y = rc_filled_qty x + qty" "rc_qty ?y = rc_qty x"
      "rc_status ?y = (if rc_filled_qty ?y = 0 then Accepted else if rc_filled_qty ?y < rc_qty ?y then Partly_filled else Filled)"
      by (simp_all add: record_fill_def Let_def)
    then show "\<exists>y. registry_fill no qty price t R = (Some y, registry_run (ops @ [Op_fill no qty price t]) new_registry) \<and>
        rc_filled_qty y = rc_filled_qty x + qty \<and> rc_qty y = rc_qty x \<and> record_ok y \<and>
        rc_status y = (if rc_filled_qty y = 0 then Accepted else if rc_filled_qty y < rc_qty y then Partly_filled else Filled) \<and>
        get_by_order_no (registry_run (ops @ [Op_fill no qty price t]) new_registry) no = Some y \<and>
        (rg_by_request_id R i = rg_by_order_no R no \<longrightarrow>
          get_by_request_id (registry_run (ops @ [Op_fill no qty price t]) new_registry) i = Some y)"
      unfolding next_run fill
      using registry_fill_seen [OF ok fill] by (intro exI [of _ ?y]) simp
  qed (use byid in simp_all)
qed

text \<open>An order of ten that was registered, bound and filled by three.\<close>

definition ten_shares :: request_fields where
  "ten_shares = \<lparr>rq_code = ''005930'', rq_side = ''BUY'', rq_order_type = ''LIMIT'', rq_qty = 10, rq_price = 70000,
     rq_strategy_tag = [], rq_parent_order_no = []\<rparr>"

definition three_filled :: "registry_op list" where
  "three_filled = [Op_register ''r1'' ten_shares 0 0, Op_bind ''r1'' ''A1'' 1, Op_fill ''A1'' 3 70000 2,
     Op_fill ''B2'' 9 70000 3, Op_fill ''A1'' 2 70000 4]"

text \<open>After fills of three and of two, and one of an unknown order, a fill of five completes it.\<close>

theorem registry_consistent_witness:
  "\<exists>y. get_by_request_id (registry_run (three_filled @ [Op_fill ''A1'' 5 70000 5]) new_registry) ''r1'' = Some y \<and>
     rc_filled_qty y = 10 \<and> rc_status y = Filled"
proof -
  have valid: "list_all valid_op three_filled" by (simp add: three_filled_def ten_shares_def)
  let ?R = "registry_run three_filled new_registry"
  have index: "rg_by_order_no ?R ''A1'' = Some 0" "rg_by_request_id ?R ''r1'' = Some 0"
    and sum: "filled_by 0 three_filled new_registry = 5" and qty: "rc_qty (record_at ?R 0) = 10" by code_simp+
  have found: "get_by_order_no ?R ''A1'' = Some (record_at ?R 0)" by (simp add: get_by_order_no_def index)
  from registry_consistent [OF valid, of "''r1''" "record_at ?R 0" "''A1''" 5 70000 5] show ?thesis
    unfolding found index sum qty by (auto simp: qty sum)
qed

section \<open>Positions follow the fills\<close>

text \<open>The reference: what is held of a code after reports of fills.\<close>

fun held_after :: "string \<Rightarrow> int \<Rightarrow> fill_report list \<Rightarrow> int" where
  "held_after code n [] = n"
| "held_after code n (f # fs) = held_after code
     (if fr_code f \<noteq> code \<or> fr_qty f \<le> 0 then n
      else if fr_side f = ''BUY'' then n + fr_qty f
      else if fr_side f = ''SELL'' then max 0 (n - fr_qty f) else n) fs"

definition tracked_qty :: "tracked_positions \<Rightarrow> string \<Rightarrow> int" where
  "tracked_qty M code = (case M code of Some p \<Rightarrow> tk_qty p | None \<Rightarrow> 0)"

definition tracked_ok :: "tracked_position \<Rightarrow> bool" where
  "tracked_ok p \<longleftrightarrow> 0 \<le> tk_qty p \<and> (tk_qty p = 0 \<longrightarrow> tk_avg_price p = 0 \<and> tk_highest_price p = 0)"

definition positions_ok :: "tracked_positions \<Rightarrow> bool" where
  "positions_ok M \<longleftrightarrow> (\<forall>code p. M code = Some p \<longrightarrow> tracked_ok p)"

lemma tracked_ok_fills:
  "tracked_ok p \<Longrightarrow> tracked_ok (update_on_buy_fill qty price p)"
  "tracked_ok p \<Longrightarrow> tracked_ok (snd (update_on_sell_fill qty price p))"
  by (auto simp: tracked_ok_def update_on_buy_fill_def update_on_sell_fill_def Let_def)

lemma tracked_qty_fills:
  "tracked_ok p \<Longrightarrow> tk_qty (update_on_buy_fill qty price p) = (if qty \<le> 0 then tk_qty p else tk_qty p + qty)"
  "tracked_ok p \<Longrightarrow> tk_qty (snd (update_on_sell_fill qty price p)) = (if qty \<le> 0 then tk_qty p else max 0 (tk_qty p - qty))"
  by (auto simp: tracked_ok_def update_on_buy_fill_def update_on_sell_fill_def Let_def)

lemma ensured:
  assumes "positions_ok M"
  shows "tracked_ok (ensure_position code now M)" and "tk_qty (ensure_position code now M) = tracked_qty M code"
  using assms by (auto simp: positions_ok_def ensure_position_def new_position_def tracked_ok_def tracked_qty_def split: option.splits)

lemma process_fill_positions:
  assumes "positions_ok M"
  shows "positions_ok (snd (snd (process_fill f now now' (R, M))))"
    and "held_after code (tracked_qty M code) (f # fs) = held_after code (tracked_qty (snd (snd (process_fill f now now' (R, M)))) code) fs"
proof -
  note e = ensured [OF assms, of "fr_code f" now']
  show "positions_ok (snd (snd (process_fill f now now' (R, M))))"
    using assms tracked_ok_fills [OF e(1), of "fr_qty f" "fr_price f"]
    by (auto simp: process_fill_def manager_buy_fill_def manager_sell_fill_def positions_ok_def split: prod.split)
  show "held_after code (tracked_qty M code) (f # fs) = held_after code (tracked_qty (snd (snd (process_fill f now now' (R, M)))) code) fs"
    using tracked_qty_fills [OF e(1), of "fr_qty f" "fr_price f"] e(2)
    by (auto simp: process_fill_def manager_buy_fill_def manager_sell_fill_def tracked_qty_def split: prod.split)
qed

lemma process_fills_positions:
  "positions_ok M \<Longrightarrow> positions_ok (snd (process_fills fs (R, M))) \<and>
     tracked_qty (snd (process_fills fs (R, M))) code = held_after code (tracked_qty M code) (map fst fs)"
proof (induction fs arbitrary: R M)
  case (Cons e fs)
  obtain f now now' where e: "e = (f, now, now')" by (cases e)
  obtain R1 M1 where p: "snd (process_fill f now now' (R, M)) = (R1, M1)" by fastforce
  show ?case
    using Cons.IH [of M1 R1] process_fill_positions [OF Cons.prems, where f = f and now = now and now' = now' and R = R] p
    by (simp add: e)
qed simp

text \<open>C31: The positions are those of the reported fills, whether or not the registry knows their order numbers: with any
  registry, after any reports the quantity of each code is the reference's, a sell never takes a position below zero, and
  a flat position carries neither an average nor a highest price.\<close>

theorem positions_follow_fills:
  "(case snd (process_fills fs (R, Map.empty)) code of
      Some p \<Rightarrow> tk_qty p | None \<Rightarrow> 0) = held_after code 0 (map fst fs) \<and>
   positions_ok (snd (process_fills fs (R, Map.empty)))"
proof -
  have "positions_ok Map.empty" by (simp add: positions_ok_def)
  from process_fills_positions [OF this, of fs R code] show ?thesis by (simp add: tracked_qty_def)
qed

section \<open>The first rule hides others\<close>

text \<open>As long as two shares are held, rules whose partial threshold is at most the full and the trailing ones (the
  defaults are) never take the full profit and never trail: at each such price another half is to be sold. Below the
  partial threshold only the stop loss can fire.\<close>

theorem partial_exit_first:
  assumes "xr_partial_take_profit X \<le> xr_take_profit X" and "xr_partial_take_profit X \<le> xr_trailing_start X"
    and "2 \<le> tk_qty p" and "0 < tk_avg_price p"
  shows "\<exists>g. evaluate_exit X (Some p) price = Some g \<and> xs_reason g \<notin> {Take_profit, Trailing_stop} \<and>
    (xs_reason g = Partial_tp \<longleftrightarrow> xr_partial_take_profit X \<le> unrealized_pnl_ratio p price) \<and>
    (xs_should_exit g \<longleftrightarrow> xs_reason g \<noteq> No_exit)"
  using assms by (auto simp: evaluate_exit_def exit_with_def Let_def)

theorem partial_exit_first_witness:
  "\<exists>g. evaluate_exit default_exit_rules (Some \<lparr>tk_code = ''005930'', tk_qty = 10, tk_avg_price = 100, tk_realized_pnl = 0,
       tk_highest_price = 200, tk_entry_time = 0\<rparr>) 150 = Some g \<and> xs_reason g = Partial_tp"
proof -
  let ?p = "\<lparr>tk_code = ''005930'', tk_qty = 10, tk_avg_price = 100, tk_realized_pnl = 0,
       tk_highest_price = 200, tk_entry_time = 0\<rparr> :: tracked_position"
  have rules: "xr_partial_take_profit default_exit_rules \<le> xr_take_profit default_exit_rules"
    "xr_partial_take_profit default_exit_rules \<le> xr_trailing_start default_exit_rules"
    by (simp_all add: default_exit_rules_def to_double_mono)
  have "xr_partial_take_profit default_exit_rules \<le> unrealized_pnl_ratio ?p 150" by code_simp
  with partial_exit_first [OF rules, of ?p 150] show ?thesis by auto
qed

end
