(* ===== verification/LegacySelectors.thy ===== *)
theory LegacySelectors
  imports Floats Decimals "HOL-Library.List_Lexorder" "HOL-Library.Char_ord"
begin

text \<open>
  The first filter of the archived engine: the selectors under \<open>back/legacy-2026-09-13/selectors\<close>, with the tick of
  \<open>core/models.py\<close> they read. A configuration is a dictionary of numbers and texts, where a flag is 0 or 1; a value
  that is missing, zero or empty is replaced by the default, as \<open>config.get(...) or default\<close> does. A reason is the
  list of the pieces and numbers that are formatted into its text.
\<close>

section \<open>Ticks and reasons\<close>

record daily_candle =
  dc_date :: string
  dc_open :: double
  dc_high :: double
  dc_low :: double
  dc_close :: double
  dc_volume :: double

text \<open>\<open>daily_candles\<close> is attached by the engine; a tick without it has none.\<close>

record tick_data =
  td_symbol :: string
  td_price :: double
  td_volume :: int
  td_ts :: datetime
  td_price_change_pct :: double
  td_trade_strength :: double
  td_volume_ratio :: double
  td_news_score :: double
  td_theme_score :: double
  td_leader_score :: double
  td_daily_candles :: "daily_candle list"

datatype reason_piece = Lit string | Num double

type_synonym reason = "reason_piece list"

text \<open>Guards with early returns: the reason of the first one that fires.\<close>

fun first_reject :: "(bool \<times> reason) list \<Rightarrow> reason option" where
  "first_reject [] = None"
| "first_reject ((fires, r) # gs) = (if fires then Some r else first_reject gs)"

definition time_hhmm :: "datetime \<Rightarrow> string" where
  "time_hhmm ts =
     (let minute = (dt_instant ts + seconds (case dt_offset ts of Some off \<Rightarrow> off | None \<Rightarrow> 0)) div seconds 60 mod 1440;
          h = minute div 60; m = minute mod 60
      in [digit_char (h div 10), digit_char (h mod 10), CHR '':'', digit_char (m div 10), digit_char (m mod 10)])"

definition tick_symbol :: "tick_data \<Rightarrow> string" where
  "tick_symbol t = strip (td_symbol t)"

section \<open>The configuration\<close>

record runtime_config =
  ru_enabled :: bool
  ru_start_hhmm :: string
  ru_end_hhmm :: string

text \<open>The provider of the universes may raise (\<^const>\<open>None\<close>).\<close>

record strategy_config =
  tc_number :: "string \<rightharpoonup> double"
  tc_text :: "string \<rightharpoonup> string"
  tc_excluded :: "string list"
  tc_runtime :: "string \<rightharpoonup> runtime_config"
  tc_universe_provider :: "(string \<Rightarrow> string \<Rightarrow> bool option) option"

definition or_default :: "double \<Rightarrow> double \<Rightarrow> double" where
  "or_default x d = (if x = 0 then d else x)"

definition cfg_float :: "strategy_config \<Rightarrow> string \<Rightarrow> double \<Rightarrow> double" where
  "cfg_float C k d = (case tc_number C k of Some x \<Rightarrow> or_default x d | None \<Rightarrow> d)"

definition cfg_float2 :: "strategy_config \<Rightarrow> string \<Rightarrow> string \<Rightarrow> double \<Rightarrow> double" where
  "cfg_float2 C k k' d = (case tc_number C k of Some x \<Rightarrow> or_default x d | None \<Rightarrow> cfg_float C k' d)"

definition cfg_text :: "strategy_config \<Rightarrow> string \<Rightarrow> string \<Rightarrow> string" where
  "cfg_text C k d = (case tc_text C k of Some s \<Rightarrow> if s = [] then d else s | None \<Rightarrow> d)"

definition cfg_flag :: "strategy_config \<Rightarrow> string \<Rightarrow> bool \<Rightarrow> bool" where
  "cfg_flag C k d = (case tc_number C k of Some x \<Rightarrow> x \<noteq> 0 | None \<Rightarrow> d)"

definition cut_int :: "double \<Rightarrow> int" where
  "cut_int x = (if 0 \<le> x then \<lfloor>x\<rfloor> else \<lceil>x\<rceil>)"

definition cfg_int :: "strategy_config \<Rightarrow> int \<Rightarrow> string \<Rightarrow> double \<Rightarrow> int" where
  "cfg_int C least k d = max least (cut_int (cfg_float C k d))"

abbreviation decimal_places :: "int \<Rightarrow> int \<Rightarrow> double" where
  "decimal_places n places \<equiv> to_double (of_int n / 10 ^ nat places)"

section \<open>The selectors\<close>

definition universe_miss :: "strategy_config \<Rightarrow> string \<Rightarrow> string \<Rightarrow> bool" where
  "universe_miss C symb universe =
     (case tc_universe_provider C of None \<Rightarrow> False | Some provider \<Rightarrow> provider universe symb = Some False)"

text \<open>The guards every selector begins with.\<close>

definition symbol_guards :: "strategy_config \<Rightarrow> string \<Rightarrow> tick_data \<Rightarrow> (bool \<times> reason) list" where
  "symbol_guards C universe t = [(tick_symbol t = [], [Lit ''selector_symbol_empty'']),
     (universe_miss C (tick_symbol t) universe, [Lit (''selector_universe_miss:'' @ universe)])]"

definition momentum_matches :: "strategy_config \<Rightarrow> tick_data \<Rightarrow> reason option" where
  "momentum_matches C t =
     (let min_price = cfg_float C ''momentum_selector_min_price'' 1;
          min_chg = cfg_float2 C ''momentum_selector_min_price_change_pct'' ''min_price_change_pct'' (decimal_places 1 1);
          min_vr = cfg_float2 C ''momentum_selector_min_volume_ratio'' ''volume_ratio_hard_floor'' (decimal_places 5 1);
          min_strength = cfg_float C ''momentum_selector_min_trade_strength'' 0
      in first_reject (symbol_guards C ''momentum_universe'' t @
        [(td_price t < min_price, [Lit ''selector_price<'', Num min_price]),
         (td_price_change_pct t < min_chg, [Lit ''selector_chg<'', Num min_chg]),
         (td_volume_ratio t < min_vr, [Lit ''selector_vr<'', Num min_vr]),
         (0 < min_strength \<and> 0 < td_trade_strength t \<and> td_trade_strength t < min_strength,
          [Lit ''selector_strength<'', Num min_strength])]))"

definition vcp_box_matches :: "strategy_config \<Rightarrow> tick_data \<Rightarrow> reason option" where
  "vcp_box_matches C t =
     (let start = cfg_text C ''vcp_box_selector_start_hhmm'' ''09:40''; close = cfg_text C ''vcp_box_selector_end_hhmm'' ''14:20'';
          min_price = cfg_float C ''vcp_box_min_price'' 1000;
          min_chg = cfg_float C ''vcp_box_min_price_change_pct'' (decimal_places 2 1);
          max_chg = cfg_float C ''vcp_box_max_price_change_pct'' 12;
          min_vr = cfg_float C ''vcp_box_min_volume_ratio'' (decimal_places 7 1); hhmm = time_hhmm (td_ts t)
      in first_reject (symbol_guards C ''vcp_box_universe'' t @
        [(hhmm < start, [Lit (''selector_wait<'' @ start)]),
         (close < hhmm, [Lit (''selector_closed>'' @ close)]),
         (td_price t < min_price, [Lit ''selector_price<'', Num min_price]),
         (td_price_change_pct t < min_chg, [Lit ''selector_chg<'', Num min_chg]),
         (max_chg < td_price_change_pct t, [Lit ''selector_chg>'', Num max_chg]),
         (td_volume_ratio t < min_vr, [Lit ''selector_vr<'', Num min_vr])]))"

definition leader_matches :: "strategy_config \<Rightarrow> tick_data \<Rightarrow> reason option" where
  "leader_matches C t =
     (let start = (case tc_text C ''leader_selector_start_hhmm'' of
            Some s \<Rightarrow> if s = [] then ''09:00'' else s | None \<Rightarrow> cfg_text C ''leader_entry_start_hhmm'' ''09:00'');
          min_price = cfg_float C ''leader_selector_min_price'' 1;
          min_chg = cfg_float2 C ''leader_selector_min_price_change_pct'' ''leader_price_change_floor'' 0;
          min_vr = cfg_float2 C ''leader_selector_min_volume_ratio'' ''leader_volume_ratio_floor'' (decimal_places 5 1);
          min_interest = cfg_float C ''leader_selector_min_interest_score'' 0;
          interest = fadd (fadd (td_news_score t) (td_theme_score t)) (td_leader_score t)
      in first_reject (symbol_guards C ''leader_universe'' t @
        [(td_price t < min_price, [Lit ''selector_price<'', Num min_price]),
         (time_hhmm (td_ts t) < start, [Lit (''selector_wait<'' @ start)]),
         (td_price_change_pct t < min_chg \<and> td_volume_ratio t < min_vr,
          [Lit ''selector_chg_vr<'', Num min_chg, Lit ''/'', Num min_vr]),
         (0 < min_interest \<and> interest < min_interest, [Lit ''selector_interest<'', Num min_interest])]))"

definition close_buy_matches :: "strategy_config \<Rightarrow> tick_data \<Rightarrow> reason option" where
  "close_buy_matches C t =
     (let start = cfg_text C ''close_buy_start_hhmm'' ''15:20''; close = cfg_text C ''close_buy_end_hhmm'' ''15:29'';
          min_price = cfg_float C ''close_buy_min_price'' 1;
          min_chg = cfg_float C ''close_buy_min_price_change_pct'' 1;
          min_vr = cfg_float C ''close_buy_min_volume_ratio'' 1;
          min_strength = cfg_float C ''close_buy_min_trade_strength'' 0;
          max_chg = cfg_float C ''close_buy_max_price_change_pct'' 8; hhmm = time_hhmm (td_ts t)
      in first_reject (symbol_guards C ''close_buy_universe'' t @
        [(hhmm < start, [Lit (''selector_wait<'' @ start)]),
         (close < hhmm, [Lit (''selector_closed>'' @ close)]),
         (td_price t < min_price, [Lit ''selector_price<'', Num min_price]),
         (td_price_change_pct t < min_chg, [Lit ''selector_chg<'', Num min_chg]),
         (max_chg < td_price_change_pct t, [Lit ''selector_chg>'', Num max_chg]),
         (td_volume_ratio t < min_vr, [Lit ''selector_vr<'', Num min_vr]),
         (0 < min_strength \<and> 0 < td_trade_strength t \<and> td_trade_strength t < min_strength,
          [Lit ''selector_strength<'', Num min_strength])]))"

definition bottom_reversal_matches :: "strategy_config \<Rightarrow> tick_data \<Rightarrow> reason option" where
  "bottom_reversal_matches C t =
     (let start = cfg_text C ''bottom_reversal_selector_start_hhmm'' ''09:35'';
          close = cfg_text C ''bottom_reversal_selector_end_hhmm'' ''14:20'';
          min_price = cfg_float C ''bottom_reversal_min_price'' 1000;
          min_chg = cfg_float C ''bottom_reversal_min_price_change_pct'' (decimal_places (- 35) 1);
          max_chg = cfg_float C ''bottom_reversal_max_price_change_pct'' 4;
          min_vr = cfg_float C ''bottom_reversal_min_volume_ratio'' (decimal_places 4 1); hhmm = time_hhmm (td_ts t)
      in first_reject (symbol_guards C ''bottom_reversal_universe'' t @
        [(hhmm < start, [Lit (''bottom_selector_wait<'' @ start)]),
         (close < hhmm, [Lit (''bottom_selector_closed>'' @ close)]),
         (td_price t < min_price, [Lit ''bottom_selector_price<'', Num min_price]),
         (td_price_change_pct t < min_chg, [Lit ''bottom_selector_chg<'', Num min_chg]),
         (max_chg < td_price_change_pct t, [Lit ''bottom_selector_chg>'', Num max_chg]),
         (td_volume_ratio t < min_vr, [Lit ''bottom_selector_vr<'', Num min_vr])]))"

section \<open>The code universe\<close>

text \<open>The set of active codes is a list without duplicates, kept sorted as \<open>snapshot\<close> returns it.\<close>

definition clean_codes :: "string list \<Rightarrow> string list" where
  "clean_codes codes = sort (remdups (filter (\<lambda>c. c \<noteq> []) (map strip codes)))"

definition add_code :: "string \<Rightarrow> string list \<Rightarrow> string list" where
  "add_code code U = (if strip code = [] then U else sort (List.insert (strip code) U))"

definition discard_code :: "string \<Rightarrow> string list \<Rightarrow> string list" where
  "discard_code code U = (if strip code = [] then U else removeAll (strip code) U)"

definition contains_code :: "string list \<Rightarrow> string \<Rightarrow> bool" where
  "contains_code U code \<longleftrightarrow> strip code \<in> set U"

section \<open>Lemmas\<close>

lemma first_reject_None: "first_reject gs = None \<longleftrightarrow> (\<forall>g\<in>set gs. \<not> fst g)"
  by (induction gs rule: first_reject.induct) auto

lemma first_reject_append:
  "first_reject (gs @ hs) = (case first_reject gs of None \<Rightarrow> first_reject hs | Some r \<Rightarrow> Some r)"
  by (induction gs rule: first_reject.induct) auto

lemma first_reject_SomeD: "first_reject gs = Some r \<Longrightarrow> (True, r) \<in> set gs"
  by (induction gs rule: first_reject.induct) (auto split: if_splits)

definition universe_ok :: "string list \<Rightarrow> bool" where
  "universe_ok U \<longleftrightarrow> sorted U \<and> distinct U \<and> [] \<notin> set U"

lemma universe_kept:
  "universe_ok (clean_codes codes)" "universe_ok U \<Longrightarrow> universe_ok (add_code code U)"
  "universe_ok U \<Longrightarrow> universe_ok (discard_code code U)"
  by (auto simp: universe_ok_def clean_codes_def add_code_def discard_code_def distinct_insert distinct_removeAll
      removeAll_filter_not_eq sorted_wrt_filter)

end
