(* ===== verification/LegacyStrategies.thy ===== *)
theory LegacyStrategies
  imports LegacyTrading LegacySelectors
begin

text \<open>
  Entry strategies of the archived engine: \<open>strategies/momentum_strategy.py\<close>, \<open>vcp_box_strategy.py\<close>,
  \<open>leader_pullback_strategy.py\<close> and \<open>close_buy_strategy.py\<close> under \<open>back/legacy-2026-09-13\<close>, with the score of
  \<open>utils/score_filter.py\<close> and \<open>strategy/entry_rules.py\<close>. A strategy returns the reason of its rejection or an entry;
  what it keeps is a state it returns. A day stands for its text, and ticks carry their moment.
\<close>

section \<open>Entries\<close>

record entry_signal =
  es_symbol :: string
  es_side :: trade_side
  es_qty :: int
  es_reason :: reason
  es_price :: double
  es_order_type :: trade_order_type
  es_ts :: datetime

type_synonym entry_result = "reason + entry_signal"

text \<open>\<open>" | name=value"\<close> for each of the values.\<close>

definition named_values :: "(string \<times> double) list \<Rightarrow> reason" where
  "named_values xs = concat (map (\<lambda>(k, x). [Lit ('' | '' @ k @ ''=''), Num x]) xs)"

definition default_qty :: "strategy_config \<Rightarrow> int" where
  "default_qty C = cfg_int C 1 ''default_order_qty'' 1"

definition market_buy :: "strategy_config \<Rightarrow> tick_data \<Rightarrow> string \<Rightarrow> (string \<times> double) list \<Rightarrow> entry_signal" where
  "market_buy C t label xs = \<lparr>es_symbol = tick_symbol t, es_side = Buy_side, es_qty = default_qty C,
     es_reason = Lit label # named_values xs, es_price = td_price t, es_order_type = Market_order, es_ts = td_ts t\<rparr>"

text \<open>The entry, unless a guard fires.\<close>

definition unless :: "(bool \<times> reason) list \<Rightarrow> entry_signal \<Rightarrow> entry_result" where
  "unless gs g = (case first_reject gs of Some r \<Rightarrow> Inl r | None \<Rightarrow> Inr g)"

definition trade_day :: "datetime \<Rightarrow> int" where
  "trade_day ts = local_day ts (case dt_offset ts of Some off \<Rightarrow> off | None \<Rightarrow> 0)"

text \<open>\<open>xs[-n:]\<close> for a positive \<open>n\<close>.\<close>

definition last_n :: "nat \<Rightarrow> 'a list \<Rightarrow> 'a list" where
  "last_n n xs = drop (length xs - n) xs"

section \<open>Scores and rules\<close>

type_synonym number_dict = "string \<rightharpoonup> double"

definition number_at :: "number_dict \<Rightarrow> string \<Rightarrow> double" where
  "number_at d k = (case d k of Some x \<Rightarrow> x | None \<Rightarrow> 0)"

definition can_enter :: "number_dict \<Rightarrow> bool" where
  "can_enter d \<longleftrightarrow> \<not> number_at d ''change_rate'' < 1 \<and> \<not> number_at d ''volume_ratio'' < 3 / 2 \<and>
     \<not> number_at d ''trade_strength'' < 120"

text \<open>\<open>round(x, 2)\<close> rounds the exact value to hundredths, ties to even.\<close>

definition round_cents :: "double \<Rightarrow> double" where
  "round_cents x = to_double (of_int (nearest_even (x * 100)) / 100)"

definition calculate_score :: "number_dict \<Rightarrow> double" where
  "calculate_score d =
     (let change = number_at d ''price_change_pct''; strength = number_at d ''trade_strength'';
          ratio = number_at d ''volume_ratio''; volume = number_at d ''trade_volume'';
          s1 = (if 0 \<le> change then fadd 0 (min (fmul change 8) 20) else fadd 0 (max (fmul change 5) (- 10)));
          s2 = (if 100 \<le> strength then fadd s1 (min (fmul (fsub strength 100) (1 / 4)) 20)
                else fsub s1 (min (fmul (fsub 100 strength) (decimal_places 1 1)) 10));
          s3 = (if 1 \<le> ratio then fadd s2 (min (fmul (fsub ratio 1) 10) 15) else s2);
          s4 = (if 5000000 \<le> volume then fadd s3 10 else if 1000000 \<le> volume then fadd s3 6
                else if 300000 \<le> volume then fadd s3 3 else s3)
      in round_cents (fadd (fadd (fadd s4 (number_at d ''news_score'')) (number_at d ''theme_score''))
           (number_at d ''leader_score'')))"

section \<open>Momentum\<close>

type_synonym score_part = "bool \<times> double \<times> string \<times> double"

fun add_parts :: "double \<Rightarrow> (string \<times> double) list \<Rightarrow> score_part list \<Rightarrow> double \<times> (string \<times> double) list" where
  "add_parts score reasons [] = (score, reasons)"
| "add_parts score reasons ((counts, part, name, x) # ps) =
     (if counts then add_parts (fadd score part) (reasons @ [(name, x)]) ps else add_parts score reasons ps)"

definition min_trade_strength :: "strategy_config \<Rightarrow> double" where
  "min_trade_strength C = cfg_float C ''min_trade_strength'' 110"

definition min_price_change :: "strategy_config \<Rightarrow> double" where
  "min_price_change C = cfg_float C ''min_price_change_pct'' (decimal_places 3 1)"

definition score_signal :: "strategy_config \<Rightarrow> tick_data \<Rightarrow> double \<times> (string \<times> double) list" where
  "score_signal C t =
     (let least = min_trade_strength C; fifth = decimal_places 2 1
      in add_parts 0 []
        [(least \<le> td_trade_strength t, min 30 (fadd (fmul (fsub (td_trade_strength t) least) (1 / 2)) 15),
          ''strength'', td_trade_strength t),
         (min_price_change C \<le> td_price_change_pct t, min 20 (fmul (td_price_change_pct t) 8), ''chg'', td_price_change_pct t),
         (cfg_float C ''entry_volume_ratio_min'' 1 \<le> td_volume_ratio t, min 20 (fmul (td_volume_ratio t) 8),
          ''vr'', td_volume_ratio t),
         (0 < td_news_score t, min 10 (fmul (td_news_score t) fifth), ''news'', td_news_score t),
         (0 < td_theme_score t, min 10 (fmul (td_theme_score t) fifth), ''theme'', td_theme_score t),
         (0 < td_leader_score t, min 10 (fmul (td_leader_score t) fifth), ''leader'', td_leader_score t)])"

definition momentum_signal :: "strategy_config \<Rightarrow> (string \<Rightarrow> bool) \<Rightarrow> tick_data \<Rightarrow> entry_result" where
  "momentum_signal C held t =
     (let hard_floor = cfg_float C ''volume_ratio_hard_floor'' (decimal_places 8 1);
          min_vr = cfg_float C ''min_volume_ratio'' (decimal_places 11 1);
          min_score = cfg_float C ''min_entry_score'' 58; (score, reasons) = score_signal C t
      in unless
        [(tick_symbol t = [], [Lit ''symbol empty'']),
         (held (tick_symbol t), [Lit ''already has position'']),
         (td_price t \<le> 0, [Lit ''invalid price'']),
         (td_price_change_pct t < min_price_change C, [Lit ''price_change_pct<'', Num (min_price_change C)]),
         (td_volume_ratio t < hard_floor, [Lit ''volume_ratio<'', Num hard_floor]),
         (td_volume_ratio t < min_vr, [Lit ''volume_ratio<'', Num min_vr]),
         (td_trade_strength t < min_trade_strength C, [Lit ''trade_strength<'', Num (min_trade_strength C)]),
         (cfg_flag C ''use_score_filter'' True \<and> score < min_score,
          [Lit ''score<'', Num min_score, Lit '' ('', Num score, Lit '')''])]
        (market_buy C t ''momentum_entry'' ((''score'', score) # reasons)))"

section \<open>Contracting boxes\<close>

text \<open>The prices seen of each symbol, the latest last, and the last entries.\<close>

record box_state =
  bx_history :: "string \<Rightarrow> double list"
  bx_last_entry :: "string \<rightharpoonup> datetime"

definition new_boxes :: box_state where
  "new_boxes = \<lparr>bx_history = (\<lambda>_. []), bx_last_entry = Map.empty\<rparr>"

text \<open>A deque of bounded length drops its oldest element.\<close>

definition append_price :: "nat \<Rightarrow> string \<Rightarrow> double \<Rightarrow> box_state \<Rightarrow> box_state" where
  "append_price limit symb price S =
     (if 0 < price then S\<lparr>bx_history := (bx_history S)(symb := last_n limit (bx_history S symb @ [price]))\<rparr> else S)"

definition range_pct :: "double list \<Rightarrow> double" where
  "range_pct prices =
     (if prices = [] then 0
      else let low = Min (set prices); high = Max (set prices)
           in if low \<le> 0 then 0 else fmul (fdiv (fsub high low) low) 100)"

definition cooldown_active :: "int \<Rightarrow> box_state \<Rightarrow> string \<Rightarrow> datetime \<Rightarrow> bool" where
  "cooldown_active cooldown S symb ts =
     (case bx_last_entry S symb of
        None \<Rightarrow> False
      | Some previous \<Rightarrow> 0 < cooldown \<and> dt_minus ts previous < seconds cooldown)"

definition box_mark_entry :: "string \<Rightarrow> datetime \<Rightarrow> box_state \<Rightarrow> box_state" where
  "box_mark_entry symb ts S = S\<lparr>bx_last_entry := (bx_last_entry S)(strip symb \<mapsto> ts)\<rparr>"

definition vcp_history_size :: "strategy_config \<Rightarrow> nat" where
  "vcp_history_size C = nat (cfg_int C 20 ''vcp_box_history_size'' 80)"

text \<open>What is decided on the history, which ends with the price of the tick.\<close>

definition vcp_entry :: "strategy_config \<Rightarrow> tick_data \<Rightarrow> double list \<Rightarrow> entry_result" where
  "vcp_entry C t history =
     (let min_history = cfg_int C 10 ''vcp_box_min_history'' 35;
          lookback = nat (cfg_int C 10 ''vcp_box_lookback'' 24); early = nat (cfg_int C 10 ''vcp_box_early_lookback'' 24);
          max_width = cfg_float C ''vcp_box_max_box_width_pct'' (decimal_places 28 1);
          min_prior = cfg_float C ''vcp_box_min_prior_width_pct'' (decimal_places 12 1);
          max_contraction = cfg_float C ''vcp_box_max_contraction_ratio'' (3 / 4);
          buffer = cfg_float C ''vcp_box_breakout_buffer_pct'' (decimal_places 5 2);
          min_strength = cfg_float C ''vcp_box_min_trade_strength'' 80;
          min_vr = cfg_float C ''vcp_box_signal_min_volume_ratio'' (decimal_places 11 1);
          max_chg = cfg_float C ''vcp_box_signal_max_price_change_pct'' 12;
          min_chg = cfg_float C ''vcp_box_signal_min_price_change_pct'' (1 / 2);
          box = last_n lookback history;
          prior = drop (length history - (lookback + early)) (take (length history - lookback) history);
          box_high = (if 1 < length box then Max (set (butlast box)) else Max (set box));
          width = range_pct box; prior_width = range_pct prior;
          breakout = fmul box_high (fadd 1 (fdiv buffer 100))
      in unless
        [(int (length history) < min_history, [Lit ''history<'', Num (of_int min_history)]),
         (length box < lookback \<or> length prior < early, [Lit ''box_history_short'']),
         (prior_width < min_prior, [Lit ''prior_width<'', Num min_prior]),
         (max_width < width, [Lit ''box_width>'', Num max_width]),
         (fmul prior_width max_contraction < width,
          [Lit ''not_contracted '', Num width, Lit ''>'', Num (fmul prior_width max_contraction)]),
         (td_price t < breakout, [Lit ''below_box_breakout '', Num (td_price t), Lit ''<'', Num breakout]),
         (td_price_change_pct t < min_chg, [Lit ''chg<'', Num min_chg]),
         (max_chg < td_price_change_pct t, [Lit ''chg>'', Num max_chg]),
         (td_volume_ratio t < min_vr, [Lit ''vr<'', Num min_vr]),
         (td_trade_strength t < min_strength, [Lit ''strength<'', Num min_strength])]
        (market_buy C t ''vcp_box_breakout'' [(''box_high'', box_high), (''box_low'', Min (set box)), (''width'', width),
           (''prior_width'', prior_width), (''chg'', td_price_change_pct t), (''vr'', td_volume_ratio t),
           (''strength'', td_trade_strength t)]))"

definition vcp_box_signal ::
    "strategy_config \<Rightarrow> (string \<Rightarrow> bool) \<Rightarrow> tick_data \<Rightarrow> box_state \<Rightarrow> entry_result \<times> box_state" where
  "vcp_box_signal C held t S =
     (let symb = tick_symbol t; cooldown = cfg_int C 0 ''vcp_box_entry_cooldown_sec'' 600
      in if symb = [] then (Inl [Lit ''symbol empty''], S)
         else if td_price t \<le> 0 then (Inl [Lit ''invalid price''], S)
         else (let S1 = append_price (vcp_history_size C) symb (td_price t) S
               in (if held symb then Inl [Lit ''already has position'']
                   else if cooldown_active cooldown S1 symb (td_ts t) then Inl [Lit ''entry_cooldown'']
                   else vcp_entry C t (bx_history S1 symb), S1)))"

section \<open>Buying at the close\<close>

text \<open>\<open>sum()\<close> of floats: a running sum and its compensation, added at the end.\<close>

fun sum_step :: "double \<Rightarrow> double \<times> double \<Rightarrow> double \<times> double" where
  "sum_step x (hi, lo) =
     (let t = fadd hi x
      in (t, if \<bar>x\<bar> \<le> \<bar>hi\<bar> then fadd lo (fadd (fsub hi t) x) else fadd lo (fadd (fsub x t) hi)))"

definition float_sum :: "double list \<Rightarrow> double" where
  "float_sum xs = (case fold sum_step xs (0, 0) of (hi, lo) \<Rightarrow> fadd hi lo)"

record close_day =
  cl_trade_date :: int
  cl_high :: double
  cl_low :: double
  cl_samples :: "double list"
  cl_last_sample :: double

record close_state =
  cs_last_entry :: "string \<rightharpoonup> int"
  cs_days :: "string \<rightharpoonup> close_day"

definition new_closes :: close_state where
  "new_closes = \<lparr>cs_last_entry = Map.empty, cs_days = Map.empty\<rparr>"

text \<open>\<open>ts.timestamp()\<close>; a naive moment is read in the local zone, whose offset is an argument.\<close>

definition unix_time :: "int \<Rightarrow> datetime \<Rightarrow> double" where
  "unix_time zone ts =
     (case dt_offset ts of
        None \<Rightarrow> fadd (fint (dt_instant ts div seconds 1 - zone)) (fdiv (fint (dt_instant ts mod seconds 1)) 1000000)
      | Some _ \<Rightarrow> to_double (of_int (dt_instant ts) / 1000000))"

definition update_close_day :: "strategy_config \<Rightarrow> int \<Rightarrow> tick_data \<Rightarrow> close_day option \<Rightarrow> close_day" where
  "update_close_day C zone t old =
     (let price = td_price t; date = trade_day (td_ts t); now = unix_time zone (td_ts t);
          every = cfg_int C 1 ''close_buy_rsi_sample_seconds'' 60;
          limit = nat (cfg_int C 4 ''close_buy_rsi_max_samples'' 30);
          fresh = \<lparr>cl_trade_date = date, cl_high = price, cl_low = price, cl_samples = [], cl_last_sample = 0\<rparr>;
          d = (case old of None \<Rightarrow> fresh | Some d \<Rightarrow> if cl_trade_date d \<noteq> date then fresh else d);
          d1 = d\<lparr>cl_high := max (or_default (cl_high d) price) price, cl_low := min (or_default (cl_low d) price) price\<rparr>
      in if cl_samples d1 = [] \<or> fint every \<le> fsub now (cl_last_sample d1)
         then d1\<lparr>cl_samples := last_n limit (cl_samples d1 @ [price]), cl_last_sample := now\<rparr>
         else d1\<lparr>cl_samples := butlast (cl_samples d1) @ [price]\<rparr>)"

definition rsi2 :: "double list \<Rightarrow> double option" where
  "rsi2 samples =
     (case rev samples of
        c # b # a # _ \<Rightarrow>
          (let changes = [fsub b a, fsub c b];
               gain = fdiv (float_sum (map (\<lambda>x. max x 0) changes)) 2;
               loss = fdiv (float_sum (map (\<lambda>x. \<bar>min x 0\<bar>) changes)) 2
           in Some (if loss \<le> 0 then 100 else if gain \<le> 0 then 0
                    else fsub 100 (fdiv 100 (fadd 1 (fdiv gain loss)))))
      | _ \<Rightarrow> None)"

text \<open>The guards of a candidate of the day, which both strategies have.\<close>

definition daily_candidate_mode :: "strategy_config \<Rightarrow> bool" where
  "daily_candidate_mode C = cfg_flag C ''daily_candidate_mode'' False"

definition daily_candidate_guards :: "strategy_config \<Rightarrow> tick_data \<Rightarrow> (bool \<times> reason) list" where
  "daily_candidate_guards C t =
     (let max_gap = cfg_float C ''daily_candidate_max_gap_pct'' 5;
          min_chg = cfg_float C ''daily_candidate_min_change_pct'' (- 3)
      in [(td_price_change_pct t < min_chg, [Lit ''daily_candidate_chg<'', Num min_chg]),
          (max_gap < td_price_change_pct t, [Lit ''daily_candidate_chg>'', Num max_gap])])"

definition close_buy_entry :: "strategy_config \<Rightarrow> tick_data \<Rightarrow> close_day \<Rightarrow> entry_result" where
  "close_buy_entry C t d =
     (let price = td_price t; high = or_default (cl_high d) price; low = or_default (cl_low d) price;
          pullback = (if 0 < high then fmul (fdiv (fsub high price) high) 100 else 0);
          recovery = (if 0 < low then fmul (fdiv (fsub price low) low) 100 else 0);
          rsi = rsi2 (cl_samples d);
          min_chg = cfg_float C ''close_buy_signal_min_price_change_pct'' (3 / 2);
          min_vr = cfg_float C ''close_buy_signal_min_volume_ratio'' (decimal_places 11 1);
          min_strength = cfg_float C ''close_buy_signal_min_trade_strength'' 0;
          max_chg = cfg_float C ''close_buy_signal_max_price_change_pct'' 7;
          min_total = cfg_float C ''close_buy_signal_min_total_score'' 0;
          use_rsi = cfg_flag C ''close_buy_use_rsi2'' True; max_rsi = cfg_float C ''close_buy_signal_max_rsi2'' 30;
          min_recovery = cfg_float C ''close_buy_min_recovery_from_low_pct'' (decimal_places 3 1);
          max_pullback = cfg_float C ''close_buy_max_pullback_from_high_pct'' (9 / 2);
          total_score = fadd (fadd (td_news_score t) (td_theme_score t)) (td_leader_score t)
      in if price \<le> 0 then Inl [Lit ''invalid price'']
         else if daily_candidate_mode C
         then unless (daily_candidate_guards C t)
           (market_buy C t ''daily_close_buy_entry'' [(''chg'', td_price_change_pct t), (''vr'', td_volume_ratio t),
              (''strength'', td_trade_strength t)])
         else unless
           [(td_price_change_pct t < min_chg, [Lit ''close_buy_chg<'', Num min_chg]),
            (max_chg < td_price_change_pct t, [Lit ''close_buy_chg>'', Num max_chg]),
            (td_volume_ratio t < min_vr, [Lit ''close_buy_vr<'', Num min_vr]),
            (use_rsi \<and> rsi = None, [Lit ''close_buy_rsi2_not_ready'']),
            (use_rsi \<and> (case rsi of None \<Rightarrow> False | Some x \<Rightarrow> max_rsi < x), [Lit ''close_buy_rsi2>'', Num max_rsi]),
            (recovery < min_recovery, [Lit ''close_buy_recovery<'', Num min_recovery]),
            (max_pullback < pullback, [Lit ''close_buy_pullback>'', Num max_pullback]),
            (0 < min_strength \<and> 0 < td_trade_strength t \<and> td_trade_strength t < min_strength,
             [Lit ''close_buy_strength<'', Num min_strength]),
            (0 < min_total \<and> total_score < min_total, [Lit ''close_buy_score<'', Num min_total])]
           (market_buy C t ''close_buy_entry'' [(''chg'', td_price_change_pct t), (''vr'', td_volume_ratio t),
              (''rsi2'', case rsi of None \<Rightarrow> - 1 | Some x \<Rightarrow> x), (''pullback'', pullback), (''recovery'', recovery),
              (''strength'', td_trade_strength t), (''news'', td_news_score t), (''theme'', td_theme_score t),
              (''leader'', td_leader_score t)]))"

definition close_buy_signal ::
    "strategy_config \<Rightarrow> int \<Rightarrow> (string \<Rightarrow> bool) \<Rightarrow> tick_data \<Rightarrow> close_state \<Rightarrow> entry_result \<times> close_state" where
  "close_buy_signal C zone held t S =
     (let symb = tick_symbol t
      in if symb = [] then (Inl [Lit ''symbol empty''], S)
         else if held symb then (Inl [Lit ''already has position''], S)
         else if cs_last_entry S symb = Some (trade_day (td_ts t)) then (Inl [Lit ''close_buy_already_entered_today''], S)
         else (let d = update_close_day C zone t (cs_days S symb)
               in (close_buy_entry C t d, S\<lparr>cs_days := (cs_days S)(symb \<mapsto> d)\<rparr>)))"

definition close_mark_entry :: "string \<Rightarrow> datetime \<Rightarrow> close_state \<Rightarrow> close_state" where
  "close_mark_entry symb ts S = S\<lparr>cs_last_entry := (cs_last_entry S)(strip symb \<mapsto> trade_day ts)\<rparr>"

section \<open>Pullbacks of leaders\<close>

record leader_day =
  ld_trade_date :: int
  ld_tick_count :: nat
  ld_open_price :: double
  ld_intraday_high :: double
  ld_prev_price :: double
  ld_rally_seen :: bool

type_synonym leader_state = "string \<rightharpoonup> leader_day"

definition fresh_leader_day :: "int \<Rightarrow> leader_day" where
  "fresh_leader_day date = \<lparr>ld_trade_date = date, ld_tick_count = 0, ld_open_price = 0, ld_intraday_high = 0,
     ld_prev_price = 0, ld_rally_seen = False\<rparr>"

definition leader_day_of :: "tick_data \<Rightarrow> leader_day option \<Rightarrow> leader_day" where
  "leader_day_of t old =
     (case old of
        None \<Rightarrow> fresh_leader_day (trade_day (td_ts t))
      | Some d \<Rightarrow> if ld_trade_date d \<noteq> trade_day (td_ts t) then fresh_leader_day (trade_day (td_ts t)) else d)"

definition update_leader_day :: "strategy_config \<Rightarrow> tick_data \<Rightarrow> leader_day option \<Rightarrow> leader_day" where
  "update_leader_day C t old =
     (let d = leader_day_of t old; price = td_price t;
          opened = (if ld_open_price d \<le> 0 \<and> 0 < price then price else ld_open_price d);
          rally = fmul (or_default opened price) (fadd 1 (fdiv (cfg_float C ''leader_initial_rally_pct'' (decimal_places 4 1)) 100))
      in d\<lparr>ld_tick_count := ld_tick_count d + 1, ld_open_price := opened,
           ld_intraday_high := max (or_default (ld_intraday_high d) price) price,
           ld_rally_seen := ld_rally_seen d \<or> rally \<le> price \<or>
             cfg_float C ''leader_rally_by_change_pct'' (decimal_places 3 1) \<le> td_price_change_pct t \<or>
             cfg_float C ''leader_rally_by_volume_ratio'' (decimal_places 8 1) \<le> td_volume_ratio t\<rparr>)"

definition leader_entry :: "strategy_config \<Rightarrow> tick_data \<Rightarrow> leader_day \<Rightarrow> entry_result" where
  "leader_entry C t d =
     (let price = td_price t; start = cfg_text C ''leader_entry_start_hhmm'' ''09:05'';
          min_pullback = cfg_float C ''leader_pullback_min_pct'' (decimal_places 3 1);
          max_pullback = cfg_float C ''leader_pullback_max_pct'' 2;
          chg_floor = cfg_float C ''leader_price_change_floor'' (decimal_places 1 1);
          vr_floor = cfg_float C ''leader_volume_ratio_floor'' (decimal_places 6 1);
          strength_floor = cfg_float C ''leader_strength_floor'' 70;
          tolerance = cfg_float C ''leader_support_open_tolerance_pct'' (decimal_places 2 1);
          high = or_default (ld_intraday_high d) price;
          pullback = (if high = 0 then 0 else fmul (fdiv (fsub high price) high) 100);
          support = fmul (ld_open_price d) (fsub 1 (fdiv tolerance 100));
          guards = [(price \<le> 0, [Lit ''invalid price'']), (time_hhmm (td_ts t) < start, [Lit (''leader_wait<'' @ start)])]
      in if daily_candidate_mode C
         then unless (guards @ daily_candidate_guards C t)
           (market_buy C t ''daily_pullback_leader_entry'' [(''chg'', td_price_change_pct t), (''vr'', td_volume_ratio t),
              (''strength'', td_trade_strength t)])
         else unless (guards @
           [(\<not> ld_rally_seen d, [Lit ''leader_rally_not_seen'']),
            (ld_open_price d \<le> 0 \<or> high \<le> 0, [Lit ''leader_state_invalid'']),
            (pullback < min_pullback, [Lit ''leader_pullback<'', Num min_pullback]),
            (max_pullback < pullback, [Lit ''leader_pullback>'', Num max_pullback]),
            (price < support, [Lit ''leader_open_support_broken'']),
            (\<not> (0 < ld_prev_price d \<and> ld_prev_price d < price), [Lit ''leader_rebound_not_confirmed'']),
            (td_price_change_pct t < chg_floor, [Lit ''leader_price_change<'', Num chg_floor]),
            (td_volume_ratio t < vr_floor, [Lit ''leader_volume_ratio<'', Num vr_floor]),
            (0 < td_trade_strength t \<and> td_trade_strength t < strength_floor, [Lit ''leader_strength<'', Num strength_floor])])
           (market_buy C t ''leader_pullback_entry'' [(''pullback'', pullback), (''chg'', td_price_change_pct t),
              (''vr'', td_volume_ratio t), (''strength'', td_trade_strength t), (''news'', td_news_score t),
              (''theme'', td_theme_score t), (''leader'', td_leader_score t)]))"

text \<open>A rejection and an entry both leave the price as the previous one.\<close>

definition leader_signal ::
    "strategy_config \<Rightarrow> (string \<Rightarrow> bool) \<Rightarrow> tick_data \<Rightarrow> leader_state \<Rightarrow> entry_result \<times> leader_state" where
  "leader_signal C held t S =
     (let symb = tick_symbol t
      in if symb = [] then (Inl [Lit ''symbol empty''], S)
         else if symb \<in> set (filter (\<lambda>x. x \<noteq> []) (map strip (tc_excluded C))) then (Inl [Lit ''leader_excluded_symbol''], S)
         else if held symb then (Inl [Lit ''already has position''], S)
         else (let d = update_leader_day C t (S symb)
               in (leader_entry C t d, S(symb \<mapsto> d\<lparr>ld_prev_price := td_price t\<rparr>))))"

section \<open>What an entry is\<close>

lemma unless_Inr: "unless gs g = Inr g' \<longleftrightarrow> g' = g \<and> (\<forall>x\<in>set gs. \<not> fst x)"
  by (auto simp: unless_def first_reject_None [symmetric] split: option.splits)

definition entry_ok :: "strategy_config \<Rightarrow> (string \<Rightarrow> bool) \<Rightarrow> tick_data \<Rightarrow> entry_signal \<Rightarrow> bool" where
  "entry_ok C held t g \<longleftrightarrow> es_symbol g = tick_symbol t \<and> tick_symbol t \<noteq> [] \<and> \<not> held (tick_symbol t) \<and> es_side g = Buy_side \<and>
     es_order_type g = Market_order \<and> es_price g = td_price t \<and> 0 < td_price t \<and> 1 \<le> es_qty g \<and> es_ts g = td_ts t"

lemma market_buy_ok:
  "tick_symbol t \<noteq> [] \<Longrightarrow> \<not> held (tick_symbol t) \<Longrightarrow> 0 < td_price t \<Longrightarrow> entry_ok C held t (market_buy C t label xs)"
  by (simp add: entry_ok_def market_buy_def default_qty_def cfg_int_def)

lemma momentum_entry_ok: "momentum_signal C held t = Inr g \<Longrightarrow> entry_ok C held t g"
  by (auto simp: momentum_signal_def Let_def unless_Inr intro!: market_buy_ok split: prod.splits)

lemma vcp_entry_is_buy: "vcp_entry C t history = Inr g \<Longrightarrow> \<exists>label xs. g = market_buy C t label xs"
  unfolding vcp_entry_def Let_def unless_Inr by blast

lemma vcp_signal_ok: "vcp_box_signal C held t S = (Inr g, S') \<Longrightarrow> entry_ok C held t g"
  by (auto simp: vcp_box_signal_def Let_def intro!: market_buy_ok dest!: vcp_entry_is_buy split: if_splits)

lemma close_entry_is_buy: "close_buy_entry C t d = Inr g \<Longrightarrow> 0 < td_price t \<and> (\<exists>label xs. g = market_buy C t label xs)"
  unfolding close_buy_entry_def Let_def by (auto simp: unless_Inr split: if_splits)

lemma close_signal_ok: "close_buy_signal C zone held t S = (Inr g, S') \<Longrightarrow> entry_ok C held t g"
  by (auto simp: close_buy_signal_def Let_def intro!: market_buy_ok dest!: close_entry_is_buy split: if_splits)

lemma leader_entry_is_buy: "leader_entry C t d = Inr g \<Longrightarrow> 0 < td_price t \<and> (\<exists>label xs. g = market_buy C t label xs)"
  unfolding leader_entry_def Let_def by (auto simp: unless_Inr split: if_splits)

lemma leader_signal_ok: "leader_signal C held t S = (Inr g, S') \<Longrightarrow> entry_ok C held t g"
  by (auto simp: leader_signal_def Let_def intro!: market_buy_ok dest!: leader_entry_is_buy split: if_splits)

section \<open>Bounds\<close>

lemma add_parts_le:
  "s \<le> of_int n \<Longrightarrow> 0 \<le> n \<Longrightarrow> list_all2 (\<lambda>p c. fst (snd p) \<le> of_int c \<and> 0 \<le> c) ps cs \<Longrightarrow> n + sum_list cs \<le> 2 ^ 53 \<Longrightarrow>
   fst (add_parts s rs ps) \<le> of_int (n + sum_list cs)"
proof (induction s rs ps arbitrary: n cs rule: add_parts.induct)
  case (2 score reasons counts part name x ps)
  from 2(5) obtain c cs' where cs: "cs = c # cs'" "part \<le> of_int c" "0 \<le> c"
    and rest: "list_all2 (\<lambda>p c. fst (snd p) \<le> of_int c \<and> 0 \<le> c) ps cs'" by (auto simp: list_all2_Cons1)
  have "0 \<le> sum_list cs'" using rest by (induction ps cs' rule: list_all2_induct) auto
  then have small: "n + c \<le> 2 ^ 53" "n + sum_list cs' \<le> 2 ^ 53" "n + c + sum_list cs' \<le> 2 ^ 53"
    using 2(6) cs by simp_all
  have "fadd score part \<le> to_double (of_int (n + c))"
    unfolding fadd_def using 2(3) cs(2) by (intro to_double_mono) simp
  also have "\<dots> = of_int (n + c)" using small 2(4) cs(3) by (intro to_double_int) simp
  finally have added: "fadd score part \<le> of_int (n + c)" .
  show ?case
  proof (cases counts)
    case True
    then show ?thesis using 2(1) [OF True added _ rest] small 2(4) cs by (simp add: add.assoc)
  next
    case False
    then have "fst (add_parts score reasons ps) \<le> of_int (n + sum_list cs')" using 2(2) [OF False 2(3) 2(4) rest] small by simp
    then show ?thesis using False cs by (simp add: order_trans)
  qed
qed simp

text \<open>C33: The momentum score never exceeds 100, for every tick and every configuration, rounding included.\<close>

theorem momentum_score_bounds: "fst (score_signal C t) \<le> 100"
proof -
  let ?caps = "[30, 20, 20, 10, 10, 10] :: int list"
  have "fst (score_signal C t) \<le> of_int (0 + sum_list ?caps)"
    unfolding score_signal_def Let_def by (rule add_parts_le) simp_all
  then show ?thesis by simp
qed

lemma to_double_one: "to_double 1 = 1" "to_double 100 = 100"
  using to_double_int [of 1] to_double_int [of 100] by simp_all

text \<open>A two-period strength index is a percentage: whatever the samples, it lies between 0 and 100.\<close>

theorem rsi2_bounds:
  "case rsi2 samples of Some x \<Rightarrow> 0 \<le> x \<and> x \<le> 100 | None \<Rightarrow> length samples < 3"
proof -
  have percent: "0 \<le> fsub 100 (fdiv 100 (fadd 1 (fdiv gain loss))) \<and> fsub 100 (fdiv 100 (fadd 1 (fdiv gain loss))) \<le> 100"
    if "0 < gain" "0 < loss" for gain loss :: double
  proof -
    have "0 \<le> fdiv gain loss" using that by (simp add: fdiv_def to_double_nonneg)
    then have one: "1 \<le> fadd 1 (fdiv gain loss)"
      using to_double_mono [of 1 "1 + fdiv gain loss"] by (simp add: fadd_def to_double_one)
    then have "100 / fadd 1 (fdiv gain loss) \<le> 100" by (simp add: divide_le_eq)
    then have "fdiv 100 (fadd 1 (fdiv gain loss)) \<le> 100" using to_double_mono [of _ 100] to_double_one(2) by (simp add: fdiv_def)
    moreover have "0 \<le> fdiv 100 (fadd 1 (fdiv gain loss))" using one by (simp add: fdiv_def to_double_nonneg)
    ultimately show ?thesis
      using to_double_mono [of "100 - fdiv 100 (fadd 1 (fdiv gain loss))" 100] to_double_one(2)
      by (simp add: fsub_def to_double_nonneg)
  qed
  show ?thesis
  proof (cases "length samples < 3")
    case True
    then have "length (rev samples) < 3" by simp
    then have "rsi2 samples = None" by (auto simp: rsi2_def split: list.split)
    then show ?thesis using True by simp
  next
    case False
    then have "3 \<le> length (rev samples)" by simp
    then obtain c b a xs where "rev samples = c # b # a # xs"
      by (metis (no_types) Suc_le_length_iff numeral_3_eq_3)
    then show ?thesis using percent by (auto simp: rsi2_def Let_def)
  qed
qed

section \<open>Once a day\<close>

text \<open>Ticks in any order, each with what is held then; the results beside their ticks.\<close>

fun close_run ::
    "strategy_config \<Rightarrow> int \<Rightarrow> ((string \<Rightarrow> bool) \<times> tick_data) list \<Rightarrow> close_state \<Rightarrow> (tick_data \<times> entry_result) list \<times> close_state" where
  "close_run C zone [] S = ([], S)"
| "close_run C zone ((held, t) # ts) S =
     (case close_buy_signal C zone held t S of (r, S1) \<Rightarrow>
       (case close_run C zone ts S1 of (rs, S2) \<Rightarrow> ((t, r) # rs, S2)))"

lemma close_signal_keeps_entries: "cs_last_entry (snd (close_buy_signal C zone held t S)) = cs_last_entry S"
  by (simp add: close_buy_signal_def Let_def)

lemma close_signal_blocked:
  "cs_last_entry S symb = Some day \<Longrightarrow> tick_symbol t = symb \<Longrightarrow> trade_day (td_ts t) = day \<Longrightarrow>
   \<exists>r. fst (close_buy_signal C zone held t S) = Inl r"
  by (auto simp: close_buy_signal_def Let_def)

lemma close_run_blocked:
  "cs_last_entry S symb = Some day \<Longrightarrow> (t, Inr g) \<in> set (fst (close_run C zone ts S)) \<Longrightarrow> tick_symbol t = symb \<Longrightarrow>
   trade_day (td_ts t) \<noteq> day"
proof (induction ts arbitrary: S)
  case (Cons x ts)
  obtain held t' where x: "x = (held, t')" by (cases x)
  obtain r S1 where step: "close_buy_signal C zone held t' S = (r, S1)" by fastforce
  have kept: "cs_last_entry S1 symb = Some day" using close_signal_keeps_entries [of C zone held t' S] step Cons.prems(1) by simp
  show ?case
  proof
    assume day: "trade_day (td_ts t) = day"
    have "(t, Inr g) \<in> set (fst (close_run C zone ts S1)) \<or> (t = t' \<and> r = Inr g)"
      using Cons.prems(2) x step by (auto split: prod.splits)
    then show False
      using Cons.IH [OF kept _ Cons.prems(3)] day close_signal_blocked [OF Cons.prems(1,3) day, of C zone held] step by auto
  qed
qed simp

text \<open>C32: One purchase at the close per day and symbol: once an entry is marked, no later tick of that symbol on that day is
  answered with an entry, whatever else is asked in between and whatever is held.\<close>

theorem close_buy_once_a_day:
  assumes "(t, Inr g) \<in> set (fst (close_run C zone ts (close_mark_entry symb now S)))"
    and "tick_symbol t = strip symb"
  shows "trade_day (td_ts t) \<noteq> trade_day now"
proof -
  have "cs_last_entry (close_mark_entry symb now S) (strip symb) = Some (trade_day now)" by (simp add: close_mark_entry_def)
  then show ?thesis using assms by (rule close_run_blocked)
qed

text \<open>A candidate of the day, bought on the first day, is bought again on the second only.\<close>

definition daily_config :: strategy_config where
  "daily_config = \<lparr>tc_number = [''daily_candidate_mode'' \<mapsto> 1], tc_text = Map.empty, tc_excluded = [], tc_runtime = Map.empty,
     tc_universe_provider = None\<rparr>"

definition priced_tick :: "int \<Rightarrow> double \<Rightarrow> tick_data" where
  "priced_tick day price = \<lparr>td_symbol = ''005930'', td_price = price, td_volume = 1,
     td_ts = \<lparr>dt_instant = seconds (86400 * day + 55300), dt_offset = None\<rparr>, td_price_change_pct = 1, td_trade_strength = 100,
     td_volume_ratio = 1, td_news_score = 0, td_theme_score = 0, td_leader_score = 0, td_daily_candles = []\<rparr>"

theorem close_buy_once_a_day_witness:
  "\<exists>g. (priced_tick 2 70000, Inr g) \<in> set (fst (close_run daily_config 32400
      [(\<lambda>_. False, priced_tick 1 70000), (\<lambda>_. False, priced_tick 2 70000)]
      (close_mark_entry ''005930'' (td_ts (priced_tick 1 70000)) new_closes))) \<and>
    trade_day (td_ts (priced_tick 2 70000)) \<noteq> trade_day (td_ts (priced_tick 1 70000))"
proof -
  let ?run = "fst (close_run daily_config 32400 [(\<lambda>_. False, priced_tick 1 70000), (\<lambda>_. False, priced_tick 2 70000)]
      (close_mark_entry ''005930'' (td_ts (priced_tick 1 70000)) new_closes))"
  have run: "case ?run of [(_, r1), (t, r2)] \<Rightarrow> \<not> isl r2 | _ \<Rightarrow> False" by code_simp
  obtain r1 r2 where parts: "?run = [(priced_tick 1 70000, r1), (priced_tick 2 70000, r2)]" by (simp add: case_prod_beta)
  with run obtain g where "r2 = Inr g" by (cases r2) simp_all
  with parts have g: "(priced_tick 2 70000, Inr g) \<in> set ?run" by simp
  have "tick_symbol (priced_tick 2 70000) = strip ''005930''" by code_simp
  with close_buy_once_a_day [OF g] g show ?thesis by blast
qed

section \<open>Edges\<close>

text \<open>A tick without a price, the first of the day, already counts as the rally that a pullback presupposes.\<close>

lemma priceless_tick_is_rally: "td_price t = 0 \<Longrightarrow> ld_rally_seen (update_leader_day C t None)"
  by (simp add: update_leader_day_def leader_day_of_def fresh_leader_day_def or_default_def fmul_def Let_def)

lemma close_day_same:
  assumes "trade_day (td_ts t) = cl_trade_date d"
  shows "cl_low (update_close_day C zone t (Some d)) = min (or_default (cl_low d) (td_price t)) (td_price t)"
    and "cl_trade_date (update_close_day C zone t (Some d)) = cl_trade_date d"
  unfolding update_close_day_def Let_def if_distrib [of cl_low] if_distrib [of cl_trade_date] using assms by simp_all

text \<open>A tick without a price makes the low of the day be forgotten: the next price replaces it.\<close>

lemma priceless_tick_forgets_low:
  assumes "td_price t0 = 0" and "0 < td_price t1" and "trade_day (td_ts t0) = cl_trade_date d" and "trade_day (td_ts t1) = cl_trade_date d"
    and "0 < cl_low d"
  shows "cl_low (update_close_day C zone t1 (Some (update_close_day C zone t0 (Some d)))) = td_price t1"
  using close_day_same [OF assms(3), of C zone] close_day_same(1) [of t1 "update_close_day C zone t0 (Some d)" C zone] assms
  by (simp add: or_default_def)

text \<open>A cooldown of zero, which the check of the cooldown provides for, cannot be configured.\<close>

lemma zero_cooldown_is_default:
  "tc_number C k = Some 0 \<Longrightarrow> cfg_int C 0 k 600 = 600"
  by (simp add: cfg_int_def cfg_float_def or_default_def cut_int_def)

end
