(* ===== verification/LegacyBottom.thy ===== *)
theory LegacyBottom
  imports LegacyStrategies
begin

text \<open>
  \<open>strategies/bottom_reversal_strategy.py\<close> of the archived engine: entries at a first recovery from a low, on daily
  candles and on the prices of the day, with three shapes of a bottom for each. Today's date text is an argument; a
  candle is a dictionary with all its numbers, where zero is replaced by the closing price. The details of a detector
  are the numbers formatted into the reason.
\<close>

section \<open>Helpers\<close>

type_synonym details = "(string \<times> double) list"

text \<open>A detector answers with its name and details when it matches.\<close>

type_synonym pattern_match = "(string \<times> details) option"

definition average :: "double list \<Rightarrow> double" where
  "average xs = (if xs = [] then 0 else fdiv (float_sum xs) (fint (int (length xs))))"

text \<open>The index of the first smallest element of a non-empty list.\<close>

definition low_index :: "double list \<Rightarrow> nat" where
  "low_index xs = length (takeWhile (\<lambda>x. x \<noteq> Min (set xs)) xs)"

definition pct_of :: "double \<Rightarrow> double \<Rightarrow> double" where
  "pct_of part base = fmul (fdiv part base) 100"

definition bottom_int :: "strategy_config \<Rightarrow> int \<Rightarrow> string \<Rightarrow> double \<Rightarrow> int" where
  "bottom_int C least k d = cfg_int C least (''bottom_reversal_'' @ k) d"

definition bottom_float :: "strategy_config \<Rightarrow> string \<Rightarrow> double \<Rightarrow> double" where
  "bottom_float C k d = cfg_float C (''bottom_reversal_'' @ k) d"

definition bottom_flag :: "strategy_config \<Rightarrow> string \<Rightarrow> bool" where
  "bottom_flag C k = cfg_flag C (''bottom_reversal_'' @ k) True"

section \<open>Daily candles\<close>

definition daily_min_candles :: "strategy_config \<Rightarrow> int" where
  "daily_min_candles C = bottom_int C 10 ''daily_min_candles'' 20"

definition daily_lookback :: "strategy_config \<Rightarrow> nat" where
  "daily_lookback C = nat (bottom_int C (daily_min_candles C) ''daily_lookback'' 30)"

definition daily_ma_short :: "strategy_config \<Rightarrow> int" where
  "daily_ma_short C = bottom_int C 3 ''daily_ma_short'' 5"

definition daily_ma_mid :: "strategy_config \<Rightarrow> nat" where
  "daily_ma_mid C = nat (bottom_int C (daily_ma_short C + 1) ''daily_ma_mid'' 20)"

definition normal_candle :: "daily_candle \<Rightarrow> daily_candle" where
  "normal_candle c = c\<lparr>dc_date := strip (dc_date c), dc_open := or_default (dc_open c) (dc_close c),
     dc_high := or_default (dc_high c) (dc_close c), dc_low := or_default (dc_low c) (dc_close c)\<rparr>"

text \<open>The candle of the day is not complete yet and is left out; the sort is stable.\<close>

definition normalize_daily_candles :: "string \<Rightarrow> daily_candle list \<Rightarrow> daily_candle list" where
  "normalize_daily_candles today cs =
     sort_key dc_date (map normal_candle
       (filter (\<lambda>c. 0 < dc_close c \<and> \<not> (strip (dc_date c) \<noteq> [] \<and> today \<le> strip (dc_date c))) cs))"

definition detect_daily_w_bottom :: "strategy_config \<Rightarrow> daily_candle list \<Rightarrow> pattern_match" where
  "detect_daily_w_bottom C candles =
     (let recent = last_n (daily_lookback C) candles; n = length recent;
          apart = nat (bottom_int C 3 ''daily_w_min_separation'' 5);
          lows = map dc_low recent; closes = map dc_close recent;
          zone = nat (max 1 (cut_int (fmul (fint (int n)) (decimal_places 65 2))));
          first_i = low_index (take zone lows);
          second_from = first_i + apart;
          second_i = second_from + low_index (drop second_from lows);
          first_low = lows ! first_i; second_low = lows ! second_i;
          gap = pct_of \<bar>fsub second_low first_low\<bar> first_low;
          middle = drop (first_i + 1) (take second_i recent);
          middle_high = Max (set (map dc_high (if middle = [] then recent else middle)));
          ma_short = average (last_n (nat (daily_ma_short C)) closes)
      in if n < apart * 2 + 3 \<or> n - 1 \<le> second_from then None
         else if first_low \<le> 0 \<or> second_low \<le> 0 then None
         else if bottom_float C ''daily_w_low_tolerance_pct'' 5 < gap then None
         else if last closes < fmul middle_high (decimal_places 98 2) \<and> last closes < ma_short then None
         else Some (''daily_w_bottom'', [(''daily_first_low'', first_low), (''daily_second_low'', second_low),
           (''daily_neckline'', middle_high), (''daily_low_gap_pct'', gap)]))"

definition detect_daily_v_reversal :: "strategy_config \<Rightarrow> daily_candle list \<Rightarrow> double \<Rightarrow> double \<Rightarrow> pattern_match" where
  "detect_daily_v_reversal C candles decline recovery =
     (let recent = last_n (daily_lookback C) candles; closes = map dc_close recent; n = length recent
      in if n < low_index (map dc_low recent) + 3 then None
         else if decline < bottom_float C ''daily_min_decline_pct'' 12 \<or> recovery < bottom_float C ''daily_v_recovery_pct'' 5
         then None
         else if n < 3 \<or> \<not> (closes ! (n - 2) \<le> closes ! (n - 1) \<and> closes ! (n - 3) \<le> closes ! (n - 2)) then None
         else Some (''daily_v_reversal'', [(''daily_decline_pct'', decline), (''daily_recovery_pct'', recovery)]))"

definition detect_daily_rounded_bottom :: "strategy_config \<Rightarrow> daily_candle list \<Rightarrow> double \<Rightarrow> pattern_match" where
  "detect_daily_rounded_bottom C candles recovery =
     (let recent = last_n (daily_lookback C) candles; closes = map dc_close recent; n = length recent;
          rising = nat (bottom_int C 2 ''daily_rounded_rising_days'' 2); short = nat (daily_ma_short C);
          ma_short = average (last_n short closes);
          prev_ma_short = average (drop (n - (short + 1)) (butlast closes));
          ma_mid = average (last_n (daily_ma_mid C) closes)
      in if n < daily_ma_mid C then None
         else if n < low_index (map dc_low recent) + rising + 1 then None
         else if last closes < ma_short then None
         else if ma_short < prev_ma_short then None
         else if recovery < bottom_float C ''daily_recovery_from_low_pct'' 3 \<and> ma_short < ma_mid then None
         else Some (''daily_rounded_bottom'', [(''daily_recovery_pct'', recovery), (''daily_ma5'', ma_short),
           (''daily_ma20'', ma_mid)]))"

text \<open>\<open>details.update\<close>: a key that is there keeps its place.\<close>

definition update_details :: "details \<Rightarrow> details \<Rightarrow> details" where
  "update_details news ds = fold (\<lambda>(k, x). AList.update k x) news ds"

fun first_match :: "pattern_match list \<Rightarrow> pattern_match" where
  "first_match [] = None"
| "first_match (None # ms) = first_match ms"
| "first_match (Some m # ms) = Some m"

text \<open>Whether the daily pattern is met, its name or the reason against it, and the details.\<close>

definition detect_daily_bottom_pattern :: "strategy_config \<Rightarrow> string \<Rightarrow> daily_candle list \<Rightarrow> bool \<times> string \<times> details" where
  "detect_daily_bottom_pattern C today candles =
     (let daily = normalize_daily_candles today candles
      in if int (length daily) < daily_min_candles C
         then (False, ''daily_candles_not_ready'', [(''daily_count'', of_nat (length daily))])
         else (let recent = last_n (daily_lookback C) daily;
                   recent_high = Max (set (map dc_high recent)); recent_low = Min (set (map dc_low recent));
                   last_close = dc_close (last recent); volumes = map dc_volume recent;
                   decline = (if 0 < recent_high then max 0 (pct_of (fsub recent_high recent_low) recent_high) else 0);
                   near_low = (if 0 < recent_low then pct_of (fsub last_close recent_low) recent_low else 999);
                   base = (if 21 \<le> length volumes then average (drop (length volumes - 21) (butlast volumes))
                           else average (butlast volumes));
                   ratio = (if 0 < base then fdiv (last volumes) base else 1)
               in if decline < bottom_float C ''daily_min_decline_pct'' 12
                  then (False, ''daily_decline_not_enough'', [(''daily_decline_pct'', decline)])
                  else if bottom_float C ''daily_near_low_pct'' 12 < near_low
                  then (False, ''daily_too_far_from_low'', [(''daily_near_low_pct'', near_low)])
                  else if ratio < bottom_float C ''daily_min_volume_ratio'' 1
                  then (False, ''daily_volume_not_enough'', [(''daily_volume_ratio'', ratio)])
                  else (case first_match [detect_daily_w_bottom C recent, detect_daily_v_reversal C recent decline near_low,
                           detect_daily_rounded_bottom C recent near_low] of
                      Some (name, ds) \<Rightarrow> (True, name, update_details [(''daily_decline_pct'', decline),
                        (''daily_recovery_pct'', near_low), (''daily_volume_ratio'', ratio), (''daily_last_close'', last_close)] ds)
                    | None \<Rightarrow> (False, ''daily_pattern_not_confirmed'', [(''daily_decline_pct'', decline),
                        (''daily_recovery_pct'', near_low), (''daily_volume_ratio'', ratio)]))))"

section \<open>Prices of the day\<close>

definition bottom_min_history :: "strategy_config \<Rightarrow> int" where
  "bottom_min_history C = bottom_int C 10 ''min_history'' 25"

definition short_window :: "strategy_config \<Rightarrow> int" where
  "short_window C = bottom_int C 3 ''short_window'' 5"

definition long_window :: "strategy_config \<Rightarrow> int" where
  "long_window C = bottom_int C (short_window C + 1) ''long_window'' 20"

definition pattern_lookback :: "strategy_config \<Rightarrow> nat" where
  "pattern_lookback C = nat (bottom_int C (long_window C + 5) ''pattern_lookback'' 50)"

definition min_ticks_after_low :: "strategy_config \<Rightarrow> nat" where
  "min_ticks_after_low C = nat (bottom_int C 1 ''min_ticks_after_low'' 3)"

definition recent_sequence_rising :: "double list \<Rightarrow> nat \<Rightarrow> bool" where
  "recent_sequence_rising prices count \<longleftrightarrow> count + 1 \<le> length prices \<and>
     (let recent = last_n (count + 1) prices in list_all (\<lambda>(a, b). a \<le> b) (zip recent (drop 1 recent)))"

definition detect_w_bottom :: "strategy_config \<Rightarrow> double list \<Rightarrow> double \<Rightarrow> pattern_match" where
  "detect_w_bottom C prices price =
     (let apart = nat (bottom_int C 3 ''w_min_separation'' 6);
          search = last_n (pattern_lookback C) prices; n = length search;
          zone = nat (max 1 (cut_int (fmul (fint (int n)) (decimal_places 65 2))));
          first_i = low_index (take zone search);
          second_from = first_i + apart;
          second_i = second_from + low_index (drop second_from search);
          first_low = search ! first_i; second_low = search ! second_i;
          gap = pct_of \<bar>fsub second_low first_low\<bar> first_low;
          undercut = max 0 (pct_of (fsub first_low second_low) first_low);
          middle = drop (first_i + 1) (take second_i search);
          neckline = Max (set middle);
          neckline_price = fmul neckline (fadd 1 (fdiv (bottom_float C ''w_neckline_break_pct'' (decimal_places 5 2)) 100))
      in if \<not> bottom_flag C ''enable_w_bottom'' \<or> int (length prices) < max (bottom_min_history C) (int (apart * 2 + 5))
         then None
         else if n < apart * 2 + 5 \<or> n - 1 \<le> second_from then None
         else if first_low \<le> 0 \<or> second_low \<le> 0 then None
         else if second_low < first_low \<and> bottom_float C ''w_undercut_tolerance_pct'' (decimal_places 6 1) < undercut then None
         else if first_low \<le> second_low \<and> bottom_float C ''w_low_tolerance_pct'' (decimal_places 12 1) < gap then None
         else if middle = [] \<or> price < neckline_price then None
         else Some (''w_bottom'', [(''first_low'', first_low), (''second_low'', second_low), (''neckline'', neckline),
           (''low_gap_pct'', gap)]))"

definition detect_v_reversal :: "strategy_config \<Rightarrow> double list \<Rightarrow> double \<Rightarrow> pattern_match" where
  "detect_v_reversal C prices recovery =
     (let search = last_n (pattern_lookback C) prices; low_i = low_index search;
          high = Max (set (take (low_i + 1) search)); low = search ! low_i;
          drop_pct = (if 0 < high then max 0 (pct_of (fsub high low) high) else 0)
      in if \<not> bottom_flag C ''enable_v_reversal'' \<or> int (length prices) < bottom_min_history C then None
         else if length search < low_i + 1 + min_ticks_after_low C then None
         else if drop_pct < bottom_float C ''v_drop_pct'' 1 then None
         else if recovery < bottom_float C ''v_recovery_pct'' (decimal_places 8 1) then None
         else Some (''v_reversal'', [(''drop_pct'', drop_pct), (''pattern_low_age'', of_nat (length search - 1 - low_i))]))"

definition detect_rounded_bottom :: "strategy_config \<Rightarrow> double list \<Rightarrow> double \<Rightarrow> double \<Rightarrow> double \<Rightarrow> pattern_match" where
  "detect_rounded_bottom C prices price short_ma long_ma =
     (let search = last_n (pattern_lookback C) prices; low_i = low_index search
      in if \<not> bottom_flag C ''enable_rounded_bottom'' \<or> int (length prices) < long_window C then None
         else if length search < low_i + 1 + min_ticks_after_low C then None
         else if price < short_ma \<or> short_ma < long_ma then None
         else if \<not> recent_sequence_rising search (nat (bottom_int C 2 ''rounded_rising_ticks'' 3)) then None
         else Some (''rounded_bottom'', [(''pattern_low_age'', of_nat (length search - 1 - low_i)), (''short_ma'', short_ma),
           (''long_ma'', long_ma)]))"

definition detect_bottom_pattern ::
    "strategy_config \<Rightarrow> double list \<Rightarrow> double \<Rightarrow> double \<Rightarrow> double \<Rightarrow> double \<Rightarrow> pattern_match" where
  "detect_bottom_pattern C prices price recovery short_ma long_ma =
     first_match [detect_w_bottom C prices price, detect_v_reversal C prices recovery,
       detect_rounded_bottom C prices price short_ma long_ma]"

section \<open>The signal\<close>

definition bottom_history_size :: "strategy_config \<Rightarrow> nat" where
  "bottom_history_size C = nat (bottom_int C 20 ''history_size'' 80)"

text \<open>What is decided on the history, which ends with the price of the tick, once the daily pattern is known.\<close>

definition bottom_entry :: "strategy_config \<Rightarrow> tick_data \<Rightarrow> bool \<times> string \<times> details \<Rightarrow> double list \<Rightarrow> entry_result" where
  "bottom_entry C t daily history =
     (case daily of (daily_ok, daily_name, daily_details) \<Rightarrow>
      let price = td_price t; low = Min (set history); high = Max (set history);
          recovery = pct_of (fsub price low) low; pullback = pct_of (fsub high price) high;
          low_age = length history - 1 - low_index history;
          prev = (if 2 \<le> length history then history ! (length history - 2) else price);
          momentum = (if 0 < prev then pct_of (fsub price prev) prev else 0);
          short_ma = average (last_n (nat (short_window C)) history);
          long_ma = average (last_n (nat (long_window C)) history);
          min_chg = bottom_float C ''signal_min_price_change_pct'' (- 3);
          max_chg = bottom_float C ''signal_max_price_change_pct'' 4;
          min_recovery = bottom_float C ''min_recovery_from_low_pct'' (decimal_places 4 1);
          max_recovery = bottom_float C ''max_recovery_from_low_pct'' 3;
          max_pullback = bottom_float C ''max_pullback_from_high_pct'' 5;
          min_momentum = bottom_float C ''min_last_momentum_pct'' (decimal_places 12 2);
          min_vr = bottom_float C ''signal_min_volume_ratio'' (decimal_places 7 1);
          min_strength = bottom_float C ''signal_min_trade_strength'' 80;
          found = detect_bottom_pattern C history price recovery short_ma long_ma;
          daily_text = (if daily_ok then daily_name else ''daily_not_required'');
          found_text = (case found of None \<Rightarrow> ''basic_recovery'' | Some (name, _) \<Rightarrow> name);
          found_details = (case found of None \<Rightarrow> [] | Some (_, ds) \<Rightarrow> ds)
      in unless
        [(bottom_flag C ''require_daily_pattern'' \<and> \<not> daily_ok, [Lit daily_name]),
         (int (length history) < bottom_min_history C, [Lit ''bottom_history<'', Num (of_int (bottom_min_history C))]),
         (low \<le> 0 \<or> high \<le> 0, [Lit ''bottom_invalid_range'']),
         (td_price_change_pct t < min_chg, [Lit ''bottom_chg<'', Num min_chg]),
         (max_chg < td_price_change_pct t, [Lit ''bottom_chg>'', Num max_chg]),
         (recovery < min_recovery, [Lit ''bottom_recovery<'', Num min_recovery]),
         (max_recovery < recovery, [Lit ''bottom_recovery>'', Num max_recovery]),
         (low_age < min_ticks_after_low C, [Lit ''bottom_low_age<'', Num (of_nat (min_ticks_after_low C))]),
         (max_pullback < pullback, [Lit ''bottom_pullback>'', Num max_pullback]),
         (price < short_ma, [Lit ''bottom_price<short_ma'']),
         (short_ma < long_ma, [Lit ''bottom_short_ma<long_ma'']),
         (momentum < min_momentum, [Lit ''bottom_momentum<'', Num min_momentum]),
         (td_volume_ratio t < min_vr, [Lit ''bottom_vr<'', Num min_vr]),
         (td_trade_strength t < min_strength, [Lit ''bottom_strength<'', Num min_strength]),
         (bottom_flag C ''require_pattern'' \<and> found = None, [Lit ''bottom_pattern_not_confirmed''])]
        (market_buy C t (''bottom_reversal_entry | daily='' @ daily_text @ '' | pattern='' @ found_text)
          ([(''low'', low), (''high'', high), (''recovery'', recovery), (''pullback'', pullback),
            (''low_age'', of_nat low_age), (''last_mom'', momentum), (''chg'', td_price_change_pct t),
            (''vr'', td_volume_ratio t), (''strength'', td_trade_strength t)] @ daily_details @ found_details)))"

definition bottom_reversal_signal ::
    "strategy_config \<Rightarrow> string \<Rightarrow> (string \<Rightarrow> bool) \<Rightarrow> tick_data \<Rightarrow> box_state \<Rightarrow> entry_result \<times> box_state" where
  "bottom_reversal_signal C today held t S =
     (let symb = tick_symbol t; cooldown = bottom_int C 0 ''entry_cooldown_sec'' 900
      in if symb = [] then (Inl [Lit ''symbol empty''], S)
         else if td_price t \<le> 0 then (Inl [Lit ''invalid price''], S)
         else (let S1 = append_price (bottom_history_size C) symb (td_price t) S
               in (if held symb then Inl [Lit ''already has position'']
                   else if cooldown_active cooldown S1 symb (td_ts t) then Inl [Lit ''bottom_entry_cooldown'']
                   else bottom_entry C t (detect_daily_bottom_pattern C today (td_daily_candles t)) (bx_history S1 symb), S1)))"

lemma bottom_entry_is_buy: "bottom_entry C t daily history = Inr g \<Longrightarrow> \<exists>label xs. g = market_buy C t label xs"
  by (cases daily) (auto simp: bottom_entry_def Let_def unless_Inr)

lemma bottom_signal_ok: "bottom_reversal_signal C today held t S = (Inr g, S') \<Longrightarrow> entry_ok C held t g"
  by (auto simp: bottom_reversal_signal_def Let_def intro!: market_buy_ok dest!: bottom_entry_is_buy split: if_splits)

end
