(* ===== verification/LegacyComposite.thy ===== *)
theory LegacyComposite
  imports LegacyBottom
begin

text \<open>
  \<open>strategies/composite_strategy.py\<close> of the archived engine, with what it inherits from \<open>base_strategy.py\<close>: the
  enabled pairs of a selector and a strategy are asked in their order, and the first entry wins. The state holds the
  states of the strategies.
\<close>

section \<open>Pairs\<close>

datatype strategy_kind = Vcp_box | Bottom_reversal | Momentum | Leader_pullback | Close_buy

fun strategy_name :: "strategy_kind \<Rightarrow> string" where
  "strategy_name Vcp_box = ''vcp_box''"
| "strategy_name Bottom_reversal = ''bottom_reversal''"
| "strategy_name Momentum = ''momentum''"
| "strategy_name Leader_pullback = ''leader_pullback''"
| "strategy_name Close_buy = ''close_buy''"

fun selector_stem :: "strategy_kind \<Rightarrow> string" where
  "selector_stem Leader_pullback = ''leader''"
| "selector_stem k = strategy_name k"

definition strategy_pairs :: "strategy_config \<Rightarrow> strategy_kind list" where
  "strategy_pairs C =
     (if cfg_flag C ''enable_vcp_box_entry'' False then [Vcp_box] else []) @
     (if cfg_flag C ''enable_bottom_reversal_entry'' False then [Bottom_reversal] else []) @
     (if cfg_flag C ''enable_momentum_entry'' True then [Momentum] else []) @
     (if cfg_flag C ''enable_leader_pullback_entry'' True then [Leader_pullback] else []) @
     (if cfg_flag C ''enable_close_buy_entry'' False then [Close_buy] else [])"

fun selector_rejects :: "strategy_config \<Rightarrow> strategy_kind \<Rightarrow> tick_data \<Rightarrow> reason option" where
  "selector_rejects C Vcp_box t = vcp_box_matches C t"
| "selector_rejects C Bottom_reversal t = bottom_reversal_matches C t"
| "selector_rejects C Momentum t = momentum_matches C t"
| "selector_rejects C Leader_pullback t = leader_matches C t"
| "selector_rejects C Close_buy t = close_buy_matches C t"

definition runtime_enabled :: "strategy_config \<Rightarrow> strategy_kind \<Rightarrow> bool" where
  "runtime_enabled C k = (case tc_runtime C (strategy_name k) of None \<Rightarrow> True | Some r \<Rightarrow> ru_enabled r)"

definition time_rejects :: "strategy_config \<Rightarrow> strategy_kind \<Rightarrow> tick_data \<Rightarrow> reason option" where
  "time_rejects C k t =
     (case tc_runtime C (strategy_name k) of
        None \<Rightarrow> None
      | Some r \<Rightarrow>
          (let start = strip (ru_start_hhmm r); close = strip (ru_end_hhmm r); now = time_hhmm (td_ts t)
           in first_reject [(start \<noteq> [] \<and> now < start, [Lit (''time<'' @ start)]),
                (close \<noteq> [] \<and> close < now, [Lit (''time>'' @ close)])]))"

section \<open>The composite\<close>

record composite_state =
  cp_vcp :: box_state
  cp_bottom :: box_state
  cp_leader :: leader_state
  cp_close :: close_state
  cp_last_entry :: "string \<rightharpoonup> datetime"

text \<open>The names set on a signal; empty names when there is none.\<close>

record route =
  rt_selector :: string
  rt_strategy :: string
  rt_universe :: string

definition no_route :: route where
  "no_route = \<lparr>rt_selector = [], rt_strategy = [], rt_universe = []\<rparr>"

definition route_of :: "strategy_kind \<Rightarrow> route" where
  "route_of k = \<lparr>rt_selector = selector_stem k @ ''_selector'', rt_strategy = strategy_name k,
     rt_universe = selector_stem k @ ''_universe''\<rparr>"

definition active_route_context :: "route \<Rightarrow> route" where
  "active_route_context r =
     r\<lparr>rt_strategy := (if rt_strategy r = [] then ''CompositeIntradayStrategy'' else rt_strategy r)\<rparr>"

text \<open>What the run of a strategy takes from outside: the date text of today and the offset of the local zone.\<close>

record outside_clock =
  oc_today :: string
  oc_zone :: int

fun strategy_signal ::
    "strategy_config \<Rightarrow> outside_clock \<Rightarrow> (string \<Rightarrow> bool) \<Rightarrow> strategy_kind \<Rightarrow> tick_data \<Rightarrow> composite_state \<Rightarrow>
     entry_result \<times> composite_state" where
  "strategy_signal C K held Vcp_box t S = (case vcp_box_signal C held t (cp_vcp S) of (r, V) \<Rightarrow> (r, S\<lparr>cp_vcp := V\<rparr>))"
| "strategy_signal C K held Bottom_reversal t S =
     (case bottom_reversal_signal C (oc_today K) held t (cp_bottom S) of (r, V) \<Rightarrow> (r, S\<lparr>cp_bottom := V\<rparr>))"
| "strategy_signal C K held Momentum t S = (momentum_signal C held t, S)"
| "strategy_signal C K held Leader_pullback t S = (case leader_signal C held t (cp_leader S) of (r, V) \<Rightarrow> (r, S\<lparr>cp_leader := V\<rparr>))"
| "strategy_signal C K held Close_buy t S = (case close_buy_signal C (oc_zone K) held t (cp_close S) of (r, V) \<Rightarrow> (r, S\<lparr>cp_close := V\<rparr>))"

text \<open>The first entry of the pairs with its kind, the rejections of the others, and the state.\<close>

fun ask_pairs ::
    "strategy_config \<Rightarrow> outside_clock \<Rightarrow> (string \<Rightarrow> bool) \<Rightarrow> tick_data \<Rightarrow> strategy_kind list \<Rightarrow> composite_state \<Rightarrow>
     (strategy_kind \<times> entry_signal) option \<times> (strategy_kind \<times> reason) list \<times> composite_state" where
  "ask_pairs C K held t [] S = (None, [], S)"
| "ask_pairs C K held t (k # ks) S =
     (let rejected = (\<lambda>r S'. case ask_pairs C K held t ks S' of (g, ds, S2) \<Rightarrow> (g, if r = [] then ds else (k, r) # ds, S2))
      in if \<not> runtime_enabled C k then rejected [Lit ''strategy_disabled''] S
         else (case time_rejects C k t of
            Some r \<Rightarrow> rejected r S
          | None \<Rightarrow>
              (case selector_rejects C k t of
                 Some r \<Rightarrow> rejected r S
               | None \<Rightarrow>
                   (case strategy_signal C K held k t S of
                      (Inr g, S1) \<Rightarrow> (Some (k, g), [], S1)
                    | (Inl r, S1) \<Rightarrow> rejected r S1))))"

fun reject_label :: "strategy_kind \<Rightarrow> string" where
  "reject_label Bottom_reversal = ''bottom''"
| "reject_label Leader_pullback = ''leader''"
| "reject_label k = strategy_name k"

fun join_reasons :: "reason list \<Rightarrow> reason" where
  "join_reasons [] = []"
| "join_reasons [r] = r"
| "join_reasons (r # rs) = r @ Lit '' | '' # join_reasons rs"

definition reject_reason :: "(strategy_kind \<times> reason) list \<Rightarrow> reason" where
  "reject_reason ds = join_reasons (map (\<lambda>(k, r). Lit (reject_label k @ '':'') # r)
     (concat (map (\<lambda>k. filter (\<lambda>d. fst d = k) ds) [Momentum, Vcp_box, Bottom_reversal, Leader_pullback, Close_buy])))"

text \<open>The signal with its route, the joined reason of the rejections, and the state.\<close>

definition composite_signal ::
    "strategy_config \<Rightarrow> outside_clock \<Rightarrow> (string \<Rightarrow> bool) \<Rightarrow> tick_data \<Rightarrow> composite_state \<Rightarrow>
     (entry_signal \<times> route) option \<times> reason \<times> composite_state" where
  "composite_signal C K held t S =
     (case ask_pairs C K held t (strategy_pairs C) S of
        (Some (k, g), _, S1) \<Rightarrow> (Some (g, route_of k), [], S1)
      | (None, ds, S1) \<Rightarrow> (None, reject_reason ds, S1))"

fun mark_pairs :: "string \<Rightarrow> datetime \<Rightarrow> strategy_kind list \<Rightarrow> composite_state \<Rightarrow> composite_state" where
  "mark_pairs symb ts [] S = S"
| "mark_pairs symb ts (Vcp_box # ks) S = mark_pairs symb ts ks (S\<lparr>cp_vcp := box_mark_entry symb ts (cp_vcp S)\<rparr>)"
| "mark_pairs symb ts (Bottom_reversal # ks) S = mark_pairs symb ts ks (S\<lparr>cp_bottom := box_mark_entry symb ts (cp_bottom S)\<rparr>)"
| "mark_pairs symb ts (Momentum # ks) S = mark_pairs symb ts ks S"
| "mark_pairs symb ts (Leader_pullback # ks) S = mark_pairs symb ts ks S"
| "mark_pairs symb ts (Close_buy # ks) S = mark_pairs symb ts ks (S\<lparr>cp_close := close_mark_entry symb ts (cp_close S)\<rparr>)"

definition composite_mark_entry :: "strategy_config \<Rightarrow> string \<Rightarrow> datetime \<Rightarrow> composite_state \<Rightarrow> composite_state" where
  "composite_mark_entry C symb ts S =
     mark_pairs symb ts (strategy_pairs C) (S\<lparr>cp_last_entry := (cp_last_entry S)(strip symb \<mapsto> ts)\<rparr>)"

section \<open>Every entry passed every gate\<close>

lemma strategy_signal_ok: "strategy_signal C K held k t S = (Inr g, S') \<Longrightarrow> entry_ok C held t g"
  by (cases k) (auto split: prod.splits intro: vcp_signal_ok bottom_signal_ok momentum_entry_ok leader_signal_ok close_signal_ok)

lemma ask_pairs_found:
  "ask_pairs C K held t ks S = (Some (k, g), ds, S') \<Longrightarrow>
   k \<in> set ks \<and> runtime_enabled C k \<and> time_rejects C k t = None \<and> selector_rejects C k t = None \<and> entry_ok C held t g"
  by (induction C K held t ks S arbitrary: ds S' rule: ask_pairs.induct)
     (auto simp: Let_def split: if_splits option.splits prod.splits sum.splits dest: strategy_signal_ok)

lemma guarded_universe: "first_reject (symbol_guards C universe t @ gs) = None \<Longrightarrow> \<not> universe_miss C (tick_symbol t) universe"
  unfolding first_reject_None by (auto simp: symbol_guards_def)

lemma selector_universe: "selector_rejects C k t = None \<Longrightarrow> \<not> universe_miss C (tick_symbol t) (rt_universe (route_of k))"
  by (cases k; simp only: selector_rejects.simps momentum_matches_def vcp_box_matches_def leader_matches_def close_buy_matches_def
      bottom_reversal_matches_def Let_def; drule guarded_universe; simp add: route_of_def)

text \<open>C29: An entry of the composite strategy is a market buy of at least one share of the tick's symbol at its positive
  price, of a symbol that is not held; and it comes from a configured strategy that is enabled at run time, within its
  hours, whose selector matched the tick and whose universe does not exclude the symbol. The route names that strategy.\<close>

theorem composite_entry_gated:
  assumes "composite_signal C K held t S = (Some (g, r), why, S')"
  shows "entry_ok C held t g \<and> (\<exists>k\<in>set (strategy_pairs C). r = route_of k \<and> runtime_enabled C k \<and> time_rejects C k t = None \<and>
    selector_rejects C k t = None \<and> \<not> universe_miss C (tick_symbol t) (rt_universe r))"
proof -
  from assms obtain k ds where "ask_pairs C K held t (strategy_pairs C) S = (Some (k, g), ds, S')" "r = route_of k"
    by (auto simp: composite_signal_def split: prod.splits option.splits)
  then show ?thesis using ask_pairs_found selector_universe by blast
qed

text \<open>A strong tick, bought by the momentum strategy.\<close>

definition strong_tick :: tick_data where
  "strong_tick = (priced_tick 1 70000)\<lparr>td_price_change_pct := 3, td_trade_strength := 150, td_volume_ratio := 3\<rparr>"

definition plain_config :: strategy_config where
  "plain_config = \<lparr>tc_number = Map.empty, tc_text = Map.empty, tc_excluded = [], tc_runtime = Map.empty,
     tc_universe_provider = None\<rparr>"

definition new_composite :: composite_state where
  "new_composite = \<lparr>cp_vcp = new_boxes, cp_bottom = new_boxes, cp_leader = Map.empty, cp_close = new_closes,
     cp_last_entry = Map.empty\<rparr>"

theorem composite_entry_gated_witness:
  "\<exists>g r why S'. composite_signal plain_config \<lparr>oc_today = ''20260913'', oc_zone = 32400\<rparr> (\<lambda>_. False) strong_tick new_composite =
      (Some (g, r), why, S') \<and> rt_strategy r = ''momentum'' \<and> entry_ok plain_config (\<lambda>_. False) strong_tick g"
proof -
  let ?run = "composite_signal plain_config \<lparr>oc_today = ''20260913'', oc_zone = 32400\<rparr> (\<lambda>_. False) strong_tick new_composite"
  have "case fst ?run of Some (g, r) \<Rightarrow> rt_strategy r = ''momentum'' | None \<Rightarrow> False" by code_simp
  then obtain g r where f: "fst ?run = Some (g, r)" "rt_strategy r = ''momentum''" by (auto split: option.splits)
  obtain why S' where run: "?run = (Some (g, r), why, S')" using f(1) by (cases ?run) auto
  with composite_entry_gated [OF run] f(2) show ?thesis by blast
qed

end
