(* ===== verification/Spec2Isabelle.thy ===== *)
theory Spec2Isabelle
  imports Scenarios StopScenarios InboxScenarios TradeEvaluation Polling Demo
    RestWs RestEvidence KiwoomReadonly Telegram PriceText
    LockProperties CoreProperties PaperBuy ReadOnlyRun LegacyTrading Backtest
    SymbolDirectory StreamProbe MigrationCheck DesktopQuery RealtimeProbe
    LegacyFills LegacyComposite
begin

text \<open>
  A verification library of the local core of CherryPulse: the durable virtual order ledger with its
  dispatcher, stop rules and configuration path, and the adapters and tools around it that talk to a broker.

  \<^bold>\<open>The program.\<close> The engine registers user intents as requests in an append-only SQLite journal
  (\<open>execution/ledger.py\<close> on \<open>execution/storage.py\<close>), guarded by one lease per account
  (\<open>execution/ownership.py\<close>). A dispatcher (\<open>execution/virtual.py\<close>) claims a request durably
  and then simulates the send; evidence about it (\<open>execution/facts.py\<close>) is ingested once and
  projected to orders, positions and reservations (\<open>execution/projection.py\<close>). Quotes evaluated against an
  assigned stop rule (\<open>contracts/stop_evaluation.py\<close>) latch a symbol, which blocks entry and lets the dispatcher
  drain what is sellable. Desired settings arrive in a second store (\<open>contracts/inbox.py\<close>) and are applied to
  the ledger by a coordinator (\<open>execution/config_apply.py\<close>) that survives a crash between the two commits.
  Beside this core stand the read-only REST and WebSocket adapters (\<open>adapters/\<close>), the one-share paper order and
  the scheduled runs under \<open>tools/\<close>. None of these feeds the ledger. The previous program is kept under
  \<open>back/legacy-2026-09-13\<close>; no active module imports it.

  \<^bold>\<open>Foundations.\<close>
  \<^item> \<open>Prelude\<close>: results (an error or a value) with their sequencing and inversion rules, lookups
    in lists, Python's text functions, date-times in microseconds.
  \<^item> \<open>Decimals\<close>, \<open>DigitText\<close>, \<open>PriceText\<close>: the decimals of Python, digit texts, and the price text as a
    normal form.
  \<^item> \<open>Unicode\<close>: text beyond ASCII as code points.
  \<^item> \<open>PyValues\<close>: what \<open>json.loads\<close> yields, for the boundaries that check types at run time.
  \<^item> \<open>Interfaces\<close>: the contracts. \<open>transition_system\<close> (an invariant kept along runs), its extension for
    systems that only grow, and \<open>durable_operation\<close> (a repeated operation answers as it did at first). They are
    interpreted on the ledger in \<open>LedgerMachine\<close> and \<open>LedgerProperties\<close>, on the dispatcher in
    \<open>DispatcherProperties\<close>, on the inbox in \<open>InboxProperties\<close>.

  \<^bold>\<open>The ledger.\<close>
  \<^item> \<open>Models\<close> (\<open>execution/models.py\<close>), \<open>Facts\<close> (\<open>facts.py\<close>, \<open>query_evidence.py\<close>),
    \<open>Outcomes\<close> (\<open>outcomes.py\<close>), \<open>Projection\<close> (\<open>projection.py\<close>), \<open>Validation\<close> (\<open>validation.py\<close>,
    \<open>freshness.py\<close>, \<open>linkage.py\<close>): the data and the pure parts.
  \<^item> \<open>Ownership\<close>, \<open>Storage\<close>: leases as records over a list of locked paths; tables as lists of rows, a
    transaction as a function from a database to an error or a new database, so an exception rolls back.
  \<^item> \<open>LedgerOrders\<close>, \<open>LedgerConfig\<close>, \<open>LedgerStops\<close>, \<open>Quarantine\<close>, \<open>StopObligations\<close>: one definition per
    method, with every guard and early return of the source.
  \<^item> \<open>LedgerState\<close>: the invariant \<open>ledger_ok\<close> (rows stored under the key of their payload). \<open>LedgerMachine\<close>:
    the step relation, with one rule per mutating operation.
  \<^item> \<open>LedgerProperties\<close>, \<open>StopProperties\<close>, \<open>CoreProperties\<close>, \<open>LockProperties\<close>: idempotence, reservation
    without overselling, quote order, single permanent latches, independence of arrival order, one held lease.

  \<^bold>\<open>Dispatcher, configuration, evaluations.\<close>
  \<^item> \<open>Dispatcher\<close>, \<open>DispatcherProperties\<close> (\<open>virtual.py\<close>): an operation returns its result with the state it
    leaves, since a failure after the claim leaves the claim behind. No request is dispatched twice in the life of a
    journal, restarts included.
  \<^item> \<open>Inbox\<close>, \<open>InboxProperties\<close>, \<open>ConfigApply\<close>: the inbox rows move along the documented states;
    the coordinator completes an application that a crash interrupted.
  \<^item> \<open>Settings\<close>, \<open>StopEvaluation\<close>, \<open>TradeEvaluation\<close> (\<open>contracts/\<close>), \<open>Demo\<close> (\<open>execution/demo.py\<close>),
    \<open>Polling\<close> (\<open>sync/polling.py\<close>).
  \<^item> \<open>Scenarios\<close>, \<open>StopScenarios\<close>, \<open>InboxScenarios\<close>: concrete runs evaluated in the kernel; the
    witnesses rest on them.

  \<^bold>\<open>Adapters and tools.\<close> Whatever is injected or lies outside (transport, socket, clocks, sleep, files, child
  processes, \<open>json.loads\<close>) is a function on an outside state of arbitrary type, so a property holds for every
  behaviour of it.
  \<^item> \<open>RestReadonly\<close>, \<open>RestEvidence\<close>, \<open>RestAuth\<close>: bounded pagination that is complete exactly when the chain of
    pages is intact, batches with a review reason, tokens and pacing.
  \<^item> \<open>RestStream\<close>, \<open>RestWs\<close>: the quote stream, its reconnects, and where a usable quote comes from.
  \<^item> \<open>RestOrder\<close>, \<open>PaperBuy\<close>, \<open>MorningRun\<close>: the one-share order, the tool that submits it behind a dated
    sentinel, and the checklist run that starts that tool at most once.
  \<^item> \<open>PaperWorld\<close>, \<open>AccountProbes\<close>, \<open>ReadOnlyRun\<close>: the world the account tools share with its log of
    posted requests, the account probe and the linkage check, and the runner that stores sanitized reports.
  \<^item> \<open>StreamProbe\<close>, \<open>MigrationCheck\<close>, \<open>SymbolDirectory\<close>: the operator's quote capture, the offline
    check report, and the public directory of names and codes, replaced only by a complete one.
  \<^item> \<open>KiwoomReadonly\<close>, \<open>Telegram\<close>: the ActiveX queries and the notification.
  \<^item> \<open>DesktopQuery\<close> (\<open>verify_kiwoom_readonly.py\<close>), \<open>RealtimeProbe\<close>
    (\<open>tools/inspect_kiwoom_realtime.py\<close>): the operator's query with its events in any order and its redaction of
    broker messages, and the real-time probe as a step relation over its callbacks.

  \<^bold>\<open>The archived engine.\<close> \<open>Floats\<close> writes out the rounding of a double, on which prices and quantities are
  computed there; \<open>LegacyTrading\<close> (\<open>core/\<close>) has the portfolio, the risk check and the order book, \<open>LegacyFills\<close> the
  order registry, the positions kept from fills and the exit rules, \<open>Backtest\<close> (\<open>backtest/\<close>) the simulated run and
  its drawdown. \<open>LegacySelectors\<close> (\<open>selectors/\<close>), \<open>LegacyStrategies\<close>, \<open>LegacyBottom\<close> and \<open>LegacyComposite\<close>
  (\<open>strategies/\<close>) are the path from a tick to an entry: selectors and strategies in pairs, of which the first that
  answers wins, and what the strategies remember from tick to tick.

  \<^bold>\<open>Bounds.\<close> Loops over lists are structural. Pagination is bounded by the page limit of the call. The receive loop
  of the WebSocket capture ends by the clock alone and carries fuel; \<open>RestWs\<close> shows that one unit for each
  second and for each frame that arrives before the deadline is enough when a receive that times out waits for its timeout,
  and \<open>capture_returns\<close> states that the capture then returns.

  \<^bold>\<open>Assumed of the outside.\<close> Digests and \<open>uuid5\<close> are parameters; \<open>uuid4\<close> and clock readings are arguments
  or streams. Where a property needs a generated identity to be unused, that is a hypothesis. A pydantic record stands
  for its JSON text. Monotonic seconds are exact rationals.

  \<^bold>\<open>Not modelled.\<close> SQLite and the operating system locks below their documented behaviour; asyncio's
  scheduling (the adapters await one thing at a time); argparse, printing and logging; Qt below its callbacks and the
  two scripts that only print what an installed control answers; the browser board and the cloud worker, which are
  JavaScript and SQL; the rest of the archived engine (its event loop, broker, stores and analysis scripts); tests and
  documents.
\<close>

end
